(* ===== verification/GoStrings.thy ===== *)
theory GoStrings
  imports Prelude
begin

text \<open>
  The part of Go's \<open>strings\<close>, \<open>strconv\<close> and \<open>bufio\<close> the program uses, on strings as byte
  lists (a HOL \<open>char\<close> is one byte).  White space is the set of Unicode White_Space code points in
  their UTF-8 encoding, as \<open>unicode.IsSpace\<close> has it.  \<open>ToLower\<close> and \<open>ToUpper\<close> are exact on ASCII
  text and leave other bytes as they are.
\<close>

section \<open>Bytes\<close>

abbreviation byte :: "char \<Rightarrow> nat" where
  "byte c \<equiv> of_char c"

definition is_digit :: "char \<Rightarrow> bool" where
  "is_digit c = (48 \<le> byte c \<and> byte c \<le> 57)"

definition digit_val :: "char \<Rightarrow> nat" where
  "digit_val c = byte c - 48"

definition digit_char :: "nat \<Rightarrow> char" where
  "digit_char d = char_of (d + 48)"

lemma byte_less [simp]: "byte c < 256"
  by (metis of_char_mod_256 mod_less_divisor zero_less_numeral)

lemma byte_char_of [simp]: "n < 256 \<Longrightarrow> byte (char_of n) = n"
  by (simp add: of_char_of)

lemma digit_char_props [simp]:
  assumes "d < 10"
  shows "is_digit (digit_char d)" "digit_val (digit_char d) = d"
  using assms by (simp_all add: is_digit_def digit_char_def digit_val_def)

lemma digit_val_bound: "is_digit c \<Longrightarrow> digit_val c < 10"
  unfolding is_digit_def digit_val_def by linarith

lemma digit_char_digit_val: "is_digit c \<Longrightarrow> digit_char (digit_val c) = c"
  by (simp add: is_digit_def digit_char_def digit_val_def)

lemma digit_char_0: "digit_char 0 = CHR ''0''"
  by code_simp

definition hex_val :: "char \<Rightarrow> nat option" where
  "hex_val c =
    (if is_digit c then Some (byte c - 48)
     else if 97 \<le> byte c \<and> byte c \<le> 102 then Some (byte c - 97 + 10)
     else if 65 \<le> byte c \<and> byte c \<le> 70 then Some (byte c - 65 + 10)
     else None)"

definition hex_char :: "nat \<Rightarrow> char" where
  "hex_char d = (if d < 10 then char_of (48 + d) else char_of (87 + d))"

lemma hex_val_bound: "hex_val c = Some v \<Longrightarrow> v < 16"
  by (auto simp: hex_val_def is_digit_def split: if_splits)

lemma hex_val_hex_char [simp]: "d < 16 \<Longrightarrow> hex_val (hex_char d) = Some d"
  by (simp add: hex_val_def hex_char_def is_digit_def)

definition lower_char :: "char \<Rightarrow> char" where
  "lower_char c = (if 65 \<le> byte c \<and> byte c \<le> 90 then char_of (byte c + 32) else c)"

definition upper_char :: "char \<Rightarrow> char" where
  "upper_char c = (if 97 \<le> byte c \<and> byte c \<le> 122 then char_of (byte c - 32) else c)"

definition ToLower :: "string \<Rightarrow> string" where
  "ToLower s = map lower_char s"

definition ToUpper :: "string \<Rightarrow> string" where
  "ToUpper s = map upper_char s"

lemma lower_char_idem [simp]: "lower_char (lower_char c) = lower_char c"
  by (simp add: lower_char_def)

lemma ToLower_idem [simp]: "ToLower (ToLower s) = ToLower s"
  by (simp add: ToLower_def)

section \<open>Decimal numbers\<close>

fun itoa_nat :: "nat \<Rightarrow> string" where
  "itoa_nat n = (if n < 10 then [digit_char n] else itoa_nat (n div 10) @ [digit_char (n mod 10)])"

declare itoa_nat.simps [simp del]

definition itoa :: "int \<Rightarrow> string" where
  "itoa i = (if i < 0 then CHR ''-'' # itoa_nat (nat (- i)) else itoa_nat (nat i))"

text \<open>The value of a digit string, and the digits-only parser behind \<open>strconv.Atoi\<close>.\<close>

definition dec_val :: "string \<Rightarrow> nat" where
  "dec_val s = foldl (\<lambda>n c. n * 10 + digit_val c) 0 s"

text \<open>\<open>strconv.Atoi\<close>: an optional sign, then one or more decimal digits, in the range of a
  64-bit \<open>int\<close>.\<close>

definition Atoi :: "string \<Rightarrow> int option" where
  "Atoi s =
    (let neg = (s \<noteq> [] \<and> hd s = CHR ''-'');
         ds = (if s \<noteq> [] \<and> (hd s = CHR ''-'' \<or> hd s = CHR ''+'') then tl s else s) in
     if ds = [] \<or> \<not> list_all is_digit ds then None
     else let v = (if neg then - int (dec_val ds) else int (dec_val ds)) in
          if - (2 ^ 63) \<le> v \<and> v < 2 ^ 63 then Some v else None)"

lemma dec_val_snoc: "dec_val (s @ [c]) = dec_val s * 10 + digit_val c"
  by (simp add: dec_val_def)

lemma itoa_nat_digits: "list_all is_digit (itoa_nat n)"
  by (induction n rule: itoa_nat.induct)
     (subst itoa_nat.simps, simp)

lemma itoa_nat_nonempty [simp]: "itoa_nat n \<noteq> []"
  by (subst itoa_nat.simps) simp

lemma dec_val_itoa_nat [simp]: "dec_val (itoa_nat n) = n"
proof (induction n rule: itoa_nat.induct)
  case (1 n)
  show ?case
  proof (cases "n < 10")
    case True
    then show ?thesis by (subst itoa_nat.simps) (simp add: dec_val_def)
  next
    case False
    have "dec_val (itoa_nat n) = dec_val (itoa_nat (n div 10) @ [digit_char (n mod 10)])"
      using False by (subst itoa_nat.simps) simp
    also have "\<dots> = n"
      using 1 False by (simp add: dec_val_snoc)
    finally show ?thesis .
  qed
qed

lemma itoa_nat_hd_digit: "is_digit (hd (itoa_nat n))"
  using itoa_nat_digits [of n] by (cases "itoa_nat n") simp_all

lemma is_digit_not_sign: "is_digit c \<Longrightarrow> c \<noteq> CHR ''-'' \<and> c \<noteq> CHR ''+''"
  by (auto simp: is_digit_def)

theorem Atoi_itoa_nat: "n < 2 ^ 63 \<Longrightarrow> Atoi (itoa_nat n) = Some (int n)"
proof -
  assume n: "n < 2 ^ 63"
  have "int n < 2 ^ 63"
    using n by (metis of_nat_less_iff of_nat_numeral of_nat_power)
  with itoa_nat_hd_digit [of n] itoa_nat_digits [of n] show ?thesis
    by (simp add: Atoi_def Let_def is_digit_not_sign)
qed

text \<open>A decimal without leading zero is determined by its value.\<close>

lemma itoa_nat_dec_val:
  assumes "list_all is_digit s" "s \<noteq> []" "hd s \<noteq> CHR ''0'' \<or> length s = 1"
  shows "itoa_nat (dec_val s) = s"
  using assms
proof (induction s rule: rev_induct)
  case (snoc c s)
  show ?case
  proof (cases "s = []")
    case True
    with snoc.prems show ?thesis
      by (subst itoa_nat.simps) (simp add: dec_val_def digit_val_bound digit_char_digit_val)
  next
    case False
    have c: "is_digit c" and s: "list_all is_digit s" using snoc.prems by simp_all
    have hd: "hd s \<noteq> CHR ''0''" using snoc.prems False by simp
    have IH: "itoa_nat (dec_val s) = s" using snoc.IH s False hd by simp
    have pos: "dec_val s \<noteq> 0"
    proof
      assume "dec_val s = 0"
      with IH have "s = [digit_char 0]" by (subst (asm) itoa_nat.simps) simp
      with hd show False by (simp add: digit_char_0)
    qed
    have d: "digit_val c < 10" using c by (rule digit_val_bound)
    have "itoa_nat (dec_val s * 10 + digit_val c) = itoa_nat (dec_val s) @ [digit_char (digit_val c)]"
      using pos d by (subst itoa_nat.simps) simp
    with IH c show ?thesis by (simp add: dec_val_snoc digit_char_digit_val)
  qed
qed simp

section \<open>White space\<close>

text \<open>UTF-8 encodings of the White_Space code points.\<close>

definition chars :: "nat list \<Rightarrow> string" where
  "chars = map char_of"

definition space_seqs :: "string list" where
  "space_seqs =
    [chars [9], chars [10], chars [11], chars [12], chars [13], chars [32],
     chars [0xC2, 0x85], chars [0xC2, 0xA0], chars [0xE1, 0x9A, 0x80]]
    @ map (\<lambda>b. chars [0xE2, 0x80, b]) ([0x80 ..< 0x8B] @ [0xA8, 0xA9, 0xAF])
    @ [chars [0xE2, 0x81, 0x9F], chars [0xE3, 0x80, 0x80]]"

definition is_space :: "char \<Rightarrow> bool" where
  "is_space c = (byte c \<in> {9, 10, 11, 12, 13, 32})"

text \<open>The length of the white-space sequence a string starts with, 0 when there is none.\<close>

definition space_at :: "string list \<Rightarrow> string \<Rightarrow> nat" where
  "space_at seqs s = (case find (\<lambda>w. prefix w s) seqs of None \<Rightarrow> 0 | Some w \<Rightarrow> length w)"

function trim_left_seqs :: "string list \<Rightarrow> string \<Rightarrow> string" where
  "trim_left_seqs seqs s =
    (let n = space_at seqs s in
     if n = 0 \<or> s = [] then s else trim_left_seqs seqs (drop n s))"
  by pat_completeness auto
termination by (relation "measure (\<lambda>(q, s). length s)") auto

declare trim_left_seqs.simps [simp del]

definition TrimSpace :: "string \<Rightarrow> string" where
  "TrimSpace s = rev (trim_left_seqs (map rev space_seqs) (rev (trim_left_seqs space_seqs s)))"

text \<open>\<open>strings.Fields\<close>: the maximal runs of bytes between white-space sequences.\<close>

function fields_from :: "string \<Rightarrow> string \<Rightarrow> string list" where
  "fields_from cur s =
    (if s = [] then (if cur = [] then [] else [rev cur])
     else let n = space_at space_seqs s in
       if n = 0 then fields_from (hd s # cur) (tl s)
       else (if cur = [] then [] else [rev cur]) @ fields_from [] (drop n s))"
  by pat_completeness auto
termination by (relation "measure (\<lambda>(c, s). length s)") (auto simp: neq_Nil_conv)

declare fields_from.simps [simp del]

definition Fields :: "string \<Rightarrow> string list" where
  "Fields s = fields_from [] s"

section \<open>Quoting\<close>

text \<open>The verb \<open>%q\<close>: \<open>strconv.Quote\<close> on ASCII text; bytes from 128 on are left as they are.\<close>

definition quote_char :: "char \<Rightarrow> string" where
  "quote_char c =
    (if c = CHR 0x22 then [CHR 0x5C, CHR 0x22] else if c = CHR 0x5C then [CHR 0x5C, CHR 0x5C]
     else if byte c = 7 then [CHR 0x5C, CHR ''a''] else if byte c = 8 then [CHR 0x5C, CHR ''b'']
     else if byte c = 12 then [CHR 0x5C, CHR ''f''] else if byte c = 10 then [CHR 0x5C, CHR ''n'']
     else if byte c = 13 then [CHR 0x5C, CHR ''r''] else if byte c = 9 then [CHR 0x5C, CHR ''t'']
     else if byte c = 11 then [CHR 0x5C, CHR ''v'']
     else if byte c < 32 \<or> byte c = 127 then [CHR 0x5C, CHR ''x'', hex_char (byte c div 16), hex_char (byte c mod 16)]
     else [c])"

definition Quote :: "string \<Rightarrow> string" where
  "Quote s = CHR 0x22 # concat (map quote_char s) @ [CHR 0x22]"

text \<open>The dash of the program's messages, U+2014 in UTF-8.\<close>

definition em_dash :: string where "em_dash = chars [0xE2, 0x80, 0x94]"

section \<open>Searching, splitting and joining\<close>

definition HasPrefix :: "string \<Rightarrow> string \<Rightarrow> bool" where
  "HasPrefix s p = prefix p s"

definition HasSuffix :: "string \<Rightarrow> string \<Rightarrow> bool" where
  "HasSuffix s p = suffix p s"

definition TrimPrefix :: "string \<Rightarrow> string \<Rightarrow> string" where
  "TrimPrefix s p = (if prefix p s then drop (length p) s else s)"

definition TrimSuffix :: "string \<Rightarrow> string \<Rightarrow> string" where
  "TrimSuffix s p = (if suffix p s then take (length s - length p) s else s)"

fun Contains_str :: "string \<Rightarrow> string \<Rightarrow> bool" where
  "Contains_str [] p = (p = [])"
| "Contains_str (c # s) p = (prefix p (c # s) \<or> Contains_str s p)"

text \<open>\<open>strings.Trim(s, cutset)\<close>.\<close>

definition Trim :: "string \<Rightarrow> string \<Rightarrow> string" where
  "Trim s cutset = rev (dropWhile (\<lambda>c. c \<in> set cutset) (rev (dropWhile (\<lambda>c. c \<in> set cutset) s)))"

definition TrimRight :: "string \<Rightarrow> string \<Rightarrow> string" where
  "TrimRight s cutset = rev (dropWhile (\<lambda>c. c \<in> set cutset) (rev s))"

text \<open>\<open>strings.Split(s, string(c))\<close> for a one-byte separator.\<close>

fun split_on :: "char \<Rightarrow> string \<Rightarrow> string list" where
  "split_on c [] = [[]]"
| "split_on c (x # xs) =
    (if x = c then [] # split_on c xs
     else (case split_on c xs of [] \<Rightarrow> [[x]] | w # ws \<Rightarrow> (x # w) # ws))"

fun Join :: "string list \<Rightarrow> string \<Rightarrow> string" where
  "Join [] sep = []"
| "Join [w] sep = w"
| "Join (w # v # ws) sep = w @ sep @ Join (v # ws) sep"

text \<open>\<open>strings.IndexByte\<close> / \<open>strings.LastIndexByte\<close>: the parts around the first or last separator.\<close>

fun cut_first :: "char \<Rightarrow> string \<Rightarrow> (string \<times> string) option" where
  "cut_first c [] = None"
| "cut_first c (x # xs) =
    (if x = c then Some ([], xs)
     else (case cut_first c xs of None \<Rightarrow> None | Some (a, b) \<Rightarrow> Some (x # a, b)))"

definition cut_last :: "char \<Rightarrow> string \<Rightarrow> (string \<times> string) option" where
  "cut_last c s = (case cut_first c (rev s) of None \<Rightarrow> None | Some (a, b) \<Rightarrow> Some (rev b, rev a))"

lemma split_on_nonempty [simp]: "split_on c s \<noteq> []"
  by (induction s) (auto split: list.splits)

lemma split_on_no_sep: "c \<notin> set s \<Longrightarrow> split_on c s = [s]"
  by (induction s) auto

lemma split_on_append_sep: "c \<notin> set a \<Longrightarrow> split_on c (a @ c # b) = a # split_on c b"
  by (induction a) auto

lemma Join_split_on: "Join (split_on c s) [c] = s"
proof (induction s)
  case (Cons x s)
  obtain w ws where "split_on c s = w # ws" by (cases "split_on c s") auto
  with Cons show ?case by (cases ws) auto
qed simp

lemma split_on_Join:
  assumes "ws \<noteq> []" "\<forall>w\<in>set ws. c \<notin> set w"
  shows "split_on c (Join ws [c]) = ws"
  using assms
  by (induction ws "[c]" rule: Join.induct) (auto simp: split_on_no_sep split_on_append_sep)

lemma cut_first_Some: "cut_first c s = Some (a, b) \<longleftrightarrow> s = a @ c # b \<and> c \<notin> set a"
proof (induction s arbitrary: a)
  case (Cons x s)
  show ?case
  proof (cases "x = c")
    case True
    then show ?thesis by (cases a) auto
  next
    case False
    then show ?thesis using Cons.IH
      by (cases a; cases "cut_first c s") auto
  qed
qed simp

lemma cut_first_None: "cut_first c s = None \<longleftrightarrow> c \<notin> set s"
  by (induction s) (auto split: option.splits)

lemma cut_last_Some: "cut_last c s = Some (a, b) \<longleftrightarrow> s = a @ c # b \<and> c \<notin> set b"
proof -
  have "cut_last c s = Some (a, b) \<longleftrightarrow> cut_first c (rev s) = Some (rev b, rev a)"
    by (auto simp: cut_last_def split: option.splits)
  also have "\<dots> \<longleftrightarrow> rev s = rev (a @ c # b) \<and> c \<notin> set b"
    by (simp add: cut_first_Some)
  finally show ?thesis by (simp only: rev_is_rev_conv)
qed

section \<open>Trimming\<close>

definition visible :: "char \<Rightarrow> bool" where
  "visible c = (33 \<le> byte c \<and> byte c \<le> 126)"

lemma space_seqs_not_visible:
  "list_all (\<lambda>w. w \<noteq> [] \<and> \<not> visible (hd w)) space_seqs"
  "list_all (\<lambda>w. w \<noteq> [] \<and> \<not> visible (hd w)) (map rev space_seqs)"
  by code_simp+

lemma trim_left_seqs_visible:
  assumes "list_all (\<lambda>w. w \<noteq> [] \<and> \<not> visible (hd w)) seqs" "s = [] \<or> visible (hd s)"
  shows "trim_left_seqs seqs s = s"
proof -
  have "\<not> prefix w s" if "w \<in> set seqs" for w
  proof
    assume "prefix w s"
    moreover have "w \<noteq> []" "\<not> visible (hd w)" using that assms(1) by (auto simp: list_all_iff)
    ultimately show False using assms(2) by (cases w; cases s) auto
  qed
  then have "find (\<lambda>w. prefix w s) seqs = None" by (auto simp: find_None_iff)
  then show ?thesis by (subst trim_left_seqs.simps) (simp add: space_at_def)
qed

lemma TrimSpace_visible:
  assumes "s = [] \<or> visible (hd s) \<and> visible (last s)"
  shows "TrimSpace s = s"
proof -
  have l: "trim_left_seqs space_seqs s = s"
    using assms by (intro trim_left_seqs_visible) (auto simp: space_seqs_not_visible)
  have "trim_left_seqs (map rev space_seqs) (rev s) = rev s"
    using assms by (intro trim_left_seqs_visible) (auto simp: space_seqs_not_visible hd_rev)
  then show ?thesis by (simp add: TrimSpace_def l)
qed

lemma TrimSpace_Nil [simp]: "TrimSpace [] = []"
  by (simp add: TrimSpace_visible)

text \<open>\<open>TrimSpace\<close> is idempotent.\<close>

lemma trim_left_seqs_stop: "space_at seqs s = 0 \<or> s = [] \<Longrightarrow> trim_left_seqs seqs s = s"
  by (subst trim_left_seqs.simps) (auto simp: Let_def)

lemma trim_left_seqs_step:
  "space_at seqs s \<noteq> 0 \<Longrightarrow> s \<noteq> [] \<Longrightarrow> trim_left_seqs seqs s = trim_left_seqs seqs (drop (space_at seqs s) s)"
  by (subst trim_left_seqs.simps) (auto simp: Let_def)

lemma trim_left_seqs_induct [case_names stop step]:
  assumes "\<And>s. space_at seqs s = 0 \<or> s = [] \<Longrightarrow> P s"
    and "\<And>s. space_at seqs s \<noteq> 0 \<Longrightarrow> s \<noteq> [] \<Longrightarrow> P (drop (space_at seqs s) s) \<Longrightarrow> P s"
  shows "P s"
proof (induction s rule: length_induct)
  case (1 s)
  show ?case
  proof (cases "space_at seqs s = 0 \<or> s = []")
    case False
    then have "length (drop (space_at seqs s) s) < length s" by simp
    with 1 False assms(2) show ?thesis by blast
  qed (rule assms(1))
qed

lemma trim_left_seqs_fixed:
  "space_at seqs (trim_left_seqs seqs s) = 0 \<or> trim_left_seqs seqs s = []"
  by (induction s rule: trim_left_seqs_induct [of seqs]) (auto simp: trim_left_seqs_stop trim_left_seqs_step)

lemma trim_left_seqs_suffix: "suffix (trim_left_seqs seqs s) s"
proof (induction s rule: trim_left_seqs_induct [of seqs])
  case (step s)
  then show ?case by (metis trim_left_seqs_step suffix_drop suffix_order.trans)
qed (simp add: trim_left_seqs_stop)

lemma trim_left_seqs_id_prefix:
  assumes "space_at seqs s = 0 \<or> s = []" "prefix t s" "[] \<notin> set seqs"
  shows "trim_left_seqs seqs t = t"
proof -
  have "\<not> prefix w t" if "w \<in> set seqs" "t \<noteq> []" for w
  proof
    assume "prefix w t"
    with assms(2) have "prefix w s" by (meson prefix_order.trans)
    with that(1) have "find (\<lambda>w. prefix w s) seqs \<noteq> None" by (auto simp: find_None_iff)
    then obtain v where v: "find (\<lambda>w. prefix w s) seqs = Some v" by blast
    then have "v \<in> set seqs" by (auto simp: find_Some_iff)
    with v assms(1,3) have "s = []" by (auto simp: space_at_def)
    with assms(2) that(2) show False by simp
  qed
  then have "t \<noteq> [] \<Longrightarrow> find (\<lambda>w. prefix w t) seqs = None" by (auto simp: find_None_iff)
  then show ?thesis by (cases "t = []") (simp_all add: trim_left_seqs_stop space_at_def)
qed

theorem TrimSpace_idem [simp]: "TrimSpace (TrimSpace s) = TrimSpace s"
proof -
  define l where "l = trim_left_seqs space_seqs s"
  define r where "r = trim_left_seqs (map rev space_seqs) (rev l)"
  have ts: "TrimSpace s = rev r" by (simp add: TrimSpace_def l_def r_def)
  have ne: "[] \<notin> set space_seqs" "[] \<notin> set (map rev space_seqs)"
    using space_seqs_not_visible by (auto simp: list_all_iff)
  have "prefix (rev r) l"
    using trim_left_seqs_suffix [of "map rev space_seqs" "rev l"] by (simp add: r_def suffix_to_prefix)
  then have "trim_left_seqs space_seqs (rev r) = rev r"
    using ne(1) trim_left_seqs_fixed [of space_seqs s]
    by (intro trim_left_seqs_id_prefix [of _ l]) (auto simp: l_def)
  moreover have "trim_left_seqs (map rev space_seqs) r = r"
    using ne(2) trim_left_seqs_fixed [of "map rev space_seqs" "rev l"]
    by (intro trim_left_seqs_id_prefix [of _ r]) (auto simp: r_def)
  ultimately show ?thesis by (simp add: ts) (simp add: TrimSpace_def)
qed

end
