(* ===== verification/Netip.thy ===== *)
theory Netip
  imports GoStrings
begin

text \<open>
  The part of Go's \<open>net/netip\<close> and \<open>net\<close> packages the program calls: address and prefix values,
  their parsers and printers, masking, containment and overlap.  An IPv4 address is a 32-bit word,
  an IPv6 address a 128-bit word with its zone; the parsers accept exactly what
  \<open>netip.ParseAddr\<close>, \<open>netip.ParsePrefix\<close> and \<open>net.ParseCIDR\<close> accept.
\<close>

unbundle bit_operations_syntax

section \<open>Addresses\<close>

datatype addr = A4 "32 word" | A6 "128 word" string

fun Is4 :: "addr \<Rightarrow> bool" where
  "Is4 (A4 _) = True"
| "Is4 (A6 _ _) = False"

fun BitLen :: "addr \<Rightarrow> nat" where
  "BitLen (A4 _) = 32"
| "BitLen (A6 _ _) = 128"

fun Zone :: "addr \<Rightarrow> string" where
  "Zone (A4 _) = []"
| "Zone (A6 _ z) = z"

lemma Is4_iff: "Is4 a \<longleftrightarrow> (\<exists>w. a = A4 w)"
  by (cases a) simp_all

text \<open>\<open>parseIPv4Fields\<close>: previous byte, value and digit count of the current field, finished fields.\<close>

fun v4_go :: "char option \<Rightarrow> nat \<Rightarrow> nat \<Rightarrow> nat list \<Rightarrow> string \<Rightarrow> nat list option" where
  "v4_go prev val dig fs [] = (if length fs < 3 then None else Some (fs @ [val]))"
| "v4_go prev val dig fs (c # cs) =
    (if is_digit c then
       if dig = 1 \<and> val = 0 then None
       else let v = val * 10 + digit_val c in
         if v > 255 then None else v4_go (Some c) v (dig + 1) fs cs
     else if c = CHR ''.'' then
       if prev = None \<or> cs = [] \<or> prev = Some CHR ''.'' then None
       else if length fs = 3 then None
       else v4_go (Some c) 0 0 (fs @ [val]) cs
     else None)"

definition parseIPv4Fields :: "string \<Rightarrow> nat list option" where
  "parseIPv4Fields s = v4_go None 0 0 [] s"

definition bytes_value :: "nat list \<Rightarrow> nat" where
  "bytes_value bs = foldl (\<lambda>n b. n * 256 + b) 0 bs"

definition is_hex :: "char \<Rightarrow> bool" where
  "is_hex c = (hex_val c \<noteq> None)"

definition hex_value :: "string \<Rightarrow> nat" where
  "hex_value s = foldl (\<lambda>n c. n * 16 + the (hex_val c)) 0 s"

text \<open>The main loop of \<open>parseIPv6\<close>: the bytes so far, the position of the ellipsis, the rest.\<close>

function v6_go :: "nat list \<Rightarrow> nat option \<Rightarrow> string \<Rightarrow> (nat list \<times> nat option) option" where
  "v6_go bs ell s =
    (if 16 \<le> length bs then (if s = [] then Some (bs, ell) else None)
     else
      let g = takeWhile is_hex s; r = dropWhile is_hex s in
      if 4 < length g \<or> g = [] then None
      else if r \<noteq> [] \<and> hd r = CHR ''.'' then
        if ell = None \<and> length bs \<noteq> 12 then None
        else if 16 < length bs + 4 then None
        else (case parseIPv4Fields s of None \<Rightarrow> None | Some os \<Rightarrow> Some (bs @ os, ell))
      else
       let acc = hex_value g; bs' = bs @ [acc div 256, acc mod 256] in
       if r = [] then Some (bs', ell)
       else if hd r \<noteq> CHR '':'' \<or> tl r = [] then None
       else if hd (tl r) = CHR '':'' then
         if ell \<noteq> None then None
         else if tl (tl r) = [] then Some (bs', Some (length bs'))
         else v6_go bs' (Some (length bs')) (tl (tl r))
       else v6_go bs' ell (tl r))"
  by pat_completeness auto
termination
  by (relation "measure (\<lambda>(bs, ell, s). 16 - length bs)") auto

declare v6_go.simps [simp del]

definition v6_finish :: "nat list \<Rightarrow> nat option \<Rightarrow> nat list option" where
  "v6_finish bs ell =
    (if length bs < 16 then
       (case ell of None \<Rightarrow> None
        | Some e \<Rightarrow> Some (take e bs @ replicate (16 - length bs) 0 @ drop e bs))
     else if ell \<noteq> None then None else Some bs)"

definition parseIPv6 :: "string \<Rightarrow> addr option" where
  "parseIPv6 inp =
    (let (s, zone, bad) =
       (case cut_first CHR ''%'' inp of None \<Rightarrow> (inp, [], False) | Some (a, z) \<Rightarrow> (a, z, z = []));
         s' = (if prefix ''::'' s then drop 2 s else s);
         ell = (if prefix ''::'' s then Some 0 else None) in
     if bad then None
     else if ell \<noteq> None \<and> s' = [] then Some (A6 0 zone)
     else (case v6_go [] ell s' of None \<Rightarrow> None
           | Some (bs, e) \<Rightarrow> (case v6_finish bs e of None \<Rightarrow> None
              | Some full \<Rightarrow> Some (A6 (of_nat (bytes_value full)) zone))))"

text \<open>\<open>netip.ParseAddr\<close> dispatches on the first of the bytes \<open>.\<close>, \<open>:\<close> and \<open>%\<close>.\<close>

definition ParseAddr :: "string \<Rightarrow> addr option" where
  "ParseAddr s =
    (case find (\<lambda>c. c = CHR ''.'' \<or> c = CHR '':'' \<or> c = CHR ''%'') s of
       None \<Rightarrow> None
     | Some c \<Rightarrow>
        if c = CHR ''.'' then
          (case parseIPv4Fields s of None \<Rightarrow> None | Some os \<Rightarrow> Some (A4 (of_nat (bytes_value os))))
        else if c = CHR '':'' then parseIPv6 s
        else None)"

text \<open>Printing.\<close>

definition v4_octets :: "32 word \<Rightarrow> nat list" where
  "v4_octets w = [unat w div 16777216, unat w div 65536 mod 256, unat w div 256 mod 256, unat w mod 256]"

definition v4_string :: "32 word \<Rightarrow> string" where
  "v4_string w = Join (map itoa_nat (v4_octets w)) ''.''"

definition v6_groups :: "128 word \<Rightarrow> nat list" where
  "v6_groups w = map (\<lambda>i. unat w div 2 ^ (16 * (7 - i)) mod 65536) [0..<8]"

fun hex_nat :: "nat \<Rightarrow> string" where
  "hex_nat n = (if n < 16 then [hex_char n] else hex_nat (n div 16) @ [hex_char (n mod 16)])"

declare hex_nat.simps [simp del]

text \<open>The first longest run of at least two zero groups, as start and end.\<close>

definition zero_run :: "nat list \<Rightarrow> nat \<times> nat" where
  "zero_run gs = foldl (\<lambda>(zs, ze) i.
     let l = length (takeWhile (\<lambda>g. g = 0) (drop i gs)) in
     if 2 \<le> l \<and> ze - zs < l then (i, i + l) else (zs, ze)) (255, 255) [0..<8]"

function v6_emit :: "nat list \<Rightarrow> nat \<Rightarrow> nat \<Rightarrow> nat \<Rightarrow> string" where
  "v6_emit gs zs ze i =
    (if 8 \<le> i then []
     else if i = zs then
       (if 8 \<le> ze \<or> ze < i then ''::'' else ''::'' @ hex_nat (gs ! ze) @ v6_emit gs zs ze (ze + 1))
     else (if 0 < i then '':'' else []) @ hex_nat (gs ! i) @ v6_emit gs zs ze (i + 1))"
  by pat_completeness auto
termination
  by (relation "measure (\<lambda>(gs, zs, ze, i). 8 - i)") auto

declare v6_emit.simps [simp del]

definition v6_string :: "128 word \<Rightarrow> string" where
  "v6_string w = (let gs = v6_groups w; (zs, ze) = zero_run gs in v6_emit gs zs ze 0)"

fun Addr_String :: "addr \<Rightarrow> string" where
  "Addr_String (A4 w) = v4_string w"
| "Addr_String (A6 w z) =
    (if drop_bit 32 w = 0xFFFF then ''::ffff:'' @ v4_string (of_nat (unat w mod 2 ^ 32)) else v6_string w)
    @ (if z = [] then [] else CHR ''%'' # z)"

section \<open>Prefixes\<close>

datatype netprefix = PrefixFrom (Prefix_Addr: addr) (Bits: nat)

definition ParsePrefix :: "string \<Rightarrow> netprefix option" where
  "ParsePrefix s =
    (case cut_last CHR ''/'' s of None \<Rightarrow> None
     | Some (a, bs) \<Rightarrow>
       (case ParseAddr a of None \<Rightarrow> None
        | Some ip \<Rightarrow>
           if Zone ip \<noteq> [] then None
           else if 1 < length bs \<and> (byte (hd bs) < 49 \<or> 57 < byte (hd bs)) then None
           else (case Atoi bs of None \<Rightarrow> None
             | Some n \<Rightarrow> if n < 0 \<or> int (BitLen ip) < n then None
                         else Some (PrefixFrom ip (nat n)))))"

fun Prefix_Contains :: "netprefix \<Rightarrow> addr \<Rightarrow> bool" where
  "Prefix_Contains (PrefixFrom (A4 p) b) (A4 a) = (drop_bit (32 - b) (a XOR p) = 0)"
| "Prefix_Contains (PrefixFrom (A6 p z) b) (A6 a za) = (za = [] \<and> drop_bit (128 - b) (a XOR p) = 0)"
| "Prefix_Contains _ _ = False"

fun Masked :: "netprefix \<Rightarrow> netprefix" where
  "Masked (PrefixFrom (A4 p) b) = PrefixFrom (A4 (push_bit (32 - b) (drop_bit (32 - b) p))) b"
| "Masked (PrefixFrom (A6 p z) b) = PrefixFrom (A6 (push_bit (128 - b) (drop_bit (128 - b) p)) []) b"

fun Overlaps :: "netprefix \<Rightarrow> netprefix \<Rightarrow> bool" where
  "Overlaps (PrefixFrom (A4 p) b) (PrefixFrom (A4 q) c) =
    (drop_bit (32 - min b c) p = drop_bit (32 - min b c) q)"
| "Overlaps (PrefixFrom (A6 p y) b) (PrefixFrom (A6 q z) c) =
    (drop_bit (128 - min b c) p = drop_bit (128 - min b c) q)"
| "Overlaps _ _ = False"

definition Prefix_String :: "netprefix \<Rightarrow> string" where
  "Prefix_String p = Addr_String (Prefix_Addr p) @ ''/'' @ itoa_nat (Bits p)"

text \<open>\<open>net.ParseCIDR\<close> with the mask as its length and bit width (\<open>IPMask.Size\<close>).\<close>

definition ParseCIDR_size :: "string \<Rightarrow> (nat \<times> nat) option" where
  "ParseCIDR_size s =
    (case cut_first CHR ''/'' s of None \<Rightarrow> None
     | Some (a, m) \<Rightarrow>
       (case ParseAddr a of None \<Rightarrow> None
        | Some ip \<Rightarrow>
           if Zone ip \<noteq> [] then None
           else if m = [] \<or> \<not> list_all is_digit m \<or> BitLen ip < dec_val m then None
           else Some (dec_val m, BitLen ip)))"


section \<open>Dotted-decimal round trip\<close>

lemma not_digit_dot [simp]: "\<not> is_digit CHR ''.''" "\<not> is_digit CHR ''/''" "\<not> is_digit CHR '':''"
    "\<not> is_digit CHR ''%''"
  by (simp_all add: is_digit_def)

lemma v4_go_octet:
  assumes "d < 256"
  shows "\<exists>c. is_digit c \<and> v4_go prev 0 0 fs (itoa_nat d @ rest) = v4_go (Some c) d (length (itoa_nat d)) fs rest"
proof -
  consider "d < 10" | "10 \<le> d" "d < 100" | "100 \<le> d" "d < 256" using assms by linarith
  then show ?thesis
  proof cases
    case 1
    then have "itoa_nat d = [digit_char d]" by (subst itoa_nat.simps) simp
    with 1 show ?thesis by (auto simp: Let_def intro!: exI [of _ "digit_char d"])
  next
    case 2
    then have "itoa_nat d = [digit_char (d div 10), digit_char (d mod 10)]"
      by (simp add: itoa_nat.simps [of d] itoa_nat.simps [of "d div 10"])
    moreover have "d div 10 \<noteq> 0" "d div 10 < 10" using 2 by auto
    ultimately show ?thesis using 2
      by (auto simp: Let_def intro!: exI [of _ "digit_char (d mod 10)"])
  next
    case 3
    have big: "\<not> d div 10 < 10" "\<not> d < 10" using 3 by auto
    have "itoa_nat d = [digit_char (d div 10 div 10), digit_char (d div 10 mod 10), digit_char (d mod 10)]"
      using 3 big by (simp add: itoa_nat.simps [of d] itoa_nat.simps [of "d div 10"]
        itoa_nat.simps [of "d div 10 div 10"] del: div_mult2_eq)
    moreover have "d div 10 div 10 \<noteq> 0" "d div 10 div 10 < 10" using 3 by auto
    moreover have "d div 10 div 10 * 10 + d div 10 mod 10 = d div 10" by simp
    moreover have "d div 10 \<le> 255" "d div 10 * 10 + d mod 10 = d" using 3 by auto
    ultimately show ?thesis using 3
      by (auto simp: Let_def simp del: div_mult2_eq intro!: exI [of _ "digit_char (d mod 10)"])
  qed
qed

lemma parseIPv4Fields_Join:
  assumes "a < 256" "b < 256" "c < 256" "d < 256"
  shows "parseIPv4Fields (Join (map itoa_nat [a, b, c, d]) ''.'') = Some [a, b, c, d]"
proof -
  have ne: "digit \<noteq> CHR ''.''" if "is_digit digit" for digit using that by auto
  obtain w where w: "is_digit w"
    "v4_go None 0 0 [] (itoa_nat a @ ''.'' @ itoa_nat b @ ''.'' @ itoa_nat c @ ''.'' @ itoa_nat d) =
     v4_go (Some w) a (length (itoa_nat a)) [] (''.'' @ itoa_nat b @ ''.'' @ itoa_nat c @ ''.'' @ itoa_nat d)"
    using v4_go_octet [OF assms(1)] by blast
  obtain x where x: "is_digit x"
    "v4_go (Some CHR ''.'') 0 0 [a] (itoa_nat b @ ''.'' @ itoa_nat c @ ''.'' @ itoa_nat d) =
     v4_go (Some x) b (length (itoa_nat b)) [a] (''.'' @ itoa_nat c @ ''.'' @ itoa_nat d)"
    using v4_go_octet [OF assms(2)] by blast
  obtain y where y: "is_digit y"
    "v4_go (Some CHR ''.'') 0 0 [a, b] (itoa_nat c @ ''.'' @ itoa_nat d) =
     v4_go (Some y) c (length (itoa_nat c)) [a, b] (''.'' @ itoa_nat d)"
    using v4_go_octet [OF assms(3)] by blast
  obtain z where z: "is_digit z"
    "v4_go (Some CHR ''.'') 0 0 [a, b, c] (itoa_nat d @ []) =
     v4_go (Some z) d (length (itoa_nat d)) [a, b, c] []"
    using v4_go_octet [OF assms(4)] by blast
  show ?thesis
    using w x y z ne by (auto simp: parseIPv4Fields_def)
qed

lemma bytes_value_octets:
  "bytes_value (v4_octets w) = unat w"
proof -
  have "((n div 16777216 * 256 + n div 65536 mod 256) * 256 + n div 256 mod 256) * 256 + n mod 256 = n" for n :: nat
  proof -
    have "n div 16777216 = n div 256 div 256 div 256" "n div 65536 = n div 256 div 256"
      by (simp_all add: div_mult2_eq [symmetric])
    then show ?thesis by presburger
  qed
  then show ?thesis by (simp add: bytes_value_def v4_octets_def)
qed

lemma v4_octets_bound: "x \<in> set (v4_octets w) \<Longrightarrow> x < 256"
proof -
  have "unat w < 2 ^ 32" using unsigned_less [of w, where 'a = nat] by simp
  then have "unat w div 16777216 < 256" by (simp add: less_mult_imp_div_less)
  then show "x \<in> set (v4_octets w) \<Longrightarrow> x < 256" by (auto simp: v4_octets_def)
qed

lemma parseIPv4Fields_v4_string: "parseIPv4Fields (v4_string w) = Some (v4_octets w)"
proof -
  have "\<forall>x\<in>set (v4_octets w). x < 256" by (blast intro: v4_octets_bound)
  then show ?thesis
    unfolding v4_string_def by (simp only: v4_octets_def list.set ball_simps parseIPv4Fields_Join)
qed

lemma find_sep_v4:
  "find (\<lambda>c. c = CHR ''.'' \<or> c = CHR '':'' \<or> c = CHR ''%'') (itoa_nat n @ CHR ''.'' # r) = Some CHR ''.''"
proof -
  have "find (\<lambda>c. c = CHR ''.'' \<or> c = CHR '':'' \<or> c = CHR ''%'') (s @ CHR ''.'' # r) = Some CHR ''.''"
    if "list_all is_digit s" for s
    using that by (induction s) auto
  then show ?thesis using itoa_nat_digits by blast
qed

theorem ParseAddr_v4_string [simp]: "ParseAddr (v4_string w) = Some (A4 w)"
proof -
  have "find (\<lambda>c. c = CHR ''.'' \<or> c = CHR '':'' \<or> c = CHR ''%'') (v4_string w) = Some CHR ''.''"
    by (simp add: v4_string_def v4_octets_def find_sep_v4)
  then show ?thesis
    by (simp add: ParseAddr_def parseIPv4Fields_v4_string bytes_value_octets)
qed

text \<open>The IPv4 parser accepts only the canonical spelling: what it accepts prints back unchanged.\<close>

lemma Join_Cons: "ws \<noteq> [] \<Longrightarrow> Join (w # ws) sep = w @ sep @ Join ws sep"
  by (cases ws) simp_all

lemma v4_go_canon:
  assumes "v4_go prev (dec_val cur) (length cur) fs cs = Some os"
    and "list_all is_digit cur" "hd cur \<noteq> CHR ''0'' \<or> length cur \<le> 1" "dec_val cur \<le> 255"
    and "cur = [] \<Longrightarrow> prev = None \<or> prev = Some CHR ''.''"
    and "cur = [] \<Longrightarrow> fs \<noteq> [] \<Longrightarrow> cs \<noteq> []" "length fs \<le> 3"
  shows "\<exists>vs. os = fs @ vs \<and> vs \<noteq> [] \<and> length os = 4 \<and> (\<forall>v\<in>set vs. v \<le> 255) \<and>
      cur @ cs = Join (map itoa_nat vs) ''.''"
  using assms
proof (induction cs arbitrary: prev cur fs)
  case Nil
  then have "length fs = 3" "os = fs @ [dec_val cur]" by (auto split: if_splits)
  moreover from this have "fs \<noteq> []" by auto
  with Nil.prems(6) have "cur \<noteq> []" by blast
  ultimately show ?case
    using Nil.prems by (auto simp: itoa_nat_dec_val le_Suc_eq intro!: exI [of _ "[dec_val cur]"])
next
  case (Cons c cs)
  show ?case
  proof (cases "is_digit c")
    case True
    from Cons.prems(1) True have nz: "\<not> (length cur = 1 \<and> dec_val cur = 0)"
      and le: "dec_val (cur @ [c]) \<le> 255"
      and go: "v4_go (Some c) (dec_val (cur @ [c])) (length (cur @ [c])) fs cs = Some os"
      by (auto simp: Let_def dec_val_snoc split: if_splits)
    have "hd (cur @ [c]) \<noteq> CHR ''0'' \<or> length (cur @ [c]) \<le> 1"
    proof (cases "cur = [] \<or> hd cur \<noteq> CHR ''0''")
      case True then show ?thesis by (cases cur) auto
    next
      case False
      with Cons.prems(3) have "cur = [CHR ''0'']"
        by (cases cur) (auto simp: le_Suc_eq)
      with nz show ?thesis by (simp add: dec_val_def digit_val_def)
    qed
    with Cons.IH [OF go] True Cons.prems(2,7) le show ?thesis by simp
  next
    case False
    with Cons.prems(1) have c: "c = CHR ''.''" and p: "prev \<noteq> None" "prev \<noteq> Some CHR ''.''"
      and cs: "cs \<noteq> []" and fs: "length fs \<noteq> 3"
      and go: "v4_go (Some c) (dec_val []) (length []) (fs @ [dec_val cur]) cs = Some os"
      by (auto simp: dec_val_def split: if_splits)
    have cur: "cur \<noteq> []" using Cons.prems(5) p by auto
    obtain vs where vs: "os = (fs @ [dec_val cur]) @ vs" "vs \<noteq> []" "length os = 4" "\<forall>v\<in>set vs. v \<le> 255"
      "[] @ cs = Join (map itoa_nat vs) ''.''"
      using Cons.IH [OF go] c cs fs Cons.prems(7) by (auto simp: dec_val_def)
    have "itoa_nat (dec_val cur) = cur"
      using Cons.prems(2,3) cur by (intro itoa_nat_dec_val) (auto simp: le_Suc_eq)
    with vs c Cons.prems(4) show ?thesis
      by (intro exI [of _ "dec_val cur # vs"]) (simp add: Join_Cons)
  qed
qed

lemma parseIPv4Fields_canon:
  assumes "parseIPv4Fields s = Some os"
  shows "length os = 4 \<and> (\<forall>v\<in>set os. v < 256) \<and> s = Join (map itoa_nat os) ''.''"
proof -
  have "v4_go None (dec_val []) (length []) [] s = Some os"
    using assms by (simp add: parseIPv4Fields_def dec_val_def)
  from v4_go_canon [OF this] show ?thesis by (fastforce simp: dec_val_def)
qed

lemma v4_octets_of_bytes:
  assumes "length os = 4" "\<forall>v\<in>set os. v < 256"
  shows "v4_octets (of_nat (bytes_value os)) = os"
proof -
  obtain a b c d where os: "os = [a, b, c, d]"
    using assms(1) by (auto simp: numeral_eq_Suc length_Suc_conv)
  have bd: "a < 256" "b < 256" "c < 256" "d < 256" using assms(2) os by simp_all
  define n where "n = bytes_value os"
  have n: "n = ((a * 256 + b) * 256 + c) * 256 + d" by (simp add: n_def os bytes_value_def)
  have "n < 2 ^ 32" using bd n by simp
  then have "unat (of_nat n :: 32 word) = n" by (simp add: unat_of_nat)
  moreover have step: "(k * 256 + v) mod 256 = v" "(k * 256 + v) div 256 = k" if "v < 256" for k v :: nat
    using that by simp_all
  have n256: "n mod 256 = d" "n div 256 = (a * 256 + b) * 256 + c"
    unfolding n by (rule step, fact)+
  moreover have "n div 256 mod 256 = c" "n div 256 div 256 = a * 256 + b"
    unfolding n256 by (rule step, fact)+
  moreover from this have "n div 65536 = a * 256 + b" "n div 16777216 = a"
    using bd by (simp_all add: div_mult2_eq [of n 256 256] div_mult2_eq [of n 65536 256])
  moreover have "(a * 256 + b) mod 256 = b" using bd by simp
  ultimately have "v4_octets (of_nat n) = [a, b, c, d]" by (simp only: v4_octets_def)
  then show ?thesis by (simp only: os n_def)
qed

theorem ParseAddr_A4_canon:
  assumes "ParseAddr s = Some (A4 w)"
  shows "v4_string w = s"
proof -
  have p6: "parseIPv6 s \<noteq> Some (A4 w)"
    by (auto simp: parseIPv6_def Let_def split: option.splits prod.splits if_splits)
  from assms p6 obtain os where os: "parseIPv4Fields s = Some os" "w = of_nat (bytes_value os)"
    by (auto simp: ParseAddr_def split: option.splits if_splits)
  from parseIPv4Fields_canon [OF os(1)] show ?thesis
    by (simp add: v4_string_def os(2) v4_octets_of_bytes)
qed

corollary ParseAddr_A4_iff: "ParseAddr s = Some (A4 w) \<longleftrightarrow> s = v4_string w"
  using ParseAddr_A4_canon by auto

lemma v4_string_inj [simp]: "v4_string a = v4_string b \<longleftrightarrow> a = b"
  by (metis ParseAddr_v4_string addr.inject(1) option.inject)

section \<open>Prefixes as address sets\<close>

definition wf_prefix :: "netprefix \<Rightarrow> bool" where
  "wf_prefix p = (Bits p \<le> BitLen (Prefix_Addr p))"

definition prefix_addrs :: "netprefix \<Rightarrow> addr set" where
  "prefix_addrs p = {a. Prefix_Contains p a}"

lemma xor_eq_0 [simp]: "a XOR b = 0 \<longleftrightarrow> a = (b :: 'a::len word)"
  by (auto simp: bit_eq_iff bit_xor_iff)

lemma drop_bit_xor_eq_0: "drop_bit k (a XOR b) = 0 \<longleftrightarrow> drop_bit k a = drop_bit k (b :: 'a::len word)"
  by (simp add: drop_bit_xor xor_eq_0)

lemma Prefix_Contains_A4:
  "Prefix_Contains (PrefixFrom (A4 p) b) a \<longleftrightarrow> (\<exists>w. a = A4 w \<and> drop_bit (32 - b) w = drop_bit (32 - b) p)"
  by (cases a) (simp_all add: drop_bit_xor_eq_0)

lemma Prefix_Contains_Is4: "Prefix_Contains p a \<Longrightarrow> Is4 (Prefix_Addr p) \<longleftrightarrow> Is4 a"
  by (cases "(p, a)" rule: Prefix_Contains.cases) simp_all

lemma drop_push_drop: "drop_bit k (push_bit k (drop_bit k (w :: 'a::len word))) = drop_bit k w"
  by (rule bit_word_eqI) (auto simp: bit_simps dest: bit_imp_le_length)

lemma Prefix_Contains_Masked [simp]: "Prefix_Contains (Masked p) a = Prefix_Contains p a"
  by (cases "(p, a)" rule: Prefix_Contains.cases) (simp_all add: drop_bit_xor drop_push_drop)

lemma Masked_Masked [simp]: "Masked (Masked p) = Masked p"
  by (cases p rule: Masked.cases) (simp_all add: drop_push_drop)

lemma Bits_Masked [simp]: "Bits (Masked p) = Bits p"
  by (cases p rule: Masked.cases) simp_all

lemma Is4_Masked [simp]: "Is4 (Prefix_Addr (Masked p)) = Is4 (Prefix_Addr p)"
  by (cases p rule: Masked.cases) simp_all

lemma wf_prefix_Masked [simp]: "wf_prefix (Masked p) = wf_prefix p"
  by (cases p rule: Masked.cases) (simp_all add: wf_prefix_def)

lemma ParsePrefix_wf: "ParsePrefix s = Some p \<Longrightarrow> wf_prefix p"
  by (auto simp: ParsePrefix_def wf_prefix_def split: option.splits prod.splits if_splits)

text \<open>An IPv4 prefix is an interval of addresses.\<close>

lemma Prefix_Contains_interval:
  assumes "b \<le> 32"
  shows "Prefix_Contains (PrefixFrom (A4 p) b) (A4 a) \<longleftrightarrow>
    unat p div 2 ^ (32 - b) * 2 ^ (32 - b) \<le> unat a \<and>
    unat a < (unat p div 2 ^ (32 - b) + 1) * 2 ^ (32 - b)"
proof -
  have "drop_bit (32 - b) a = drop_bit (32 - b) p \<longleftrightarrow> unat a div 2 ^ (32 - b) = unat p div 2 ^ (32 - b)"
    by (metis unat_drop_bit unsigned_word_eqI)
  also have "\<dots> \<longleftrightarrow> unat p div 2 ^ (32 - b) * 2 ^ (32 - b) \<le> unat a \<and>
      unat a < (unat p div 2 ^ (32 - b) + 1) * 2 ^ (32 - b)"
  proof -
    have "n div k = m \<longleftrightarrow> m * k \<le> n \<and> n < (m + 1) * k" if "0 < k" for n k m :: nat
      using that
      by (metis div_times_less_eq_dividend dividend_less_div_times Suc_eq_plus1 le_antisym
          less_Suc_eq_le less_eq_div_iff_mult_less_eq div_less_iff_less_mult)
    then show ?thesis by simp
  qed
  finally show ?thesis by (simp add: drop_bit_xor_eq_0)
qed

lemma card_words_interval:
  assumes "I \<subseteq> {..< 2 ^ 32}"
  shows "card {w :: 32 word. unat w \<in> I} = card I"
proof -
  have "unat ` {w :: 32 word. unat w \<in> I} = I"
  proof
    show "I \<subseteq> unat ` {w :: 32 word. unat w \<in> I}"
    proof
      fix n assume n: "n \<in> I"
      then have "unat (of_nat n :: 32 word) = n" using assms by (auto simp: unat_of_nat)
      with n show "n \<in> unat ` {w :: 32 word. unat w \<in> I}"
        by (intro image_eqI [of _ _ "of_nat n :: 32 word"]) simp_all
    qed
  qed auto
  moreover have "inj_on unat {w :: 32 word. unat w \<in> I}" by (rule inj_onI) (simp add: unsigned_word_eqI)
  ultimately show ?thesis by (metis card_image)
qed

lemma prefix_addrs_A4:
  assumes "b \<le> 32"
  shows "prefix_addrs (PrefixFrom (A4 p) b) = A4 ` {w. unat w \<in>
    {unat p div 2 ^ (32 - b) * 2 ^ (32 - b) ..< (unat p div 2 ^ (32 - b) + 1) * 2 ^ (32 - b)}}"
proof (rule set_eqI)
  fix a
  show "a \<in> prefix_addrs (PrefixFrom (A4 p) b) \<longleftrightarrow> a \<in> A4 ` {w. unat w \<in>
    {unat p div 2 ^ (32 - b) * 2 ^ (32 - b) ..< (unat p div 2 ^ (32 - b) + 1) * 2 ^ (32 - b)}}"
    using Prefix_Contains_interval [OF assms, of p]
    by (cases a) (auto simp only: prefix_addrs_def mem_Collect_eq Prefix_Contains.simps
        image_iff addr.inject addr.distinct atLeastLessThan_iff)
qed

lemma card_prefix_addrs_A4:
  assumes "b \<le> 32"
  shows "card (prefix_addrs (PrefixFrom (A4 p) b)) = 2 ^ (32 - b)"
proof -
  define k where "k = 32 - b"
  define m where "m = unat p div 2 ^ k"
  have pw: "2 ^ b * 2 ^ k = (2 ^ 32 :: nat)"
    using assms by (simp add: k_def power_add [symmetric])
  have "unat p < 2 ^ b * 2 ^ k"
    using unsigned_less [of p, where 'a = nat] pw by simp
  then have "m < 2 ^ b" by (simp add: m_def less_mult_imp_div_less)
  then have "(m + 1) * 2 ^ k \<le> 2 ^ b * 2 ^ k" by (intro mult_right_mono) simp_all
  then have sub: "{m * 2 ^ k ..< (m + 1) * 2 ^ k} \<subseteq> {..< 2 ^ 32}" using pw by auto
  have "card (A4 ` {w. unat w \<in> {m * 2 ^ k ..< (m + 1) * 2 ^ k}}) = 2 ^ k"
    using card_words_interval [OF sub] by (subst card_image) (auto simp: inj_on_def)
  then show ?thesis unfolding prefix_addrs_A4 [OF assms] by (simp only: k_def m_def)
qed

section \<open>Prefix parsing\<close>

lemma slash_notin_v4_string: "CHR ''/'' \<notin> set (v4_string w)"
proof -
  have "CHR ''/'' \<notin> set (itoa_nat n)" for n
    using itoa_nat_digits [of n] by (auto simp: list_all_iff)
  then show ?thesis by (simp add: v4_string_def v4_octets_def)
qed

lemma slash_notin_itoa_nat: "CHR ''/'' \<notin> set (itoa_nat n)"
  using itoa_nat_digits [of n] by (auto simp: list_all_iff)

lemma itoa_nat_hd_nonzero: "10 \<le> n \<Longrightarrow> 49 \<le> byte (hd (itoa_nat n))"
proof (induction n rule: itoa_nat.induct)
  case (1 n)
  have eq: "itoa_nat n = itoa_nat (n div 10) @ [digit_char (n mod 10)]"
    using 1 by (subst itoa_nat.simps) simp
  show ?case
  proof (cases "n div 10 < 10")
    case True
    then have "itoa_nat (n div 10) = [digit_char (n div 10)]" by (subst itoa_nat.simps) simp
    moreover have "1 \<le> n div 10" using 1 by simp
    ultimately show ?thesis using eq True by (simp add: digit_char_def)
  next
    case False
    then show ?thesis using 1 eq by simp
  qed
qed

lemma ParsePrefix_print:
  assumes "b \<le> 32"
  shows "ParsePrefix (v4_string w @ ''/'' @ itoa_nat b) = Some (PrefixFrom (A4 w) b)"
proof -
  have "cut_last CHR ''/'' (v4_string w @ ''/'' @ itoa_nat b) = Some (v4_string w, itoa_nat b)"
    by (simp add: cut_last_Some slash_notin_itoa_nat)
  moreover have "1 < length (itoa_nat b) \<Longrightarrow> 49 \<le> byte (hd (itoa_nat b))"
  proof -
    assume "1 < length (itoa_nat b)"
    then have "\<not> b < 10" by (auto simp: itoa_nat.simps [of b])
    then show ?thesis by (simp add: itoa_nat_hd_nonzero)
  qed
  moreover have "byte (hd (itoa_nat b)) \<le> 57"
    using itoa_nat_hd_digit [of b] by (simp add: is_digit_def)
  ultimately show ?thesis
    using assms by (auto simp: ParsePrefix_def Atoi_itoa_nat)
qed

lemma Atoi_canon:
  assumes "Atoi bs = Some n" "0 \<le> n" "\<not> (1 < length bs \<and> (byte (hd bs) < 49 \<or> 57 < byte (hd bs)))"
  shows "itoa_nat (nat n) = bs"
proof -
  define ds where "ds = (if bs \<noteq> [] \<and> (hd bs = CHR ''-'' \<or> hd bs = CHR ''+'') then tl bs else bs)"
  from assms(1) have ds: "ds \<noteq> []" "list_all is_digit ds"
    and v: "n = (if bs \<noteq> [] \<and> hd bs = CHR ''-'' then - int (dec_val ds) else int (dec_val ds))"
    unfolding ds_def by (auto simp: Atoi_def Let_def split: if_splits)
  have no_sign: "\<not> (bs \<noteq> [] \<and> (hd bs = CHR ''-'' \<or> hd bs = CHR ''+''))"
  proof
    assume sign: "bs \<noteq> [] \<and> (hd bs = CHR ''-'' \<or> hd bs = CHR ''+'')"
    then have "tl bs \<noteq> []" using ds(1) by (simp add: ds_def)
    then have "1 < length bs" by (cases bs) auto
    with assms(3) sign show False by auto
  qed
  then have "ds = bs" by (simp only: ds_def if_False)
  with ds v no_sign have bs: "bs \<noteq> []" "list_all is_digit bs" "n = int (dec_val bs)" by auto
  moreover have "hd bs \<noteq> CHR ''0'' \<or> length bs = 1"
    using assms(3) bs(1) by (cases bs) auto
  ultimately show ?thesis by (simp add: itoa_nat_dec_val)
qed

theorem ParsePrefix_A4_iff:
  "ParsePrefix s = Some (PrefixFrom (A4 w) b) \<longleftrightarrow> b \<le> 32 \<and> s = v4_string w @ ''/'' @ itoa_nat b"
proof
  assume "ParsePrefix s = Some (PrefixFrom (A4 w) b)"
  then obtain a bs n where cut: "cut_last CHR ''/'' s = Some (a, bs)" and ip: "ParseAddr a = Some (A4 w)"
    and hd: "\<not> (1 < length bs \<and> (byte (hd bs) < 49 \<or> 57 < byte (hd bs)))"
    and n: "Atoi bs = Some n" "0 \<le> n" "n \<le> 32" "b = nat n"
    by (auto simp: ParsePrefix_def split: option.splits prod.splits if_splits)
  from Atoi_canon [OF n(1,2) hd] n cut ParseAddr_A4_canon [OF ip]
  show "b \<le> 32 \<and> s = v4_string w @ ''/'' @ itoa_nat b" by (auto simp: cut_last_Some)
qed (use ParsePrefix_print in auto)

lemma Prefix_String_A4: "Prefix_String (PrefixFrom (A4 w) b) = v4_string w @ ''/'' @ itoa_nat b"
  by (simp add: Prefix_String_def)

lemma ParsePrefix_Prefix_String:
  "Is4 (Prefix_Addr p) \<Longrightarrow> wf_prefix p \<Longrightarrow> ParsePrefix (Prefix_String p) = Some p"
  by (cases p rule: Masked.cases) (simp_all add: wf_prefix_def Prefix_String_A4 ParsePrefix_A4_iff)

lemma ParsePrefix_Is4_canon:
  "ParsePrefix s = Some p \<Longrightarrow> Is4 (Prefix_Addr p) \<Longrightarrow> Prefix_String p = s"
  by (cases p rule: Masked.cases) (simp_all add: Prefix_String_A4 ParsePrefix_A4_iff)

text \<open>An address string is never a prefix string.\<close>

lemma ParsePrefix_v4_string [simp]: "ParsePrefix (v4_string w) = None"
proof -
  have "cut_last CHR ''/'' (v4_string w) = None"
    using slash_notin_v4_string [of w]
    by (auto simp: cut_last_def cut_first_None split: option.split)
       (metis cut_first_None option.distinct(1) set_rev)
  then show ?thesis by (simp add: ParsePrefix_def)
qed

section \<open>Inclusion and overlap\<close>

lemma within_A4_subset:
  assumes "b \<le> 32" "c \<le> b" "drop_bit (32 - c) p = drop_bit (32 - c) q"
  shows "prefix_addrs (PrefixFrom (A4 p) b) \<subseteq> prefix_addrs (PrefixFrom (A4 q) c)"
proof
  fix a assume "a \<in> prefix_addrs (PrefixFrom (A4 p) b)"
  then obtain w where a: "a = A4 w" and w: "drop_bit (32 - b) w = drop_bit (32 - b) p"
    unfolding prefix_addrs_def mem_Collect_eq Prefix_Contains_A4 by blast
  have "drop_bit (32 - c) w = drop_bit (32 - c) p"
    using assms(2) by (intro drop_bit_eq_mono [OF w]) simp
  with a assms(3) show "a \<in> prefix_addrs (PrefixFrom (A4 q) c)"
    unfolding prefix_addrs_def mem_Collect_eq Prefix_Contains_A4 by simp
qed

lemma Prefix_Contains_self:
  "Zone (Prefix_Addr p) = [] \<Longrightarrow> Prefix_Contains p (Prefix_Addr p)"
  by (cases p rule: Masked.cases) simp_all

lemma prefix_addrs_A4_mono_bits:
  assumes "b \<le> 32" "c \<le> 32" "prefix_addrs (PrefixFrom (A4 p) b) \<subseteq> prefix_addrs (PrefixFrom (A4 q) c)"
  shows "c \<le> b"
proof -
  have fin: "finite (prefix_addrs (PrefixFrom (A4 q) c))"
    using card_prefix_addrs_A4 [OF assms(2), of q] card.infinite by fastforce
  have "(2 :: nat) ^ (32 - b) \<le> 2 ^ (32 - c)"
    using card_mono [OF fin assms(3)] by (simp add: card_prefix_addrs_A4 assms)
  then show ?thesis using assms(1,2) by (simp add: power_le_imp_le_exp)
qed

theorem Overlaps_A4_iff:
  assumes "b \<le> 32" "c \<le> 32"
  shows "Overlaps (PrefixFrom (A4 p) b) (PrefixFrom (A4 q) c) \<longleftrightarrow>
    prefix_addrs (PrefixFrom (A4 p) b) \<inter> prefix_addrs (PrefixFrom (A4 q) c) \<noteq> {}"
proof
  assume ov: "Overlaps (PrefixFrom (A4 p) b) (PrefixFrom (A4 q) c)"
  show "prefix_addrs (PrefixFrom (A4 p) b) \<inter> prefix_addrs (PrefixFrom (A4 q) c) \<noteq> {}"
  proof (cases "b \<le> c")
    case True
    with ov have "A4 q \<in> prefix_addrs (PrefixFrom (A4 p) b) \<inter> prefix_addrs (PrefixFrom (A4 q) c)"
      by (simp add: prefix_addrs_def min_def)
    then show ?thesis by blast
  next
    case False
    with ov have "A4 p \<in> prefix_addrs (PrefixFrom (A4 p) b) \<inter> prefix_addrs (PrefixFrom (A4 q) c)"
      by (simp add: prefix_addrs_def min_def)
    then show ?thesis by blast
  qed
next
  assume "prefix_addrs (PrefixFrom (A4 p) b) \<inter> prefix_addrs (PrefixFrom (A4 q) c) \<noteq> {}"
  then obtain w where w: "drop_bit (32 - b) w = drop_bit (32 - b) p" "drop_bit (32 - c) w = drop_bit (32 - c) q"
    by (auto simp: prefix_addrs_def Prefix_Contains_A4)
  then have "drop_bit (32 - min b c) w = drop_bit (32 - min b c) p"
    "drop_bit (32 - min b c) w = drop_bit (32 - min b c) q"
    by (auto intro: drop_bit_eq_mono)
  then show "Overlaps (PrefixFrom (A4 p) b) (PrefixFrom (A4 q) c)" by simp
qed

lemma Overlaps_sym: "Overlaps p q = Overlaps q p"
  by (cases "(p, q)" rule: Overlaps.cases) (auto simp: min.commute)

lemma Overlaps_Masked [simp]: "Overlaps (Masked p) (Masked q) = Overlaps p q"
proof -
  have *: "drop_bit k (push_bit j (drop_bit j (w :: 'a::len word))) = drop_bit k w" if "j \<le> k" for j k w
    using drop_bit_eq_mono [OF drop_push_drop that, of w] by simp
  show ?thesis
    by (cases "(p, q)" rule: Overlaps.cases) (auto simp: *)
qed

end
