(* ===== verification/Ipam.thy ===== *)
theory Ipam
  imports Netip
begin

text \<open>
  \<open>internal/ipam/ipam.go\<close>: normalisation of subnets and addresses to canonical IPv4 text,
  address capacity, containment and the utilisation percentage.
\<close>

datatype ipam_error = ParseFailed | OnlyIPv4 | InvalidPrefix

definition NormalizeCIDR :: "string \<Rightarrow> ipam_error + string" where
  "NormalizeCIDR value =
    (case ParsePrefix value of None \<Rightarrow> Inl ParseFailed
     | Some p \<Rightarrow> if \<not> Is4 (Prefix_Addr p) then Inl OnlyIPv4
                 else Inr (Prefix_String (Masked p)))"

definition NormalizeIPv4 :: "string \<Rightarrow> ipam_error + string" where
  "NormalizeIPv4 value =
    (case ParseAddr value of None \<Rightarrow> Inl ParseFailed
     | Some a \<Rightarrow> if \<not> Is4 a then Inl OnlyIPv4 else Inr (Addr_String a))"

definition AddressCapacity :: "string \<Rightarrow> ipam_error + 64 word" where
  "AddressCapacity cidr =
    (case ParsePrefix cidr of None \<Rightarrow> Inl ParseFailed
     | Some p \<Rightarrow> if \<not> Is4 (Prefix_Addr p) then Inl OnlyIPv4
       else let bits = 32 - int (Bits p) in
         if bits < 0 then Inl InvalidPrefix else Inr (push_bit (nat bits) 1))"

definition Contains :: "string \<Rightarrow> string \<Rightarrow> ipam_error + bool" where
  "Contains cidr address =
    (case ParsePrefix cidr of None \<Rightarrow> Inl ParseFailed
     | Some p \<Rightarrow> (case ParseAddr address of None \<Rightarrow> Inl ParseFailed
        | Some a \<Rightarrow> Inr (Prefix_Contains p a)))"

text \<open>The exact rational value; the code rounds it to a \<open>float64\<close>.  The product wraps at 64 bits.\<close>

definition UtilizationPercent :: "64 word \<Rightarrow> 64 word \<Rightarrow> rat" where
  "UtilizationPercent touched capacity =
    (if capacity = 0 then 0
     else (of_nat (unat (touched * 10000)) / of_nat (unat capacity)) / 100)"

section \<open>Canonical subnets\<close>

definition canon_cidr :: "string \<Rightarrow> bool" where
  "canon_cidr s = (NormalizeCIDR s = Inr s)"

lemma NormalizeCIDR_Inr:
  "NormalizeCIDR s = Inr t \<longleftrightarrow>
    (\<exists>w b. ParsePrefix s = Some (PrefixFrom (A4 w) b) \<and> b \<le> 32 \<and> t = Prefix_String (Masked (PrefixFrom (A4 w) b)))"
proof
  assume "NormalizeCIDR s = Inr t"
  then obtain p where p: "ParsePrefix s = Some p" "Is4 (Prefix_Addr p)" "t = Prefix_String (Masked p)"
    by (auto simp: NormalizeCIDR_def split: option.splits if_splits)
  then obtain w b where "p = PrefixFrom (A4 w) b" by (cases p rule: Masked.cases) simp_all
  with p ParsePrefix_wf [OF p(1)]
  show "\<exists>w b. ParsePrefix s = Some (PrefixFrom (A4 w) b) \<and> b \<le> 32 \<and> t = Prefix_String (Masked (PrefixFrom (A4 w) b))"
    by (auto simp: wf_prefix_def)
qed (auto simp: NormalizeCIDR_def)

lemma ParsePrefix_NormalizeCIDR:
  assumes "NormalizeCIDR s = Inr t"
  shows "ParsePrefix t = map_option Masked (ParsePrefix s)"
  using assms by (auto simp: NormalizeCIDR_Inr ParsePrefix_Prefix_String wf_prefix_def)

lemma canon_cidr_iff:
  "canon_cidr s \<longleftrightarrow> (\<exists>w b. ParsePrefix s = Some (PrefixFrom (A4 w) b) \<and> Masked (PrefixFrom (A4 w) b) = PrefixFrom (A4 w) b)"
proof
  assume "canon_cidr s"
  then obtain w b where p: "ParsePrefix s = Some (PrefixFrom (A4 w) b)"
    and s: "NormalizeCIDR s = Inr s" by (auto simp: canon_cidr_def NormalizeCIDR_Inr)
  from ParsePrefix_NormalizeCIDR [OF s] p
  show "\<exists>w b. ParsePrefix s = Some (PrefixFrom (A4 w) b) \<and> Masked (PrefixFrom (A4 w) b) = PrefixFrom (A4 w) b"
    by auto
next
  assume "\<exists>w b. ParsePrefix s = Some (PrefixFrom (A4 w) b) \<and> Masked (PrefixFrom (A4 w) b) = PrefixFrom (A4 w) b"
  then obtain w b where p: "ParsePrefix s = Some (PrefixFrom (A4 w) b)"
    and m: "Masked (PrefixFrom (A4 w) b) = PrefixFrom (A4 w) b" by blast
  have "Prefix_String (PrefixFrom (A4 w) b) = s" using ParsePrefix_Is4_canon [OF p] by simp
  with p m show "canon_cidr s" by (simp add: canon_cidr_def NormalizeCIDR_def)
qed

lemma NormalizeCIDR_canon: "NormalizeCIDR s = Inr t \<Longrightarrow> canon_cidr t"
  using ParsePrefix_NormalizeCIDR [of s t]
  by (auto simp: canon_cidr_iff NormalizeCIDR_Inr drop_push_drop)

lemma NormalizeIPv4_Inr: "NormalizeIPv4 s = Inr t \<longleftrightarrow> (\<exists>w. s = v4_string w \<and> t = s)"
proof -
  have "NormalizeIPv4 s = Inr t \<longleftrightarrow> (\<exists>w. ParseAddr s = Some (A4 w) \<and> t = v4_string w)"
    by (auto simp: NormalizeIPv4_def Is4_iff split: option.splits)
  then show ?thesis by (auto simp: ParseAddr_A4_iff)
qed

lemma Contains_A4:
  assumes "ParsePrefix cidr = Some p"
  shows "Contains cidr (v4_string w) = Inr (Prefix_Contains p (A4 w))"
  using assms by (simp add: Contains_def)

section \<open>Properties\<close>

text \<open>Subnet normalisation yields a canonical spelling that normalises to itself, and the
  normalised subnet contains exactly the addresses of the subnet it came from.\<close>

theorem NormalizeCIDR_canonical:
  assumes "NormalizeCIDR s = Inr t"
  shows "NormalizeCIDR t = Inr t \<and> (\<forall>address. Contains t address = Contains s address)"
proof -
  have "NormalizeCIDR t = Inr t" using NormalizeCIDR_canon [OF assms] by (simp add: canon_cidr_def)
  moreover have "Contains t address = Contains s address" for address
    using assms ParsePrefix_NormalizeCIDR [OF assms]
    by (auto simp: Contains_def NormalizeCIDR_Inr simp del: Masked.simps split: option.splits)
  ultimately show ?thesis by blast
qed

theorem NormalizeCIDR_canonical_witness:
  "NormalizeCIDR ''10.1.2.3/8'' = Inr ''10.0.0.0/8'' \<and> NormalizeCIDR ''10.0.0.0/8'' = Inr ''10.0.0.0/8'' \<and>
   Contains ''10.0.0.0/8'' ''10.200.0.1'' = Contains ''10.1.2.3/8'' ''10.200.0.1''"
proof -
  have n: "NormalizeCIDR ''10.1.2.3/8'' = Inr ''10.0.0.0/8''" by code_simp
  from NormalizeCIDR_canonical [OF n] n show ?thesis by blast
qed

text \<open>The capacity of a subnet is the number of IPv4 addresses it contains.\<close>

theorem AddressCapacity_counts:
  assumes "AddressCapacity cidr = Inr n"
  shows "unat n = card {w. Contains cidr (v4_string w) = Inr True}"
proof -
  obtain p where p: "ParsePrefix cidr = Some p" "Is4 (Prefix_Addr p)"
    using assms by (auto simp: AddressCapacity_def split: option.splits if_splits)
  then obtain w b where wb: "p = PrefixFrom (A4 w) b" by (cases p rule: Masked.cases) simp_all
  have b: "b \<le> 32" using ParsePrefix_wf [OF p(1)] wb by (simp add: wf_prefix_def)
  have n: "n = push_bit (32 - b) 1"
    using assms p wb b by (auto simp: AddressCapacity_def Let_def nat_diff_distrib)
  have "unat (push_bit (32 - b) 1 :: 64 word) = 2 ^ (32 - b)"
  proof -
    have "(2 :: nat) ^ (32 - b) \<le> 2 ^ 32" by (rule power_increasing) simp_all
    then have "(2 :: nat) ^ (32 - b) < 2 ^ 64" by simp
    then show ?thesis by (simp add: push_bit_eq_mult unat_of_nat [of "2 ^ (32 - b)", simplified])
  qed
  moreover have "{w. Contains cidr (v4_string w) = Inr True} = A4 -` prefix_addrs p"
    using Contains_A4 [OF p(1)] by (auto simp: prefix_addrs_def)
  moreover have "card (A4 -` prefix_addrs p) = card (prefix_addrs p)"
  proof -
    have "A4 ` (A4 -` prefix_addrs p) = prefix_addrs p"
      using wb by (auto simp: prefix_addrs_def Prefix_Contains_A4)
    then show ?thesis by (metis (mono_tags, lifting) card_image inj_onI addr.inject(1))
  qed
  ultimately show ?thesis using card_prefix_addrs_A4 [OF b, of w] n wb by simp
qed

theorem AddressCapacity_counts_witness:
  "AddressCapacity ''192.0.2.0/30'' = Inr 4 \<and> card {w. Contains ''192.0.2.0/30'' (v4_string w) = Inr True} = 4"
proof -
  have n: "AddressCapacity ''192.0.2.0/30'' = Inr 4" by code_simp
  from AddressCapacity_counts [OF n] n show ?thesis by simp
qed

text \<open>Address normalisation accepts exactly the canonical dotted-decimal spellings, each
  unchanged: no two spellings of one address are ever stored.\<close>

theorem NormalizeIPv4_canonical: "NormalizeIPv4 s = Inr t \<longleftrightarrow> (\<exists>w. s = v4_string w \<and> t = s)"
  by (rule NormalizeIPv4_Inr)

text \<open>For a subnet of IPv4 size the utilisation lies between 0 and 100 percent and is 100
  exactly when every address is touched; the 64-bit product does not wrap there.\<close>

theorem UtilizationPercent_range:
  assumes "touched \<le> capacity" "capacity \<le> 2 ^ 32" "capacity \<noteq> 0"
  shows "0 \<le> UtilizationPercent touched capacity \<and> UtilizationPercent touched capacity \<le> 100 \<and>
    (UtilizationPercent touched capacity = 100 \<longleftrightarrow> touched = capacity)"
proof -
  define t where "t = unat touched"
  define c where "c = unat capacity"
  have le: "t \<le> c" using assms(1) by (simp add: word_le_nat_alt t_def c_def)
  have cap: "c \<le> 2 ^ 32" using assms(2) by (simp add: word_le_nat_alt c_def)
  have pos: "0 < c" using assms(3) by (simp add: unat_gt_0 c_def)
  have eq: "touched = capacity \<longleftrightarrow> t = c" by (auto simp: t_def c_def intro: unsigned_word_eqI)
  have "unat (touched * 10000) = t * 10000"
    using le cap by (simp add: unat_word_ariths t_def)
  then have u: "UtilizationPercent touched capacity = 100 * of_nat t / of_nat c"
    unfolding UtilizationPercent_def c_def [symmetric] using assms(3) by simp
  show ?thesis using pos le unfolding u eq by (auto simp: field_simps)
qed

theorem UtilizationPercent_range_witness:
  "UtilizationPercent 64 256 = 25 \<and> UtilizationPercent 64 256 \<le> 100"
  using UtilizationPercent_range [of 64 256] by (simp add: UtilizationPercent_def)

end
