(* ===== verification/MacAddr.thy ===== *)
theory MacAddr
  imports GoStrings
begin

text \<open>
  \<open>internal/macaddr/macaddr.go\<close>: parsing of a hardware address (\<open>net.ParseMAC\<close>), its canonical
  lower-case form, the multicast and locally-administered bits and the vendor of its OUI.
\<close>

unbundle bit_operations_syntax

section \<open>\<open>net.ParseMAC\<close>\<close>

text \<open>\<open>xtoi2\<close>: two hex digits, followed by the separator when the string is longer.\<close>

definition xtoi2 :: "string \<Rightarrow> char \<Rightarrow> nat option" where
  "xtoi2 s e =
    (if 2 < length s \<and> s ! 2 \<noteq> e then None
     else (case s of
        a # b # _ \<Rightarrow> (case (hex_val a, hex_val b) of (Some x, Some y) \<Rightarrow> Some (x * 16 + y) | _ \<Rightarrow> None)
      | _ \<Rightarrow> None))"

fun mac_colons :: "char \<Rightarrow> nat \<Rightarrow> string \<Rightarrow> nat list option" where
  "mac_colons e 0 s = Some []"
| "mac_colons e (Suc n) s =
    (case xtoi2 s e of None \<Rightarrow> None
     | Some b \<Rightarrow> (case mac_colons e n (drop 3 s) of None \<Rightarrow> None | Some bs \<Rightarrow> Some (b # bs)))"

fun mac_dots :: "char \<Rightarrow> nat \<Rightarrow> string \<Rightarrow> nat list option" where
  "mac_dots e 0 s = Some []"
| "mac_dots e (Suc n) s =
    (case (xtoi2 (take 2 s) (char_of (0::nat)), xtoi2 (drop 2 s) e) of
       (Some a, Some b) \<Rightarrow> (case mac_dots e n (drop 5 s) of None \<Rightarrow> None | Some bs \<Rightarrow> Some (a # b # bs))
     | _ \<Rightarrow> None)"

definition ParseMAC :: "string \<Rightarrow> nat list option" where
  "ParseMAC s =
    (if length s < 14 then None
     else if s ! 2 = CHR '':'' \<or> s ! 2 = CHR ''-'' then
       (let n = (length s + 1) div 3 in
        if (length s + 1) mod 3 \<noteq> 0 \<or> n \<notin> {6, 8, 20} then None
        else mac_colons (s ! 2) n s)
     else if s ! 4 = CHR ''.'' then
       (let n = 2 * (length s + 1) div 5 in
        if (length s + 1) mod 5 \<noteq> 0 \<or> n \<notin> {6, 8, 20} then None
        else mac_dots (s ! 4) (n div 2) s)
     else None)"

definition hex_byte :: "nat \<Rightarrow> string" where
  "hex_byte b = [hex_char (b div 16), hex_char (b mod 16)]"

definition HardwareAddr_String :: "nat list \<Rightarrow> string" where
  "HardwareAddr_String bs = Join (map hex_byte bs) '':''"

section \<open>Analysis\<close>

record Analysis =
  Address :: string
  Vendor :: string
  IsPrivate :: bool
  IsMulticast :: bool

definition ouiVendors :: "(string \<times> string) list" where
  "ouiVendors =
    [(''001A11'', ''Google''), (''001B63'', ''Apple''), (''001C42'', ''Parallels''),
     (''002248'', ''Microsoft''), (''002500'', ''Apple''), (''3C5A37'', ''Samsung''),
     (''3C7C3F'', ''Apple''), (''44D9E7'', ''Ubiquiti''), (''544249'', ''Sony''),
     (''5C514F'', ''Intel''), (''60F81D'', ''Apple''), (''685B35'', ''Apple''),
     (''6C2995'', ''Intel''), (''70106F'', ''Hewlett Packard''), (''74867A'', ''Dell''),
     (''8C8590'', ''Apple''), (''A0CEC8'', ''Cisco''), (''A4B197'', ''Apple''),
     (''B827EB'', ''Raspberry Pi''), (''BC2411'', ''Apple''), (''D85ED3'', ''Apple''),
     (''DC9B9C'', ''Apple''), (''F0D1A9'', ''Apple''), (''F4F5D8'', ''Google''),
     (''FCECDA'', ''Ubiquiti'')]"

datatype mac_error = ParseMacFailed | Not48Bit

definition Analyze :: "string \<Rightarrow> mac_error + Analysis" where
  "Analyze value =
    (case ParseMAC (TrimSpace value) of None \<Rightarrow> Inl ParseMacFailed
     | Some parsed \<Rightarrow>
       if length parsed \<noteq> 6 then Inl Not48Bit
       else
        let first = of_nat (hd parsed) :: 8 word;
            isMulticast = (first AND 1 = 1);
            isLocal = (first AND 2 = 2);
            text = HardwareAddr_String parsed;
            normalized = ToLower text;
            oui = ToUpper (filter (\<lambda>c. c \<noteq> CHR '':'') (take 8 text));
            private = isLocal \<and> \<not> isMulticast in
        Inr \<lparr>Address = normalized,
             Vendor = (case map_of ouiVendors oui of Some v \<Rightarrow> if private then [] else v | None \<Rightarrow> []),
             IsPrivate = private,
             IsMulticast = isMulticast\<rparr>)"

section \<open>Canonical form\<close>

lemma xtoi2_bound: "xtoi2 s e = Some b \<Longrightarrow> b < 256"
  by (auto simp: xtoi2_def split: if_splits list.splits option.splits dest!: hex_val_bound)

lemma mac_colons_bytes: "mac_colons e n s = Some bs \<Longrightarrow> length bs = n \<and> (\<forall>b\<in>set bs. b < 256)"
  by (induction n arbitrary: s bs) (auto split: option.splits dest: xtoi2_bound)

lemma mac_dots_bytes: "mac_dots e n s = Some bs \<Longrightarrow> length bs = 2 * n \<and> (\<forall>b\<in>set bs. b < 256)"
  by (induction n arbitrary: s bs) (auto split: option.splits dest: xtoi2_bound)

lemma ParseMAC_bytes: "ParseMAC s = Some bs \<Longrightarrow> \<forall>b\<in>set bs. b < 256"
  by (auto simp: ParseMAC_def Let_def split: if_splits dest: mac_colons_bytes mac_dots_bytes)

lemma hex_char_bytes: "d < 16 \<Longrightarrow> visible (hex_char d) \<and> hex_char d \<noteq> CHR '':'' \<and> lower_char (hex_char d) = hex_char d"
proof -
  assume "d < 16"
  then have "d \<in> set [0..<16]" by simp
  moreover have "list_all (\<lambda>d. visible (hex_char d) \<and> hex_char d \<noteq> CHR '':'' \<and> lower_char (hex_char d) = hex_char d) [0..<16]"
    by code_simp
  ultimately show ?thesis by (simp add: list_all_iff)
qed

lemma xtoi2_hex_byte:
  "b < 256 \<Longrightarrow> r = [] \<or> hd r = e \<Longrightarrow> xtoi2 (hex_byte b @ r) e = Some b"
  by (cases r) (auto simp: xtoi2_def hex_byte_def)

lemma mac_colons_String:
  assumes "\<forall>b\<in>set bs. b < 256"
  shows "mac_colons CHR '':'' (length bs) (HardwareAddr_String bs) = Some bs"
  using assms
proof (induction bs)
  case (Cons b bs)
  show ?case
  proof (cases bs)
    case Nil
    with Cons show ?thesis using xtoi2_hex_byte [of b "[]"] by (simp add: HardwareAddr_String_def)
  next
    case (Cons c cs)
    then have eq: "HardwareAddr_String (b # bs) = hex_byte b @ CHR '':'' # HardwareAddr_String bs"
      by (simp add: HardwareAddr_String_def)
    moreover have "drop 3 (HardwareAddr_String (b # bs)) = HardwareAddr_String bs"
      unfolding eq by (simp add: hex_byte_def)
    ultimately show ?thesis
      using Cons.IH Cons.prems xtoi2_hex_byte [of b "CHR '':'' # HardwareAddr_String bs"] by simp
  qed
qed simp

lemma ParseMAC_String6:
  assumes "length bs = 6" "\<forall>b\<in>set bs. b < 256"
  shows "ParseMAC (HardwareAddr_String bs) = Some bs"
    "ToLower (HardwareAddr_String bs) = HardwareAddr_String bs"
    "TrimSpace (HardwareAddr_String bs) = HardwareAddr_String bs"
    "length (HardwareAddr_String bs) = 17"
proof -
  obtain a b c d e f where bs: "bs = [a, b, c, d, e, f]"
    using assms(1) by (auto simp: numeral_eq_Suc length_Suc_conv)
  have str: "HardwareAddr_String bs =
    [hex_char (a div 16), hex_char (a mod 16), CHR '':'', hex_char (b div 16), hex_char (b mod 16), CHR '':'',
     hex_char (c div 16), hex_char (c mod 16), CHR '':'', hex_char (d div 16), hex_char (d mod 16), CHR '':'',
     hex_char (e div 16), hex_char (e mod 16), CHR '':'', hex_char (f div 16), hex_char (f mod 16)]"
    by (simp add: bs HardwareAddr_String_def hex_byte_def)
  have nib: "x div 16 < 16" "x mod 16 < 16" if "x \<in> set bs" for x
    using assms(2) that by (auto simp: less_mult_imp_div_less)
  have low: "lower_char (hex_char d) = hex_char d" if "d < 16" for d
    using hex_char_bytes that by blast
  have vis: "visible (hex_char d)" if "d < 16" for d using hex_char_bytes that by blast
  have colon: "lower_char CHR '':'' = CHR '':''" by (simp add: lower_char_def)
  show "length (HardwareAddr_String bs) = 17" by (simp add: str)
  show "ToLower (HardwareAddr_String bs) = HardwareAddr_String bs"
    using nib [unfolded bs] by (simp add: str ToLower_def low colon)
  show "TrimSpace (HardwareAddr_String bs) = HardwareAddr_String bs"
    using nib [unfolded bs] by (intro TrimSpace_visible) (simp add: str vis)
  have "length (HardwareAddr_String bs) = 17" "HardwareAddr_String bs ! 2 = CHR '':''"
    by (simp_all add: str)
  then show "ParseMAC (HardwareAddr_String bs) = Some bs"
    using mac_colons_String [OF assms(2)] assms(1) by (simp add: ParseMAC_def)
qed

lemma Analyze_Inr:
  assumes "Analyze v = Inr a"
  obtains bs where "length bs = 6" "\<forall>b\<in>set bs. b < 256" "ParseMAC (TrimSpace v) = Some bs"
    "Address a = HardwareAddr_String bs"
  using assms ParseMAC_bytes [of "TrimSpace v"] that
  by (auto simp: Analyze_def Let_def ParseMAC_String6(2) split: option.splits if_splits)

lemma Analyze_same_bytes:
  assumes "ParseMAC (TrimSpace v) = ParseMAC (TrimSpace w)"
  shows "Analyze v = Analyze w"
  by (simp add: Analyze_def assms)

text \<open>The canonical form of a hardware address is a fixed point: analysing the normalised
  address gives the same analysis, the normalised text is 17 bytes long, and a locally
  administered unicast address is never attributed to a vendor or reported as multicast.\<close>

theorem Analyze_canonical:
  assumes "Analyze v = Inr a"
  shows "Analyze (Address a) = Inr a \<and> length (Address a) = 17 \<and>
    (IsPrivate a \<longrightarrow> Vendor a = [] \<and> \<not> IsMulticast a)"
proof -
  obtain bs where bs: "length bs = 6" "\<forall>b\<in>set bs. b < 256" "ParseMAC (TrimSpace v) = Some bs"
    "Address a = HardwareAddr_String bs"
    using Analyze_Inr [OF assms] .
  have "Analyze (Address a) = Analyze v"
    using bs by (intro Analyze_same_bytes) (simp add: ParseMAC_String6)
  moreover have "IsPrivate a \<longrightarrow> Vendor a = [] \<and> \<not> IsMulticast a"
    using assms by (auto simp: Analyze_def Let_def split: option.splits if_splits)
  ultimately show ?thesis using assms bs ParseMAC_String6(4) by simp
qed

theorem Analyze_canonical_witness:
  "Analyze '' B8-27-EB-01-02-0F'' =
     Inr \<lparr>Address = ''b8:27:eb:01:02:0f'', Vendor = ''Raspberry Pi'', IsPrivate = False, IsMulticast = False\<rparr>
   \<and> Analyze ''b8:27:eb:01:02:0f'' =
     Inr \<lparr>Address = ''b8:27:eb:01:02:0f'', Vendor = ''Raspberry Pi'', IsPrivate = False, IsMulticast = False\<rparr>"
proof -
  have "Analyze '' B8-27-EB-01-02-0F'' =
     Inr \<lparr>Address = ''b8:27:eb:01:02:0f'', Vendor = ''Raspberry Pi'', IsPrivate = False, IsMulticast = False\<rparr>"
    by code_simp
  from this Analyze_canonical [OF this] show ?thesis by simp
qed

end
