(* ===== verification/Protocol.thy ===== *)
theory Protocol
  imports Netip "HOL-Library.Signed_Division"
begin

text \<open>
  \<open>internal/scanner/protocol.go\<close> and \<open>internal/scanner/budget.go\<close>: the data exchanged between the
  application and its scan agents, the validation of a scan job on both sides, and the time budget
  of a scan.  The named string types of the source stay strings, so unknown values are values.
\<close>

section \<open>Protocol values\<close>

type_synonym time = int
type_synonym AgentStatus = string
type_synonym ScanType = string
type_synonym ScanMode = string
type_synonym JobStatus = string

definition ProtocolVersion :: string where "ProtocolVersion = ''v1''"

abbreviation AgentPending :: AgentStatus where "AgentPending \<equiv> ''pending''"
abbreviation AgentActive :: AgentStatus where "AgentActive \<equiv> ''active''"
abbreviation AgentDisabled :: AgentStatus where "AgentDisabled \<equiv> ''disabled''"
abbreviation AgentRevoked :: AgentStatus where "AgentRevoked \<equiv> ''revoked''"

abbreviation ScanHostDiscovery :: ScanType where "ScanHostDiscovery \<equiv> ''host_discovery''"
abbreviation ScanServiceDetect :: ScanType where "ScanServiceDetect \<equiv> ''service_detection''"
abbreviation ScanOSProbe :: ScanType where "ScanOSProbe \<equiv> ''os_probe''"
abbreviation ScanCombined :: ScanType where "ScanCombined \<equiv> ''combined''"
abbreviation ScanARPTable :: ScanType where "ScanARPTable \<equiv> ''arp_table''"
abbreviation ScanSNMPInventory :: ScanType where "ScanSNMPInventory \<equiv> ''snmp_inventory''"
abbreviation ScanNameLookup :: ScanType where "ScanNameLookup \<equiv> ''name_lookup''"
abbreviation ScanDHCPLeases :: ScanType where "ScanDHCPLeases \<equiv> ''dhcp_leases''"
abbreviation ScanDNSLookup :: ScanType where "ScanDNSLookup \<equiv> ''dns_lookup''"
abbreviation ScanLLDPCDP :: ScanType where "ScanLLDPCDP \<equiv> ''lldp_cdp''"

abbreviation ModePassive :: ScanMode where "ModePassive \<equiv> ''passive''"
abbreviation ModeLightActive :: ScanMode where "ModeLightActive \<equiv> ''light_active''"
abbreviation ModeStandardActive :: ScanMode where "ModeStandardActive \<equiv> ''standard_active''"
abbreviation ModeDeepActive :: ScanMode where "ModeDeepActive \<equiv> ''deep_active''"

definition CodeScanIgnored :: string where "CodeScanIgnored = ''scan_ignored''"

abbreviation JobQueued :: JobStatus where "JobQueued \<equiv> ''queued''"
abbreviation JobRunning :: JobStatus where "JobRunning \<equiv> ''running''"
abbreviation JobSucceeded :: JobStatus where "JobSucceeded \<equiv> ''succeeded''"
abbreviation JobFailed :: JobStatus where "JobFailed \<equiv> ''failed''"
abbreviation JobCancelled :: JobStatus where "JobCancelled \<equiv> ''cancelled''"
abbreviation JobRejected :: JobStatus where "JobRejected \<equiv> ''rejected''"

record AgentRegistration =
  ag_ID :: string
  ag_Name :: string
  ag_SiteID :: string
  ag_Version :: string
  ag_CertificateSubject :: string
  ag_AllowedCIDRs :: "string list"
  ag_Status :: AgentStatus
  ag_CreatedAt :: time
  ag_LastSeenAt :: "time option"

record RateLimit =
  rl_ProbesPerSecond :: int
  rl_Concurrency :: int

record PortSelection =
  ps_Protocol :: string
  ps_Ports :: "int list"

record ScanJob =
  job_ID :: string
  job_AgentID :: string
  job_RequestedBy :: string
  job_Type :: ScanType
  job_Mode :: ScanMode
  job_AllowedCIDRs :: "string list"
  job_Targets :: "string list"
  job_Ports :: "PortSelection list"
  job_RateLimit :: RateLimit
  job_TimeoutSeconds :: int
  job_CreatedAt :: time

record ServiceObservation =
  sv_Protocol :: string
  sv_Port :: int
  sv_State :: string
  sv_ServiceName :: string
  sv_Product :: string
  sv_Version :: string

record Evidence =
  ev_Source :: string
  ev_Summary :: string
  ev_Raw :: string

text \<open>\<open>None\<close> is the zero \<open>time.Time\<close>.\<close>

record Observation =
  ob_IP :: string
  ob_MAC :: string
  ob_Vendor :: string
  ob_Hostname :: string
  ob_OSFamily :: string
  ob_OSDetail :: string
  ob_VLAN :: int
  ob_HWSerial :: string
  ob_HWObjectID :: string
  ob_Services :: "ServiceObservation list"
  ob_Evidence :: "Evidence list"
  ob_ObservedAt :: "time option"

record ScanError =
  se_Code :: string
  se_Message :: string
  se_Target :: string

record ScanResult =
  res_ProtocolVersion :: string
  res_JobID :: string
  res_AgentID :: string
  res_Status :: JobStatus
  res_StartedAt :: "time option"
  res_FinishedAt :: "time option"
  res_Observations :: "Observation list"
  res_Errors :: "ScanError list"

definition ScanType_Valid :: "ScanType \<Rightarrow> bool" where
  "ScanType_Valid t =
    (t \<in> {ScanHostDiscovery, ScanServiceDetect, ScanOSProbe, ScanCombined, ScanARPTable,
          ScanSNMPInventory, ScanNameLookup, ScanDNSLookup, ScanDHCPLeases, ScanLLDPCDP})"

definition ScanMode_Valid :: "ScanMode \<Rightarrow> bool" where
  "ScanMode_Valid m = (m \<in> {ModePassive, ModeLightActive, ModeStandardActive, ModeDeepActive})"

section \<open>Job validation\<close>

datatype job_error =
    MissingID | MissingAgentID | UnknownScanType string | UnknownMode string | NonPositiveTimeout
  | NoAllowedCIDR | NoTarget | BadAllowedCIDR string | AllowedNotIPv4 string
  | TargetNotIPv4 string | TargetOutside string | TargetUnparsable string
  | AgentNotActive | AgentMismatch | AgentNoAllowedCIDR
  | AgentAllowlist job_error | JobAllowlist job_error | JobCIDROutside string

definition prefixWithin :: "netprefix \<Rightarrow> netprefix \<Rightarrow> bool" where
  "prefixWithin target allowed =
    (Prefix_Contains allowed (Prefix_Addr target) \<and> Bits allowed \<le> Bits target)"

fun withinAny :: "netprefix \<Rightarrow> netprefix list \<Rightarrow> bool" where
  "withinAny target [] = False"
| "withinAny target (p # ps) = (if prefixWithin target p then True else withinAny target ps)"

definition parseAllowedPrefix :: "string \<Rightarrow> job_error + netprefix" where
  "parseAllowedPrefix value =
    (case ParsePrefix value of None \<Rightarrow> Inl (BadAllowedCIDR value)
     | Some p \<Rightarrow> if \<not> Is4 (Prefix_Addr p) then Inl (AllowedNotIPv4 value) else Inr (Masked p))"

definition parseAllowedPrefixes :: "string list \<Rightarrow> job_error + netprefix list" where
  "parseAllowedPrefixes values = map_res parseAllowedPrefix values"

definition validateTarget :: "netprefix list \<Rightarrow> string \<Rightarrow> job_error option" where
  "validateTarget allowed value =
    (case ParsePrefix value of
       Some p \<Rightarrow>
         if \<not> Is4 (Prefix_Addr p) then Some (TargetNotIPv4 value)
         else if list_ex (\<lambda>a. prefixWithin (Masked p) a) allowed then None
         else Some (TargetOutside value)
     | None \<Rightarrow>
        (case ParseAddr value of
           None \<Rightarrow> Some (TargetUnparsable value)
         | Some a \<Rightarrow>
            if \<not> Is4 a then Some (TargetNotIPv4 value)
            else if list_ex (\<lambda>p. Prefix_Contains p a) allowed then None
            else Some (TargetOutside value)))"

definition ValidateJobTargets :: "ScanJob \<Rightarrow> job_error option" where
  "ValidateJobTargets job =
    (if job_AllowedCIDRs job = [] then Some NoAllowedCIDR
     else if job_Targets job = [] then Some NoTarget
     else (case parseAllowedPrefixes (job_AllowedCIDRs job) of
        Inl e \<Rightarrow> Some e
      | Inr allowed \<Rightarrow> check_all (validateTarget allowed) (job_Targets job)))"

definition ValidateJob :: "ScanJob \<Rightarrow> job_error option" where
  "ValidateJob job =
    (if job_ID job = [] then Some MissingID
     else if job_AgentID job = [] then Some MissingAgentID
     else if \<not> ScanType_Valid (job_Type job) then Some (UnknownScanType (job_Type job))
     else if \<not> ScanMode_Valid (job_Mode job) then Some (UnknownMode (job_Mode job))
     else if job_TimeoutSeconds job \<le> 0 then Some NonPositiveTimeout
     else ValidateJobTargets job)"

definition ValidateAgentScope :: "ScanJob \<Rightarrow> string list \<Rightarrow> job_error option" where
  "ValidateAgentScope job agentAllowedCIDRs =
    (if agentAllowedCIDRs = [] then Some AgentNoAllowedCIDR
     else if job_AllowedCIDRs job = [] then Some NoAllowedCIDR
     else (case parseAllowedPrefixes agentAllowedCIDRs of
       Inl e \<Rightarrow> Some (AgentAllowlist e)
     | Inr agentPrefixes \<Rightarrow>
        (case parseAllowedPrefixes (job_AllowedCIDRs job) of
          Inl e \<Rightarrow> Some (JobAllowlist e)
        | Inr jobPrefixes \<Rightarrow>
           (case check_all (\<lambda>(p, cidr). if withinAny p agentPrefixes then None else Some (JobCIDROutside cidr))
                   (zip jobPrefixes (job_AllowedCIDRs job)) of
              Some e \<Rightarrow> Some e
            | None \<Rightarrow> ValidateJob job))))"

definition ValidateJobForAgent :: "ScanJob \<Rightarrow> AgentRegistration \<Rightarrow> job_error option" where
  "ValidateJobForAgent job agent =
    (if ag_Status agent \<noteq> AgentActive then Some AgentNotActive
     else if job_AgentID job \<noteq> ag_ID agent then Some AgentMismatch
     else ValidateAgentScope job (ag_AllowedCIDRs agent))"

section \<open>Scan budget\<close>

text \<open>Go's \<open>int\<close> and \<open>time.Duration\<close> are 64-bit two's complement.\<close>

definition wrap64 :: "int \<Rightarrow> int" where
  "wrap64 i = (i + 2 ^ 63) mod 2 ^ 64 - 2 ^ 63"

definition second_ns :: int where "second_ns = 1000000000"
definition scanGrace :: int where "scanGrace = 30 * second_ns"
definition hostDiscoveryAllowance :: int where "hostDiscoveryAllowance = 120 * second_ns"
definition maxScanBudget :: int where "maxScanBudget = 14400 * second_ns"

definition target_count :: "string \<Rightarrow> int" where
  "target_count t =
    (case ParseCIDR_size t of Some (ones, bits) \<Rightarrow> wrap64 (2 ^ (bits - ones)) | None \<Rightarrow> 1)"

definition EstimateTargetHosts :: "string list \<Rightarrow> int" where
  "EstimateTargetHosts targets =
    (let total = foldl (\<lambda>total t. let t' = TrimSpace t in
                          if t' = [] then total else wrap64 (total + target_count t')) 0 targets in
     if total < 1 then 1 else total)"

text \<open>\<open>None\<close> is the panic of a division by zero.\<close>

definition ScanBudget :: "int \<Rightarrow> string list \<Rightarrow> int option" where
  "ScanBudget perHostSeconds targets =
    (if perHostSeconds \<le> 0 then Some 0
     else
      let perHost = wrap64 (perHostSeconds * second_ns); hosts = EstimateTargetHosts targets in
      if perHost = 0 then None
      else if maxScanBudget sdiv perHost < hosts then Some maxScanBudget
      else let budget = wrap64 (wrap64 (perHost * hosts) + hostDiscoveryAllowance + scanGrace) in
        if maxScanBudget < budget then Some maxScanBudget else Some budget)"

section \<open>Containment\<close>

text \<open>What the allowlist checks need of prefixes: the syntactic test decides inclusion of the
  denoted address sets.\<close>

locale prefix_space =
  fixes inside :: "'p \<Rightarrow> 'p \<Rightarrow> bool"
    and members :: "'p \<Rightarrow> 'a set"
    and valid :: "'p \<Rightarrow> bool"
  assumes inside_iff: "valid p \<Longrightarrow> valid q \<Longrightarrow> inside p q \<longleftrightarrow> members p \<subseteq> members q"
begin

lemma inside_refl: "valid p \<Longrightarrow> inside p p"
  by (simp add: inside_iff)

lemma inside_trans:
  "valid p \<Longrightarrow> valid q \<Longrightarrow> valid r \<Longrightarrow> inside p q \<Longrightarrow> inside q r \<Longrightarrow> inside p r"
  by (auto simp: inside_iff)

lemma covered_iff:
  assumes "valid p" "\<forall>q\<in>set qs. valid q"
  shows "(\<exists>q\<in>set qs. inside p q) \<longleftrightarrow> (\<exists>q\<in>set qs. members p \<subseteq> members q)"
  using assms by (auto simp: inside_iff)

lemma covered_chain:
  assumes "X \<subseteq> members j" "j \<in> set js" "\<forall>j\<in>set js. valid j \<and> (\<exists>a\<in>set as. inside j a)" "\<forall>a\<in>set as. valid a"
  shows "\<exists>a\<in>set as. X \<subseteq> members a"
  using assms by (meson subset_trans inside_iff)

end

definition valid4 :: "netprefix \<Rightarrow> bool" where
  "valid4 p = (Is4 (Prefix_Addr p) \<and> wf_prefix p)"

lemma valid4_iff: "valid4 p \<longleftrightarrow> (\<exists>w b. p = PrefixFrom (A4 w) b \<and> b \<le> 32)"
  by (cases p rule: Masked.cases) (simp_all add: valid4_def wf_prefix_def)

lemma valid4_Masked [simp]: "valid4 (Masked p) = valid4 p"
  by (simp add: valid4_def)

lemma prefix_addrs_Masked [simp]: "prefix_addrs (Masked p) = prefix_addrs p"
  by (simp add: prefix_addrs_def)

lemma prefixWithin_iff:
  assumes "valid4 p" "valid4 q"
  shows "prefixWithin p q \<longleftrightarrow> prefix_addrs p \<subseteq> prefix_addrs q"
proof -
  obtain v b w c where p: "p = PrefixFrom (A4 v) b" "b \<le> 32" and q: "q = PrefixFrom (A4 w) c" "c \<le> 32"
    using assms by (auto simp: valid4_iff)
  show ?thesis
  proof
    assume "prefixWithin p q"
    then have "c \<le> b" "drop_bit (32 - c) v = drop_bit (32 - c) w"
      by (simp_all add: prefixWithin_def p q)
    then show "prefix_addrs p \<subseteq> prefix_addrs q" using within_A4_subset p q by simp
  next
    assume sub: "prefix_addrs p \<subseteq> prefix_addrs q"
    have "A4 v \<in> prefix_addrs p" by (simp add: p prefix_addrs_def)
    with sub have "Prefix_Contains q (A4 v)" by (auto simp: prefix_addrs_def)
    moreover have "c \<le> b" using prefix_addrs_A4_mono_bits sub p q by blast
    ultimately show "prefixWithin p q" by (simp add: prefixWithin_def p q)
  qed
qed

interpretation pw: prefix_space prefixWithin prefix_addrs valid4
  by unfold_locales (rule prefixWithin_iff)

lemma withinAny_iff: "withinAny p qs \<longleftrightarrow> (\<exists>q\<in>set qs. prefixWithin p q)"
  by (induction qs) auto

section \<open>What job validation establishes\<close>

text \<open>The address sets a CIDR and a target denote, and the specification of an acceptable job.\<close>

definition ipv4_cidr :: "string \<Rightarrow> bool" where
  "ipv4_cidr s = (\<exists>p. ParsePrefix s = Some p \<and> Is4 (Prefix_Addr p))"

definition cidr_addrs :: "string \<Rightarrow> addr set" where
  "cidr_addrs s = (case ParsePrefix s of Some p \<Rightarrow> prefix_addrs p | None \<Rightarrow> {})"

definition ipv4_target :: "string \<Rightarrow> bool" where
  "ipv4_target s = (ipv4_cidr s \<or> (\<exists>w. s = v4_string w))"

definition target_addrs :: "string \<Rightarrow> addr set" where
  "target_addrs s =
    (case ParsePrefix s of Some p \<Rightarrow> prefix_addrs p
     | None \<Rightarrow> (case ParseAddr s of Some a \<Rightarrow> {a} | None \<Rightarrow> {}))"

definition well_formed_job :: "ScanJob \<Rightarrow> bool" where
  "well_formed_job job =
    (job_ID job \<noteq> [] \<and> job_AgentID job \<noteq> [] \<and> ScanType_Valid (job_Type job) \<and>
     ScanMode_Valid (job_Mode job) \<and> 0 < job_TimeoutSeconds job)"

definition targets_in_allowlist :: "ScanJob \<Rightarrow> bool" where
  "targets_in_allowlist job =
    (job_AllowedCIDRs job \<noteq> [] \<and> job_Targets job \<noteq> [] \<and> (\<forall>c\<in>set (job_AllowedCIDRs job). ipv4_cidr c) \<and>
     (\<forall>t\<in>set (job_Targets job). ipv4_target t \<and> (\<exists>c\<in>set (job_AllowedCIDRs job). target_addrs t \<subseteq> cidr_addrs c)))"

lemma parseAllowedPrefix_Inr:
  "parseAllowedPrefix c = Inr p \<longleftrightarrow> ipv4_cidr c \<and> map_option Masked (ParsePrefix c) = Some p"
  by (auto simp: parseAllowedPrefix_def ipv4_cidr_def split: option.splits)

lemma parseAllowedPrefix_facts:
  assumes "parseAllowedPrefix c = Inr p"
  shows "valid4 p" "prefix_addrs p = cidr_addrs c"
  using assms ParsePrefix_wf
  by (auto simp: parseAllowedPrefix_Inr ipv4_cidr_def valid4_def cidr_addrs_def)

lemma parseAllowedPrefixes_Inr:
  assumes "parseAllowedPrefixes cs = Inr ps"
  shows "\<forall>c\<in>set cs. ipv4_cidr c" "\<forall>p\<in>set ps. valid4 p"
    "prefix_addrs ` set ps = cidr_addrs ` set cs" "length ps = length cs"
proof -
  have l2: "list_all2 (\<lambda>c p. parseAllowedPrefix c = Inr p) cs ps"
    using assms by (simp add: parseAllowedPrefixes_def map_res_Inr_iff)
  show "length ps = length cs" using list_all2_lengthD [OF l2] by simp
  show "\<forall>c\<in>set cs. ipv4_cidr c" "\<forall>p\<in>set ps. valid4 p"
    "prefix_addrs ` set ps = cidr_addrs ` set cs"
    using l2 by (induction rule: list_all2_induct)
      (auto simp: parseAllowedPrefix_facts, auto simp: parseAllowedPrefix_Inr)
qed

lemma parseAllowedPrefixes_ok: "is_ok (parseAllowedPrefixes cs) \<longleftrightarrow> (\<forall>c\<in>set cs. ipv4_cidr c)"
proof -
  have "is_ok (parseAllowedPrefix c) \<longleftrightarrow> ipv4_cidr c" for c
    by (auto simp: parseAllowedPrefix_def ipv4_cidr_def split: option.splits)
  then show ?thesis
    unfolding parseAllowedPrefixes_def
    by (induction cs) (auto split: sum.splits simp: is_ok_iff, metis Inr_not_Inl)
qed

lemma ex_prefix_addrs:
  assumes "parseAllowedPrefixes cs = Inr ps"
  shows "(\<exists>p\<in>set ps. X \<subseteq> prefix_addrs p) \<longleftrightarrow> (\<exists>c\<in>set cs. X \<subseteq> cidr_addrs c)"
  using parseAllowedPrefixes_Inr(3) [OF assms] by (metis (mono_tags, lifting) image_iff)

lemma validateTarget_None:
  assumes "parseAllowedPrefixes cs = Inr ps"
  shows "validateTarget ps t = None \<longleftrightarrow> ipv4_target t \<and> (\<exists>c\<in>set cs. target_addrs t \<subseteq> cidr_addrs c)"
proof (cases "ParsePrefix t")
  case (Some p)
  have nt: "t \<noteq> v4_string w" for w using Some by auto
  have "list_ex (prefixWithin (Masked p)) ps \<longleftrightarrow> (\<exists>q\<in>set ps. prefix_addrs p \<subseteq> prefix_addrs q)"
    if "Is4 (Prefix_Addr p)"
    using pw.covered_iff [of "Masked p" ps] parseAllowedPrefixes_Inr(2) [OF assms] that ParsePrefix_wf [OF Some]
    by (simp add: list_ex_iff valid4_def)
  with Some nt ex_prefix_addrs [OF assms] show ?thesis
    by (auto simp: validateTarget_def ipv4_target_def ipv4_cidr_def target_addrs_def)
next
  case None
  then have nc: "\<not> ipv4_cidr t" by (simp add: ipv4_cidr_def)
  show ?thesis
  proof (cases "\<exists>w. t = v4_string w")
    case True
    then obtain w where w: "t = v4_string w" ..
    have "list_ex (\<lambda>p. Prefix_Contains p (A4 w)) ps \<longleftrightarrow> (\<exists>q\<in>set ps. {A4 w} \<subseteq> prefix_addrs q)"
      by (simp add: list_ex_iff prefix_addrs_def)
    also have "\<dots> \<longleftrightarrow> (\<exists>c\<in>set cs. {A4 w} \<subseteq> cidr_addrs c)" by (rule ex_prefix_addrs [OF assms])
    finally have "list_ex (\<lambda>p. Prefix_Contains p (A4 w)) ps \<longleftrightarrow> (\<exists>c\<in>set cs. {A4 w} \<subseteq> cidr_addrs c)" .
    then show ?thesis by (auto simp: w validateTarget_def ipv4_target_def target_addrs_def)
  next
    case False
    then have "ParseAddr t \<noteq> Some (A4 w)" for w by (auto simp: ParseAddr_A4_iff)
    with None nc False show ?thesis
      by (auto simp: validateTarget_def ipv4_target_def Is4_iff split: option.splits)
  qed
qed

lemma ValidateJobTargets_None: "ValidateJobTargets job = None \<longleftrightarrow> targets_in_allowlist job"
proof (cases "parseAllowedPrefixes (job_AllowedCIDRs job)")
  case (Inl e)
  then have "\<not> (\<forall>c\<in>set (job_AllowedCIDRs job). ipv4_cidr c)"
    using parseAllowedPrefixes_ok by (metis is_ok_simps(1))
  with Inl show ?thesis by (auto simp: ValidateJobTargets_def targets_in_allowlist_def)
next
  case (Inr ps)
  with parseAllowedPrefixes_Inr(1) [OF Inr] validateTarget_None [OF Inr] show ?thesis
    by (auto simp: ValidateJobTargets_def targets_in_allowlist_def check_all_None_iff)
qed

lemma ValidateJob_None: "ValidateJob job = None \<longleftrightarrow> well_formed_job job \<and> targets_in_allowlist job"
  by (auto simp: ValidateJob_def well_formed_job_def ValidateJobTargets_None)

lemma ValidateAgentScope_None:
  "ValidateAgentScope job agents = None \<longleftrightarrow>
    agents \<noteq> [] \<and> (\<forall>a\<in>set agents. ipv4_cidr a) \<and>
    (\<forall>c\<in>set (job_AllowedCIDRs job). \<exists>a\<in>set agents. cidr_addrs c \<subseteq> cidr_addrs a) \<and>
    well_formed_job job \<and> targets_in_allowlist job"
    (is "?L \<longleftrightarrow> ?R")
proof (cases "is_ok (parseAllowedPrefixes agents) \<and> is_ok (parseAllowedPrefixes (job_AllowedCIDRs job))")
  case True
  then obtain as js where as: "parseAllowedPrefixes agents = Inr as"
    and js: "parseAllowedPrefixes (job_AllowedCIDRs job) = Inr js" by (auto simp: is_ok_iff)
  note A = parseAllowedPrefixes_Inr [OF as] and J = parseAllowedPrefixes_Inr [OF js]
  have "(\<forall>x\<in>set (zip js (job_AllowedCIDRs job)). withinAny (fst x) as) \<longleftrightarrow> (\<forall>j\<in>set js. withinAny j as)"
    using J(4) by (rule ball_zip_fst)
  also have "\<dots> \<longleftrightarrow> (\<forall>j\<in>set js. \<exists>a\<in>set as. prefix_addrs j \<subseteq> prefix_addrs a)"
    using pw.covered_iff A(2) J(2) by (simp add: withinAny_iff)
  also have "\<dots> \<longleftrightarrow> (\<forall>j\<in>set js. \<exists>a\<in>set agents. prefix_addrs j \<subseteq> cidr_addrs a)"
    by (simp only: ex_prefix_addrs [OF as])
  also have "\<dots> \<longleftrightarrow> (\<forall>c\<in>set (job_AllowedCIDRs job). \<exists>a\<in>set agents. cidr_addrs c \<subseteq> cidr_addrs a)"
    by (rule ball_image_cong [OF J(3)])
  finally have inside: "(\<forall>x\<in>set (zip js (job_AllowedCIDRs job)). withinAny (fst x) as) \<longleftrightarrow>
      (\<forall>c\<in>set (job_AllowedCIDRs job). \<exists>a\<in>set agents. cidr_addrs c \<subseteq> cidr_addrs a)" .
  have "?L \<longleftrightarrow> agents \<noteq> [] \<and> job_AllowedCIDRs job \<noteq> [] \<and>
      (\<forall>x\<in>set (zip js (job_AllowedCIDRs job)). withinAny (fst x) as) \<and> ValidateJob job = None"
    by (simp add: ValidateAgentScope_def as js check_all_None_iff split_beta)
  then show ?thesis
    using A(1) unfolding inside ValidateJob_None targets_in_allowlist_def by blast
next
  case False
  then show ?thesis
    using parseAllowedPrefixes_ok [of agents] parseAllowedPrefixes_ok [of "job_AllowedCIDRs job"]
    by (auto simp: ValidateAgentScope_def targets_in_allowlist_def is_ok_def split: sum.splits)
qed

section \<open>Budget arithmetic\<close>

lemma wrap64_id: "- (2 ^ 63) \<le> i \<Longrightarrow> i < 2 ^ 63 \<Longrightarrow> wrap64 i = i"
  by (simp add: wrap64_def)

lemma wrap64_range: "- (2 ^ 63) \<le> wrap64 i" "wrap64 i < 2 ^ 63"
  by (simp_all add: wrap64_def)

lemma visible_digit: "is_digit c \<Longrightarrow> visible c"
  by (auto simp: is_digit_def visible_def)

lemma itoa_nat_visible: "visible (hd (itoa_nat n))" "visible (last (itoa_nat n))"
  using itoa_nat_digits [of n]
  by (auto intro!: visible_digit simp: itoa_nat_hd_digit list_all_iff)

lemma v4_string_ends: "v4_string w \<noteq> []" "visible (hd (v4_string w))" "visible (last (v4_string w))"
  using itoa_nat_visible by (simp_all add: v4_string_def v4_octets_def)

lemma TrimSpace_v4 [simp]:
  "TrimSpace (v4_string w) = v4_string w"
  "TrimSpace (v4_string w @ CHR ''/'' # itoa_nat b) = v4_string w @ CHR ''/'' # itoa_nat b"
  by (intro TrimSpace_visible, simp add: v4_string_ends itoa_nat_visible)+

lemma target_count_v4 [simp]: "target_count (v4_string w) = 1"
proof -
  have "cut_first CHR ''/'' (v4_string w) = None"
    by (simp add: cut_first_None slash_notin_v4_string)
  then show ?thesis by (simp add: target_count_def ParseCIDR_size_def)
qed

lemma target_count_cidr:
  assumes "b \<le> 32"
  shows "target_count (v4_string w @ CHR ''/'' # itoa_nat b) = 2 ^ (32 - b)"
proof -
  have "cut_first CHR ''/'' (v4_string w @ CHR ''/'' # itoa_nat b) = Some (v4_string w, itoa_nat b)"
    by (simp add: cut_first_Some slash_notin_v4_string)
  then have size: "ParseCIDR_size (v4_string w @ CHR ''/'' # itoa_nat b) = Some (b, 32)"
    using assms itoa_nat_digits [of b] by (simp add: ParseCIDR_size_def)
  have "- (2 ^ 63) \<le> (2 :: int) ^ (32 - b)" by (rule order_trans [of _ 0]) simp_all
  moreover have "(2 :: int) ^ (32 - b) < 2 ^ 63" by (rule power_strict_increasing) simp_all
  ultimately have "wrap64 (2 ^ (32 - b)) = 2 ^ (32 - b)" by (rule wrap64_id)
  with size show ?thesis by (simp add: target_count_def)
qed

text \<open>A target the job validation accepts counts exactly the addresses it denotes.\<close>

lemma target_count_card:
  assumes "ipv4_target t"
  shows "target_count (TrimSpace t) = int (card (target_addrs t))" "TrimSpace t \<noteq> []"
    "1 \<le> card (target_addrs t)" "card (target_addrs t) \<le> 2 ^ 32"
proof -
  have "target_count (TrimSpace t) = int (card (target_addrs t)) \<and> TrimSpace t \<noteq> [] \<and>
    1 \<le> card (target_addrs t) \<and> card (target_addrs t) \<le> 2 ^ 32"
  proof (cases "ParsePrefix t")
    case (Some p)
    have "t \<noteq> v4_string w" for w using Some by auto
    with assms Some have "Is4 (Prefix_Addr p)" by (auto simp: ipv4_target_def ipv4_cidr_def)
    then obtain w b where p: "p = PrefixFrom (A4 w) b" by (cases p rule: Masked.cases) simp_all
    with Some have b: "b \<le> 32" and t: "t = v4_string w @ CHR ''/'' # itoa_nat b"
      by (auto simp: ParsePrefix_A4_iff)
    have "(2 :: nat) ^ (32 - b) \<le> 2 ^ 32" by (rule power_increasing) simp_all
    then show ?thesis using Some card_prefix_addrs_A4 [OF b, of w] target_count_cidr [OF b, of w]
      by (simp add: target_addrs_def p) (simp add: t)
  next
    case None
    with assms obtain w where "t = v4_string w" by (auto simp: ipv4_target_def ipv4_cidr_def)
    then show ?thesis by (simp add: target_addrs_def v4_string_ends)
  qed
  then show "target_count (TrimSpace t) = int (card (target_addrs t))" "TrimSpace t \<noteq> []"
    "1 \<le> card (target_addrs t)" "card (target_addrs t) \<le> 2 ^ 32" by blast+
qed

lemma estimate_fold:
  assumes "\<forall>t\<in>set ts. ipv4_target t" "0 \<le> acc" "acc + 2 ^ 32 * int (length ts) < 2 ^ 63"
  shows "foldl (\<lambda>total t. let t' = TrimSpace t in if t' = [] then total else wrap64 (total + target_count t')) acc ts
    = acc + int (\<Sum>t\<leftarrow>ts. card (target_addrs t))"
  using assms
proof (induction ts arbitrary: acc)
  case (Cons t ts)
  note c = target_count_card [of t]
  have bound: "int (card (target_addrs t)) \<le> 2 ^ 32" using c(4) Cons.prems(1) by simp
  have step: "wrap64 (acc + target_count (TrimSpace t)) = acc + int (card (target_addrs t))"
    using Cons.prems c(1,4) bound by (simp add: wrap64_id)
  show ?case
    using Cons.IH [of "acc + int (card (target_addrs t))"] Cons.prems c(2) step bound by (simp add: Let_def)
qed simp

lemma EstimateTargetHosts_sum:
  assumes "\<forall>t\<in>set ts. ipv4_target t" "ts \<noteq> []" "length ts < 2 ^ 31"
  shows "EstimateTargetHosts ts = int (\<Sum>t\<leftarrow>ts. card (target_addrs t))"
proof -
  have len: "2 ^ 32 * int (length ts) < 2 ^ 63" using assms(3) by simp
  obtain u us where ts: "ts = u # us" using assms(2) by (cases ts) auto
  have "1 \<le> (\<Sum>t\<leftarrow>ts. card (target_addrs t))"
    using target_count_card(3) [of u] assms(1) by (simp add: ts)
  then have ge: "\<not> int (\<Sum>t\<leftarrow>ts. card (target_addrs t)) < 1" by linarith
  have "foldl (\<lambda>total t. let t' = TrimSpace t in if t' = [] then total else wrap64 (total + target_count t')) 0 ts
    = int (\<Sum>t\<leftarrow>ts. card (target_addrs t))"
    using estimate_fold [OF assms(1), of 0] len by simp
  then show ?thesis by (simp only: EstimateTargetHosts_def) (simp only: Let_def ge if_False)
qed

lemma EstimateTargetHosts_pos: "1 \<le> EstimateTargetHosts ts"
  by (simp add: EstimateTargetHosts_def Let_def)

lemma sdiv_pos: "0 < b \<Longrightarrow> 0 \<le> a \<Longrightarrow> a sdiv b = a div (b :: int)"
  by (cases "a = 0") (simp_all add: signed_divide_int_def sgn_1_pos)

lemma int_div_less_iff:
  assumes "0 < (p :: int)"
  shows "m div p < h \<longleftrightarrow> m < p * h"
proof
  assume "m div p < h"
  then have "p * (m div p + 1) \<le> p * h" using assms by (intro mult_left_mono) simp_all
  moreover have "p * (m div p + 1) = p * (m div p) + p" by (simp add: distrib_left)
  then have "m < p * (m div p + 1)"
    using pos_mod_bound [OF assms, of m] mult_div_mod_eq [of p m] by linarith
  ultimately show "m < p * h" by linarith
next
  assume "m < p * h"
  show "m div p < h"
  proof (rule ccontr)
    assume "\<not> m div p < h"
    then have "p * h \<le> p * (m div p)" using assms by (intro mult_left_mono) simp_all
    moreover have "p * (m div p) \<le> m"
      using assms pos_mod_sign [of p m] mult_div_mod_eq [of p m] by linarith
    ultimately show False using \<open>m < p * h\<close> by linarith
  qed
qed

lemma card_UN_le_sum_list: "card (\<Union>t\<in>set ts. f t) \<le> (\<Sum>t\<leftarrow>ts. card (f t))"
proof (induction ts)
  case (Cons t ts)
  have "card (f t \<union> (\<Union>t\<in>set ts. f t)) \<le> card (f t) + card (\<Union>t\<in>set ts. f t)" by (rule card_Un_le)
  with Cons show ?case by simp
qed simp

section \<open>Properties\<close>

definition demo_job :: ScanJob where
  "demo_job = \<lparr>job_ID = ''j1'', job_AgentID = ''a1'', job_RequestedBy = ''ops'', job_Type = ScanCombined,
     job_Mode = ModeLightActive, job_AllowedCIDRs = [''10.1.0.0/16''], job_Targets = [''10.1.2.0/24'', ''10.1.9.9''],
     job_Ports = [], job_RateLimit = \<lparr>rl_ProbesPerSecond = 10, rl_Concurrency = 2\<rparr>,
     job_TimeoutSeconds = 60, job_CreatedAt = 0\<rparr>"

text \<open>C9: the agent-side validation accepts a job exactly when the job is well formed, every CIDR
  of its allowlist lies inside one CIDR of the agent's allowlist and every target is an IPv4
  address or CIDR whose addresses lie inside one CIDR of the job's allowlist.\<close>

theorem ValidateAgentScope_spec:
  "ValidateAgentScope job agents = None \<longleftrightarrow>
    agents \<noteq> [] \<and> (\<forall>a\<in>set agents. ipv4_cidr a) \<and>
    (\<forall>c\<in>set (job_AllowedCIDRs job). \<exists>a\<in>set agents. cidr_addrs c \<subseteq> cidr_addrs a) \<and>
    well_formed_job job \<and> targets_in_allowlist job"
  by (rule ValidateAgentScope_None)

theorem ValidateAgentScope_spec_witness:
  "ValidateAgentScope demo_job [''10.0.0.0/8''] = None \<and> targets_in_allowlist demo_job \<and>
   cidr_addrs ''10.1.0.0/16'' \<subseteq> cidr_addrs ''10.0.0.0/8''"
proof -
  have "ValidateAgentScope demo_job [''10.0.0.0/8''] = None" by code_simp
  with ValidateAgentScope_spec [of demo_job "[''10.0.0.0/8'']"] show ?thesis
    by (simp add: demo_job_def)
qed

lemma ValidateJobForAgent_inside:
  assumes "ValidateJobForAgent job agent = None" "t \<in> set (job_Targets job)" "a \<in> target_addrs t"
  shows "ag_Status agent = AgentActive \<and> job_AgentID job = ag_ID agent \<and> Is4 a \<and>
    (\<exists>c\<in>set (job_AllowedCIDRs job). a \<in> cidr_addrs c) \<and>
    (\<exists>c\<in>set (ag_AllowedCIDRs agent). a \<in> cidr_addrs c)"
proof -
  from assms(1) have agent: "ag_Status agent = AgentActive" "job_AgentID job = ag_ID agent"
    and scope: "ValidateAgentScope job (ag_AllowedCIDRs agent) = None"
    by (simp_all add: ValidateJobForAgent_def split: if_splits)
  from scope have tg: "targets_in_allowlist job"
    and sub: "\<forall>c\<in>set (job_AllowedCIDRs job). \<exists>a\<in>set (ag_AllowedCIDRs agent). cidr_addrs c \<subseteq> cidr_addrs a"
    unfolding ValidateAgentScope_None by blast+
  from tg assms(2,3) obtain c where c: "c \<in> set (job_AllowedCIDRs job)" "a \<in> cidr_addrs c" "ipv4_cidr c"
    unfolding targets_in_allowlist_def by blast
  moreover from c sub obtain d where "d \<in> set (ag_AllowedCIDRs agent)" "a \<in> cidr_addrs d" by blast
  moreover have "Is4 a"
    using c(2,3) Prefix_Contains_Is4 by (auto simp: cidr_addrs_def ipv4_cidr_def prefix_addrs_def)
  ultimately show ?thesis using agent by blast
qed

text \<open>C1: two-sided confinement.  A job the application dispatches to an agent is addressed to that
  active agent, and every address any of its targets denotes lies in the agent's registered allowlist
  and in the job's own allowlist.\<close>

theorem ValidateJobForAgent_confines:
  assumes "ValidateJobForAgent job agent = None" "t \<in> set (job_Targets job)" "a \<in> target_addrs t"
  shows "ag_Status agent = AgentActive \<and> job_AgentID job = ag_ID agent \<and> Is4 a \<and>
    (\<exists>c\<in>set (job_AllowedCIDRs job). a \<in> cidr_addrs c) \<and>
    (\<exists>c\<in>set (ag_AllowedCIDRs agent). a \<in> cidr_addrs c)"
  using assms by (rule ValidateJobForAgent_inside)

definition demo_agent :: AgentRegistration where
  "demo_agent = \<lparr>ag_ID = ''a1'', ag_Name = ''lab'', ag_SiteID = [], ag_Version = ''1'', ag_CertificateSubject = [],
     ag_AllowedCIDRs = [''192.168.0.0/16'', ''10.0.0.0/8''], ag_Status = AgentActive, ag_CreatedAt = 0,
     ag_LastSeenAt = None\<rparr>"

theorem ValidateJobForAgent_confines_witness:
  "ValidateJobForAgent demo_job demo_agent = None \<and>
   (\<exists>c\<in>set (ag_AllowedCIDRs demo_agent). A4 0x0A010909 \<in> cidr_addrs c)"
proof -
  have "ValidateJobForAgent demo_job demo_agent = None" by code_simp
  moreover have "''10.1.9.9'' \<in> set (job_Targets demo_job)" by (simp add: demo_job_def)
  moreover have "ParseAddr ''10.1.9.9'' = Some (A4 0x0A010909)" "ParsePrefix ''10.1.9.9'' = None"
    by code_simp+
  then have "A4 0x0A010909 \<in> target_addrs ''10.1.9.9''" by (simp add: target_addrs_def)
  ultimately show ?thesis using ValidateJobForAgent_confines by blast
qed

text \<open>For a job that passed validation the host estimate is an upper bound on the number of
  distinct addresses its targets denote.\<close>

theorem EstimateTargetHosts_upper_bound:
  assumes "ValidateJob job = None" "length (job_Targets job) < 2 ^ 31"
  shows "int (card (\<Union>t\<in>set (job_Targets job). target_addrs t)) \<le> EstimateTargetHosts (job_Targets job)"
proof -
  have "\<forall>t\<in>set (job_Targets job). ipv4_target t" "job_Targets job \<noteq> []"
    using assms(1) by (auto simp: ValidateJob_None targets_in_allowlist_def)
  then have "EstimateTargetHosts (job_Targets job) = int (\<Sum>t\<leftarrow>job_Targets job. card (target_addrs t))"
    using assms(2) by (rule EstimateTargetHosts_sum)
  then show ?thesis by (simp only: of_nat_le_iff card_UN_le_sum_list)
qed

theorem EstimateTargetHosts_upper_bound_witness:
  "EstimateTargetHosts (job_Targets demo_job) = 257 \<and>
   int (card (\<Union>t\<in>set (job_Targets demo_job). target_addrs t)) \<le> 257"
proof -
  have v: "ValidateJob demo_job = None" and e: "EstimateTargetHosts (job_Targets demo_job) = 257"
    by code_simp+
  have "length (job_Targets demo_job) < 2 ^ 31" by (simp add: demo_job_def)
  from EstimateTargetHosts_upper_bound [OF v this] e show ?thesis by simp
qed

text \<open>C39: for any per-host timeout up to 9223372036 seconds the budget does not wrap or panic: it is
  the per-host time times the host estimate plus 150 seconds, capped at four hours.\<close>

theorem ScanBudget_exact:
  assumes "0 < perHost" "perHost \<le> 9223372036"
  shows "ScanBudget perHost targets =
    Some (min (4 * 3600 * second_ns) (perHost * second_ns * EstimateTargetHosts targets + 150 * second_ns))"
proof -
  define h where "h = EstimateTargetHosts targets"
  define p where "p = perHost * second_ns"
  have h: "1 \<le> h" by (simp add: h_def EstimateTargetHosts_pos)
  have p: "0 < p" "p < 2 ^ 63" using assms by (simp_all add: p_def second_ns_def)
  have wp: "wrap64 (perHost * second_ns) = p"
    unfolding p_def [symmetric] using p by (intro wrap64_id) simp_all
  have sd: "maxScanBudget sdiv p = maxScanBudget div p"
    using p(1) by (intro sdiv_pos) (simp_all add: maxScanBudget_def second_ns_def)
  have sum: "hostDiscoveryAllowance + scanGrace = 150 * second_ns" "maxScanBudget = 4 * 3600 * second_ns"
    by (simp_all add: hostDiscoveryAllowance_def scanGrace_def maxScanBudget_def)
  have budget: "ScanBudget perHost targets =
    (if maxScanBudget div p < h then Some maxScanBudget
     else Some (min maxScanBudget (wrap64 (wrap64 (p * h) + (hostDiscoveryAllowance + scanGrace)))))"
    using assms(1) p(1) by (auto simp: ScanBudget_def wp sd h_def [symmetric] min_def Let_def add.assoc)
  have "ScanBudget perHost targets = Some (min maxScanBudget (p * h + (hostDiscoveryAllowance + scanGrace)))"
  proof (cases "maxScanBudget div p < h")
    case True
    then have "maxScanBudget < p * h"
      using int_div_less_iff [OF p(1)] by blast
    moreover have "0 \<le> hostDiscoveryAllowance + scanGrace" by (simp add: sum second_ns_def)
    ultimately show ?thesis using True by (simp add: budget min_def)
  next
    case False
    then have le: "p * h \<le> maxScanBudget"
      using int_div_less_iff [OF p(1)] by (meson not_less)
    have ge: "0 < p * h" using p h by simp
    have w1: "wrap64 (p * h) = p * h"
      using le ge by (intro wrap64_id) (simp_all add: maxScanBudget_def second_ns_def)
    have "wrap64 (p * h + (hostDiscoveryAllowance + scanGrace)) = p * h + (hostDiscoveryAllowance + scanGrace)"
      using le ge by (intro wrap64_id) (simp_all add: sum second_ns_def)
    with w1 False show ?thesis by (simp add: budget)
  qed
  then show ?thesis by (simp only: sum p_def h_def)
qed

theorem ScanBudget_exact_witness:
  "ScanBudget 60 [''10.0.0.0/30'', ''10.0.0.9''] = Some (450 * second_ns)"
proof -
  have "EstimateTargetHosts [''10.0.0.0/30'', ''10.0.0.9''] = 5" by code_simp
  with ScanBudget_exact [of 60 "[''10.0.0.0/30'', ''10.0.0.9'']"] show ?thesis
    by (simp add: second_ns_def)
qed

end
