(* ===== verification/Db.thy ===== *)
theory Db
  imports Ipam MacAddr Protocol
begin

text \<open>
  The database the store works on: one list of rows per table of \<open>internal/db/migrations.go\<close>,
  with the constraints of the schema (primary keys, \<open>UNIQUE\<close>, \<open>CHECK\<close>, foreign keys with
  \<open>ON DELETE SET NULL\<close> and \<open>CASCADE\<close>) as the conditions and effects of the row operations.
  Every failure the database reports is the one error \<open>ErrDb\<close>; connection failures are not
  modelled.  The text-to-value casts of PostgreSQL are an argument, a record of functions.
\<close>

section \<open>Errors\<close>

datatype store_error =
    ErrNotFound | ErrDuplicate | ErrOverlap | ErrAddressOutOfCIDR | ErrNoContainingSubnet
  | ErrIpam ipam_error | ErrMac mac_error | ErrRand | ErrDb | ErrScanNull | ErrArgs

section \<open>PostgreSQL values\<close>

text \<open>The casts \<open>::cidr\<close>, \<open>::inet\<close> and \<open>::macaddr\<close> from text; \<open>None\<close> is a cast error.  A \<open>macaddr\<close>
  is represented by its canonical text.\<close>

record pg =
  pg_cidr :: "string \<Rightarrow> netprefix option"
  pg_inet :: "string \<Rightarrow> netprefix option"
  pg_macaddr :: "string \<Rightarrow> string option"

text \<open>What the development relies on: a \<open>cidr\<close> value has no host bits, and on canonical IPv4 text
  the casts read the address the text denotes, a bare address being a host (/32).\<close>

definition pg_documented :: "pg \<Rightarrow> bool" where
  "pg_documented g \<longleftrightarrow>
    (\<forall>s p. pg_cidr g s = Some p \<longrightarrow> Masked p = p \<and> wf_prefix p) \<and>
    (\<forall>s. canon_cidr s \<longrightarrow> pg_cidr g s = ParsePrefix s) \<and>
    (\<forall>w. pg_inet g (v4_string w) = Some (PrefixFrom (A4 w) 32))"

text \<open>An instance with that behaviour, for evaluation.\<close>

definition pg_netip :: pg where
  "pg_netip = \<lparr>
     pg_cidr = (\<lambda>s. case ParsePrefix s of Some p \<Rightarrow> if Masked p = p then Some p else None | None \<Rightarrow> None),
     pg_inet = (\<lambda>s. case ParseAddr s of Some a \<Rightarrow> Some (PrefixFrom a (BitLen a)) | None \<Rightarrow> None),
     pg_macaddr = (\<lambda>s. case Analyze s of Inr a \<Rightarrow> Some (Address a) | Inl _ \<Rightarrow> None)\<rparr>"

lemma pg_netip_documented: "pg_documented pg_netip"
proof -
  have "pg_cidr pg_netip s = ParsePrefix s" if "canon_cidr s" for s
    using that by (auto simp: pg_netip_def canon_cidr_iff split: option.splits)
  moreover have "Masked p = p \<and> wf_prefix p" if "pg_cidr pg_netip s = Some p" for s p
    using that ParsePrefix_wf by (auto simp: pg_netip_def split: option.splits if_splits)
  ultimately show ?thesis by (auto simp: pg_documented_def pg_netip_def)
qed

text \<open>The operators \<open>&&\<close> and \<open>>>=\<close> and the function \<open>host\<close> on network values.\<close>

definition pg_overlaps :: "netprefix \<Rightarrow> netprefix \<Rightarrow> bool" where
  "pg_overlaps a b = Overlaps a b"

definition pg_contains_eq :: "netprefix \<Rightarrow> netprefix \<Rightarrow> bool" where
  "pg_contains_eq c i = (Bits c \<le> Bits i \<and> Prefix_Contains c (Prefix_Addr i))"

definition pg_host :: "netprefix \<Rightarrow> string" where
  "pg_host i = Addr_String (Prefix_Addr i)"

text \<open>The order of \<open>cidr\<close> values and of host addresses: by family, address, then length.\<close>

definition pg_key :: "netprefix \<Rightarrow> nat" where
  "pg_key p = (case Prefix_Addr p of A4 w \<Rightarrow> unat w * 256 + Bits p | A6 w _ \<Rightarrow> 2 ^ 64 + unat w * 256 + Bits p)"

definition int4 :: "int \<Rightarrow> bool" where
  "int4 v = (- (2 ^ 31) \<le> v \<and> v < 2 ^ 31)"

section \<open>Rows\<close>

record DiscoveryService =
  ds_Protocol :: string
  ds_Port :: int
  ds_State :: string
  ds_ServiceName :: string
  ds_Product :: string
  ds_Version :: string

record site_row =
  si_id :: string
  si_name :: string

record subnet_row =
  sn_id :: string
  sn_site_id :: "string option"
  sn_cidr :: netprefix
  sn_name :: string
  sn_vlan :: "int option"
  sn_description :: string
  sn_created_at :: time
  sn_updated_at :: time

record device_row =
  dv_id :: string
  dv_name :: string
  dv_description :: string
  dv_os_family :: string
  dv_os_detail :: string
  dv_services :: "DiscoveryService list"
  dv_discovery_source :: string
  dv_hw_serial :: string
  dv_hw_object_id :: string
  dv_hardware_group_id :: "string option"
  dv_created_at :: time
  dv_updated_at :: time

record address_row =
  ad_id :: string
  ad_subnet_id :: "string option"
  ad_device_id :: "string option"
  ad_address :: netprefix
  ad_state :: string
  ad_hostname :: string
  ad_notes :: string
  ad_last_seen_at :: "time option"
  ad_created_at :: time
  ad_updated_at :: time

record mac_row =
  mc_id :: string
  mc_device_id :: "string option"
  mc_address :: string
  mc_vendor :: string
  mc_is_private :: bool
  mc_created_at :: time

record tag_row =
  tg_id :: string
  tg_name :: string
  tg_color :: string

record tagging_row =
  tx_tag_id :: string
  tx_entity_type :: string
  tx_entity_id :: string

record agent_row =
  sa_id :: string
  sa_name :: string
  sa_site_id :: "string option"
  sa_endpoint_url :: string
  sa_certificate_subject :: string
  sa_allowed_cidrs :: "string list"
  sa_status :: string
  sa_auto_import :: bool
  sa_version :: string
  sa_last_seen_at :: "time option"
  sa_created_at :: time
  sa_updated_at :: time

record schedule_row =
  sc_id :: string
  sc_name :: string
  sc_agent_id :: string
  sc_scan_type :: string
  sc_mode :: string
  sc_allowed_cidrs :: "string list"
  sc_targets :: "string list"
  sc_timeout_seconds :: int
  sc_interval_seconds :: int
  sc_enabled :: bool
  sc_window_start_min :: "int option"
  sc_window_end_min :: "int option"
  sc_window_days :: "int list"
  sc_window_tz :: string
  sc_last_run_at :: "time option"
  sc_last_run_status :: string
  sc_last_run_error :: string
  sc_last_job_id :: "string option"
  sc_next_run_at :: time
  sc_created_at :: time
  sc_updated_at :: time

record job_row =
  sj_id :: string
  sj_agent_id :: string
  sj_schedule_id :: "string option"
  sj_requested_by :: "string option"
  sj_scan_type :: string
  sj_mode :: string
  sj_allowed_cidrs :: "string list"
  sj_targets :: "string list"
  sj_timeout_seconds :: int
  sj_status :: string
  sj_error :: string
  sj_result :: "string option"
  sj_started_at :: "time option"
  sj_finished_at :: "time option"
  sj_created_at :: time
  sj_updated_at :: time

record discovery_row =
  di_id :: string
  di_job_id :: "string option"
  di_agent_id :: "string option"
  di_ip :: netprefix
  di_mac :: "string option"
  di_vendor :: string
  di_hostname :: string
  di_os_family :: string
  di_os_detail :: string
  di_hw_serial :: string
  di_hw_object_id :: string
  di_vlan :: int
  di_services :: "DiscoveryService list"
  di_status :: string
  di_reconcile_status :: string
  di_conflict :: string
  di_imported_address_id :: "string option"
  di_imported_device_id :: "string option"
  di_first_seen_at :: time
  di_last_seen_at :: time
  di_updated_at :: time

record user_row =
  us_id :: string
  us_username :: string
  us_display_name :: string
  us_password_hash :: string
  us_role :: string
  us_is_admin :: bool
  us_oidc_subject :: "string option"
  us_created_at :: time
  us_updated_at :: time

record db =
  db_sites :: "site_row list"
  db_subnets :: "subnet_row list"
  db_devices :: "device_row list"
  db_addresses :: "address_row list"
  db_macs :: "mac_row list"
  db_tags :: "tag_row list"
  db_taggings :: "tagging_row list"
  db_users :: "user_row list"
  db_agents :: "agent_row list"
  db_schedules :: "schedule_row list"
  db_jobs :: "job_row list"
  db_discoveries :: "discovery_row list"
  db_rejections :: "(string \<times> string) list"
  db_settings :: "(string \<times> string) list"

definition empty_db :: db where
  "empty_db = \<lparr>db_sites = [\<lparr>si_id = ''default'', si_name = ''Default''\<rparr>], db_subnets = [], db_devices = [],
     db_addresses = [], db_macs = [],
     db_tags = [\<lparr>tg_id = ''private-mac'', tg_name = ''Private MAC'', tg_color = ''amber''\<rparr>], db_taggings = [],
     db_users = [], db_agents = [], db_schedules = [], db_jobs = [], db_discoveries = [],
     db_rejections = [], db_settings = []\<rparr>"

section \<open>Statements\<close>

text \<open>\<open>UPDATE ... WHERE\<close> on one table, and the number of rows it affects.\<close>

definition update_rows :: "('r \<Rightarrow> bool) \<Rightarrow> ('r \<Rightarrow> 'r) \<Rightarrow> 'r list \<Rightarrow> 'r list" where
  "update_rows P f rows = map (\<lambda>r. if P r then f r else r) rows"

definition affected :: "('r \<Rightarrow> bool) \<Rightarrow> 'r list \<Rightarrow> nat" where
  "affected P rows = length (filter P rows)"

text \<open>A nullable reference to a key set, and a reference cleared when its row is deleted.\<close>

definition fk_ok :: "string option \<Rightarrow> string list \<Rightarrow> bool" where
  "fk_ok r keys = (case r of None \<Rightarrow> True | Some k \<Rightarrow> k \<in> set keys)"

definition set_null :: "(string \<Rightarrow> bool) \<Rightarrow> string option \<Rightarrow> string option" where
  "set_null gone r = (case r of None \<Rightarrow> None | Some k \<Rightarrow> if gone k then None else Some k)"

definition vlan_check :: "int option \<Rightarrow> bool" where
  "vlan_check v = (case v of None \<Rightarrow> True | Some n \<Rightarrow> 1 \<le> n \<and> n \<le> 4094)"

definition address_states :: "string list" where
  "address_states = [''available'', ''reserved'', ''assigned'', ''deprecated'', ''conflict'']"

text \<open>Constraints of a row of each inventory table against the rest of the database.\<close>

definition subnet_row_ok :: "db \<Rightarrow> subnet_row list \<Rightarrow> subnet_row \<Rightarrow> bool" where
  "subnet_row_ok d others r \<longleftrightarrow>
    sn_id r \<notin> set (map sn_id others) \<and> sn_cidr r \<notin> set (map sn_cidr others) \<and>
    fk_ok (sn_site_id r) (map si_id (db_sites d)) \<and> vlan_check (sn_vlan r)"

definition address_row_ok :: "db \<Rightarrow> address_row list \<Rightarrow> address_row \<Rightarrow> bool" where
  "address_row_ok d others r \<longleftrightarrow>
    ad_id r \<notin> set (map ad_id others) \<and> ad_address r \<notin> set (map ad_address others) \<and>
    fk_ok (ad_subnet_id r) (map sn_id (db_subnets d)) \<and> fk_ok (ad_device_id r) (map dv_id (db_devices d)) \<and>
    ad_state r \<in> set address_states"

definition mac_row_ok :: "db \<Rightarrow> mac_row list \<Rightarrow> mac_row \<Rightarrow> bool" where
  "mac_row_ok d others r \<longleftrightarrow>
    mc_id r \<notin> set (map mc_id others) \<and> mc_address r \<notin> set (map mc_address others) \<and>
    fk_ok (mc_device_id r) (map dv_id (db_devices d))"

definition insert_subnet :: "subnet_row \<Rightarrow> db \<Rightarrow> store_error + db" where
  "insert_subnet r d =
    (if subnet_row_ok d (db_subnets d) r then Inr (d\<lparr>db_subnets := db_subnets d @ [r]\<rparr>) else Inl ErrDb)"

definition insert_address :: "address_row \<Rightarrow> db \<Rightarrow> store_error + db" where
  "insert_address r d =
    (if address_row_ok d (db_addresses d) r then Inr (d\<lparr>db_addresses := db_addresses d @ [r]\<rparr>) else Inl ErrDb)"

definition insert_device :: "device_row \<Rightarrow> db \<Rightarrow> store_error + db" where
  "insert_device r d =
    (if dv_id r \<notin> set (map dv_id (db_devices d)) then Inr (d\<lparr>db_devices := db_devices d @ [r]\<rparr>) else Inl ErrDb)"

definition insert_mac :: "mac_row \<Rightarrow> db \<Rightarrow> store_error + db" where
  "insert_mac r d =
    (if mac_row_ok d (db_macs d) r then Inr (d\<lparr>db_macs := db_macs d @ [r]\<rparr>) else Inl ErrDb)"

text \<open>\<open>DELETE\<close> with the actions of the foreign keys that reference the deleted rows.\<close>

definition delete_subnets :: "(subnet_row \<Rightarrow> bool) \<Rightarrow> db \<Rightarrow> db" where
  "delete_subnets P d =
    (let gone = (\<lambda>k. k \<in> set (map sn_id (filter P (db_subnets d)))) in
     d\<lparr>db_subnets := filter (\<lambda>r. \<not> P r) (db_subnets d),
       db_addresses := map (\<lambda>a. a\<lparr>ad_subnet_id := set_null gone (ad_subnet_id a)\<rparr>) (db_addresses d)\<rparr>)"

definition delete_addresses :: "(address_row \<Rightarrow> bool) \<Rightarrow> db \<Rightarrow> db" where
  "delete_addresses P d =
    (let gone = (\<lambda>k. k \<in> set (map ad_id (filter P (db_addresses d)))) in
     d\<lparr>db_addresses := filter (\<lambda>r. \<not> P r) (db_addresses d),
       db_discoveries := map (\<lambda>x. x\<lparr>di_imported_address_id := set_null gone (di_imported_address_id x)\<rparr>)
         (db_discoveries d)\<rparr>)"

definition delete_devices :: "(device_row \<Rightarrow> bool) \<Rightarrow> db \<Rightarrow> db" where
  "delete_devices P d =
    (let gone = (\<lambda>k. k \<in> set (map dv_id (filter P (db_devices d)))) in
     d\<lparr>db_devices := filter (\<lambda>r. \<not> P r) (db_devices d),
       db_addresses := map (\<lambda>a. a\<lparr>ad_device_id := set_null gone (ad_device_id a)\<rparr>) (db_addresses d),
       db_macs := filter (\<lambda>m. set_null gone (mc_device_id m) = mc_device_id m) (db_macs d),
       db_discoveries := map (\<lambda>x. x\<lparr>di_imported_device_id := set_null gone (di_imported_device_id x)\<rparr>)
         (db_discoveries d),
       db_rejections := filter (\<lambda>(a, b). \<not> gone a \<and> \<not> gone b) (db_rejections d)\<rparr>)"

definition delete_macs :: "(mac_row \<Rightarrow> bool) \<Rightarrow> db \<Rightarrow> db" where
  "delete_macs P d = d\<lparr>db_macs := filter (\<lambda>r. \<not> P r) (db_macs d)\<rparr>"

text \<open>\<open>UPDATE\<close> of one row by key, with the constraints checked on the new row.\<close>

definition update_subnet :: "string \<Rightarrow> (subnet_row \<Rightarrow> subnet_row) \<Rightarrow> db \<Rightarrow> store_error + db" where
  "update_subnet key f d =
    (if \<forall>r\<in>set (filter (\<lambda>r. sn_id r = key) (db_subnets d)).
          subnet_row_ok d (filter (\<lambda>r. sn_id r \<noteq> key) (db_subnets d)) (f r)
     then Inr (d\<lparr>db_subnets := update_rows (\<lambda>r. sn_id r = key) f (db_subnets d)\<rparr>) else Inl ErrDb)"

definition update_address :: "string \<Rightarrow> (address_row \<Rightarrow> address_row) \<Rightarrow> db \<Rightarrow> store_error + db" where
  "update_address key f d =
    (if \<forall>r\<in>set (filter (\<lambda>r. ad_id r = key) (db_addresses d)).
          address_row_ok d (filter (\<lambda>r. ad_id r \<noteq> key) (db_addresses d)) (f r)
     then Inr (d\<lparr>db_addresses := update_rows (\<lambda>r. ad_id r = key) f (db_addresses d)\<rparr>) else Inl ErrDb)"

section \<open>Pairwise disjoint key sets\<close>

fun disjoint_list :: "('k \<Rightarrow> 'k \<Rightarrow> bool) \<Rightarrow> 'k list \<Rightarrow> bool" where
  "disjoint_list ov [] = True"
| "disjoint_list ov (x # xs) = ((\<forall>y\<in>set xs. \<not> ov x y) \<and> disjoint_list ov xs)"

text \<open>What a table of pairwise non-overlapping ranges relies on.  The lemmas cover the four ways
  such a table changes: a checked insert, a checked replacement, a deletion, a lookup by member.\<close>

locale overlap_relation =
  fixes ov :: "'k \<Rightarrow> 'k \<Rightarrow> bool"
  assumes ov_sym: "ov a b \<Longrightarrow> ov b a"
begin

lemma disjoint_snoc: "disjoint_list ov (xs @ [x]) \<longleftrightarrow> disjoint_list ov xs \<and> (\<forall>y\<in>set xs. \<not> ov y x)"
  by (induction xs) auto

lemma disjoint_map_filter:
  "disjoint_list ov (map key rows) \<Longrightarrow> disjoint_list ov (map key (filter P rows))"
  by (induction rows) auto

lemma disjoint_pair:
  "disjoint_list ov (map key rows) \<Longrightarrow> q \<in> set rows \<Longrightarrow> r \<in> set rows \<Longrightarrow> q \<noteq> r \<Longrightarrow> \<not> ov (key q) (key r)"
  by (induction rows) (auto dest: ov_sym)

lemma disjoint_update:
  assumes "disjoint_list ov (map key rows)" "distinct (map ident rows)"
    and "\<forall>r\<in>set rows. ident r \<noteq> i \<longrightarrow> \<not> ov (key r) k" "\<forall>r. key (f r) = k"
  shows "disjoint_list ov (map key (update_rows (\<lambda>r. ident r = i) f rows))"
  using assms
proof (induction rows)
  case (Cons r rows)
  have rest: "disjoint_list ov (map key (update_rows (\<lambda>r. ident r = i) f rows))"
    using Cons by simp
  show ?case
  proof (cases "ident r = i")
    case True
    then have same: "update_rows (\<lambda>r. ident r = i) f rows = rows"
      using Cons.prems(2) by (induction rows) (auto simp: update_rows_def)
    have "\<not> ov k (key s)" if "s \<in> set rows" for s
    proof -
      have "ident s \<noteq> i" using Cons.prems(2) True that by (auto simp: image_iff)
      then show ?thesis using Cons.prems(3) that ov_sym by auto
    qed
    with True same rest Cons.prems(1,4) show ?thesis by (auto simp: update_rows_def)
  next
    case False
    then have "\<not> ov (key r) (key s)" if "s \<in> set (update_rows (\<lambda>r. ident r = i) f rows)" for s
      using that Cons.prems by (auto simp: update_rows_def)
    with False rest show ?thesis by (simp add: update_rows_def)
  qed
qed (simp add: update_rows_def)

end

locale range_table = overlap_relation ov
  for ov :: "'k \<Rightarrow> 'k \<Rightarrow> bool" +
  fixes members :: "'k \<Rightarrow> 'a set"
    and valid :: "'k \<Rightarrow> bool"
  assumes ov_iff: "valid a \<Longrightarrow> valid b \<Longrightarrow> ov a b \<longleftrightarrow> members a \<inter> members b \<noteq> {}"
begin

lemma disjoint_owner_unique:
  assumes "disjoint_list ov xs" "\<forall>x\<in>set xs. valid x" "x \<in> set xs" "y \<in> set xs" "m \<in> members x" "m \<in> members y"
  shows "x = y"
  using assms by (induction xs) (auto simp: ov_iff)

lemma disjoint_members:
  assumes "disjoint_list ov xs" "\<forall>x\<in>set xs. valid x" "i < length xs" "j < length xs" "i \<noteq> j"
  shows "members (xs ! i) \<inter> members (xs ! j) = {}"
  using assms
proof (induction xs arbitrary: i j)
  case (Cons x xs)
  have head: "members x \<inter> members (xs ! k) = {}" if "k < length xs" for k
    using Cons.prems(1,2) that ov_iff [of x "xs ! k"] by auto
  show ?case
  proof (cases i)
    case 0
    then obtain k where "j = Suc k" using Cons.prems(5) by (cases j) auto
    with 0 head Cons.prems(4) show ?thesis by simp
  next
    case (Suc i')
    show ?thesis
    proof (cases j)
      case 0
      with Suc head Cons.prems(3) show ?thesis by (auto simp: Int_commute)
    next
      case (Suc j')
      with \<open>i = Suc i'\<close> Cons show ?thesis by simp
    qed
  qed
qed simp

end

lemma pg_overlaps_sym: "pg_overlaps a b \<Longrightarrow> pg_overlaps b a"
  by (simp add: pg_overlaps_def Overlaps_sym)

lemma pg_overlaps_iff:
  assumes "valid4 a" "valid4 b"
  shows "pg_overlaps a b \<longleftrightarrow> prefix_addrs a \<inter> prefix_addrs b \<noteq> {}"
  using assms Overlaps_A4_iff by (auto simp: valid4_iff pg_overlaps_def simp del: Overlaps.simps)

interpretation sn: range_table pg_overlaps prefix_addrs valid4
  by unfold_locales (rule pg_overlaps_sym, assumption, rule pg_overlaps_iff)

section \<open>The inventory invariant\<close>

definition subnets_ok :: "db \<Rightarrow> bool" where
  "subnets_ok d \<longleftrightarrow>
    distinct (map sn_id (db_subnets d)) \<and> disjoint_list pg_overlaps (map sn_cidr (db_subnets d)) \<and>
    (\<forall>r\<in>set (db_subnets d). Masked (sn_cidr r) = sn_cidr r \<and> wf_prefix (sn_cidr r) \<and>
      vlan_check (sn_vlan r) \<and> fk_ok (sn_site_id r) (map si_id (db_sites d)))"

definition addresses_ok :: "db \<Rightarrow> bool" where
  "addresses_ok d \<longleftrightarrow>
    distinct (map ad_id (db_addresses d)) \<and> distinct (map ad_address (db_addresses d)) \<and>
    (\<forall>a\<in>set (db_addresses d). fk_ok (ad_subnet_id a) (map sn_id (db_subnets d)) \<and>
      fk_ok (ad_device_id a) (map dv_id (db_devices d)) \<and> ad_state a \<in> set address_states)"

definition devices_ok :: "db \<Rightarrow> bool" where
  "devices_ok d \<longleftrightarrow>
    distinct (map dv_id (db_devices d)) \<and> distinct (map mc_id (db_macs d)) \<and>
    distinct (map mc_address (db_macs d)) \<and>
    (\<forall>m\<in>set (db_macs d). fk_ok (mc_device_id m) (map dv_id (db_devices d)))"

definition inventory_ok :: "db \<Rightarrow> bool" where
  "inventory_ok d \<longleftrightarrow> subnets_ok d \<and> addresses_ok d \<and> devices_ok d"

lemma empty_db_ok: "inventory_ok empty_db"
  by (simp add: inventory_ok_def subnets_ok_def addresses_ok_def devices_ok_def empty_db_def)

lemma map_update_rows_key:
  "(\<And>r. key (f r) = key r) \<Longrightarrow> map key (update_rows P f rows) = map key rows"
  by (simp add: update_rows_def)

lemma set_update_rows: "x \<in> set (update_rows P f rows) \<longleftrightarrow> (\<exists>r\<in>set rows. x = (if P r then f r else r))"
  by (auto simp: update_rows_def)

lemma fk_ok_mono: "fk_ok r keys \<Longrightarrow> set keys \<subseteq> set keys' \<Longrightarrow> fk_ok r keys'"
  by (auto simp: fk_ok_def split: option.splits)

lemma fk_ok_snoc: "fk_ok r keys \<Longrightarrow> fk_ok r (keys @ [k])"
  by (erule fk_ok_mono) auto

lemma fk_ok_set_null:
  assumes "fk_ok r (map key rows)"
  shows "fk_ok (set_null (\<lambda>k. k \<in> set (map key (filter P rows))) r) (map key (filter (\<lambda>x. \<not> P x) rows))"
  using assms by (auto simp: fk_ok_def set_null_def image_iff split: option.splits)

lemma fk_ok_set_null_same: "fk_ok r keys \<Longrightarrow> fk_ok (set_null gone r) keys"
  by (auto simp: fk_ok_def set_null_def split: option.splits)

lemmas inventory_defs = inventory_ok_def subnets_ok_def addresses_ok_def devices_ok_def

lemma insert_subnet_ok:
  assumes "inventory_ok d" "insert_subnet r d = Inr d'"
    and "\<forall>q\<in>set (db_subnets d). \<not> pg_overlaps (sn_cidr q) (sn_cidr r)"
    and "Masked (sn_cidr r) = sn_cidr r" "wf_prefix (sn_cidr r)"
  shows "inventory_ok d'"
proof -
  have ok: "subnet_row_ok d (db_subnets d) r" and d': "d' = d\<lparr>db_subnets := db_subnets d @ [r]\<rparr>"
    using assms(2) by (auto simp: insert_subnet_def split: if_splits)
  have "disjoint_list pg_overlaps (map sn_cidr (db_subnets d) @ [sn_cidr r])"
    using assms(1,3) by (subst sn.disjoint_snoc) (simp add: inventory_defs)
  then have "subnets_ok d'"
    using assms ok by (simp add: d' inventory_defs subnet_row_ok_def)
  moreover have "addresses_ok d'"
    using assms(1) by (auto simp: d' inventory_defs intro: fk_ok_mono)
  moreover have "devices_ok d'" using assms(1) by (simp add: d' inventory_defs)
  ultimately show ?thesis by (simp add: inventory_ok_def)
qed

lemma update_subnet_ok:
  assumes "inventory_ok d" "update_subnet key f d = Inr d'"
    and "\<forall>q\<in>set (db_subnets d). sn_id q \<noteq> key \<longrightarrow> \<not> pg_overlaps (sn_cidr q) c"
    and "\<forall>r. sn_id (f r) = sn_id r \<and> sn_cidr (f r) = c" "Masked c = c" "wf_prefix c"
  shows "inventory_ok d'"
proof -
  have ok: "\<forall>r\<in>set (db_subnets d). sn_id r = key \<longrightarrow>
      subnet_row_ok d (filter (\<lambda>r. sn_id r \<noteq> key) (db_subnets d)) (f r)"
    and d': "d' = d\<lparr>db_subnets := update_rows (\<lambda>r. sn_id r = key) f (db_subnets d)\<rparr>"
    using assms(2) by (auto simp: update_subnet_def split: if_splits)
  have ids: "map sn_id (update_rows (\<lambda>r. sn_id r = key) f (db_subnets d)) = map sn_id (db_subnets d)"
    using assms(4) by (intro map_update_rows_key) simp
  have "disjoint_list pg_overlaps (map sn_cidr (update_rows (\<lambda>r. sn_id r = key) f (db_subnets d)))"
    using assms by (intro sn.disjoint_update) (auto simp: inventory_defs)
  then have "subnets_ok d'"
    using assms(1,4,5,6) ok ids by (auto simp: d' inventory_defs subnet_row_ok_def set_update_rows)
  moreover have "addresses_ok d'" "devices_ok d'"
    using assms(1) ids by (auto simp: d' inventory_defs)
  ultimately show ?thesis by (simp add: inventory_ok_def)
qed

lemma set_filter_ids: "set (map key (filter P rows)) \<subseteq> set (map key rows)"
  by auto

lemma delete_subnets_ok:
  assumes "inventory_ok d"
  shows "inventory_ok (delete_subnets P d)"
proof -
  have "subnets_ok (delete_subnets P d)"
    using assms by (auto simp: delete_subnets_def inventory_defs Let_def distinct_map_filterI intro: sn.disjoint_map_filter)
  moreover have "addresses_ok (delete_subnets P d)"
    using assms fk_ok_set_null [of _ sn_id "db_subnets d" P]
    by (auto simp: delete_subnets_def inventory_defs Let_def comp_def)
  moreover have "devices_ok (delete_subnets P d)"
    using assms by (simp add: delete_subnets_def inventory_defs Let_def)
  ultimately show ?thesis by (simp add: inventory_ok_def)
qed

lemma delete_addresses_ok: "inventory_ok d \<Longrightarrow> inventory_ok (delete_addresses P d)"
  by (auto simp: delete_addresses_def inventory_defs Let_def distinct_map_filterI)

lemma delete_macs_ok: "inventory_ok d \<Longrightarrow> inventory_ok (delete_macs P d)"
  by (auto simp: delete_macs_def inventory_defs distinct_map_filterI)

lemma fk_ok_survivor:
  assumes "fk_ok r (map key rows)" "set_null (\<lambda>k. k \<in> set (map key (filter P rows))) r = r"
  shows "fk_ok r (map key (filter (\<lambda>x. \<not> P x) rows))"
  using fk_ok_set_null [OF assms(1), of P] assms(2) by simp

lemma delete_devices_ok:
  assumes "inventory_ok d"
  shows "inventory_ok (delete_devices P d)"
proof -
  have "subnets_ok (delete_devices P d)"
    using assms by (simp add: delete_devices_def inventory_defs Let_def)
  moreover have "addresses_ok (delete_devices P d)"
    using assms fk_ok_set_null [of _ dv_id "db_devices d" P]
    by (auto simp: delete_devices_def inventory_defs Let_def comp_def)
  moreover have "devices_ok (delete_devices P d)"
    using assms fk_ok_survivor [of _ dv_id "db_devices d" P]
    by (auto simp: delete_devices_def inventory_defs Let_def distinct_map_filterI)
  ultimately show ?thesis by (simp add: inventory_ok_def)
qed

lemma insert_device_ok: "inventory_ok d \<Longrightarrow> insert_device r d = Inr d' \<Longrightarrow> inventory_ok d'"
  by (auto simp: insert_device_def inventory_defs split: if_splits intro!: fk_ok_snoc)

lemma insert_address_ok: "inventory_ok d \<Longrightarrow> insert_address r d = Inr d' \<Longrightarrow> inventory_ok d'"
  by (auto simp: insert_address_def address_row_ok_def inventory_defs split: if_splits)

lemma insert_mac_ok: "inventory_ok d \<Longrightarrow> insert_mac r d = Inr d' \<Longrightarrow> inventory_ok d'"
  by (auto simp: insert_mac_def mac_row_ok_def inventory_defs split: if_splits)

text \<open>A row replaced under its key keeps a unique column unique when its new value is fresh.\<close>

lemma distinct_update_rows:
  assumes "distinct (map key rows)" "distinct (map ident rows)"
    and "\<And>r. r \<in> set rows \<Longrightarrow> ident r = i \<Longrightarrow> key (f r) \<notin> set (map key (filter (\<lambda>r. ident r \<noteq> i) rows))"
  shows "distinct (map key (update_rows (\<lambda>r. ident r = i) f rows))"
  using assms
proof (induction rows)
  case (Cons r rows)
  show ?case
  proof (cases "ident r = i")
    case True
    then have same: "update_rows (\<lambda>r. ident r = i) f rows = rows"
      using Cons.prems(2) by (induction rows) (auto simp: update_rows_def)
    have "filter (\<lambda>r. ident r \<noteq> i) rows = rows"
      using Cons.prems(2) True by (auto simp: filter_id_conv image_iff)
    with Cons.prems(3) [of r] True same Cons.prems(1) show ?thesis
      by (auto simp: update_rows_def)
  next
    case False
    have rest: "distinct (map key (update_rows (\<lambda>r. ident r = i) f rows))"
    proof (rule Cons.IH)
      show "key (f s) \<notin> set (map key (filter (\<lambda>r. ident r \<noteq> i) rows))"
        if "s \<in> set rows" "ident s = i" for s
        using Cons.prems(3) [of s] that False by auto
    qed (use Cons.prems in auto)
    moreover have "key r \<notin> set (map key (update_rows (\<lambda>r. ident r = i) f rows))"
    proof
      assume "key r \<in> set (map key (update_rows (\<lambda>r. ident r = i) f rows))"
      then obtain s where s: "s \<in> set rows" "key r = key (if ident s = i then f s else s)"
        by (auto simp: update_rows_def)
      then have "ident s = i" using Cons.prems(1) by (auto split: if_splits)
      with s Cons.prems(3) [of s] False show False by auto
    qed
    ultimately show ?thesis using False by (simp add: update_rows_def)
  qed
qed (simp add: update_rows_def)

lemma update_address_ok:
  assumes "inventory_ok d" "update_address key f d = Inr d'" "\<forall>r. ad_id (f r) = ad_id r"
  shows "inventory_ok d'"
proof -
  have ok: "\<forall>r\<in>set (db_addresses d). ad_id r = key \<longrightarrow>
      address_row_ok d (filter (\<lambda>r. ad_id r \<noteq> key) (db_addresses d)) (f r)"
    and d': "d' = d\<lparr>db_addresses := update_rows (\<lambda>r. ad_id r = key) f (db_addresses d)\<rparr>"
    using assms(2) by (auto simp: update_address_def split: if_splits)
  have ids: "map ad_id (update_rows (\<lambda>r. ad_id r = key) f (db_addresses d)) = map ad_id (db_addresses d)"
    using assms(3) by (intro map_update_rows_key) simp
  have "distinct (map ad_address (update_rows (\<lambda>r. ad_id r = key) f (db_addresses d)))"
    using assms(1) ok by (intro distinct_update_rows) (auto simp: inventory_defs address_row_ok_def)
  then have "addresses_ok d'"
    using assms(1) ok ids by (auto simp: d' inventory_defs address_row_ok_def set_update_rows)
  moreover have "subnets_ok d'" "devices_ok d'" using assms(1) by (auto simp: d' inventory_defs)
  ultimately show ?thesis by (simp add: inventory_ok_def)
qed

text \<open>Updates of columns no constraint mentions.\<close>

lemma update_address_columns_ok:
  assumes "inventory_ok d" "\<forall>r. ad_id (f r) = ad_id r \<and> ad_address (f r) = ad_address r \<and>
      ad_subnet_id (f r) = ad_subnet_id r \<and> (ad_device_id (f r) = ad_device_id r \<or> ad_device_id (f r) = None) \<and>
      (ad_state (f r) = ad_state r \<or> ad_state (f r) \<in> set address_states)"
  shows "inventory_ok (d\<lparr>db_addresses := update_rows P f (db_addresses d)\<rparr>)"
proof -
  have "map ad_id (update_rows P f (db_addresses d)) = map ad_id (db_addresses d)"
    "map ad_address (update_rows P f (db_addresses d)) = map ad_address (db_addresses d)"
    using assms(2) by (simp_all add: map_update_rows_key)
  moreover have "fk_ok None keys" for keys by (simp add: fk_ok_def)
  ultimately show ?thesis
    using assms by (auto simp: inventory_defs set_update_rows) metis+
qed

lemma update_subnet_vlan_ok:
  assumes "inventory_ok d" "vlan_check v" "\<forall>r. sn_id (f r) = sn_id r \<and> sn_cidr (f r) = sn_cidr r \<and>
      sn_site_id (f r) = sn_site_id r \<and> sn_vlan (f r) = v"
  shows "inventory_ok (d\<lparr>db_subnets := update_rows P f (db_subnets d)\<rparr>)"
proof -
  have "map sn_id (update_rows P f (db_subnets d)) = map sn_id (db_subnets d)"
    "map sn_cidr (update_rows P f (db_subnets d)) = map sn_cidr (db_subnets d)"
    using assms(3) by (simp_all add: map_update_rows_key)
  then show ?thesis using assms by (auto simp: inventory_defs set_update_rows)
qed

lemma update_device_columns_ok:
  assumes "inventory_ok d" "\<forall>r. dv_id (f r) = dv_id r"
  shows "inventory_ok (d\<lparr>db_devices := update_rows P f (db_devices d)\<rparr>)"
  using assms by (simp add: inventory_defs map_update_rows_key)

lemma inventory_ok_other_tables [simp]:
  "inventory_ok (d\<lparr>db_discoveries := xs\<rparr>) = inventory_ok d"
  "inventory_ok (d\<lparr>db_tags := ts\<rparr>) = inventory_ok d"
  "inventory_ok (d\<lparr>db_taggings := us\<rparr>) = inventory_ok d"
  "inventory_ok (d\<lparr>db_jobs := js\<rparr>) = inventory_ok d"
  "inventory_ok (d\<lparr>db_rejections := rs\<rparr>) = inventory_ok d"
  by (simp_all add: inventory_defs)

end
