(* ===== verification/StoreIpam.thy ===== *)
theory StoreIpam
  imports Db
begin

text \<open>
  \<open>internal/store/ipam.go\<close> and the address and subnet operations of \<open>internal/store/bulk.go\<close>.
  An operation takes the casts of the database, the current time, the random token it would draw
  (\<open>None\<close> when the random source fails) and the database, and returns its result with the new
  database.
\<close>

section \<open>Values\<close>

record DashboardStats =
  st_SubnetCount :: nat
  st_AddressCount :: nat
  st_ConflictCount :: nat
  st_DeviceCount :: nat

record Site =
  Site_ID :: string
  Site_Name :: string

record Subnet =
  su_ID :: string
  su_SiteID :: string
  su_SiteName :: string
  su_CIDR :: string
  su_Name :: string
  su_VLAN :: "int option"
  su_Description :: string
  su_Tags :: "string list"
  su_AddressCount :: nat
  su_ConflictCount :: nat
  su_Capacity :: "64 word"
  su_UtilizationPct :: rat
  su_CreatedAt :: time
  su_UpdatedAt :: time

record IPAddress =
  ip_ID :: string
  ip_SubnetID :: string
  ip_DeviceID :: string
  ip_DeviceName :: string
  ip_Address :: string
  ip_State :: string
  ip_Hostname :: string
  ip_Notes :: string
  ip_Tags :: "string list"
  ip_VLAN :: "int option"
  ip_CreatedAt :: time
  ip_UpdatedAt :: time

record SubnetInput =
  si_SiteID :: string
  si_CIDR :: string
  si_Name :: string
  si_VLAN :: "int option"
  si_Description :: string

record AddressInput =
  ai_Address :: string
  ai_State :: string
  ai_DeviceID :: string
  ai_Hostname :: string
  ai_Notes :: string

definition emptyToNil :: "string \<Rightarrow> string option" where
  "emptyToNil value = (if TrimSpace value = [] then None else Some value)"

definition ParseVLAN :: "string \<Rightarrow> store_error + int option" where
  "ParseVLAN value =
    (let v = TrimSpace value in
     if v = [] then Inr None
     else (case Atoi v of None \<Rightarrow> Inl ErrArgs
       | Some n \<Rightarrow> if n < 1 \<or> 4094 < n then Inl ErrArgs else Inr (Some n)))"

section \<open>Queries\<close>

definition DashboardStats_query :: "db \<Rightarrow> DashboardStats" where
  "DashboardStats_query d = \<lparr>
     st_SubnetCount = length (db_subnets d), st_AddressCount = length (db_addresses d),
     st_ConflictCount = length (filter (\<lambda>a. ad_state a = ''conflict'') (db_addresses d)),
     st_DeviceCount = length (db_devices d)\<rparr>"

definition ListSites :: "db \<Rightarrow> Site list" where
  "ListSites d = map (\<lambda>r. \<lparr>Site_ID = si_id r, Site_Name = si_name r\<rparr>) (sort_key si_name (db_sites d))"

definition coalesce :: "string option \<Rightarrow> string" where
  "coalesce r = (case r of None \<Rightarrow> [] | Some k \<Rightarrow> k)"

text \<open>The distinct tag names of an entity (their order is up to the database).\<close>

definition tag_names :: "string \<Rightarrow> string \<Rightarrow> db \<Rightarrow> string list" where
  "tag_names kind eid d =
    remdups (concat (map (\<lambda>x. map tg_name (filter (\<lambda>t. tg_id t = tx_tag_id x) (db_tags d)))
      (filter (\<lambda>x. tx_entity_type x = kind \<and> tx_entity_id x = eid) (db_taggings d))))"

definition site_name :: "db \<Rightarrow> string option \<Rightarrow> string" where
  "site_name d sid = (case sid of None \<Rightarrow> []
     | Some k \<Rightarrow> (case find (\<lambda>r. si_id r = k) (db_sites d) of None \<Rightarrow> [] | Some r \<Rightarrow> si_name r))"

definition device_name :: "db \<Rightarrow> string option \<Rightarrow> string" where
  "device_name d did = (case did of None \<Rightarrow> []
     | Some k \<Rightarrow> (case find (\<lambda>r. dv_id r = k) (db_devices d) of None \<Rightarrow> [] | Some r \<Rightarrow> dv_name r))"

definition scanSubnet :: "db \<Rightarrow> subnet_row \<Rightarrow> store_error + Subnet" where
  "scanSubnet d r =
    (let mine = filter (\<lambda>a. ad_subnet_id a = Some (sn_id r)) (db_addresses d);
         cidr = Prefix_String (sn_cidr r) in
     case AddressCapacity cidr of Inl e \<Rightarrow> Inl (ErrIpam e)
     | Inr capacity \<Rightarrow> Inr \<lparr>
         su_ID = sn_id r, su_SiteID = coalesce (sn_site_id r), su_SiteName = site_name d (sn_site_id r),
         su_CIDR = cidr, su_Name = sn_name r, su_VLAN = sn_vlan r, su_Description = sn_description r,
         su_Tags = tag_names ''subnet'' (sn_id r) d, su_AddressCount = length mine,
         su_ConflictCount = length (filter (\<lambda>a. ad_state a = ''conflict'') mine),
         su_Capacity = capacity, su_UtilizationPct = UtilizationPercent (of_nat (length mine)) capacity,
         su_CreatedAt = sn_created_at r, su_UpdatedAt = sn_updated_at r\<rparr>)"

definition ListSubnets :: "db \<Rightarrow> store_error + Subnet list" where
  "ListSubnets d = map_res (scanSubnet d) (sort_key (\<lambda>r. pg_key (sn_cidr r)) (db_subnets d))"

definition GetSubnet :: "string \<Rightarrow> db \<Rightarrow> store_error + Subnet" where
  "GetSubnet key d =
    (case find (\<lambda>r. sn_id r = key) (db_subnets d) of None \<Rightarrow> Inl ErrNotFound | Some r \<Rightarrow> scanSubnet d r)"

definition scanAddress :: "db \<Rightarrow> address_row \<Rightarrow> store_error + IPAddress" where
  "scanAddress d a =
    (case ad_subnet_id a of None \<Rightarrow> Inl ErrScanNull
     | Some sid \<Rightarrow> Inr \<lparr>ip_ID = ad_id a, ip_SubnetID = sid, ip_DeviceID = coalesce (ad_device_id a),
         ip_DeviceName = device_name d (ad_device_id a), ip_Address = pg_host (ad_address a),
         ip_State = ad_state a, ip_Hostname = ad_hostname a, ip_Notes = ad_notes a, ip_Tags = [], ip_VLAN = None,
         ip_CreatedAt = ad_created_at a, ip_UpdatedAt = ad_updated_at a\<rparr>)"

definition ListAddresses :: "string \<Rightarrow> db \<Rightarrow> store_error + IPAddress list" where
  "ListAddresses sid d =
    map_res (\<lambda>a. bind_res (scanAddress d a) (\<lambda>x. Inr (x\<lparr>ip_Tags := tag_names ''ip_address'' (ad_id a) d\<rparr>)))
      (sort_key (\<lambda>a. pg_key (ad_address a)) (filter (\<lambda>a. ad_subnet_id a = Some sid) (db_addresses d)))"

definition GetAddress :: "string \<Rightarrow> db \<Rightarrow> store_error + IPAddress" where
  "GetAddress key d =
    (case find (\<lambda>a. ad_id a = key) (db_addresses d) of None \<Rightarrow> Inl ErrNotFound | Some a \<Rightarrow> scanAddress d a)"

section \<open>Subnets\<close>

definition ensureNoSubnetOverlap :: "pg \<Rightarrow> string \<Rightarrow> string \<Rightarrow> db \<Rightarrow> store_error option" where
  "ensureNoSubnetOverlap g existingID cidr d =
    (case pg_cidr g cidr of None \<Rightarrow> Some ErrDb
     | Some c \<Rightarrow>
        (case find (\<lambda>r. pg_overlaps (sn_cidr r) c \<and> (existingID = [] \<or> sn_id r \<noteq> existingID)) (db_subnets d) of
           Some _ \<Rightarrow> Some ErrOverlap
         | None \<Rightarrow> None))"

text \<open>\<open>CreateSubnet\<close>, \<open>UpdateSubnet\<close> and \<open>UpdateAddress\<close> are not transactions: when reading the row
  back fails, the change stays.  They return the result and the database side by side.\<close>

definition CreateSubnet :: "pg \<Rightarrow> time \<Rightarrow> string option \<Rightarrow> SubnetInput \<Rightarrow> db \<Rightarrow> (store_error + Subnet) \<times> db" where
  "CreateSubnet g now tok inp d =
    (case ensureNoSubnetOverlap g [] (si_CIDR inp) d of Some e \<Rightarrow> (Inl e, d)
     | None \<Rightarrow>
       (case tok of None \<Rightarrow> (Inl ErrRand, d)
        | Some key \<Rightarrow>
          (case pg_cidr g (si_CIDR inp) of None \<Rightarrow> (Inl ErrDb, d)
           | Some c \<Rightarrow>
              (case insert_subnet \<lparr>sn_id = key, sn_site_id = emptyToNil (si_SiteID inp), sn_cidr = c,
                  sn_name = si_Name inp, sn_vlan = si_VLAN inp, sn_description = si_Description inp,
                  sn_created_at = now, sn_updated_at = now\<rparr> d of
                 Inl e \<Rightarrow> (Inl e, d)
               | Inr d' \<Rightarrow> (GetSubnet key d', d')))))"

definition UpdateSubnet :: "pg \<Rightarrow> time \<Rightarrow> string \<Rightarrow> SubnetInput \<Rightarrow> db \<Rightarrow> (store_error + Subnet) \<times> db" where
  "UpdateSubnet g now key inp d =
    (case ensureNoSubnetOverlap g key (si_CIDR inp) d of Some e \<Rightarrow> (Inl e, d)
     | None \<Rightarrow>
       (case pg_cidr g (si_CIDR inp) of None \<Rightarrow> (Inl ErrDb, d)
        | Some c \<Rightarrow>
           (case update_subnet key (\<lambda>r. r\<lparr>sn_site_id := emptyToNil (si_SiteID inp), sn_cidr := c,
               sn_name := si_Name inp, sn_vlan := si_VLAN inp, sn_description := si_Description inp,
               sn_updated_at := now\<rparr>) d of
              Inl e \<Rightarrow> (Inl e, d)
            | Inr d' \<Rightarrow> if affected (\<lambda>r. sn_id r = key) (db_subnets d) = 0 then (Inl ErrNotFound, d')
                       else (GetSubnet key d', d'))))"

definition DeleteSubnet :: "string \<Rightarrow> db \<Rightarrow> store_error + db" where
  "DeleteSubnet key d =
    (if affected (\<lambda>r. sn_id r = key) (db_subnets d) = 0 then Inl ErrNotFound
     else Inr (delete_subnets (\<lambda>r. sn_id r = key) d))"

section \<open>Addresses\<close>

definition CreateAddress :: "pg \<Rightarrow> time \<Rightarrow> string option \<Rightarrow> Subnet \<Rightarrow> AddressInput \<Rightarrow> db \<Rightarrow>
    store_error + (IPAddress \<times> db)" where
  "CreateAddress g now tok subnet inp d =
    (case Contains (su_CIDR subnet) (ai_Address inp) of Inl e \<Rightarrow> Inl (ErrIpam e)
     | Inr contains \<Rightarrow>
       if \<not> contains then Inl ErrAddressOutOfCIDR
       else (case tok of None \<Rightarrow> Inl ErrRand
        | Some key \<Rightarrow>
          (case pg_inet g (ai_Address inp) of None \<Rightarrow> Inl ErrDb
           | Some i \<Rightarrow>
              bind_res (insert_address \<lparr>ad_id = key, ad_subnet_id = Some (su_ID subnet),
                  ad_device_id = emptyToNil (ai_DeviceID inp), ad_address = i, ad_state = ai_State inp,
                  ad_hostname = ai_Hostname inp, ad_notes = ai_Notes inp, ad_last_seen_at = None,
                  ad_created_at = now, ad_updated_at = now\<rparr> d)
                (\<lambda>d'. Inr (\<lparr>ip_ID = key, ip_SubnetID = su_ID subnet,
                    ip_DeviceID = coalesce (emptyToNil (ai_DeviceID inp)), ip_DeviceName = [],
                    ip_Address = pg_host i, ip_State = ai_State inp, ip_Hostname = ai_Hostname inp,
                    ip_Notes = ai_Notes inp, ip_Tags = [], ip_VLAN = None,
                    ip_CreatedAt = now, ip_UpdatedAt = now\<rparr>, d')))))"

definition UpdateAddress :: "pg \<Rightarrow> time \<Rightarrow> string \<Rightarrow> Subnet \<Rightarrow> AddressInput \<Rightarrow> db \<Rightarrow>
    (store_error + IPAddress) \<times> db" where
  "UpdateAddress g now key subnet inp d =
    (case Contains (su_CIDR subnet) (ai_Address inp) of Inl e \<Rightarrow> (Inl (ErrIpam e), d)
     | Inr contains \<Rightarrow>
       if \<not> contains then (Inl ErrAddressOutOfCIDR, d)
       else (case pg_inet g (ai_Address inp) of None \<Rightarrow> (Inl ErrDb, d)
        | Some i \<Rightarrow>
           (case update_address key (\<lambda>a. a\<lparr>ad_device_id := emptyToNil (ai_DeviceID inp), ad_address := i,
               ad_state := ai_State inp, ad_hostname := ai_Hostname inp, ad_notes := ai_Notes inp,
               ad_updated_at := now\<rparr>) d of
              Inl e \<Rightarrow> (Inl e, d)
            | Inr d' \<Rightarrow> if affected (\<lambda>a. ad_id a = key) (db_addresses d) = 0 then (Inl ErrNotFound, d')
                       else (GetAddress key d', d'))))"

text \<open>The transaction of \<open>DeleteAddress\<close>: the address goes, and its device when it was the last one.\<close>

definition delete_orphan_devices :: "string list \<Rightarrow> db \<Rightarrow> db" where
  "delete_orphan_devices ids d =
    delete_devices (\<lambda>v. dv_id v \<in> set ids \<and> \<not> (\<exists>a\<in>set (db_addresses d). ad_device_id a = Some (dv_id v))) d"

definition DeleteAddress :: "string \<Rightarrow> db \<Rightarrow> store_error + db" where
  "DeleteAddress key d =
    (case find (\<lambda>a. ad_id a = key) (db_addresses d) of None \<Rightarrow> Inl ErrNotFound
     | Some a \<Rightarrow>
        let d1 = delete_addresses (\<lambda>a. ad_id a = key) d; deviceID = coalesce (ad_device_id a) in
        Inr (if deviceID \<noteq> [] then delete_orphan_devices [deviceID] d1 else d1))"

section \<open>Bulk operations\<close>

definition BulkSetAddressState :: "time \<Rightarrow> string list \<Rightarrow> string \<Rightarrow> db \<Rightarrow> store_error + (nat \<times> db)" where
  "BulkSetAddressState now ids state d =
    (if state \<notin> set address_states then Inl ErrDb
     else Inr (affected (\<lambda>a. ad_id a \<in> set ids) (db_addresses d),
       d\<lparr>db_addresses := update_rows (\<lambda>a. ad_id a \<in> set ids) (\<lambda>a. a\<lparr>ad_state := state, ad_updated_at := now\<rparr>)
         (db_addresses d)\<rparr>))"

definition BulkClearAddressDevice :: "time \<Rightarrow> string list \<Rightarrow> db \<Rightarrow> nat \<times> db" where
  "BulkClearAddressDevice now ids d =
    (affected (\<lambda>a. ad_id a \<in> set ids) (db_addresses d),
     d\<lparr>db_addresses := update_rows (\<lambda>a. ad_id a \<in> set ids) (\<lambda>a. a\<lparr>ad_device_id := None, ad_updated_at := now\<rparr>)
       (db_addresses d)\<rparr>)"

definition BulkDeleteAddresses :: "string list \<Rightarrow> db \<Rightarrow> nat \<times> db" where
  "BulkDeleteAddresses ids d =
    (let rows = filter (\<lambda>a. ad_id a \<in> set ids) (db_addresses d);
         deviceIDs = filter (\<lambda>x. x \<noteq> []) (map (\<lambda>a. coalesce (ad_device_id a)) rows);
         d1 = delete_addresses (\<lambda>a. ad_id a \<in> set ids) d in
     (length rows, if deviceIDs \<noteq> [] then delete_orphan_devices deviceIDs d1 else d1))"

definition BulkSetSubnetVLAN :: "time \<Rightarrow> string list \<Rightarrow> int option \<Rightarrow> db \<Rightarrow> store_error + (nat \<times> db)" where
  "BulkSetSubnetVLAN now ids vlan d =
    (if (\<exists>r\<in>set (db_subnets d). sn_id r \<in> set ids) \<and> \<not> vlan_check vlan then Inl ErrDb
     else Inr (affected (\<lambda>r. sn_id r \<in> set ids) (db_subnets d),
       d\<lparr>db_subnets := update_rows (\<lambda>r. sn_id r \<in> set ids) (\<lambda>r. r\<lparr>sn_vlan := vlan, sn_updated_at := now\<rparr>)
         (db_subnets d)\<rparr>))"

definition BulkDeleteSubnets :: "string list \<Rightarrow> db \<Rightarrow> nat \<times> db" where
  "BulkDeleteSubnets ids d =
    (affected (\<lambda>r. sn_id r \<in> set ids) (db_subnets d), delete_subnets (\<lambda>r. sn_id r \<in> set ids) d)"

definition BulkDeleteDevices :: "string list \<Rightarrow> db \<Rightarrow> nat \<times> db" where
  "BulkDeleteDevices ids d =
    (let d1 = delete_addresses (\<lambda>a. case ad_device_id a of Some k \<Rightarrow> k \<in> set ids | None \<Rightarrow> False) d in
     (affected (\<lambda>v. dv_id v \<in> set ids) (db_devices d), delete_devices (\<lambda>v. dv_id v \<in> set ids) d1))"

definition ensure_tag :: "string \<Rightarrow> string \<Rightarrow> db \<Rightarrow> store_error + (string \<times> db)" where
  "ensure_tag key name d =
    (case find (\<lambda>t. tg_name t = name) (db_tags d) of
       Some t \<Rightarrow> Inr (tg_id t, d)
     | None \<Rightarrow> if key \<in> set (map tg_id (db_tags d)) then Inl ErrDb
         else Inr (key, d\<lparr>db_tags := db_tags d @ [\<lparr>tg_id = key, tg_name = name, tg_color = ''slate''\<rparr>]\<rparr>))"

fun insert_taggings :: "string \<Rightarrow> string \<Rightarrow> string list \<Rightarrow> tagging_row list \<Rightarrow> tagging_row list" where
  "insert_taggings tag kind [] rows = rows"
| "insert_taggings tag kind (e # es) rows =
    (let x = \<lparr>tx_tag_id = tag, tx_entity_type = kind, tx_entity_id = e\<rparr> in
     insert_taggings tag kind es (if x \<in> set rows then rows else rows @ [x]))"

definition BulkAddTag :: "string option \<Rightarrow> string \<Rightarrow> string list \<Rightarrow> string \<Rightarrow> db \<Rightarrow> store_error + (nat \<times> db)" where
  "BulkAddTag tok kind ids name d =
    (let n = TrimSpace name in
     if n = [] then Inl ErrArgs
     else (case tok of None \<Rightarrow> Inl ErrRand
       | Some key \<Rightarrow> bind_res (ensure_tag key n d) (\<lambda>(tag, d1).
           let rows = insert_taggings tag kind ids (db_taggings d1) in
           Inr (length rows - length (db_taggings d1), d1\<lparr>db_taggings := rows\<rparr>))))"

definition BulkRemoveTag :: "string \<Rightarrow> string list \<Rightarrow> string \<Rightarrow> db \<Rightarrow> store_error + (nat \<times> db)" where
  "BulkRemoveTag kind ids name d =
    (let n = TrimSpace name in
     if n = [] then Inl ErrArgs
     else
      let hit = (\<lambda>x. tx_entity_type x = kind \<and> tx_entity_id x \<in> set ids \<and>
                 (case find (\<lambda>t. tg_name t = n) (db_tags d) of None \<Rightarrow> False | Some t \<Rightarrow> tx_tag_id x = tg_id t)) in
      Inr (affected hit (db_taggings d), d\<lparr>db_taggings := filter (\<lambda>x. \<not> hit x) (db_taggings d)\<rparr>))"

section \<open>The invariant is kept\<close>

lemma ensureNoSubnetOverlap_None:
  assumes "ensureNoSubnetOverlap g key cidr d = None"
  obtains c where "pg_cidr g cidr = Some c"
    "\<forall>r\<in>set (db_subnets d). (key = [] \<or> sn_id r \<noteq> key) \<longrightarrow> \<not> pg_overlaps (sn_cidr r) c"
  using assms by (auto simp: ensureNoSubnetOverlap_def find_None_iff split: option.splits)

lemma pg_documented_cidr: "pg_documented g \<Longrightarrow> pg_cidr g s = Some c \<Longrightarrow> Masked c = c \<and> wf_prefix c"
  by (simp add: pg_documented_def)

lemma CreateSubnet_cases:
  assumes "CreateSubnet g now tok inp d = (res, d')"
  obtains (same) e where "d' = d" "res = Inl e"
    | (new) key c where "tok = Some key" "pg_cidr g (si_CIDR inp) = Some c"
      "\<forall>r\<in>set (db_subnets d). \<not> pg_overlaps (sn_cidr r) c"
      "insert_subnet \<lparr>sn_id = key, sn_site_id = emptyToNil (si_SiteID inp), sn_cidr = c,
          sn_name = si_Name inp, sn_vlan = si_VLAN inp, sn_description = si_Description inp,
          sn_created_at = now, sn_updated_at = now\<rparr> d = Inr d'" "res = GetSubnet key d'"
  using assms
  by (auto simp: CreateSubnet_def elim!: ensureNoSubnetOverlap_None split: option.splits sum.splits)

lemma CreateSubnet_inv:
  assumes "pg_documented g" "inventory_ok d"
  shows "inventory_ok (snd (CreateSubnet g now tok inp d))"
proof (cases "CreateSubnet g now tok inp d")
  case (Pair res d')
  then show ?thesis
  proof (cases rule: CreateSubnet_cases)
    case same
    then show ?thesis using Pair assms(2) by simp
  next
    case (new key c)
    then have "inventory_ok d'"
      using insert_subnet_ok [OF assms(2) new(4)] pg_documented_cidr [OF assms(1) new(2)] by simp
    then show ?thesis using Pair by simp
  qed
qed

lemma UpdateSubnet_cases:
  assumes "UpdateSubnet g now key inp d = (res, d')"
  obtains (same) e where "d' = d" "res = Inl e"
    | (changed) c where "pg_cidr g (si_CIDR inp) = Some c"
      "\<forall>r\<in>set (db_subnets d). (key = [] \<or> sn_id r \<noteq> key) \<longrightarrow> \<not> pg_overlaps (sn_cidr r) c"
      "update_subnet key (\<lambda>r. r\<lparr>sn_site_id := emptyToNil (si_SiteID inp), sn_cidr := c,
          sn_name := si_Name inp, sn_vlan := si_VLAN inp, sn_description := si_Description inp,
          sn_updated_at := now\<rparr>) d = Inr d'"
      "res = (if affected (\<lambda>r. sn_id r = key) (db_subnets d) = 0 then Inl ErrNotFound else GetSubnet key d')"
  using assms
  by (auto simp: UpdateSubnet_def elim!: ensureNoSubnetOverlap_None split: option.splits sum.splits if_splits)

lemma UpdateSubnet_inv:
  assumes "pg_documented g" "inventory_ok d"
  shows "inventory_ok (snd (UpdateSubnet g now key inp d))"
proof (cases "UpdateSubnet g now key inp d")
  case (Pair res d')
  then show ?thesis
  proof (cases rule: UpdateSubnet_cases)
    case same
    then show ?thesis using Pair assms(2) by simp
  next
    case (changed c)
    then have "inventory_ok d'"
      using pg_documented_cidr [OF assms(1) changed(1)]
      by (intro update_subnet_ok [OF assms(2) changed(3)]) auto
    then show ?thesis using Pair by simp
  qed
qed

lemma CreateAddress_inv:
  assumes "inventory_ok d" "CreateAddress g now tok subnet inp d = Inr (a, d')"
  shows "inventory_ok d'"
  using assms insert_address_ok [OF assms(1)]
  by (auto simp: CreateAddress_def bind_res_eq_Inr split: sum.splits option.splits if_splits)

lemma UpdateAddress_inv:
  assumes "inventory_ok d"
  shows "inventory_ok (snd (UpdateAddress g now key subnet inp d))"
  using assms by (auto simp: UpdateAddress_def split: sum.splits option.splits if_splits intro: update_address_ok)

lemma delete_orphan_devices_ok: "inventory_ok d \<Longrightarrow> inventory_ok (delete_orphan_devices ids d)"
  by (simp add: delete_orphan_devices_def delete_devices_ok)

lemma DeleteAddress_inv: "inventory_ok d \<Longrightarrow> DeleteAddress key d = Inr d' \<Longrightarrow> inventory_ok d'"
  by (auto simp: DeleteAddress_def Let_def delete_orphan_devices_ok delete_addresses_ok
      split: option.splits if_splits)

lemma bulk_inv:
  assumes "inventory_ok d"
  shows "BulkSetAddressState now ids state d = Inr (n, d') \<Longrightarrow> inventory_ok d'"
    "inventory_ok (snd (BulkClearAddressDevice now ids d))"
    "inventory_ok (snd (BulkDeleteAddresses ids d))"
    "BulkSetSubnetVLAN now ids vlan d = Inr (n, d') \<Longrightarrow> inventory_ok d'"
    "inventory_ok (snd (BulkDeleteSubnets ids d))"
    "inventory_ok (snd (BulkDeleteDevices ids d))"
proof -
  show "inventory_ok d'" if "BulkSetAddressState now ids state d = Inr (n, d')"
    using that assms by (auto simp: BulkSetAddressState_def split: if_splits intro!: update_address_columns_ok)
  show "inventory_ok (snd (BulkClearAddressDevice now ids d))"
    using assms by (auto simp: BulkClearAddressDevice_def intro!: update_address_columns_ok)
  show "inventory_ok (snd (BulkDeleteAddresses ids d))"
    using assms by (simp add: BulkDeleteAddresses_def Let_def delete_orphan_devices_ok delete_addresses_ok)
  show "inventory_ok (snd (BulkDeleteSubnets ids d))"
    using assms by (simp add: BulkDeleteSubnets_def delete_subnets_ok)
  show "inventory_ok (snd (BulkDeleteDevices ids d))"
    using assms by (simp add: BulkDeleteDevices_def Let_def delete_devices_ok delete_addresses_ok)
  show "inventory_ok d'" if bulk: "BulkSetSubnetVLAN now ids vlan d = Inr (n, d')"
  proof (cases "vlan_check vlan")
    case True
    then show ?thesis
      using bulk assms by (auto simp: BulkSetSubnetVLAN_def split: if_splits intro!: update_subnet_vlan_ok)
  next
    case False
    then have "update_rows (\<lambda>r. sn_id r \<in> set ids) f (db_subnets d) = db_subnets d" for f
      using bulk by (auto simp: BulkSetSubnetVLAN_def update_rows_def intro!: map_idI split: if_splits)
    then show ?thesis using bulk assms by (auto simp: BulkSetSubnetVLAN_def split: if_splits)
  qed
qed

section \<open>Subnets as a partition of the address space\<close>

definition ipv4_db :: "db \<Rightarrow> bool" where
  "ipv4_db d \<longleftrightarrow> (\<forall>r\<in>set (db_subnets d). valid4 (sn_cidr r))"

lemma canon_cidr_valid4: "pg_documented g \<Longrightarrow> canon_cidr s \<Longrightarrow> pg_cidr g s = Some c \<Longrightarrow> valid4 c"
  using ParsePrefix_wf by (auto simp: pg_documented_def canon_cidr_iff valid4_def)

lemma CreateSubnet_ipv4:
  assumes "pg_documented g" "ipv4_db d" "canon_cidr (si_CIDR inp)"
  shows "ipv4_db (snd (CreateSubnet g now tok inp d))"
proof (cases "CreateSubnet g now tok inp d")
  case (Pair res d')
  then have "ipv4_db d'"
    using assms canon_cidr_valid4 [OF assms(1,3)]
    by (cases rule: CreateSubnet_cases) (auto simp: ipv4_db_def insert_subnet_def split: if_splits)
  with Pair show ?thesis by simp
qed

lemma UpdateSubnet_ipv4:
  assumes "pg_documented g" "ipv4_db d" "canon_cidr (si_CIDR inp)"
  shows "ipv4_db (snd (UpdateSubnet g now key inp d))"
proof (cases "UpdateSubnet g now key inp d")
  case (Pair res d')
  then have "ipv4_db d'"
    using assms canon_cidr_valid4 [OF assms(1,3)]
    by (cases rule: UpdateSubnet_cases) (auto simp: ipv4_db_def update_subnet_def set_update_rows split: if_splits)
  with Pair show ?thesis by simp
qed

lemma ipv4_partition:
  assumes "inventory_ok d" "ipv4_db d" "q \<in> set (db_subnets d)" "r \<in> set (db_subnets d)"
    and "a \<in> prefix_addrs (sn_cidr q)" "a \<in> prefix_addrs (sn_cidr r)"
  shows "q = r"
proof -
  have "sn_cidr q = sn_cidr r"
    using assms by (intro sn.disjoint_owner_unique [of "map sn_cidr (db_subnets d)"])
      (auto simp: inventory_defs ipv4_db_def)
  moreover have "distinct (map sn_cidr (db_subnets d))"
  proof -
    have "disjoint_list pg_overlaps xs \<Longrightarrow> \<forall>x\<in>set xs. pg_overlaps x x \<Longrightarrow> distinct xs" for xs
      by (induction xs) auto
    moreover have "pg_overlaps x x" for x by (cases x rule: Masked.cases) (simp_all add: pg_overlaps_def)
    ultimately show ?thesis using assms(1) by (simp add: inventory_defs)
  qed
  ultimately show ?thesis using assms(3,4) distinct_key_unique by metis
qed

lemma scanSubnet_CIDR: "scanSubnet d r = Inr s \<Longrightarrow> su_CIDR s = Prefix_String (sn_cidr r) \<and> su_ID s = sn_id r"
  by (auto simp: scanSubnet_def Let_def split: sum.splits)

lemma GetSubnet_row:
  assumes "GetSubnet sid d = Inr s"
  obtains r where "r \<in> set (db_subnets d)" "sn_id r = sid" "scanSubnet d r = Inr s"
    "su_CIDR s = Prefix_String (sn_cidr r)" "su_ID s = sid"
proof -
  obtain r where r: "find (\<lambda>r. sn_id r = sid) (db_subnets d) = Some r" "scanSubnet d r = Inr s"
    using assms by (auto simp: GetSubnet_def split: option.splits)
  then have "r \<in> set (db_subnets d)" "sn_id r = sid" by (auto simp: find_Some_iff)
  with r that scanSubnet_CIDR [OF r(2)] show thesis by blast
qed

lemma scanSubnet_ok: "valid4 (sn_cidr r) \<Longrightarrow> is_ok (scanSubnet d r)"
  by (auto simp: scanSubnet_def Let_def AddressCapacity_def valid4_iff ParsePrefix_Prefix_String wf_prefix_def)

text \<open>An address accepted by the containment check lies in the subnet row the caller read.\<close>

lemma Contains_row:
  assumes "valid4 (sn_cidr r)" "Contains (Prefix_String (sn_cidr r)) (v4_string w) = Inr True"
  shows "pg_contains_eq (sn_cidr r) (PrefixFrom (A4 w) 32)"
proof -
  have "ParsePrefix (Prefix_String (sn_cidr r)) = Some (sn_cidr r)"
    using assms(1) by (intro ParsePrefix_Prefix_String) (simp_all add: valid4_def)
  then have "Prefix_Contains (sn_cidr r) (A4 w)" using assms(2) by (simp add: Contains_A4)
  moreover have "Bits (sn_cidr r) \<le> 32" using assms(1) by (auto simp: valid4_iff)
  ultimately show ?thesis by (simp add: pg_contains_eq_def)
qed

section \<open>Properties\<close>

text \<open>Subnet creation and update keep the inventory invariant: unique keys, intact references,
  VLANs within range and pairwise non-overlapping subnets.\<close>

theorem subnet_writes_keep_invariant:
  assumes "pg_documented g" "inventory_ok d"
  shows "inventory_ok (snd (CreateSubnet g now tok inp d)) \<and>
    inventory_ok (snd (UpdateSubnet g now key inp d)) \<and>
    (\<forall>d'. DeleteSubnet key d = Inr d' \<longrightarrow> inventory_ok d')"
  using assms CreateSubnet_inv UpdateSubnet_inv delete_subnets_ok
  by (auto simp: DeleteSubnet_def split: if_splits)

definition demo_subnet_input :: SubnetInput where
  "demo_subnet_input = \<lparr>si_SiteID = ''default'', si_CIDR = ''10.0.0.0/24'', si_Name = ''lab'', si_VLAN = Some 10,
     si_Description = []\<rparr>"

definition demo_db :: db where
  "demo_db = snd (CreateSubnet pg_netip 0 (Some ''s1'') demo_subnet_input empty_db)"

theorem subnet_writes_keep_invariant_witness:
  "pg_documented pg_netip \<and> inventory_ok empty_db \<and> inventory_ok demo_db \<and> length (db_subnets demo_db) = 1"
proof -
  have "length (db_subnets demo_db) = 1" by code_simp
  with subnet_writes_keep_invariant [OF pg_netip_documented empty_db_ok] pg_netip_documented empty_db_ok
  show ?thesis unfolding demo_db_def by blast
qed

text \<open>C30: creating a subnet with a canonical CIDR that shares an address with a managed subnet fails
  with the overlap error and changes nothing.\<close>

theorem CreateSubnet_rejects_overlap:
  assumes "pg_documented g" "ipv4_db d" "canon_cidr (si_CIDR inp)"
    and "r \<in> set (db_subnets d)" "a \<in> prefix_addrs (sn_cidr r)" "a \<in> cidr_addrs (si_CIDR inp)"
  shows "CreateSubnet g now tok inp d = (Inl ErrOverlap, d)"
proof -
  obtain c where c: "ParsePrefix (si_CIDR inp) = Some c" using assms(3) by (auto simp: canon_cidr_iff)
  then have pg: "pg_cidr g (si_CIDR inp) = Some c" using assms(1,3) by (simp add: pg_documented_def)
  have "valid4 c" by (rule canon_cidr_valid4 [OF assms(1,3) pg])
  moreover have "valid4 (sn_cidr r)" using assms(2,4) by (simp add: ipv4_db_def)
  ultimately have "pg_overlaps (sn_cidr r) c"
    using assms(5,6) c by (auto simp: sn.ov_iff cidr_addrs_def)
  then have "find (\<lambda>r. pg_overlaps (sn_cidr r) c) (db_subnets d) \<noteq> None"
    using assms(4) by (auto simp: find_None_iff)
  then show ?thesis using pg by (auto simp: CreateSubnet_def ensureNoSubnetOverlap_def)
qed

theorem CreateSubnet_rejects_overlap_witness:
  "CreateSubnet pg_netip 7 (Some ''s2'') (demo_subnet_input\<lparr>si_CIDR := ''10.0.0.128/25''\<rparr>) demo_db =
     (Inl ErrOverlap, demo_db)"
proof (rule CreateSubnet_rejects_overlap [OF pg_netip_documented])
  have sub: "map sn_cidr (db_subnets demo_db) = [PrefixFrom (A4 0x0A000000) 24]" by code_simp
  then obtain r where r: "db_subnets demo_db = [r]" "sn_cidr r = PrefixFrom (A4 0x0A000000) 24" by auto
  show "ipv4_db demo_db" by (simp add: ipv4_db_def r valid4_iff)
  show "canon_cidr (si_CIDR (demo_subnet_input\<lparr>si_CIDR := ''10.0.0.128/25''\<rparr>))"
    unfolding canon_cidr_def by code_simp
  show "hd (db_subnets demo_db) \<in> set (db_subnets demo_db)" by (simp add: r)
  show "A4 0x0A000080 \<in> prefix_addrs (sn_cidr (hd (db_subnets demo_db)))"
    unfolding r by (simp only: list.sel r prefix_addrs_def mem_Collect_eq) code_simp
  have "ParsePrefix ''10.0.0.128/25'' = Some (PrefixFrom (A4 0x0A000080) 25)" by code_simp
  then show "A4 0x0A000080 \<in> cidr_addrs (si_CIDR (demo_subnet_input\<lparr>si_CIDR := ''10.0.0.128/25''\<rparr>))"
    by (simp add: cidr_addrs_def prefix_addrs_def)
qed

text \<open>A created address is the text the operator gave, lies in the subnet it was created in, is
  appended to the table as one row, and is read back unchanged.\<close>

theorem CreateAddress_inside:
  assumes "pg_documented g" "inventory_ok d" "ipv4_db d" "GetSubnet sid d = Inr s"
    and "NormalizeIPv4 raw = Inr (ai_Address inp)" "CreateAddress g now tok s inp d = Inr (a, d')"
  shows "\<exists>r\<in>set (db_subnets d'). \<exists>row. sn_id r = sid \<and> db_addresses d' = db_addresses d @ [row] \<and>
      ad_subnet_id row = Some sid \<and> pg_contains_eq (sn_cidr r) (ad_address row) \<and>
      ip_Address a = ai_Address inp \<and>
      (\<exists>b. GetAddress (ip_ID a) d' = Inr b \<and> a = b\<lparr>ip_DeviceName := []\<rparr>)"
proof -
  obtain w where w: "ai_Address inp = v4_string w" using assms(5) by (auto simp: NormalizeIPv4_Inr)
  obtain r where r: "r \<in> set (db_subnets d)" "sn_id r = sid" "su_CIDR s = Prefix_String (sn_cidr r)" "su_ID s = sid"
    using GetSubnet_row [OF assms(4)] by metis
  have v4: "valid4 (sn_cidr r)" using assms(3) r(1) by (simp add: ipv4_db_def)
  have inet: "pg_inet g (v4_string w) = Some (PrefixFrom (A4 w) 32)" using assms(1) by (simp add: pg_documented_def)
  define row where "row key = \<lparr>ad_id = key, ad_subnet_id = Some sid, ad_device_id = emptyToNil (ai_DeviceID inp),
      ad_address = PrefixFrom (A4 w) 32, ad_state = ai_State inp, ad_hostname = ai_Hostname inp,
      ad_notes = ai_Notes inp, ad_last_seen_at = None, ad_created_at = now, ad_updated_at = now\<rparr>" for key
  obtain key where key: "Contains (su_CIDR s) (v4_string w) = Inr True"
    "insert_address (row key) d = Inr d'" "ip_ID a = key"
    "a = \<lparr>ip_ID = key, ip_SubnetID = sid, ip_DeviceID = coalesce (emptyToNil (ai_DeviceID inp)), ip_DeviceName = [],
        ip_Address = pg_host (PrefixFrom (A4 w) 32), ip_State = ai_State inp, ip_Hostname = ai_Hostname inp,
        ip_Notes = ai_Notes inp, ip_Tags = [], ip_VLAN = None, ip_CreatedAt = now, ip_UpdatedAt = now\<rparr>"
    using assms(6) r(4) inet
    by (auto simp: CreateAddress_def w row_def bind_res_eq_Inr split: sum.splits option.splits if_splits)
  have d': "d' = d\<lparr>db_addresses := db_addresses d @ [row key]\<rparr>" and fresh: "key \<notin> set (map ad_id (db_addresses d))"
    using key(2) by (auto simp: insert_address_def address_row_ok_def row_def split: if_splits)
  have "find (\<lambda>a. ad_id a = key) (db_addresses d) = None" using fresh by (auto simp: find_None_iff)
  then have find: "find (\<lambda>a. ad_id a = key) (db_addresses d') = Some (row key)"
    by (simp add: d' find_append row_def)
  have "GetAddress (ip_ID a) d' = Inr (a\<lparr>ip_DeviceName := device_name d' (emptyToNil (ai_DeviceID inp))\<rparr>)"
    using find key by (simp add: GetAddress_def scanAddress_def row_def)
  moreover have "pg_contains_eq (sn_cidr r) (PrefixFrom (A4 w) 32)"
    using Contains_row [OF v4] key(1) r(3) by simp
  moreover have "ip_Address a = ai_Address inp" by (simp add: key(4) pg_host_def w)
  ultimately show ?thesis
    using r(1,2) by (intro bexI [of _ r] exI [of _ "row key"]) (auto simp: d' row_def key(4))
qed

definition demo_address_input :: AddressInput where
  "demo_address_input = \<lparr>ai_Address = ''10.0.0.5'', ai_State = ''assigned'', ai_DeviceID = [], ai_Hostname = ''web'', ai_Notes = []\<rparr>"

definition demo_subnet :: Subnet where
  "demo_subnet = projr (GetSubnet ''s1'' demo_db)"

lemma demo_db_subnets: "map sn_cidr (db_subnets demo_db) = [PrefixFrom (A4 0x0A000000) 24]"
  by code_simp

lemma demo_db_ok: "inventory_ok demo_db" "ipv4_db demo_db"
proof -
  show "inventory_ok demo_db"
    unfolding demo_db_def by (rule CreateSubnet_inv [OF pg_netip_documented empty_db_ok])
  obtain r where "db_subnets demo_db = [r]" "sn_cidr r = PrefixFrom (A4 0x0A000000) 24"
    using demo_db_subnets by auto
  then show "ipv4_db demo_db" by (simp add: ipv4_db_def valid4_iff)
qed

theorem CreateAddress_inside_witness:
  "\<exists>a d' r. CreateAddress pg_netip 9 (Some ''a1'') demo_subnet demo_address_input demo_db = Inr (a, d') \<and>
     r \<in> set (db_subnets d') \<and> sn_id r = ''s1'' \<and> ip_Address a = ''10.0.0.5''"
proof -
  have "is_ok (GetSubnet ''s1'' demo_db)" by code_simp
  then have s: "GetSubnet ''s1'' demo_db = Inr demo_subnet" by (auto simp: is_ok_iff demo_subnet_def)
  have n: "NormalizeIPv4 ''10.0.0.5'' = Inr (ai_Address demo_address_input)" by code_simp
  have "is_ok (CreateAddress pg_netip 9 (Some ''a1'') demo_subnet demo_address_input demo_db)" by code_simp
  then obtain a d' where c: "CreateAddress pg_netip 9 (Some ''a1'') demo_subnet demo_address_input demo_db = Inr (a, d')"
    by (auto simp: is_ok_iff)
  from CreateAddress_inside [OF pg_netip_documented demo_db_ok s n c] c show ?thesis
    by (auto simp: demo_address_input_def)
qed

text \<open>Deleting an address removes exactly that row, and a device goes with it exactly when the
  deleted row referred to it and no other address does; no other device is touched.\<close>

theorem DeleteAddress_orphan:
  assumes "inventory_ok d" "DeleteAddress key d = Inr d'" "a \<in> set (db_addresses d)" "ad_id a = key"
  shows "map ad_id (db_addresses d') = filter (\<lambda>k. k \<noteq> key) (map ad_id (db_addresses d)) \<and>
    (\<forall>v. v \<in> set (db_devices d') \<longleftrightarrow> v \<in> set (db_devices d) \<and>
      \<not> (dv_id v \<noteq> [] \<and> ad_device_id a = Some (dv_id v) \<and>
         (\<forall>b\<in>set (db_addresses d). ad_id b \<noteq> key \<longrightarrow> ad_device_id b \<noteq> Some (dv_id v))))"
proof -
  have find: "find (\<lambda>a. ad_id a = key) (db_addresses d) = Some a"
    using find_key_Some [of ad_id "db_addresses d" a] assms by (simp add: inventory_defs)
  define d1 where "d1 = delete_addresses (\<lambda>a. ad_id a = key) d"
  have d1: "db_addresses d1 = filter (\<lambda>a. ad_id a \<noteq> key) (db_addresses d)" "db_devices d1 = db_devices d"
    by (simp_all add: d1_def delete_addresses_def Let_def)
  have d': "d' = (if coalesce (ad_device_id a) \<noteq> [] then delete_orphan_devices [coalesce (ad_device_id a)] d1 else d1)"
    using assms(2) find by (auto simp: DeleteAddress_def d1_def Let_def)
  have dev: "set (db_devices d') = {v \<in> set (db_devices d).
      \<not> (coalesce (ad_device_id a) \<noteq> [] \<and> dv_id v = coalesce (ad_device_id a) \<and>
         (\<forall>b\<in>set (db_addresses d). ad_id b \<noteq> key \<longrightarrow> ad_device_id b \<noteq> Some (dv_id v)))}"
    by (auto simp: d' d1 delete_orphan_devices_def delete_devices_def Let_def)
  have "map ad_id (db_addresses d') = map ad_id (db_addresses d1)"
    by (simp add: d' delete_orphan_devices_def delete_devices_def Let_def comp_def)
  then have "map ad_id (db_addresses d') = filter (\<lambda>k. k \<noteq> key) (map ad_id (db_addresses d))"
    by (simp add: d1 filter_map comp_def)
  moreover have "coalesce (ad_device_id a) \<noteq> [] \<and> dv_id v = coalesce (ad_device_id a) \<longleftrightarrow>
      dv_id v \<noteq> [] \<and> ad_device_id a = Some (dv_id v)" for v
    by (auto simp: coalesce_def split: option.splits)
  ultimately show ?thesis using dev by blast
qed

definition demo_db2 :: db where
  "demo_db2 = demo_db\<lparr>
     db_devices := [\<lparr>dv_id = ''v1'', dv_name = ''host'', dv_description = [], dv_os_family = [], dv_os_detail = [],
       dv_services = [], dv_discovery_source = [], dv_hw_serial = [], dv_hw_object_id = [],
       dv_hardware_group_id = None, dv_created_at = 0, dv_updated_at = 0\<rparr>],
     db_addresses := [\<lparr>ad_id = ''a1'', ad_subnet_id = Some ''s1'', ad_device_id = Some ''v1'',
       ad_address = PrefixFrom (A4 0x0A000005) 32, ad_state = ''assigned'', ad_hostname = [], ad_notes = [],
       ad_last_seen_at = None, ad_created_at = 0, ad_updated_at = 0\<rparr>]\<rparr>"

lemma demo_db2_ok: "inventory_ok demo_db2"
proof -
  have sn: "map sn_id (db_subnets demo_db) = [''s1'']" by code_simp
  then have "''s1'' \<in> sn_id ` set (db_subnets demo_db)" by (metis list.set_intros(1) set_map)
  moreover have "db_macs demo_db = []" by code_simp
  moreover have "''assigned'' \<in> set address_states" by code_simp
  ultimately show ?thesis
    using demo_db_ok(1) by (simp add: inventory_defs demo_db2_def fk_ok_def)
qed

theorem DeleteAddress_orphan_witness:
  "\<exists>d'. DeleteAddress ''a1'' demo_db2 = Inr d' \<and> db_addresses d' = [] \<and>
     (\<forall>v. v \<in> set (db_devices d') \<longrightarrow> v \<in> set (db_devices demo_db2))"
proof -
  have "is_ok (DeleteAddress ''a1'' demo_db2)" by code_simp
  then obtain d' where d': "DeleteAddress ''a1'' demo_db2 = Inr d'" by (auto simp: is_ok_iff)
  have "hd (db_addresses demo_db2) \<in> set (db_addresses demo_db2)" "ad_id (hd (db_addresses demo_db2)) = ''a1''"
    by (simp_all add: demo_db2_def)
  from DeleteAddress_orphan [OF demo_db2_ok d' this] d' show ?thesis
    by (auto simp: demo_db2_def)
qed

text \<open>Changing the CIDR of a subnet never moves its addresses: an address of the subnet that the
  new CIDR does not contain stays recorded under that subnet, outside its range.\<close>

theorem UpdateSubnet_strands_addresses:
  assumes "pg_documented g" "inventory_ok d" "UpdateSubnet g now key inp d = (Inr s, d')"
    and "canon_cidr (si_CIDR inp)" "a \<in> set (db_addresses d)" "ad_subnet_id a = Some key"
    and "Prefix_Addr (ad_address a) \<notin> cidr_addrs (si_CIDR inp)"
  shows "a \<in> set (db_addresses d') \<and>
    (\<forall>r\<in>set (db_subnets d'). sn_id r = key \<longrightarrow> \<not> pg_contains_eq (sn_cidr r) (ad_address a))"
  using assms(3)
proof (cases rule: UpdateSubnet_cases)
  case (changed c)
  have "pg_cidr g (si_CIDR inp) = ParsePrefix (si_CIDR inp)" using assms(1,4) by (simp add: pg_documented_def)
  with changed(1) have "ParsePrefix (si_CIDR inp) = Some c" by (simp only:)
  then have "\<not> Prefix_Contains c (Prefix_Addr (ad_address a))"
    using assms(7) by (simp add: cidr_addrs_def prefix_addrs_def)
  then have out: "\<not> pg_contains_eq c (ad_address a)" by (simp add: pg_contains_eq_def)
  let ?f = "\<lambda>r. r\<lparr>sn_site_id := emptyToNil (si_SiteID inp), sn_cidr := c, sn_name := si_Name inp,
      sn_vlan := si_VLAN inp, sn_description := si_Description inp, sn_updated_at := now\<rparr>"
  have f: "d' = d\<lparr>db_subnets := update_rows (\<lambda>r. sn_id r = key) ?f (db_subnets d)\<rparr>"
    using changed(3) by (simp add: update_subnet_def split: if_splits)
  have "sn_cidr r = c" if r: "r \<in> set (db_subnets d')" "sn_id r = key" for r
  proof -
    obtain q where q: "r = (if sn_id q = key then ?f q else q)" using r(1) by (auto simp: f set_update_rows)
    then show ?thesis using r(2) by (cases "sn_id q = key") simp_all
  qed
  moreover have "a \<in> set (db_addresses d')" using assms(5) f by simp
  ultimately show ?thesis using out by blast
qed simp

theorem UpdateSubnet_strands_addresses_witness:
  "\<exists>s d' a. UpdateSubnet pg_netip 5 ''s1'' (demo_subnet_input\<lparr>si_CIDR := ''10.9.0.0/24''\<rparr>) demo_db2 = (Inr s, d') \<and>
     a \<in> set (db_addresses d') \<and> ad_subnet_id a = Some ''s1'' \<and>
     (\<forall>r\<in>set (db_subnets d'). sn_id r = ''s1'' \<longrightarrow> \<not> pg_contains_eq (sn_cidr r) (ad_address a))"
proof -
  let ?inp = "demo_subnet_input\<lparr>si_CIDR := ''10.9.0.0/24''\<rparr>"
  let ?a = "hd (db_addresses demo_db2)"
  have "is_ok (fst (UpdateSubnet pg_netip 5 ''s1'' ?inp demo_db2))" by code_simp
  then obtain s d' where u: "UpdateSubnet pg_netip 5 ''s1'' ?inp demo_db2 = (Inr s, d')"
    by (metis is_ok_iff prod.collapse)
  have c: "canon_cidr (si_CIDR ?inp)" unfolding canon_cidr_def by code_simp
  have a: "?a \<in> set (db_addresses demo_db2)" "ad_subnet_id ?a = Some ''s1''" by (simp_all add: demo_db2_def)
  have "ParsePrefix ''10.9.0.0/24'' = Some (PrefixFrom (A4 0x0A090000) 24)" by code_simp
  moreover have "\<not> Prefix_Contains (PrefixFrom (A4 0x0A090000) 24) (A4 0x0A000005)" by code_simp
  ultimately have "Prefix_Addr (ad_address ?a) \<notin> cidr_addrs (si_CIDR ?inp)"
    by (simp only: demo_db2_def) (simp add: cidr_addrs_def prefix_addrs_def)
  from UpdateSubnet_strands_addresses [OF pg_netip_documented demo_db2_ok u c a this] u a show ?thesis by blast
qed

text \<open>Deleting a subnet keeps its addresses but detaches them, and a detached address can no longer
  be read: \<open>GetAddress\<close> fails on it.\<close>

theorem GetAddress_after_DeleteSubnet:
  assumes "inventory_ok d" "DeleteSubnet key d = Inr d'" "a \<in> set (db_addresses d)" "ad_subnet_id a = Some key"
  shows "GetAddress (ad_id a) d' = Inl ErrScanNull"
proof -
  have d': "d' = delete_subnets (\<lambda>r. sn_id r = key) d" and some: "\<exists>r\<in>set (db_subnets d). sn_id r = key"
    using assms(2) by (auto simp: DeleteSubnet_def affected_def filter_empty_conv split: if_splits)
  let ?f = "\<lambda>a. a\<lparr>ad_subnet_id := set_null (\<lambda>k. k \<in> set (map sn_id (filter (\<lambda>r. sn_id r = key) (db_subnets d)))) (ad_subnet_id a)\<rparr>"
  have "find (\<lambda>b. ad_id b = ad_id a) (map ?f (db_addresses d)) = Some (?f a)"
  proof -
    have "distinct (map ad_id (map ?f (db_addresses d)))"
      using assms(1) by (simp add: inventory_defs comp_def)
    from find_key_Some [OF this, of "?f a"] assms(3) show ?thesis by auto
  qed
  moreover have "ad_subnet_id (?f a) = None" using some assms(4) by (auto simp: set_null_def)
  ultimately show ?thesis
    by (simp add: GetAddress_def d' delete_subnets_def Let_def scanAddress_def)
qed

theorem GetAddress_after_DeleteSubnet_witness:
  "\<exists>d'. DeleteSubnet ''s1'' demo_db2 = Inr d' \<and> GetAddress ''a1'' d' = Inl ErrScanNull"
proof -
  have "is_ok (DeleteSubnet ''s1'' demo_db2)" by code_simp
  then obtain d' where d': "DeleteSubnet ''s1'' demo_db2 = Inr d'" by (auto simp: is_ok_iff)
  have "hd (db_addresses demo_db2) \<in> set (db_addresses demo_db2)"
    "ad_subnet_id (hd (db_addresses demo_db2)) = Some ''s1''" "ad_id (hd (db_addresses demo_db2)) = ''a1''"
    by (simp_all add: demo_db2_def)
  with GetAddress_after_DeleteSubnet [OF demo_db2_ok d'] d' show ?thesis by metis
qed

end
