(* ===== verification/StoreDevices.thy ===== *)
theory StoreDevices
  imports StoreIpam
begin

text \<open>
  \<open>internal/store/devices.go\<close> and \<open>internal/store/device_links.go\<close>: device records with their
  hardware addresses and tags, and the reversible hardware groups that mark several records as one
  physical device.
\<close>

section \<open>Values\<close>

record Device =
  de_ID :: string
  de_Name :: string
  de_Description :: string
  de_AddressCount :: nat
  de_MACCount :: nat
  de_PrivateMACCount :: nat
  de_Tags :: "string list"
  de_OSFamily :: string
  de_OSDetail :: string
  de_Services :: "DiscoveryService list"
  de_DiscoverySource :: string
  de_HWSerial :: string
  de_HWObjectID :: string
  de_PrimarySubnetID :: string
  de_PrimarySubnetName :: string
  de_PrimarySubnetCIDR :: string
  de_PrimaryIP :: string
  de_Linked :: bool
  de_CreatedAt :: time
  de_UpdatedAt :: time

record MACAddress =
  ma_ID :: string
  ma_DeviceID :: string
  ma_Address :: string
  ma_Vendor :: string
  ma_IsPrivate :: bool
  ma_CreatedAt :: time

record DeviceInput =
  dvi_Name :: string
  dvi_Description :: string

section \<open>Devices\<close>

text \<open>The primary subnet: that of the lowest-numbered address that has one.\<close>

definition primary_subnet :: "db \<Rightarrow> string \<Rightarrow> (subnet_row \<times> address_row) option" where
  "primary_subnet d did =
    (let rows = sort_key (\<lambda>a. pg_key (ad_address a)) (filter (\<lambda>a. ad_device_id a = Some did) (db_addresses d));
         joined = concat (map (\<lambda>a. map (\<lambda>r. (r, a)) (filter (\<lambda>r. ad_subnet_id a = Some (sn_id r)) (db_subnets d))) rows) in
     case joined of [] \<Rightarrow> None | x # _ \<Rightarrow> Some x)"

definition scanDevice :: "db \<Rightarrow> device_row \<Rightarrow> Device" where
  "scanDevice d v =
    (let macs = filter (\<lambda>m. mc_device_id m = Some (dv_id v)) (db_macs d); ps = primary_subnet d (dv_id v) in
     \<lparr>de_ID = dv_id v, de_Name = dv_name v, de_Description = dv_description v,
      de_AddressCount = length (filter (\<lambda>a. ad_device_id a = Some (dv_id v)) (db_addresses d)),
      de_MACCount = length macs, de_PrivateMACCount = length (filter mc_is_private macs),
      de_Tags = tag_names ''device'' (dv_id v) d,
      de_OSFamily = dv_os_family v, de_OSDetail = dv_os_detail v, de_Services = dv_services v,
      de_DiscoverySource = dv_discovery_source v, de_HWSerial = dv_hw_serial v, de_HWObjectID = dv_hw_object_id v,
      de_PrimarySubnetID = (case ps of None \<Rightarrow> [] | Some (r, _) \<Rightarrow> sn_id r),
      de_PrimarySubnetName = (case ps of None \<Rightarrow> [] | Some (r, _) \<Rightarrow> sn_name r),
      de_PrimarySubnetCIDR = (case ps of None \<Rightarrow> [] | Some (r, _) \<Rightarrow> Prefix_String (sn_cidr r)),
      de_PrimaryIP = (case ps of None \<Rightarrow> [] | Some (_, a) \<Rightarrow> pg_host (ad_address a)),
      de_Linked = (dv_hardware_group_id v \<noteq> None \<and>
        (\<exists>w\<in>set (db_devices d). dv_hardware_group_id w = dv_hardware_group_id v \<and> dv_id w \<noteq> dv_id v)),
      de_CreatedAt = dv_created_at v, de_UpdatedAt = dv_updated_at v\<rparr>)"

definition ListDevices :: "db \<Rightarrow> Device list" where
  "ListDevices d = map (scanDevice d) (sort_key dv_name (db_devices d))"

definition GetDevice :: "string \<Rightarrow> db \<Rightarrow> store_error + Device" where
  "GetDevice key d =
    (case find (\<lambda>v. dv_id v = key) (db_devices d) of None \<Rightarrow> Inl ErrNotFound | Some v \<Rightarrow> Inr (scanDevice d v))"

definition CreateDevice :: "time \<Rightarrow> string option \<Rightarrow> DeviceInput \<Rightarrow> db \<Rightarrow> store_error + (Device \<times> db)" where
  "CreateDevice now tok inp d =
    (case tok of None \<Rightarrow> Inl ErrRand
     | Some key \<Rightarrow>
        bind_res (insert_device \<lparr>dv_id = key, dv_name = dvi_Name inp, dv_description = dvi_Description inp,
            dv_os_family = [], dv_os_detail = [], dv_services = [], dv_discovery_source = [], dv_hw_serial = [],
            dv_hw_object_id = [], dv_hardware_group_id = None, dv_created_at = now, dv_updated_at = now\<rparr> d)
          (\<lambda>d'. bind_res (GetDevice key d') (\<lambda>v. Inr (v, d'))))"

definition UpdateDevice :: "time \<Rightarrow> string \<Rightarrow> DeviceInput \<Rightarrow> db \<Rightarrow> store_error + (Device \<times> db)" where
  "UpdateDevice now key inp d =
    (let d' = d\<lparr>db_devices := update_rows (\<lambda>v. dv_id v = key)
         (\<lambda>v. v\<lparr>dv_name := dvi_Name inp, dv_description := dvi_Description inp, dv_updated_at := now\<rparr>) (db_devices d)\<rparr> in
     if affected (\<lambda>v. dv_id v = key) (db_devices d) = 0 then Inl ErrNotFound
     else bind_res (GetDevice key d') (\<lambda>v. Inr (v, d')))"

text \<open>One transaction: when the device does not exist the deletion of its addresses is rolled back.\<close>

definition DeleteDevice :: "string \<Rightarrow> db \<Rightarrow> store_error + db" where
  "DeleteDevice key d =
    (let d1 = delete_addresses (\<lambda>a. ad_device_id a = Some key) d in
     if affected (\<lambda>v. dv_id v = key) (db_devices d1) = 0 then Inl ErrNotFound
     else Inr (delete_devices (\<lambda>v. dv_id v = key) d1))"

section \<open>Hardware addresses and tags\<close>

definition scanMAC :: "mac_row \<Rightarrow> store_error + MACAddress" where
  "scanMAC m =
    (case mc_device_id m of None \<Rightarrow> Inl ErrScanNull
     | Some did \<Rightarrow> Inr \<lparr>ma_ID = mc_id m, ma_DeviceID = did, ma_Address = mc_address m, ma_Vendor = mc_vendor m,
         ma_IsPrivate = mc_is_private m, ma_CreatedAt = mc_created_at m\<rparr>)"

definition ListMACAddresses :: "string \<Rightarrow> db \<Rightarrow> store_error + MACAddress list" where
  "ListMACAddresses did d =
    map_res scanMAC (sort_key mc_address (filter (\<lambda>m. mc_device_id m = Some did) (db_macs d)))"

definition GetMACAddress :: "string \<Rightarrow> db \<Rightarrow> store_error + MACAddress" where
  "GetMACAddress key d =
    (case find (\<lambda>m. mc_id m = key) (db_macs d) of None \<Rightarrow> Inl ErrNotFound | Some m \<Rightarrow> scanMAC m)"

definition ListDeviceIPAddresses :: "string \<Rightarrow> db \<Rightarrow> store_error + IPAddress list" where
  "ListDeviceIPAddresses did d =
    map_res (\<lambda>a. bind_res (scanAddress d a) (\<lambda>x. Inr (x\<lparr>ip_VLAN :=
        (case find (\<lambda>r. ad_subnet_id a = Some (sn_id r)) (db_subnets d) of None \<Rightarrow> None | Some r \<Rightarrow> sn_vlan r)\<rparr>)))
      (sort_key (\<lambda>a. pg_key (ad_address a)) (filter (\<lambda>a. ad_device_id a = Some did) (db_addresses d)))"

definition TagDevice :: "string \<Rightarrow> string \<Rightarrow> string \<Rightarrow> string \<Rightarrow> db \<Rightarrow> store_error + db" where
  "TagDevice deviceID tagID name color d =
    (let tagged = (if tagID \<in> set (map tg_id (db_tags d)) then Inr d
           else if name \<in> set (map tg_name (db_tags d)) then Inl ErrDb
           else Inr (d\<lparr>db_tags := db_tags d @ [\<lparr>tg_id = tagID, tg_name = name, tg_color = color\<rparr>]\<rparr>)) in
     bind_res tagged (\<lambda>d1. Inr (d1\<lparr>db_taggings := insert_taggings tagID ''device'' [deviceID] (db_taggings d1)\<rparr>)))"

text \<open>Not a transaction: when tagging fails the inserted address stays.\<close>

definition CreateMACAddress :: "pg \<Rightarrow> time \<Rightarrow> string option \<Rightarrow> string \<Rightarrow> string \<Rightarrow> db \<Rightarrow> (store_error + MACAddress) \<times> db" where
  "CreateMACAddress g now tok deviceID value d =
    (case Analyze value of Inl e \<Rightarrow> (Inl (ErrMac e), d)
     | Inr analysis \<Rightarrow>
       (case tok of None \<Rightarrow> (Inl ErrRand, d)
        | Some key \<Rightarrow>
          (case pg_macaddr g (Address analysis) of None \<Rightarrow> (Inl ErrDb, d)
           | Some m \<Rightarrow>
             (case insert_mac \<lparr>mc_id = key, mc_device_id = Some deviceID, mc_address = m, mc_vendor = Vendor analysis,
                 mc_is_private = IsPrivate analysis, mc_created_at = now\<rparr> d of
                Inl e \<Rightarrow> (Inl e, d)
              | Inr d1 \<Rightarrow>
                 let out = \<lparr>ma_ID = key, ma_DeviceID = deviceID, ma_Address = m, ma_Vendor = Vendor analysis,
                       ma_IsPrivate = IsPrivate analysis, ma_CreatedAt = now\<rparr> in
                 if IsPrivate analysis then
                   (case TagDevice deviceID ''private-mac'' ''Private MAC'' ''amber'' d1 of
                      Inl e \<Rightarrow> (Inl e, d1) | Inr d2 \<Rightarrow> (Inr out, d2))
                 else (Inr out, d1)))))"

definition DeleteMACAddress :: "string \<Rightarrow> db \<Rightarrow> store_error + db" where
  "DeleteMACAddress key d =
    (if affected (\<lambda>m. mc_id m = key) (db_macs d) = 0 then Inl ErrNotFound
     else Inr (delete_macs (\<lambda>m. mc_id m = key) d))"

text \<open>The 16-byte form of a parsed CIDR's address and its prefix length.\<close>

definition cidr_ip16 :: "string \<Rightarrow> (nat \<times> nat) option" where
  "cidr_ip16 s =
    (case (cut_first CHR ''/'' s, ParseCIDR_size s) of
       (Some (a, _), Some (ones, _)) \<Rightarrow>
         (case ParseAddr a of
            Some (A4 w) \<Rightarrow> Some (0xFFFF * 2 ^ 32 + unat w, ones)
          | Some (A6 w _) \<Rightarrow> Some (unat w, ones)
          | None \<Rightarrow> None)
     | _ \<Rightarrow> None)"

definition lessCIDR :: "string \<Rightarrow> string \<Rightarrow> bool" where
  "lessCIDR a b =
    (case (cidr_ip16 a, cidr_ip16 b) of
       (None, None) \<Rightarrow> a < b
     | (Some _, None) \<Rightarrow> True
     | (None, Some _) \<Rightarrow> False
     | (Some (x, m), Some (y, n)) \<Rightarrow> if x \<noteq> y then x < y else m < n)"

section \<open>Hardware groups\<close>

record deviceIdentity =
  id_Hostname :: string
  id_OSFamily :: string
  id_HWSerial :: string
  id_SubnetIDs :: "string list"

definition disjointSubnets :: "string list \<Rightarrow> string list \<Rightarrow> bool" where
  "disjointSubnets a b = (a \<noteq> [] \<and> b \<noteq> [] \<and> list_all (\<lambda>x. x \<notin> set a) b)"

definition canonicalIdentity :: "string \<Rightarrow> string" where
  "canonicalIdentity v = ToLower (TrimSpace v)"

definition singleHostname :: "string list \<Rightarrow> string" where
  "singleHostname hs = (case hs of [h] \<Rightarrow> h | _ \<Rightarrow> [])"

definition sameHardwareCandidate :: "deviceIdentity \<Rightarrow> deviceIdentity \<Rightarrow> bool" where
  "sameHardwareCandidate a b =
    (let hostA = canonicalIdentity (id_Hostname a); hostB = canonicalIdentity (id_Hostname b);
         osA = canonicalIdentity (id_OSFamily a); osB = canonicalIdentity (id_OSFamily b) in
     if hostA = [] \<or> hostA \<noteq> hostB then False
     else if osA = [] \<or> osA \<noteq> osB then False
     else disjointSubnets (id_SubnetIDs a) (id_SubnetIDs b))"

definition goldHardwareCandidate :: "deviceIdentity \<Rightarrow> deviceIdentity \<Rightarrow> bool" where
  "goldHardwareCandidate a b =
    (let serialA = TrimSpace (id_HWSerial a); serialB = TrimSpace (id_HWSerial b) in
     if serialA = [] \<or> serialA \<noteq> serialB then False
     else disjointSubnets (id_SubnetIDs a) (id_SubnetIDs b))"

text \<open>The first loop of \<open>LinkDevices\<close>: non-empty ids, first occurrences.\<close>

fun unique_ids :: "string list \<Rightarrow> string list \<Rightarrow> string list" where
  "unique_ids seen [] = []"
| "unique_ids seen (i # is) = (if i = [] \<or> i \<in> set seen then unique_ids seen is else i # unique_ids (i # seen) is)"

definition LinkDevices :: "time \<Rightarrow> string option \<Rightarrow> string list \<Rightarrow> db \<Rightarrow> store_error + db" where
  "LinkDevices now tok ids d =
    (let unique = unique_ids [] ids in
     if length unique < 2 then Inl ErrArgs
     else
      let rows = filter (\<lambda>v. dv_id v \<in> set unique) (db_devices d);
          groups = unique_ids [] (map (\<lambda>v. coalesce (dv_hardware_group_id v)) rows) in
      if length rows \<noteq> length unique then Inl ErrNotFound
      else
       (case (if groups \<noteq> [] then Some (hd (sort groups)) else tok) of
          None \<Rightarrow> Inl ErrRand
        | Some target \<Rightarrow>
           Inr (d\<lparr>db_devices := update_rows
               (\<lambda>v. dv_id v \<in> set unique \<or> (case dv_hardware_group_id v of Some h \<Rightarrow> h \<in> set groups | None \<Rightarrow> False))
               (\<lambda>v. v\<lparr>dv_hardware_group_id := Some target, dv_updated_at := now\<rparr>) (db_devices d)\<rparr>)))"

definition UnlinkDevice :: "time \<Rightarrow> string \<Rightarrow> db \<Rightarrow> store_error + db" where
  "UnlinkDevice now key d =
    (case find (\<lambda>v. dv_id v = key) (db_devices d) of None \<Rightarrow> Inl ErrNotFound
     | Some v \<Rightarrow>
        let grp = coalesce (dv_hardware_group_id v) in
        if grp = [] then Inr d
        else
         let rows1 = update_rows (\<lambda>v. dv_id v = key)
               (\<lambda>v. v\<lparr>dv_hardware_group_id := None, dv_updated_at := now\<rparr>) (db_devices d);
             left = length (filter (\<lambda>v. dv_hardware_group_id v = Some grp) rows1) in
         Inr (d\<lparr>db_devices := update_rows (\<lambda>v. dv_hardware_group_id v = Some grp \<and> left < 2)
               (\<lambda>v. v\<lparr>dv_hardware_group_id := None, dv_updated_at := now\<rparr>) rows1\<rparr>))"

text \<open>\<open>btrim\<close> removes spaces only.\<close>

definition btrim :: "string \<Rightarrow> string" where
  "btrim s = Trim s '' ''"

definition address_hostnames :: "db \<Rightarrow> string \<Rightarrow> string list" where
  "address_hostnames d did =
    remdups (map (\<lambda>a. ToLower (btrim (ad_hostname a)))
      (filter (\<lambda>a. ad_device_id a = Some did \<and> btrim (ad_hostname a) \<noteq> []) (db_addresses d)))"

definition address_subnets :: "db \<Rightarrow> string \<Rightarrow> string list" where
  "address_subnets d did =
    remdups (concat (map (\<lambda>a. case ad_subnet_id a of None \<Rightarrow> [] | Some s \<Rightarrow> [s])
      (filter (\<lambda>a. ad_device_id a = Some did) (db_addresses d))))"

definition deviceLinkIdentity :: "string \<Rightarrow> db \<Rightarrow> store_error + (deviceIdentity \<times> string)" where
  "deviceLinkIdentity did d =
    (case find (\<lambda>v. dv_id v = did) (db_devices d) of None \<Rightarrow> Inl ErrNotFound
     | Some v \<Rightarrow> Inr (\<lparr>id_Hostname = singleHostname (address_hostnames d did), id_OSFamily = dv_os_family v,
         id_HWSerial = btrim (dv_hw_serial v), id_SubnetIDs = address_subnets d did\<rparr>,
         coalesce (dv_hardware_group_id v)))"

definition rejected :: "db \<Rightarrow> string \<Rightarrow> string \<Rightarrow> bool" where
  "rejected d a b = ((min a b, max a b) \<in> set (db_rejections d))"

text \<open>Rows joined with at least one address, outside the group, not dismissed.\<close>

definition link_candidate :: "db \<Rightarrow> string \<Rightarrow> string \<Rightarrow> device_row \<Rightarrow> bool" where
  "link_candidate d did grp v \<longleftrightarrow>
    dv_id v \<noteq> did \<and> (\<exists>a\<in>set (db_addresses d). ad_device_id a = Some (dv_id v)) \<and>
    (grp = [] \<or> dv_hardware_group_id v \<noteq> Some grp) \<and> \<not> rejected d (dv_id v) did"

record LinkedAddress =
  la_IP :: string
  la_SubnetID :: string
  la_SubnetName :: string
  la_SubnetCIDR :: string

record DeviceLinkSuggestion =
  dls_DeviceID :: string
  dls_Name :: string
  dls_Hostname :: string
  dls_OSFamily :: string
  dls_SerialMatch :: bool
  dls_Addresses :: "LinkedAddress list"

definition listLinkedAddresses :: "string \<Rightarrow> db \<Rightarrow> LinkedAddress list" where
  "listLinkedAddresses did d =
    concat (map (\<lambda>a. map (\<lambda>r. \<lparr>la_IP = pg_host (ad_address a), la_SubnetID = sn_id r, la_SubnetName = sn_name r,
        la_SubnetCIDR = Prefix_String (sn_cidr r)\<rparr>) (filter (\<lambda>r. ad_subnet_id a = Some (sn_id r)) (db_subnets d)))
      (sort_key (\<lambda>a. pg_key (ad_address a)) (filter (\<lambda>a. ad_device_id a = Some did) (db_addresses d))))"

record LinkedDevice =
  ld_Device :: Device
  ld_Addresses :: "LinkedAddress list"
  ld_MACs :: "MACAddress list"

definition ListLinkedDevices :: "string \<Rightarrow> db \<Rightarrow> store_error + LinkedDevice list" where
  "ListLinkedDevices did d =
    (case find (\<lambda>v. dv_id v = did) (db_devices d) of None \<Rightarrow> Inl ErrNotFound
     | Some v \<Rightarrow>
        let grp = coalesce (dv_hardware_group_id v) in
        if grp = [] then Inr []
        else map_res (\<lambda>w. bind_res (GetDevice (dv_id w) d) (\<lambda>dev.
               bind_res (ListMACAddresses (dv_id w) d) (\<lambda>macs.
               Inr \<lparr>ld_Device = dev, ld_Addresses = listLinkedAddresses (dv_id w) d, ld_MACs = macs\<rparr>)))
          (sort_key dv_name (sort_key dv_id
            (filter (\<lambda>w. dv_hardware_group_id w = Some grp \<and> dv_id w \<noteq> did) (db_devices d)))))"

definition link_suggestion :: "db \<Rightarrow> deviceIdentity \<Rightarrow> device_row \<Rightarrow> DeviceLinkSuggestion list" where
  "link_suggestion d target v =
    (let c = \<lparr>id_Hostname = singleHostname (address_hostnames d (dv_id v)), id_OSFamily = dv_os_family v,
           id_HWSerial = btrim (dv_hw_serial v), id_SubnetIDs = address_subnets d (dv_id v)\<rparr>;
         gold = goldHardwareCandidate target c in
     if \<not> gold \<and> \<not> sameHardwareCandidate target c then []
     else [\<lparr>dls_DeviceID = dv_id v, dls_Name = dv_name v, dls_Hostname = id_Hostname c, dls_OSFamily = id_OSFamily c,
            dls_SerialMatch = gold, dls_Addresses = listLinkedAddresses (dv_id v) d\<rparr>])"

definition ListDeviceLinkSuggestions :: "string \<Rightarrow> db \<Rightarrow> store_error + DeviceLinkSuggestion list" where
  "ListDeviceLinkSuggestions did d =
    bind_res (deviceLinkIdentity did d) (\<lambda>(target, grp).
     let serial = TrimSpace (id_HWSerial target);
         heuristic = (id_Hostname target \<noteq> [] \<and> id_OSFamily target \<noteq> []);
         os = canonicalIdentity (id_OSFamily target); hn = canonicalIdentity (id_Hostname target) in
     if (serial = [] \<and> \<not> heuristic) \<or> id_SubnetIDs target = [] then Inr []
     else
      let rows = filter (\<lambda>v. link_candidate d did grp v \<and>
            ((serial \<noteq> [] \<and> btrim (dv_hw_serial v) = serial) \<or>
             (hn \<noteq> [] \<and> ToLower (btrim (dv_os_family v)) = os \<and>
              (\<exists>a\<in>set (db_addresses d). ad_device_id a = Some (dv_id v) \<and> ToLower (btrim (ad_hostname a)) = hn))))
            (sort_key dv_name (sort_key dv_id (db_devices d))) in
      Inr (concat (map (link_suggestion d target) rows)))"

definition SettingDeviceLinkAutoSerial :: string where
  "SettingDeviceLinkAutoSerial = ''device_link_auto_serial''"

definition AutoLinkDeviceBySerial :: "time \<Rightarrow> string option \<Rightarrow> string \<Rightarrow> db \<Rightarrow> store_error + (string list \<times> db)" where
  "AutoLinkDeviceBySerial now tok did d =
    (if map_of (db_settings d) SettingDeviceLinkAutoSerial \<noteq> Some ''true'' then Inr ([], d)
     else (case deviceLinkIdentity did d of
        Inl ErrNotFound \<Rightarrow> Inr ([], d)
      | Inl e \<Rightarrow> Inl e
      | Inr (target, grp) \<Rightarrow>
         let serial = TrimSpace (id_HWSerial target) in
         if serial = [] \<or> id_SubnetIDs target = [] then Inr ([], d)
         else
          let rows = filter (\<lambda>v. link_candidate d did grp v \<and> btrim (dv_hw_serial v) = serial)
                (sort_key dv_id (db_devices d));
              matches = map dv_id (filter (\<lambda>v. disjointSubnets (id_SubnetIDs target) (address_subnets d (dv_id v))) rows) in
          if matches = [] then Inr ([], d)
          else bind_res (LinkDevices now tok (did # matches) d) (\<lambda>d'. Inr (matches, d'))))"

definition DismissDeviceLinkSuggestion :: "string \<Rightarrow> string \<Rightarrow> db \<Rightarrow> store_error + db" where
  "DismissDeviceLinkSuggestion a b d =
    (if a = [] \<or> b = [] \<or> a = b then Inl ErrArgs
     else
      let lo = (if b < a then b else a); hi = (if b < a then a else b) in
      if (lo, hi) \<in> set (db_rejections d) then Inr d
      else if lo \<notin> set (map dv_id (db_devices d)) \<or> hi \<notin> set (map dv_id (db_devices d)) then Inl ErrDb
      else Inr (d\<lparr>db_rejections := db_rejections d @ [(lo, hi)]\<rparr>))"

section \<open>The invariant is kept\<close>

lemma CreateDevice_inv: "inventory_ok d \<Longrightarrow> CreateDevice now tok inp d = Inr (v, d') \<Longrightarrow> inventory_ok d'"
  by (auto simp: CreateDevice_def bind_res_eq_Inr split: option.splits intro: insert_device_ok)

lemma UpdateDevice_inv: "inventory_ok d \<Longrightarrow> UpdateDevice now key inp d = Inr (v, d') \<Longrightarrow> inventory_ok d'"
  by (auto simp: UpdateDevice_def Let_def bind_res_eq_Inr split: if_splits intro!: update_device_columns_ok)

lemma DeleteDevice_inv: "inventory_ok d \<Longrightarrow> DeleteDevice key d = Inr d' \<Longrightarrow> inventory_ok d'"
  by (auto simp: DeleteDevice_def Let_def split: if_splits intro!: delete_devices_ok delete_addresses_ok)

lemma TagDevice_inv: "inventory_ok d \<Longrightarrow> TagDevice did t n c d = Inr d' \<Longrightarrow> inventory_ok d'"
  by (auto simp: TagDevice_def Let_def bind_res_eq_Inr split: if_splits)

lemma CreateMACAddress_inv:
  assumes "inventory_ok d"
  shows "inventory_ok (snd (CreateMACAddress g now tok did value d))"
  using assms
  by (auto simp: CreateMACAddress_def Let_def split: sum.splits option.splits
      intro: insert_mac_ok TagDevice_inv [OF insert_mac_ok])

lemma DeleteMACAddress_inv: "inventory_ok d \<Longrightarrow> DeleteMACAddress key d = Inr d' \<Longrightarrow> inventory_ok d'"
  by (auto simp: DeleteMACAddress_def split: if_splits intro: delete_macs_ok)

lemma LinkDevices_inv: "inventory_ok d \<Longrightarrow> LinkDevices now tok ids d = Inr d' \<Longrightarrow> inventory_ok d'"
  by (auto simp: LinkDevices_def Let_def split: if_splits option.splits intro!: update_device_columns_ok)

lemma UnlinkDevice_inv:
  assumes "inventory_ok d" "UnlinkDevice now key d = Inr d'"
  shows "inventory_ok d'"
proof -
  have "inventory_ok (d\<lparr>db_devices := update_rows Q f (update_rows P f (db_devices d))\<rparr>)"
    if "\<forall>r. dv_id (f r) = dv_id r" for P Q f
  proof -
    have "inventory_ok (d\<lparr>db_devices := update_rows P f (db_devices d)\<rparr>)"
      using assms(1) that by (rule update_device_columns_ok)
    from update_device_columns_ok [OF this that, of Q] show ?thesis by simp
  qed
  then show ?thesis
    using assms by (auto simp: UnlinkDevice_def Let_def split: if_splits option.splits)
qed

lemma AutoLinkDeviceBySerial_inv:
  "inventory_ok d \<Longrightarrow> AutoLinkDeviceBySerial now tok did d = Inr (ms, d') \<Longrightarrow> inventory_ok d'"
  by (auto simp: AutoLinkDeviceBySerial_def Let_def bind_res_eq_Inr
      split: if_splits sum.splits store_error.splits intro: LinkDevices_inv)

lemma DismissDeviceLinkSuggestion_inv:
  "inventory_ok d \<Longrightarrow> DismissDeviceLinkSuggestion a b d = Inr d' \<Longrightarrow> inventory_ok d'"
  by (auto simp: DismissDeviceLinkSuggestion_def Let_def split: if_splits)

section \<open>Hardware groups as an equivalence\<close>

definition hw_group :: "db \<Rightarrow> string \<Rightarrow> string option" where
  "hw_group d i = (case find (\<lambda>v. dv_id v = i) (db_devices d) of None \<Rightarrow> None | Some v \<Rightarrow> dv_hardware_group_id v)"

lemma two_members_length: "a \<in> set xs \<Longrightarrow> b \<in> set xs \<Longrightarrow> a \<noteq> b \<Longrightarrow> 2 \<le> length xs"
  by (cases xs; cases "tl xs") auto

definition linked :: "db \<Rightarrow> string \<Rightarrow> string \<Rightarrow> bool" where
  "linked d x y = (hw_group d x \<noteq> None \<and> hw_group d x = hw_group d y)"

lemma find_update_rows:
  assumes "\<And>r. key (f r) = key r"
  shows "find (\<lambda>r. key r = i) (update_rows P f rows) =
    map_option (\<lambda>r. if P r then f r else r) (find (\<lambda>r. key r = i) rows)"
  using assms by (induction rows) (auto simp: update_rows_def)

lemma set_unique_ids: "set (unique_ids seen is) = set is - set seen - {[]}"
  by (induction seen "is" rule: unique_ids.induct) auto

lemma hw_group_row:
  assumes "distinct (map dv_id (db_devices d))" "v \<in> set (db_devices d)"
  shows "hw_group d (dv_id v) = dv_hardware_group_id v"
  using find_key_Some [OF assms] by (simp add: hw_group_def)

text \<open>The ids a link request pulls together: the requested ones and the members of their groups.\<close>

definition pulled :: "db \<Rightarrow> string list \<Rightarrow> string \<Rightarrow> bool" where
  "pulled d ids x = (\<exists>i\<in>set ids. i \<noteq> [] \<and> (x = i \<or> linked d i x))"

lemma LinkDevices_groups:
  assumes "inventory_ok d" "LinkDevices now tok ids d = Inr d'"
    and "\<forall>v\<in>set (db_devices d). dv_hardware_group_id v \<noteq> Some []"
  obtains target where
    "\<And>x. x \<in> set (map dv_id (db_devices d)) \<Longrightarrow>
       hw_group d' x = (if pulled d ids x then Some target else hw_group d x)"
    "tok = Some target \<or> (\<exists>x\<in>set (map dv_id (db_devices d)). pulled d ids x \<and> hw_group d x = Some target)"
    "\<forall>i\<in>set ids. i \<noteq> [] \<longrightarrow> i \<in> set (map dv_id (db_devices d))"
proof -
  define unique where "unique = unique_ids [] ids"
  define rows where "rows = filter (\<lambda>v. dv_id v \<in> set unique) (db_devices d)"
  define groups where "groups = unique_ids [] (map (\<lambda>v. coalesce (dv_hardware_group_id v)) rows)"
  define P where "P v = (dv_id v \<in> set unique \<or> (case dv_hardware_group_id v of Some h \<Rightarrow> h \<in> set groups | None \<Rightarrow> False))"
    for v :: device_row
  have dist: "distinct (map dv_id (db_devices d))" using assms(1) by (simp add: inventory_defs)
  obtain target where len: "length rows = length unique"
    and t: "(if groups \<noteq> [] then Some (hd (sort groups)) else tok) = Some target"
    and d': "d' = d\<lparr>db_devices := update_rows P (\<lambda>v. v\<lparr>dv_hardware_group_id := Some target, dv_updated_at := now\<rparr>) (db_devices d)\<rparr>"
    using assms(2) unfolding LinkDevices_def Let_def unique_def [symmetric] rows_def [symmetric] groups_def [symmetric]
      P_def [symmetric]
    by (auto split: if_splits option.splits)
  have uset: "set unique = set ids - {[]}" by (simp add: unique_def set_unique_ids)
  have gset: "h \<in> set groups \<longleftrightarrow> (\<exists>v\<in>set (db_devices d). dv_id v \<in> set ids \<and> dv_id v \<noteq> [] \<and> dv_hardware_group_id v = Some h)" for h
    using assms(3) by (auto simp: groups_def set_unique_ids rows_def uset coalesce_def image_iff split: option.splits)
  have all: "i \<in> set (map dv_id (db_devices d))" if "i \<in> set unique" for i
  proof -
    have "distinct unique"
    proof -
      have "distinct (unique_ids seen xs)" for seen xs
        by (induction seen xs rule: unique_ids.induct) (auto simp: set_unique_ids)
      then show ?thesis by (simp add: unique_def)
    qed
    moreover have "distinct (map dv_id rows)" using dist by (simp add: rows_def distinct_map_filterI)
    moreover have "set (map dv_id rows) \<subseteq> set unique" by (auto simp: rows_def)
    ultimately have "set (map dv_id rows) = set unique"
      using len by (metis card_subset_eq distinct_card finite_set length_map)
    with that show ?thesis by (auto simp: rows_def)
  qed
  have P: "P v \<longleftrightarrow> pulled d ids (dv_id v)" if v: "v \<in> set (db_devices d)" for v
  proof -
    have "(\<exists>i\<in>set ids. i \<noteq> [] \<and> linked d i (dv_id v)) \<longleftrightarrow>
        (case dv_hardware_group_id v of Some h \<Rightarrow> h \<in> set groups | None \<Rightarrow> False)"
    proof
      assume "\<exists>i\<in>set ids. i \<noteq> [] \<and> linked d i (dv_id v)"
      then obtain i where i: "i \<in> set ids" "i \<noteq> []" "linked d i (dv_id v)" by blast
      then obtain w where w: "w \<in> set (db_devices d)" "dv_id w = i" using all uset by force
      then obtain h where "dv_hardware_group_id v = Some h" "dv_hardware_group_id w = Some h"
        using i hw_group_row [OF dist w(1)] hw_group_row [OF dist v]
        by (cases "dv_hardware_group_id w") (auto simp: linked_def)
      with w i show "case dv_hardware_group_id v of Some h \<Rightarrow> h \<in> set groups | None \<Rightarrow> False"
        by (auto simp: gset)
    next
      assume "case dv_hardware_group_id v of Some h \<Rightarrow> h \<in> set groups | None \<Rightarrow> False"
      then obtain h w where "dv_hardware_group_id v = Some h" "w \<in> set (db_devices d)" "dv_id w \<in> set ids"
        "dv_id w \<noteq> []" "dv_hardware_group_id w = Some h" by (auto simp: gset split: option.splits)
      then show "\<exists>i\<in>set ids. i \<noteq> [] \<and> linked d i (dv_id v)"
        using hw_group_row [OF dist] v by (intro bexI [of _ "dv_id w"]) (auto simp: linked_def)
    qed
    then show ?thesis by (auto simp: P_def pulled_def uset)
  qed
  show thesis
  proof (rule that [of target])
    fix x assume "x \<in> set (map dv_id (db_devices d))"
    then obtain v where v: "v \<in> set (db_devices d)" "x = dv_id v" by auto
    have "find (\<lambda>w. dv_id w = x) (db_devices d) = Some v" using find_key_Some [OF dist v(1)] v(2) by simp
    then show "hw_group d' x = (if pulled d ids x then Some target else hw_group d x)"
      using P [OF v(1)] by (simp add: hw_group_def d' find_update_rows v(2))
  next
    show "tok = Some target \<or> (\<exists>x\<in>set (map dv_id (db_devices d)). pulled d ids x \<and> hw_group d x = Some target)"
    proof (cases "groups = []")
      case True then show ?thesis using t by simp
    next
      case False
      then have "target \<in> set groups" using t by (metis (mono_tags) hd_in_set set_empty2 set_sort option.inject)
      then obtain v where v: "v \<in> set (db_devices d)" "dv_id v \<in> set ids" "dv_id v \<noteq> []" "dv_hardware_group_id v = Some target"
        by (auto simp: gset)
      then have "pulled d ids (dv_id v)" by (auto simp: pulled_def)
      then show ?thesis using v hw_group_row [OF dist v(1)] by auto
    qed
  next
    show "\<forall>i\<in>set ids. i \<noteq> [] \<longrightarrow> i \<in> set (map dv_id (db_devices d))" using all uset by auto
  qed
qed

section \<open>Properties\<close>

text \<open>C31: linking merges whole hardware groups and nothing else: after a successful link two devices
  are linked exactly when they were before or when both are among the requested devices or their
  group members.  In particular no group is ever split.\<close>

theorem LinkDevices_merges:
  assumes "inventory_ok d" "LinkDevices now tok ids d = Inr d'"
    and "\<forall>v\<in>set (db_devices d). dv_hardware_group_id v \<noteq> Some [] \<and> (tok \<noteq> None \<longrightarrow> dv_hardware_group_id v \<noteq> tok)"
    and "x \<in> set (map dv_id (db_devices d))" "y \<in> set (map dv_id (db_devices d))"
  shows "linked d' x y \<longleftrightarrow> linked d x y \<or> (pulled d ids x \<and> pulled d ids y)"
proof -
  have dist: "distinct (map dv_id (db_devices d))" using assms(1) by (simp add: inventory_defs)
  obtain target where g: "\<And>x. x \<in> set (map dv_id (db_devices d)) \<Longrightarrow>
       hw_group d' x = (if pulled d ids x then Some target else hw_group d x)"
    and t: "tok = Some target \<or> (\<exists>x\<in>set (map dv_id (db_devices d)). pulled d ids x \<and> hw_group d x = Some target)"
    and "\<forall>i\<in>set ids. i \<noteq> [] \<longrightarrow> i \<in> set (map dv_id (db_devices d))"
    by (rule LinkDevices_groups [OF assms(1,2)]) (use assms(3) in blast)+
  have closed: "pulled d ids b" if "pulled d ids a" "linked d a b" for a b
    using that by (auto simp: pulled_def linked_def)
  have fresh: "hw_group d z \<noteq> Some target" if z: "z \<in> set (map dv_id (db_devices d))" "\<not> pulled d ids z" for z
  proof
    assume hz: "hw_group d z = Some target"
    obtain v where v: "v \<in> set (db_devices d)" "z = dv_id v" using z(1) by auto
    show False
      using t
    proof
      assume "tok = Some target"
      then show False using assms(3) v hz hw_group_row [OF dist v(1)] by auto
    next
      assume "\<exists>x\<in>set (map dv_id (db_devices d)). pulled d ids x \<and> hw_group d x = Some target"
      then show False using closed z(2) hz by (auto simp: linked_def)
    qed
  qed
  have sym: "linked d y x" if "linked d x y" using that by (metis linked_def)
  note gx = g [OF assms(4)] and gy = g [OF assms(5)] and fx = fresh [OF assms(4)] and fy = fresh [OF assms(5)]
  consider "pulled d ids x" "pulled d ids y" | "pulled d ids x" "\<not> pulled d ids y"
    | "\<not> pulled d ids x" "pulled d ids y" | "\<not> pulled d ids x" "\<not> pulled d ids y" by blast
  then show ?thesis
  proof cases
    case 1
    then show ?thesis using gx gy by (simp add: linked_def)
  next
    case 2
    then have "\<not> linked d' x y" using gx gy fy by (auto simp: linked_def)
    then show ?thesis using 2 closed [of x y] by blast
  next
    case 3
    then have "\<not> linked d' x y" using gx gy fx by (auto simp: linked_def)
    then show ?thesis using 3 closed [of y x] sym by blast
  next
    case 4
    then show ?thesis using gx gy by (simp add: linked_def)
  qed
qed

definition demo_device :: "string \<Rightarrow> string \<Rightarrow> string option \<Rightarrow> device_row" where
  "demo_device key serial hw = \<lparr>dv_id = key, dv_name = key, dv_description = [], dv_os_family = [], dv_os_detail = [],
     dv_services = [], dv_discovery_source = [], dv_hw_serial = serial, dv_hw_object_id = [],
     dv_hardware_group_id = hw, dv_created_at = 0, dv_updated_at = 0\<rparr>"

definition demo_links :: db where
  "demo_links = empty_db\<lparr>db_devices := [demo_device ''v1'' [] None, demo_device ''v2'' [] (Some ''g1''),
     demo_device ''v3'' [] (Some ''g1''), demo_device ''v4'' [] None]\<rparr>"

lemma demo_links_ok: "inventory_ok demo_links"
  using empty_db_ok by (simp add: demo_links_def demo_device_def inventory_defs empty_db_def)

theorem LinkDevices_merges_witness:
  "\<exists>d'. LinkDevices 5 (Some ''t'') [''v1'', ''v2''] demo_links = Inr d' \<and> linked d' ''v1'' ''v3'' \<and> \<not> linked d' ''v1'' ''v4''"
proof -
  have "is_ok (LinkDevices 5 (Some ''t'') [''v1'', ''v2''] demo_links)" by code_simp
  then obtain d' where d': "LinkDevices 5 (Some ''t'') [''v1'', ''v2''] demo_links = Inr d'" by (auto simp: is_ok_iff)
  have g: "\<forall>v\<in>set (db_devices demo_links). dv_hardware_group_id v \<noteq> Some [] \<and>
      (Some ''t'' \<noteq> (None :: string option) \<longrightarrow> dv_hardware_group_id v \<noteq> Some ''t'')"
    by (simp add: demo_links_def demo_device_def)
  have ids: "map dv_id (db_devices demo_links) = [''v1'', ''v2'', ''v3'', ''v4'']"
    by (simp add: demo_links_def demo_device_def)
  note link = LinkDevices_merges [OF demo_links_ok d' g]
  have p: "pulled demo_links [''v1'', ''v2''] ''v1''" "pulled demo_links [''v1'', ''v2''] ''v3''"
    "\<not> pulled demo_links [''v1'', ''v2''] ''v4''" "\<not> linked demo_links ''v1'' ''v4''"
    by (simp_all add: pulled_def linked_def hw_group_def demo_links_def demo_device_def)
  show ?thesis using d' link [of "''v1''" "''v3''"] link [of "''v1''" "''v4''"] p ids by auto
qed

text \<open>Unlinking takes exactly one device out of its hardware group and leaves every other pair as
  it was; the group it left is dissolved unless at least two members remain.\<close>

theorem UnlinkDevice_spec:
  assumes "inventory_ok d" "UnlinkDevice now key d = Inr d'"
    and "\<forall>v\<in>set (db_devices d). dv_hardware_group_id v \<noteq> Some []"
    and "x \<in> set (map dv_id (db_devices d))" "y \<in> set (map dv_id (db_devices d))" "x \<noteq> y"
  shows "(linked d' x y \<longleftrightarrow> linked d x y \<and> x \<noteq> key \<and> y \<noteq> key) \<and> hw_group d' key = None \<and>
    (\<forall>h. hw_group d key = Some h \<longrightarrow> card {v \<in> set (db_devices d'). dv_hardware_group_id v = Some h} \<noteq> 1)"
proof -
  have dist: "distinct (map dv_id (db_devices d))" using assms(1) by (simp add: inventory_defs)
  let ?f = "\<lambda>v. v\<lparr>dv_hardware_group_id := None, dv_updated_at := now\<rparr>"
  obtain v where v: "find (\<lambda>v. dv_id v = key) (db_devices d) = Some v"
    using assms(2) by (auto simp: UnlinkDevice_def split: option.splits)
  then have vin: "v \<in> set (db_devices d)" "dv_id v = key" by (auto simp: find_Some_iff)
  have hk: "hw_group d key = dv_hardware_group_id v" using hw_group_row [OF dist vin(1)] vin(2) by simp
  show ?thesis
  proof (cases "dv_hardware_group_id v")
    case None
    then have "d' = d" using assms(2) v by (simp add: UnlinkDevice_def coalesce_def)
    then show ?thesis using hk None by (auto simp: linked_def)
  next
    case (Some h)
    then have hne: "h \<noteq> []" using assms(3) vin(1) by auto
    define rows1 where "rows1 = update_rows (\<lambda>v. dv_id v = key) ?f (db_devices d)"
    define left where "left = length (filter (\<lambda>v. dv_hardware_group_id v = Some h) rows1)"
    have d': "d' = d\<lparr>db_devices := update_rows (\<lambda>v. dv_hardware_group_id v = Some h \<and> left < 2) ?f rows1\<rparr>"
      using assms(2) v Some hne by (simp add: UnlinkDevice_def coalesce_def Let_def rows1_def left_def)
    have g: "hw_group d' z = (if z = key \<or> (hw_group d z = Some h \<and> left < 2) then None else hw_group d z)" for z
    proof (cases "find (\<lambda>v. dv_id v = z) (db_devices d)")
      case (Some w)
      then have "dv_id w = z" by (auto simp: find_Some_iff)
      with Some show ?thesis by (simp add: hw_group_def d' rows1_def find_update_rows)
    qed (simp add: hw_group_def d' rows1_def find_update_rows)
    have members: "{v \<in> set (db_devices d'). dv_hardware_group_id v = Some h} =
        (if left < 2 then {} else set (filter (\<lambda>v. dv_hardware_group_id v = Some h) rows1))"
      by (auto simp: d' set_update_rows)
    have "distinct (map dv_id rows1)" using dist by (simp add: rows1_def map_update_rows_key)
    then have "distinct rows1" by (simp add: distinct_map)
    then have "card (set (filter (\<lambda>v. dv_hardware_group_id v = Some h) rows1)) = left"
      by (simp only: left_def distinct_card distinct_filter)
    with members have c: "card {v \<in> set (db_devices d'). dv_hardware_group_id v = Some h} \<noteq> 1" by simp
    have two: "2 \<le> left" if "x \<noteq> key" "y \<noteq> key" "hw_group d x = Some h" "hw_group d y = Some h"
    proof -
      obtain a b where ab: "a \<in> set (db_devices d)" "dv_id a = x" "b \<in> set (db_devices d)" "dv_id b = y"
        using assms(4,5) by auto
      then have "a \<in> set (filter (\<lambda>v. dv_hardware_group_id v = Some h) rows1)"
        "b \<in> set (filter (\<lambda>v. dv_hardware_group_id v = Some h) rows1)"
        using that hw_group_row [OF dist] by (auto simp: rows1_def set_update_rows)
      moreover have "a \<noteq> b" using ab assms(6) by auto
      ultimately show ?thesis unfolding left_def by (rule two_members_length)
    qed
    have "linked d' x y \<longleftrightarrow> linked d x y \<and> x \<noteq> key \<and> y \<noteq> key"
      unfolding linked_def g using two
      by (cases "hw_group d x"; cases "hw_group d y"; cases "x = key"; cases "y = key") auto
    then show ?thesis using g c hk Some by simp
  qed
qed

theorem UnlinkDevice_spec_witness:
  "\<exists>d'. UnlinkDevice 5 ''v2'' demo_links = Inr d' \<and> \<not> linked d' ''v2'' ''v3'' \<and> hw_group d' ''v2'' = None \<and>
     card {v \<in> set (db_devices d'). dv_hardware_group_id v = Some ''g1''} \<noteq> 1"
proof -
  have "is_ok (UnlinkDevice 5 ''v2'' demo_links)" by code_simp
  then obtain d' where d': "UnlinkDevice 5 ''v2'' demo_links = Inr d'" by (auto simp: is_ok_iff)
  have g: "\<forall>v\<in>set (db_devices demo_links). dv_hardware_group_id v \<noteq> Some []"
    by (simp add: demo_links_def demo_device_def)
  have ids: "''v2'' \<in> set (map dv_id (db_devices demo_links))" "''v3'' \<in> set (map dv_id (db_devices demo_links))"
    "''v2'' \<noteq> ''v3''" and h: "hw_group demo_links ''v2'' = Some ''g1''"
    by (simp_all add: demo_links_def demo_device_def hw_group_def)
  from UnlinkDevice_spec [OF demo_links_ok d' g ids] d' h show ?thesis by simp
qed

text \<open>A device-link suggestion is sound: the suggested device is another device, shares no subnet
  with the viewed one, is not already in its hardware group and was not dismissed for it.\<close>

theorem ListDeviceLinkSuggestions_sound:
  assumes "ListDeviceLinkSuggestions did d = Inr sugg" "s \<in> set sugg"
  shows "dls_DeviceID s \<noteq> did \<and> \<not> rejected d (dls_DeviceID s) did \<and>
    (\<exists>v\<in>set (db_devices d). dv_id v = dls_DeviceID s \<and>
      (hw_group d did \<noteq> None \<and> hw_group d did \<noteq> Some [] \<longrightarrow> dv_hardware_group_id v \<noteq> hw_group d did)) \<and>
    set (address_subnets d did) \<inter> set (address_subnets d (dls_DeviceID s)) = {}"
proof -
  obtain t h where t: "deviceLinkIdentity did d = Inr (t, h)"
    using assms(1) by (cases "deviceLinkIdentity did d") (auto simp: ListDeviceLinkSuggestions_def)
  then have h: "h = coalesce (hw_group d did)" and ts: "id_SubnetIDs t = address_subnets d did"
    by (auto simp: deviceLinkIdentity_def hw_group_def split: option.splits)
  have "s \<in> set (concat (map (link_suggestion d t) (filter (link_candidate d did h) (db_devices d))))"
    using assms t by (auto simp: ListDeviceLinkSuggestions_def Let_def split: if_splits)
  then obtain v where v: "v \<in> set (db_devices d)" "link_candidate d did h v" and sv: "s \<in> set (link_suggestion d t v)"
    by auto
  define c where "c = \<lparr>id_Hostname = singleHostname (address_hostnames d (dv_id v)), id_OSFamily = dv_os_family v,
      id_HWSerial = btrim (dv_hw_serial v), id_SubnetIDs = address_subnets d (dv_id v)\<rparr>"
  have sid: "dls_DeviceID s = dv_id v" and c: "goldHardwareCandidate t c \<or> sameHardwareCandidate t c"
    using sv by (auto simp: link_suggestion_def Let_def c_def [symmetric] split: if_splits)
  have cs: "id_SubnetIDs c = address_subnets d (dv_id v)" by (simp add: c_def)
  have "disjointSubnets (id_SubnetIDs t) (id_SubnetIDs c)"
    using c by (auto simp: goldHardwareCandidate_def sameHardwareCandidate_def Let_def split: if_splits)
  then have "set (address_subnets d did) \<inter> set (address_subnets d (dv_id v)) = {}"
    by (auto simp: disjointSubnets_def ts cs list_all_iff)
  moreover have "hw_group d did \<noteq> None \<and> hw_group d did \<noteq> Some [] \<longrightarrow> dv_hardware_group_id v \<noteq> hw_group d did"
    using v(2) by (auto simp: link_candidate_def h coalesce_def)
  ultimately show ?thesis using v sid by (auto simp: link_candidate_def)
qed

definition demo_address :: "string \<Rightarrow> string \<Rightarrow> string \<Rightarrow> 32 word \<Rightarrow> address_row" where
  "demo_address key sid did w = \<lparr>ad_id = key, ad_subnet_id = Some sid, ad_device_id = Some did,
     ad_address = PrefixFrom (A4 w) 32, ad_state = ''assigned'', ad_hostname = [], ad_notes = [],
     ad_last_seen_at = None, ad_created_at = 0, ad_updated_at = 0\<rparr>"

definition demo_serials :: db where
  "demo_serials = empty_db\<lparr>
     db_devices := [demo_device ''v1'' ''S9'' None, demo_device ''v2'' ''S9'' None, demo_device ''v3'' ''S9'' None],
     db_addresses := [demo_address ''a1'' ''s1'' ''v1'' 1, demo_address ''a2'' ''s2'' ''v2'' 2, demo_address ''a3'' ''s2'' ''v3'' 3],
     db_rejections := [(''v2'', ''v3'')],
     db_settings := [(SettingDeviceLinkAutoSerial, ''true'')]\<rparr>"

theorem ListDeviceLinkSuggestions_sound_witness:
  "\<exists>sugg. ListDeviceLinkSuggestions ''v1'' demo_serials = Inr sugg \<and> length sugg = 2 \<and>
     set (address_subnets demo_serials ''v1'') \<inter> set (address_subnets demo_serials (dls_DeviceID (hd sugg))) = {}"
proof -
  have "case ListDeviceLinkSuggestions ''v1'' demo_serials of Inl _ \<Rightarrow> False | Inr sugg \<Rightarrow> length sugg = 2" by code_simp
  then obtain sugg where s: "ListDeviceLinkSuggestions ''v1'' demo_serials = Inr sugg" "length sugg = 2"
    by (auto split: sum.splits)
  then have "hd sugg \<in> set sugg" by (cases sugg) auto
  from ListDeviceLinkSuggestions_sound [OF s(1) this] s show ?thesis by blast
qed

text \<open>Serial auto-linking compares candidates with the imported device only.  In this inventory
  devices v2 and v3 hold addresses in the same subnet and their pair was dismissed, yet importing v1
  links them with each other.\<close>

theorem AutoLinkDeviceBySerial_links_dismissed:
  "rejected demo_serials ''v2'' ''v3'' \<and>
   address_subnets demo_serials ''v2'' = address_subnets demo_serials ''v3'' \<and>
   (case AutoLinkDeviceBySerial 7 (Some ''t'') ''v1'' demo_serials of
      Inl _ \<Rightarrow> False | Inr (ms, d') \<Rightarrow> ms = [''v2'', ''v3''] \<and> linked d' ''v2'' ''v3'')"
  by (intro conjI) code_simp+

end
