(* ===== verification/StoreDiscoveries.thy ===== *)
theory StoreDiscoveries
  imports StoreDevices
begin

text \<open>
  \<open>internal/store/discoveries.go\<close>: the review queue between raw scan observations and the managed
  inventory.  An observation is reconciled against the inventory and recorded per address; a
  reviewed discovery is imported into the inventory in one transaction, and later observations are
  synchronised onto the device it was imported into.
\<close>

section \<open>Values\<close>

definition ReconcileNew :: string where "ReconcileNew = ''new''"
definition ReconcileMatch :: string where "ReconcileMatch = ''match''"
definition ReconcileConflict :: string where "ReconcileConflict = ''conflict''"

record Discovery =
  dy_ID :: string
  dy_JobID :: string
  dy_AgentID :: string
  dy_AgentName :: string
  dy_IP :: string
  dy_MAC :: string
  dy_Vendor :: string
  dy_Hostname :: string
  dy_OSFamily :: string
  dy_OSDetail :: string
  dy_HWSerial :: string
  dy_HWObjectID :: string
  dy_VLAN :: int
  dy_Services :: "DiscoveryService list"
  dy_Status :: string
  dy_ReconcileStatus :: string
  dy_Conflict :: string
  dy_ImportedAddressID :: string
  dy_ImportedDeviceID :: string
  dy_FirstSeenAt :: time
  dy_LastSeenAt :: time

record DiscoveryImportTarget =
  it_ID :: string
  it_IP :: string
  it_VLAN :: int
  it_HasSubnet :: bool
  it_ScannedTargets :: "string list"

record DiscoveryInput =
  in_JobID :: string
  in_AgentID :: string
  in_IP :: string
  in_MAC :: string
  in_Vendor :: string
  in_Hostname :: string
  in_OSFamily :: string
  in_OSDetail :: string
  in_HWSerial :: string
  in_HWObjectID :: string
  in_VLAN :: int
  in_Services :: "DiscoveryService list"

record DiscoveryUpsert =
  up_ID :: string
  up_ReviewStatus :: string
  up_ReconcileStatus :: string

section \<open>Queries\<close>

definition agent_name :: "db \<Rightarrow> string option \<Rightarrow> string" where
  "agent_name d aid = (case aid of None \<Rightarrow> []
     | Some k \<Rightarrow> (case find (\<lambda>r. sa_id r = k) (db_agents d) of None \<Rightarrow> [] | Some r \<Rightarrow> sa_name r))"

definition scanDiscovery :: "db \<Rightarrow> discovery_row \<Rightarrow> Discovery" where
  "scanDiscovery d x =
    \<lparr>dy_ID = di_id x, dy_JobID = coalesce (di_job_id x), dy_AgentID = coalesce (di_agent_id x),
     dy_AgentName = agent_name d (di_agent_id x), dy_IP = pg_host (di_ip x), dy_MAC = coalesce (di_mac x),
     dy_Vendor = di_vendor x, dy_Hostname = di_hostname x, dy_OSFamily = di_os_family x, dy_OSDetail = di_os_detail x,
     dy_HWSerial = di_hw_serial x, dy_HWObjectID = di_hw_object_id x, dy_VLAN = di_vlan x, dy_Services = di_services x,
     dy_Status = di_status x, dy_ReconcileStatus = di_reconcile_status x, dy_Conflict = di_conflict x,
     dy_ImportedAddressID = coalesce (di_imported_address_id x), dy_ImportedDeviceID = coalesce (di_imported_device_id x),
     dy_FirstSeenAt = di_first_seen_at x, dy_LastSeenAt = di_last_seen_at x\<rparr>"

definition GetDiscovery :: "string \<Rightarrow> db \<Rightarrow> store_error + Discovery" where
  "GetDiscovery key d =
    (case find (\<lambda>x. di_id x = key) (db_discoveries d) of None \<Rightarrow> Inl ErrNotFound | Some x \<Rightarrow> Inr (scanDiscovery d x))"

definition ListDiscoveries :: "string \<Rightarrow> string \<Rightarrow> int \<Rightarrow> db \<Rightarrow> Discovery list" where
  "ListDiscoveries status reconcile limit d =
    (let n = (if limit \<le> 0 \<or> 500 < limit then 200 else nat limit) in
     take n (map (scanDiscovery d) (sort_key (\<lambda>x. - di_last_seen_at x)
       (filter (\<lambda>x. (status = [] \<or> di_status x = status) \<and> (reconcile = [] \<or> di_reconcile_status x = reconcile))
         (db_discoveries d)))))"

definition CountPendingDiscoveries :: "db \<Rightarrow> nat" where
  "CountPendingDiscoveries d = length (filter (\<lambda>x. di_status x = ''pending'') (db_discoveries d))"

definition CountUnreviewedConflicts :: "db \<Rightarrow> nat" where
  "CountUnreviewedConflicts d =
    length (filter (\<lambda>x. di_status x = ''pending'' \<and> di_reconcile_status x = ''conflict'') (db_discoveries d))"

definition ListPendingImportTargets :: "db \<Rightarrow> DiscoveryImportTarget list" where
  "ListPendingImportTargets d =
    map (\<lambda>x. \<lparr>it_ID = di_id x, it_IP = pg_host (di_ip x), it_VLAN = di_vlan x,
        it_HasSubnet = (\<exists>r\<in>set (db_subnets d). pg_contains_eq (sn_cidr r) (di_ip x)),
        it_ScannedTargets = (case find (\<lambda>j. di_job_id x = Some (sj_id j)) (db_jobs d) of None \<Rightarrow> [] | Some j \<Rightarrow> sj_targets j)\<rparr>)
      (sort_key (\<lambda>x. pg_key (di_ip x))
        (filter (\<lambda>x. di_status x = ''pending'' \<and> di_reconcile_status x \<noteq> ''conflict'') (db_discoveries d)))"

section \<open>Recording an observation\<close>

text \<open>The cast of the optional MAC argument.\<close>

definition cast_mac :: "pg \<Rightarrow> string option \<Rightarrow> store_error + string option" where
  "cast_mac g m = (case m of None \<Rightarrow> Inr None
     | Some s \<Rightarrow> (case pg_macaddr g s of None \<Rightarrow> Inl ErrDb | Some a \<Rightarrow> Inr (Some a)))"

definition cast_inet :: "pg \<Rightarrow> string \<Rightarrow> store_error + netprefix" where
  "cast_inet g s = (case pg_inet g s of None \<Rightarrow> Inl ErrDb | Some i \<Rightarrow> Inr i)"

definition reconcileDiscovery :: "pg \<Rightarrow> string \<Rightarrow> string \<Rightarrow> db \<Rightarrow> store_error + (string \<times> string)" where
  "reconcileDiscovery g ip mac d =
    bind_res (cast_inet g ip) (\<lambda>i.
    bind_res (cast_mac g (if mac \<noteq> [] then Some mac else None)) (\<lambda>m.
      case find (\<lambda>a. ad_address a = i) (db_addresses d) of
        None \<Rightarrow>
          (case m of
             None \<Rightarrow> Inr (ReconcileNew, [])
           | Some mm \<Rightarrow>
              (case find (\<lambda>a. ad_address a \<noteq> i \<and>
                     (\<exists>x\<in>set (db_macs d). mc_address x = mm \<and> mc_device_id x \<noteq> None \<and> mc_device_id x = ad_device_id a))
                   (db_addresses d) of
                 Some a \<Rightarrow> Inr (ReconcileConflict, ''MAC is already recorded on '' @ pg_host (ad_address a))
               | None \<Rightarrow> Inr (ReconcileNew, [])))
      | Some a \<Rightarrow>
         let deviceName = device_name d (ad_device_id a);
             own = filter (\<lambda>x. mc_device_id x \<noteq> None \<and> mc_device_id x = ad_device_id a) (db_macs d);
             macMatch = filter (\<lambda>x. Some (mc_address x) = m) own in
         if m \<noteq> None \<and> own \<noteq> [] \<and> macMatch = [] then
           Inr (ReconcileConflict, ''Address is assigned to '' @
             (if deviceName = [] then ''another device'' else deviceName) @ '' with a different MAC'')
         else if ad_state a = ''deprecated'' then
           Inr (ReconcileConflict, ''Address is marked deprecated but is responding'')
         else Inr (ReconcileMatch, [])))"

text \<open>\<open>ON CONFLICT (ip) DO UPDATE\<close>: the stored row \<open>old\<close> and the row \<open>new\<close> proposed for insertion.\<close>

definition keep :: "string \<Rightarrow> string \<Rightarrow> string" where
  "keep new old = (if new \<noteq> [] then new else old)"

definition merge_discovery :: "discovery_row \<Rightarrow> discovery_row \<Rightarrow> discovery_row" where
  "merge_discovery new old = old\<lparr>
     di_job_id := di_job_id new, di_agent_id := di_agent_id new,
     di_mac := (case di_mac new of None \<Rightarrow> di_mac old | Some m \<Rightarrow> Some m),
     di_vendor := keep (di_vendor new) (di_vendor old),
     di_hostname := keep (di_hostname new) (di_hostname old),
     di_os_family := keep (di_os_family new) (di_os_family old),
     di_os_detail := keep (di_os_detail new) (di_os_detail old),
     di_hw_serial := keep (di_hw_serial new) (di_hw_serial old),
     di_hw_object_id := keep (di_hw_object_id new) (di_hw_object_id old),
     di_vlan := (if di_vlan new \<noteq> 0 then di_vlan new else di_vlan old),
     di_services := (if di_services new \<noteq> [] then di_services new else di_services old),
     di_status := (if di_status old = ''imported'' \<and> di_imported_address_id old = None \<and>
                      di_reconcile_status new = ''new'' then ''pending'' else di_status old),
     di_reconcile_status := di_reconcile_status new, di_conflict := di_conflict new,
     di_last_seen_at := di_last_seen_at new, di_updated_at := di_updated_at new\<rparr>"

definition discovery_row_ok :: "db \<Rightarrow> discovery_row \<Rightarrow> bool" where
  "discovery_row_ok d x \<longleftrightarrow>
    fk_ok (di_job_id x) (map sj_id (db_jobs d)) \<and> fk_ok (di_agent_id x) (map sa_id (db_agents d)) \<and> int4 (di_vlan x)"

definition observed_row :: "time \<Rightarrow> string \<Rightarrow> DiscoveryInput \<Rightarrow> netprefix \<Rightarrow> string option \<Rightarrow> string \<Rightarrow> string \<Rightarrow> discovery_row" where
  "observed_row now key inp i m status conflict =
    \<lparr>di_id = key, di_job_id = emptyToNil (in_JobID inp), di_agent_id = emptyToNil (in_AgentID inp),
     di_ip = i, di_mac = m, di_vendor = in_Vendor inp, di_hostname = in_Hostname inp,
     di_os_family = in_OSFamily inp, di_os_detail = in_OSDetail inp, di_hw_serial = in_HWSerial inp,
     di_hw_object_id = in_HWObjectID inp, di_vlan = in_VLAN inp, di_services = in_Services inp,
     di_status = ''pending'', di_reconcile_status = status, di_conflict = conflict,
     di_imported_address_id = None, di_imported_device_id = None,
     di_first_seen_at = now, di_last_seen_at = now, di_updated_at = now\<rparr>"

definition refresh_last_seen :: "time \<Rightarrow> string \<Rightarrow> netprefix \<Rightarrow> db \<Rightarrow> db" where
  "refresh_last_seen now status i d =
    (if status = ReconcileNew then d
     else d\<lparr>db_addresses := update_rows (\<lambda>a. ad_address a = i) (\<lambda>a. a\<lparr>ad_last_seen_at := Some now\<rparr>) (db_addresses d)\<rparr>)"

definition UpsertDiscovery :: "pg \<Rightarrow> time \<Rightarrow> string option \<Rightarrow> DiscoveryInput \<Rightarrow> db \<Rightarrow>
    store_error + (DiscoveryUpsert \<times> db)" where
  "UpsertDiscovery g now tok inp d =
    (case tok of None \<Rightarrow> Inl ErrRand
     | Some key \<Rightarrow>
       bind_res (reconcileDiscovery g (in_IP inp) (in_MAC inp) d) (\<lambda>(status, conflict).
       bind_res (cast_inet g (in_IP inp)) (\<lambda>i.
       bind_res (cast_mac g (emptyToNil (in_MAC inp))) (\<lambda>m.
        let new = observed_row now key inp i m status conflict in
        if \<not> discovery_row_ok d new then Inl ErrDb
        else (case find (\<lambda>x. di_ip x = i) (db_discoveries d) of
           Some old \<Rightarrow>
             let row = merge_discovery new old in
             Inr (\<lparr>up_ID = di_id row, up_ReviewStatus = di_status row, up_ReconcileStatus = status\<rparr>,
                  refresh_last_seen now status i
                    (d\<lparr>db_discoveries := update_rows (\<lambda>x. di_ip x = i) (merge_discovery new) (db_discoveries d)\<rparr>))
         | None \<Rightarrow>
             if key \<in> set (map di_id (db_discoveries d)) then Inl ErrDb
             else Inr (\<lparr>up_ID = key, up_ReviewStatus = ''pending'', up_ReconcileStatus = status\<rparr>,
                  refresh_last_seen now status i (d\<lparr>db_discoveries := db_discoveries d @ [new]\<rparr>)))))))"

definition DismissDiscovery :: "time \<Rightarrow> string \<Rightarrow> db \<Rightarrow> store_error + db" where
  "DismissDiscovery now key d =
    (let hit = (\<lambda>x. di_id x = key \<and> di_status x \<noteq> ''imported'') in
     if affected hit (db_discoveries d) = 0 then Inl ErrNotFound
     else Inr (d\<lparr>db_discoveries := update_rows hit (\<lambda>x. x\<lparr>di_status := ''dismissed'', di_updated_at := now\<rparr>) (db_discoveries d)\<rparr>))"

section \<open>Import\<close>

definition backfillSubnetVLAN :: "pg \<Rightarrow> time \<Rightarrow> string \<Rightarrow> int \<Rightarrow> db \<Rightarrow> store_error + db" where
  "backfillSubnetVLAN g now ip vlan d =
    (if vlan \<le> 0 then Inr d
     else bind_res (cast_inet g ip) (\<lambda>i.
       let hit = (\<lambda>r. sn_vlan r = None \<and> pg_contains_eq (sn_cidr r) i) in
       if \<not> int4 vlan \<or> (0 < affected hit (db_subnets d) \<and> \<not> vlan_check (Some vlan)) then Inl ErrDb
       else Inr (d\<lparr>db_subnets := update_rows hit (\<lambda>r. r\<lparr>sn_vlan := Some vlan, sn_updated_at := now\<rparr>) (db_subnets d)\<rparr>)))"

definition resolveImportDevice :: "pg \<Rightarrow> Discovery \<Rightarrow> db \<Rightarrow> store_error + string" where
  "resolveImportDevice g x d =
    (if dy_ImportedDeviceID x \<noteq> [] \<and> dy_ImportedDeviceID x \<in> set (map dv_id (db_devices d)) then Inr (dy_ImportedDeviceID x)
     else if dy_MAC x \<noteq> [] then
       bind_res (cast_mac g (Some (dy_MAC x))) (\<lambda>m.
         case find (\<lambda>r. Some (mc_address r) = m) (db_macs d) of
           None \<Rightarrow> Inr []
         | Some r \<Rightarrow> (case mc_device_id r of None \<Rightarrow> Inl ErrScanNull | Some k \<Rightarrow> Inr k))
     else Inr [])"

definition attachDiscoveryMAC :: "pg \<Rightarrow> time \<Rightarrow> string option \<Rightarrow> string \<Rightarrow> string \<Rightarrow> string \<Rightarrow> db \<Rightarrow> store_error + db" where
  "attachDiscoveryMAC g now tok deviceID mac reportedVendor d =
    (let (mac', isPrivate, vendor) =
       (case Analyze mac of
          Inr an \<Rightarrow> (Address an, IsPrivate an, if reportedVendor = [] then Vendor an else reportedVendor)
        | Inl _ \<Rightarrow> (mac, False, reportedVendor)) in
     case tok of None \<Rightarrow> Inl ErrRand
     | Some key \<Rightarrow>
       (case pg_macaddr g mac' of None \<Rightarrow> Inl ErrDb
        | Some m \<Rightarrow>
          (case find (\<lambda>r. mc_address r = m) (db_macs d) of
             Some _ \<Rightarrow> Inr (d\<lparr>db_macs := update_rows (\<lambda>r. mc_address r = m)
                 (\<lambda>r. r\<lparr>mc_vendor := (if mc_vendor r = [] \<and> vendor \<noteq> [] then vendor else mc_vendor r)\<rparr>) (db_macs d)\<rparr>)
           | None \<Rightarrow> insert_mac \<lparr>mc_id = key, mc_device_id = Some deviceID, mc_address = m, mc_vendor = vendor,
                 mc_is_private = isPrivate, mc_created_at = now\<rparr> d)))"

text \<open>The discovered facts stamped on an existing device; a blank name keeps the current one.\<close>

definition stamp_device :: "time \<Rightarrow> Discovery \<Rightarrow> string \<Rightarrow> device_row \<Rightarrow> device_row" where
  "stamp_device now x manualName v = v\<lparr>
     dv_name := keep manualName (dv_name v),
     dv_os_family := keep (dy_OSFamily x) (dv_os_family v),
     dv_os_detail := keep (dy_OSDetail x) (dv_os_detail v),
     dv_hw_serial := keep (dy_HWSerial x) (dv_hw_serial v),
     dv_hw_object_id := keep (dy_HWObjectID x) (dv_hw_object_id v),
     dv_services := (if dy_Services x \<noteq> [] then dy_Services x else dv_services v),
     dv_discovery_source := (if dy_AgentName x = [] then ''scan'' else dy_AgentName x),
     dv_updated_at := now\<rparr>"

definition new_device :: "time \<Rightarrow> Discovery \<Rightarrow> string \<Rightarrow> string \<Rightarrow> device_row" where
  "new_device now x manualName key =
    \<lparr>dv_id = key,
     dv_name = (if manualName \<noteq> [] then manualName else if dy_Hostname x \<noteq> [] then dy_Hostname x else ''host-'' @ dy_IP x),
     dv_description = ''Created from scan discovery'',
     dv_os_family = dy_OSFamily x, dv_os_detail = dy_OSDetail x, dv_services = dy_Services x,
     dv_discovery_source = (if dy_AgentName x = [] then ''scan'' else dy_AgentName x),
     dv_hw_serial = dy_HWSerial x, dv_hw_object_id = dy_HWObjectID x, dv_hardware_group_id = None,
     dv_created_at = now, dv_updated_at = now\<rparr>"

definition write_device :: "time \<Rightarrow> string option \<Rightarrow> Discovery \<Rightarrow> string \<Rightarrow> string \<Rightarrow> db \<Rightarrow> store_error + (string \<times> db)" where
  "write_device now tokDev x manualName found d =
    (if found = [] then
       (case tokDev of None \<Rightarrow> Inl ErrRand
        | Some key \<Rightarrow> bind_res (insert_device (new_device now x manualName key) d) (\<lambda>d'. Inr (key, d')))
     else Inr (found, d\<lparr>db_devices := update_rows (\<lambda>v. dv_id v = found) (stamp_device now x manualName) (db_devices d)\<rparr>))"

definition importDiscoveryDevice :: "pg \<Rightarrow> time \<Rightarrow> string option \<Rightarrow> string option \<Rightarrow> Discovery \<Rightarrow> string \<Rightarrow> db \<Rightarrow>
    store_error + (string \<times> db)" where
  "importDiscoveryDevice g now tokDev tokMac x name d =
    bind_res (resolveImportDevice g x d) (\<lambda>found.
    bind_res (write_device now tokDev x (TrimSpace name) found d) (\<lambda>(deviceID, d1).
      if dy_MAC x \<noteq> [] then
        bind_res (attachDiscoveryMAC g now tokMac deviceID (dy_MAC x) (dy_Vendor x) d1) (\<lambda>d2. Inr (deviceID, d2))
      else Inr (deviceID, d1)))"

text \<open>The containing subnet with the longest prefix.\<close>

definition containing_subnet :: "netprefix \<Rightarrow> db \<Rightarrow> subnet_row option" where
  "containing_subnet i d =
    (case sort_key (\<lambda>r. 128 - Bits (sn_cidr r)) (filter (\<lambda>r. pg_contains_eq (sn_cidr r) i) (db_subnets d)) of
       [] \<Rightarrow> None | r # _ \<Rightarrow> Some r)"

definition upsert_address :: "address_row \<Rightarrow> (address_row \<Rightarrow> address_row) \<Rightarrow> db \<Rightarrow> store_error + (string \<times> db)" where
  "upsert_address row f d =
    (case find (\<lambda>a. ad_address a = ad_address row) (db_addresses d) of
       None \<Rightarrow> bind_res (insert_address row d) (\<lambda>d'. Inr (ad_id row, d'))
     | Some a \<Rightarrow> bind_res (update_address (ad_id a) f d) (\<lambda>d'. Inr (ad_id a, d')))"

text \<open>The address row an import proposes, its effect on an address that exists, and the mark it leaves
  on the discovery.\<close>

definition imported_address :: "time \<Rightarrow> Discovery \<Rightarrow> string \<Rightarrow> string option \<Rightarrow> netprefix \<Rightarrow> string \<Rightarrow> address_row" where
  "imported_address now x sid dev i key =
    \<lparr>ad_id = key, ad_subnet_id = Some sid, ad_device_id = dev, ad_address = i, ad_state = ''assigned'',
     ad_hostname = dy_Hostname x, ad_notes = ''Imported from scan discovery'', ad_last_seen_at = Some now,
     ad_created_at = now, ad_updated_at = now\<rparr>"

definition reimport_address :: "time \<Rightarrow> Discovery \<Rightarrow> string \<Rightarrow> string option \<Rightarrow> address_row \<Rightarrow> address_row" where
  "reimport_address now x sid dev a = a\<lparr>ad_subnet_id := Some sid,
     ad_device_id := (case dev of None \<Rightarrow> ad_device_id a | Some v \<Rightarrow> Some v),
     ad_hostname := keep (dy_Hostname x) (ad_hostname a),
     ad_last_seen_at := Some now, ad_updated_at := now\<rparr>"

definition mark_imported :: "time \<Rightarrow> string \<Rightarrow> string \<Rightarrow> discovery_row \<Rightarrow> discovery_row" where
  "mark_imported now aid did y = y\<lparr>di_status := ''imported'', di_imported_address_id := Some aid,
     di_imported_device_id := emptyToNil did, di_updated_at := now\<rparr>"

definition ImportDiscovery :: "pg \<Rightarrow> time \<Rightarrow> string option \<Rightarrow> string option \<Rightarrow> string option \<Rightarrow> string \<Rightarrow> string \<Rightarrow> db \<Rightarrow>
    store_error + (Discovery \<times> db)" where
  "ImportDiscovery g now tokDev tokMac tokAddr key name d =
    bind_res (GetDiscovery key d) (\<lambda>x.
    bind_res (cast_inet g (dy_IP x)) (\<lambda>i.
     case containing_subnet i d of
       None \<Rightarrow> Inl ErrNoContainingSubnet
     | Some r \<Rightarrow>
      bind_res (backfillSubnetVLAN g now (dy_IP x) (dy_VLAN x) d) (\<lambda>d1.
      bind_res (importDiscoveryDevice g now tokDev tokMac x name d1) (\<lambda>(deviceID, d2).
       case tokAddr of None \<Rightarrow> Inl ErrRand
       | Some ak \<Rightarrow>
        let dev = (if deviceID \<noteq> [] then Some deviceID else None) in
        bind_res (upsert_address (imported_address now x (sn_id r) dev i ak) (reimport_address now x (sn_id r) dev) d2)
          (\<lambda>(addressID, d3).
            let d4 = d3\<lparr>db_discoveries := update_rows (\<lambda>y. di_id y = dy_ID x) (mark_imported now addressID deviceID)
                  (db_discoveries d3)\<rparr> in
            bind_res (GetDiscovery key d4) (\<lambda>out. Inr (out, d4)))))))"

definition SyncImportedDiscovery :: "pg \<Rightarrow> time \<Rightarrow> string option \<Rightarrow> string \<Rightarrow> db \<Rightarrow> store_error + (string \<times> db)" where
  "SyncImportedDiscovery g now tokMac key d =
    bind_res (GetDiscovery key d) (\<lambda>x.
     if dy_Status x \<noteq> ''imported'' \<or> dy_ImportedDeviceID x = [] then Inr ([], d)
     else if dy_ImportedDeviceID x \<notin> set (map dv_id (db_devices d)) then Inr ([], d)
     else
      let d1 = d\<lparr>db_devices := update_rows (\<lambda>v. dv_id v = dy_ImportedDeviceID x) (stamp_device now x []) (db_devices d)\<rparr> in
      bind_res (if dy_MAC x \<noteq> [] then attachDiscoveryMAC g now tokMac (dy_ImportedDeviceID x) (dy_MAC x) (dy_Vendor x) d1
                else Inr d1) (\<lambda>d2.
      let d3 = (if dy_Hostname x \<noteq> [] \<and> dy_ImportedAddressID x \<noteq> [] then
            d2\<lparr>db_addresses := update_rows (\<lambda>a. ad_id a = dy_ImportedAddressID x \<and> ad_hostname a = [])
              (\<lambda>a. a\<lparr>ad_hostname := dy_Hostname x, ad_updated_at := now\<rparr>) (db_addresses d2)\<rparr>
          else d2) in
      bind_res (backfillSubnetVLAN g now (dy_IP x) (dy_VLAN x) d3) (\<lambda>d4. Inr (dy_ImportedDeviceID x, d4))))"

section \<open>The invariant is kept\<close>

lemma affected_0_update: "affected P rows = 0 \<Longrightarrow> update_rows P f rows = rows"
  by (auto simp: affected_def update_rows_def filter_empty_conv intro!: map_idI)

lemma keep_simps [simp]: "keep [] old = old" "keep x x = x"
  by (simp_all add: keep_def)

lemma keep_nonempty: "old \<noteq> [] \<Longrightarrow> keep new old \<noteq> []"
  by (simp add: keep_def)

lemma backfillSubnetVLAN_frame:
  assumes "backfillSubnetVLAN g now ip vlan d = Inr d'"
  shows "\<exists>P. d' = d\<lparr>db_subnets := update_rows P (\<lambda>r. r\<lparr>sn_vlan := Some vlan, sn_updated_at := now\<rparr>) (db_subnets d)\<rparr> \<and>
    (\<forall>r. P r \<longrightarrow> sn_vlan r = None) \<and> (affected P (db_subnets d) = 0 \<or> vlan_check (Some vlan))"
proof (cases "vlan \<le> 0")
  case True
  then have "d' = d" using assms by (simp add: backfillSubnetVLAN_def)
  then show ?thesis by (intro exI [of _ "\<lambda>_. False"]) (simp add: update_rows_def affected_def)
next
  case False
  then obtain i where "cast_inet g ip = Inr i" using assms by (auto simp: backfillSubnetVLAN_def bind_res_eq_Inr)
  with False assms show ?thesis
    by (intro exI [of _ "\<lambda>r. sn_vlan r = None \<and> pg_contains_eq (sn_cidr r) i"])
       (auto simp: backfillSubnetVLAN_def Let_def split: if_splits)
qed

lemma backfillSubnetVLAN_inv:
  assumes "inventory_ok d" "backfillSubnetVLAN g now ip vlan d = Inr d'"
  shows "inventory_ok d'"
proof -
  obtain P where d': "d' = d\<lparr>db_subnets := update_rows P (\<lambda>r. r\<lparr>sn_vlan := Some vlan, sn_updated_at := now\<rparr>) (db_subnets d)\<rparr>"
    and P: "affected P (db_subnets d) = 0 \<or> vlan_check (Some vlan)"
    using backfillSubnetVLAN_frame [OF assms(2)] by blast
  from P show ?thesis
  proof
    assume "affected P (db_subnets d) = 0"
    then show ?thesis using assms(1) by (simp add: d' affected_0_update)
  next
    assume "vlan_check (Some vlan)"
    then show ?thesis unfolding d' using assms(1) by (intro update_subnet_vlan_ok) auto
  qed
qed

lemma update_mac_vendor_ok:
  assumes "inventory_ok d" "\<forall>r. mc_id (f r) = mc_id r \<and> mc_address (f r) = mc_address r \<and> mc_device_id (f r) = mc_device_id r"
  shows "inventory_ok (d\<lparr>db_macs := update_rows P f (db_macs d)\<rparr>)"
proof -
  have "map mc_id (update_rows P f (db_macs d)) = map mc_id (db_macs d)"
    "map mc_address (update_rows P f (db_macs d)) = map mc_address (db_macs d)"
    using assms(2) by (simp_all add: map_update_rows_key)
  then show ?thesis using assms by (auto simp: inventory_defs set_update_rows)
qed

lemma attachDiscoveryMAC_frame:
  assumes "attachDiscoveryMAC g now tok did mac vendor d = Inr d'"
  shows "\<exists>ms. d' = d\<lparr>db_macs := ms\<rparr>"
  using assms
  by (auto simp: attachDiscoveryMAC_def Let_def insert_mac_def
      split: option.splits sum.splits prod.splits if_splits)

lemma attachDiscoveryMAC_inv:
  assumes "inventory_ok d" "attachDiscoveryMAC g now tok did mac vendor d = Inr d'"
  shows "inventory_ok d'"
  using assms
  by (auto simp: attachDiscoveryMAC_def Let_def split: option.splits sum.splits prod.splits
      intro: insert_mac_ok intro!: update_mac_vendor_ok)

lemma stamp_device_id [simp]: "dv_id (stamp_device now x n v) = dv_id v"
  by (simp add: stamp_device_def)

lemma stamp_device_name [simp]: "dv_name (stamp_device now x [] v) = dv_name v"
  by (simp add: stamp_device_def)

lemma resolveImportDevice_known:
  assumes "inventory_ok d" "resolveImportDevice g x d = Inr did" "did \<noteq> []"
  shows "did \<in> set (map dv_id (db_devices d))"
proof -
  have "k \<in> set (map dv_id (db_devices d))" if "r \<in> set (db_macs d)" "mc_device_id r = Some k" for r k
    using that assms(1) by (auto simp: inventory_defs fk_ok_def split: option.splits)
  then show ?thesis
    using assms(2,3)
    by (auto simp: resolveImportDevice_def bind_res_eq_Inr find_Some_iff split: if_splits option.splits)
       (metis image_eqI nth_mem)+
qed

lemma write_device_frame:
  assumes "inventory_ok d" "write_device now tok x n found d = Inr (did, d')"
    and "found \<noteq> [] \<Longrightarrow> found \<in> set (map dv_id (db_devices d))"
  shows "\<exists>vs. d' = d\<lparr>db_devices := vs\<rparr> \<and> did \<in> set (map dv_id vs) \<and> inventory_ok d'"
proof (cases "found = []")
  case True
  then have ins: "insert_device (new_device now x n did) d = Inr d'"
    using assms(2) by (auto simp: write_device_def bind_res_eq_Inr split: option.splits)
  with insert_device_ok [OF assms(1) ins] show ?thesis
    by (auto simp: insert_device_def new_device_def split: if_splits)
next
  case False
  let ?vs = "update_rows (\<lambda>v. dv_id v = found) (stamp_device now x n) (db_devices d)"
  have "inventory_ok (d\<lparr>db_devices := ?vs\<rparr>)" using assms(1) by (intro update_device_columns_ok) simp_all
  moreover have "map dv_id ?vs = map dv_id (db_devices d)" by (simp add: map_update_rows_key)
  then have "found \<in> set (map dv_id ?vs)" using assms(3) False by simp
  moreover have "did = found" "d' = d\<lparr>db_devices := ?vs\<rparr>"
    using assms(2) False by (auto simp: write_device_def)
  ultimately show ?thesis by blast
qed

lemma importDiscoveryDevice_frame:
  assumes "inventory_ok d" "importDiscoveryDevice g now tokDev tokMac x name d = Inr (did, d')"
  shows "\<exists>vs ms. d' = d\<lparr>db_devices := vs, db_macs := ms\<rparr> \<and> did \<in> set (map dv_id vs) \<and> inventory_ok d'"
proof -
  obtain found d1 where found: "resolveImportDevice g x d = Inr found"
    and w: "write_device now tokDev x (TrimSpace name) found d = Inr (did, d1)"
    and m: "(dy_MAC x = [] \<and> d' = d1) \<or> attachDiscoveryMAC g now tokMac did (dy_MAC x) (dy_Vendor x) d1 = Inr d'"
    using assms(2) by (auto simp: importDiscoveryDevice_def bind_res_eq_Inr split: if_splits)
  obtain vs where vs: "d1 = d\<lparr>db_devices := vs\<rparr>" "did \<in> set (map dv_id vs)" "inventory_ok d1"
    using write_device_frame [OF assms(1) w] resolveImportDevice_known [OF assms(1) found] by blast
  from m show ?thesis
  proof
    assume "dy_MAC x = [] \<and> d' = d1"
    then have "d' = d\<lparr>db_devices := vs, db_macs := db_macs d\<rparr>" using vs(1) by simp
    then show ?thesis using vs \<open>dy_MAC x = [] \<and> d' = d1\<close> by blast
  next
    assume at: "attachDiscoveryMAC g now tokMac did (dy_MAC x) (dy_Vendor x) d1 = Inr d'"
    obtain ms where "d' = d1\<lparr>db_macs := ms\<rparr>" using attachDiscoveryMAC_frame [OF at] by blast
    then have "d' = d\<lparr>db_devices := vs, db_macs := ms\<rparr>" using vs(1) by simp
    then show ?thesis using attachDiscoveryMAC_inv [OF vs(3) at] vs(2) by blast
  qed
qed

lemma upsert_address_inv:
  assumes "inventory_ok d" "upsert_address row f d = Inr (aid, d')" "\<forall>a. ad_id (f a) = ad_id a"
  shows "inventory_ok d'"
  using assms
  by (auto simp: upsert_address_def bind_res_eq_Inr split: option.splits intro: insert_address_ok update_address_ok)

lemma upsert_address_row:
  assumes "upsert_address row f d = Inr (aid, d')" "\<forall>a. ad_id (f a) = ad_id a \<and> ad_address (f a) = ad_address a"
  shows "\<exists>a as. d' = d\<lparr>db_addresses := as\<rparr> \<and> a \<in> set as \<and> ad_id a = aid \<and> ad_address a = ad_address row \<and>
    (a = row \<or> (\<exists>b\<in>set (db_addresses d). a = f b))"
proof (cases "find (\<lambda>a. ad_address a = ad_address row) (db_addresses d)")
  case None
  then have "d' = d\<lparr>db_addresses := db_addresses d @ [row]\<rparr>" "aid = ad_id row"
    using assms(1) by (auto simp: upsert_address_def bind_res_eq_Inr insert_address_def split: if_splits)
  then show ?thesis by (intro exI [of _ row] exI [of _ "db_addresses d @ [row]"]) simp
next
  case (Some b)
  then have b: "b \<in> set (db_addresses d)" "ad_address b = ad_address row" by (auto simp: find_Some_iff)
  from assms(1) Some have d': "aid = ad_id b"
    "d' = d\<lparr>db_addresses := update_rows (\<lambda>r. ad_id r = ad_id b) f (db_addresses d)\<rparr>"
    by (auto simp: upsert_address_def bind_res_eq_Inr update_address_def split: if_splits)
  have "f b \<in> set (update_rows (\<lambda>r. ad_id r = ad_id b) f (db_addresses d))"
    using b(1) by (auto simp: set_update_rows)
  then show ?thesis using d' b assms(2) by (intro exI [of _ "f b"]) auto
qed

lemma containing_subnet_spec:
  assumes "containing_subnet i d = Some r"
  shows "r \<in> set (db_subnets d)" "pg_contains_eq (sn_cidr r) i"
    "\<And>q. q \<in> set (db_subnets d) \<Longrightarrow> pg_contains_eq (sn_cidr q) i \<Longrightarrow> Bits (sn_cidr r) \<le> 128 \<Longrightarrow> Bits (sn_cidr q) \<le> 128 \<Longrightarrow>
      Bits (sn_cidr q) \<le> Bits (sn_cidr r)"
proof -
  define xs where "xs = sort_key (\<lambda>r. 128 - Bits (sn_cidr r)) (filter (\<lambda>r. pg_contains_eq (sn_cidr r) i) (db_subnets d))"
  obtain rest where xs: "xs = r # rest"
    using assms by (auto simp: containing_subnet_def xs_def [symmetric] split: list.splits)
  have set: "set xs = {r \<in> set (db_subnets d). pg_contains_eq (sn_cidr r) i}" by (simp add: xs_def)
  show "r \<in> set (db_subnets d)" "pg_contains_eq (sn_cidr r) i" using set xs by auto
  have "sorted (map (\<lambda>r. 128 - Bits (sn_cidr r)) xs)" by (simp add: xs_def)
  then show "Bits (sn_cidr q) \<le> Bits (sn_cidr r)"
    if "q \<in> set (db_subnets d)" "pg_contains_eq (sn_cidr q) i" "Bits (sn_cidr r) \<le> 128" "Bits (sn_cidr q) \<le> 128" for q
    using that set xs by (cases "q = r") fastforce+
qed

definition discoveries_ok :: "db \<Rightarrow> bool" where
  "discoveries_ok d \<longleftrightarrow> distinct (map di_id (db_discoveries d)) \<and> distinct (map di_ip (db_discoveries d))"

lemma UpsertDiscovery_cases:
  assumes "UpsertDiscovery g now tok inp d = Inr (u, d')"
  obtains (merged) key status conflict i m old where
      "tok = Some key" "reconcileDiscovery g (in_IP inp) (in_MAC inp) d = Inr (status, conflict)"
      "pg_inet g (in_IP inp) = Some i" "find (\<lambda>x. di_ip x = i) (db_discoveries d) = Some old"
      "u = \<lparr>up_ID = di_id old, up_ReviewStatus = di_status (merge_discovery (observed_row now key inp i m status conflict) old),
         up_ReconcileStatus = status\<rparr>"
      "d' = refresh_last_seen now status i (d\<lparr>db_discoveries :=
         update_rows (\<lambda>x. di_ip x = i) (merge_discovery (observed_row now key inp i m status conflict)) (db_discoveries d)\<rparr>)"
    | (fresh) key status conflict i m where
      "tok = Some key" "reconcileDiscovery g (in_IP inp) (in_MAC inp) d = Inr (status, conflict)"
      "pg_inet g (in_IP inp) = Some i" "find (\<lambda>x. di_ip x = i) (db_discoveries d) = None"
      "key \<notin> set (map di_id (db_discoveries d))"
      "u = \<lparr>up_ID = key, up_ReviewStatus = ''pending'', up_ReconcileStatus = status\<rparr>"
      "d' = refresh_last_seen now status i
         (d\<lparr>db_discoveries := db_discoveries d @ [observed_row now key inp i m status conflict]\<rparr>)"
proof -
  obtain key where tok: "tok = Some key" using assms by (cases tok) (auto simp: UpsertDiscovery_def)
  obtain status conflict where rec: "reconcileDiscovery g (in_IP inp) (in_MAC inp) d = Inr (status, conflict)"
    using assms tok by (auto simp: UpsertDiscovery_def bind_res_eq_Inr)
  obtain i m where i: "pg_inet g (in_IP inp) = Some i" and m: "cast_mac g (emptyToNil (in_MAC inp)) = Inr m"
    using assms tok rec by (auto simp: UpsertDiscovery_def bind_res_eq_Inr cast_inet_def split: option.splits)
  have ci: "cast_inet g (in_IP inp) = Inr i" using i by (simp add: cast_inet_def)
  have id: "di_id (merge_discovery new old) = di_id old" for new old by (simp add: merge_discovery_def)
  define new where "new = observed_row now key inp i m status conflict"
  show thesis
  proof (cases "find (\<lambda>x. di_ip x = i) (db_discoveries d)")
    case None
    show thesis
      by (rule fresh [OF tok rec i None]; insert assms tok rec ci m None;
          auto simp: UpsertDiscovery_def Let_def split: if_splits)
  next
    case (Some old)
    show thesis
      by (rule merged [OF tok rec i Some]; insert assms tok rec ci m Some;
          auto simp: UpsertDiscovery_def Let_def id split: if_splits)
  qed
qed

lemma refresh_last_seen_inv: "inventory_ok d \<Longrightarrow> inventory_ok (refresh_last_seen now status i d)"
  by (auto simp: refresh_last_seen_def intro!: update_address_columns_ok)

lemma refresh_last_seen_frame [simp]:
  "db_subnets (refresh_last_seen now status i d) = db_subnets d"
  "db_devices (refresh_last_seen now status i d) = db_devices d"
  "db_macs (refresh_last_seen now status i d) = db_macs d"
  "db_discoveries (refresh_last_seen now status i d) = db_discoveries d"
  by (simp_all add: refresh_last_seen_def)

lemma UpsertDiscovery_inv:
  assumes "inventory_ok d" "UpsertDiscovery g now tok inp d = Inr (u, d')"
  shows "inventory_ok d'"
  using assms(2) by (cases rule: UpsertDiscovery_cases) (simp_all add: assms(1) refresh_last_seen_inv)

lemma refresh_last_seen_addresses:
  "map (\<lambda>a. a\<lparr>ad_last_seen_at := None\<rparr>) (db_addresses (refresh_last_seen now status i d)) =
   map (\<lambda>a. a\<lparr>ad_last_seen_at := None\<rparr>) (db_addresses d)"
  by (simp add: refresh_last_seen_def update_rows_def)

lemma merge_discovery_ids [simp]:
  "di_id (merge_discovery new old) = di_id old" "di_ip (merge_discovery new old) = di_ip old"
  by (simp_all add: merge_discovery_def)

lemma UpsertDiscovery_discoveries_ok:
  assumes "discoveries_ok d" "UpsertDiscovery g now tok inp d = Inr (u, d')"
  shows "discoveries_ok d'"
  using assms(2)
proof (cases rule: UpsertDiscovery_cases)
  case merged
  then show ?thesis using assms(1) by (simp add: discoveries_ok_def map_update_rows_key)
next
  case (fresh key status conflict i m)
  then show ?thesis using assms(1)
    by (auto simp: discoveries_ok_def observed_row_def find_None_iff)
qed

text \<open>A successful import, step by step.\<close>

lemma ImportDiscovery_cases:
  assumes "ImportDiscovery g now tokDev tokMac tokAddr key name d = Inr (out, d')"
  obtains x i r d1 did d2 ak aid d3 dev where
    "GetDiscovery key d = Inr x" "pg_inet g (dy_IP x) = Some i" "containing_subnet i d = Some r"
    "backfillSubnetVLAN g now (dy_IP x) (dy_VLAN x) d = Inr d1"
    "importDiscoveryDevice g now tokDev tokMac x name d1 = Inr (did, d2)"
    "dev = (if did \<noteq> [] then Some did else None)"
    "upsert_address (imported_address now x (sn_id r) dev i ak) (reimport_address now x (sn_id r) dev) d2 = Inr (aid, d3)"
    "d' = d3\<lparr>db_discoveries := update_rows (\<lambda>y. di_id y = dy_ID x) (mark_imported now aid did) (db_discoveries d3)\<rparr>"
    "GetDiscovery key d' = Inr out"
proof -
  obtain x where x: "GetDiscovery key d = Inr x" using assms by (auto simp: ImportDiscovery_def bind_res_eq_Inr)
  obtain i where i: "cast_inet g (dy_IP x) = Inr i" using assms x by (auto simp: ImportDiscovery_def bind_res_eq_Inr)
  obtain r where r: "containing_subnet i d = Some r"
    using assms x i by (auto simp: ImportDiscovery_def split: option.splits)
  obtain d1 where d1: "backfillSubnetVLAN g now (dy_IP x) (dy_VLAN x) d = Inr d1"
    using assms x i r by (auto simp: ImportDiscovery_def bind_res_eq_Inr)
  obtain did d2 where d2: "importDiscoveryDevice g now tokDev tokMac x name d1 = Inr (did, d2)"
    using assms x i r d1 by (auto simp: ImportDiscovery_def bind_res_eq_Inr)
  obtain ak where ak: "tokAddr = Some ak"
    using assms x i r d1 d2 by (auto simp: ImportDiscovery_def split: option.splits)
  define dev where "dev = (if did \<noteq> [] then Some did else None)"
  obtain aid d3 where d3: "upsert_address (imported_address now x (sn_id r) dev i ak) (reimport_address now x (sn_id r) dev) d2
      = Inr (aid, d3)"
    using assms x i r d1 d2 ak by (auto simp: ImportDiscovery_def bind_res_eq_Inr Let_def dev_def)
  have inet: "pg_inet g (dy_IP x) = Some i" using i by (auto simp: cast_inet_def split: option.splits)
  have "bind_res (GetDiscovery key (d3\<lparr>db_discoveries := update_rows (\<lambda>y. di_id y = dy_ID x) (mark_imported now aid did)
      (db_discoveries d3)\<rparr>)) (\<lambda>out. Inr (out, d3\<lparr>db_discoveries := update_rows (\<lambda>y. di_id y = dy_ID x)
      (mark_imported now aid did) (db_discoveries d3)\<rparr>)) = Inr (out, d')"
    using assms x i r d1 d2 ak d3 by (simp add: ImportDiscovery_def Let_def dev_def [symmetric])
  then show thesis
    by (intro that [OF x inet r d1 d2 dev_def d3]) (auto simp: bind_res_eq_Inr)
qed

lemma reimport_address_ids [simp]:
  "ad_id (reimport_address now x sid dev a) = ad_id a" "ad_address (reimport_address now x sid dev a) = ad_address a"
  "ad_subnet_id (reimport_address now x sid dev a) = Some sid"
  by (simp_all add: reimport_address_def)

lemma ImportDiscovery_inv:
  assumes "inventory_ok d" "ImportDiscovery g now tokDev tokMac tokAddr key name d = Inr (out, d')"
  shows "inventory_ok d'"
  using assms(2)
proof (cases rule: ImportDiscovery_cases)
  case (1 x i r d1 did d2 ak aid d3 dev)
  have "inventory_ok d1" using backfillSubnetVLAN_inv [OF assms(1) 1(4)] .
  then have "inventory_ok d2" using importDiscoveryDevice_frame [OF _ 1(5)] by blast
  then have "inventory_ok d3" using upsert_address_inv [OF _ 1(7)] by simp
  then show ?thesis by (simp add: 1(8))
qed

lemma SyncImportedDiscovery_cases:
  assumes "SyncImportedDiscovery g now tok key d = Inr (did, d')"
  obtains (noop) "d' = d" "did = []"
    | (synced) x vs as d2 where "GetDiscovery key d = Inr x" "did = dy_ImportedDeviceID x" "dy_Status x = ''imported''"
      "vs = update_rows (\<lambda>v. dv_id v = did) (stamp_device now x []) (db_devices d)"
      "attachDiscoveryMAC g now tok did (dy_MAC x) (dy_Vendor x) (d\<lparr>db_devices := vs\<rparr>) = Inr d2 \<or> d2 = d\<lparr>db_devices := vs\<rparr>"
      "as = db_addresses d2 \<or> as = update_rows (\<lambda>a. ad_id a = dy_ImportedAddressID x \<and> ad_hostname a = [])
         (\<lambda>a. a\<lparr>ad_hostname := dy_Hostname x, ad_updated_at := now\<rparr>) (db_addresses d2)"
      "backfillSubnetVLAN g now (dy_IP x) (dy_VLAN x) (d2\<lparr>db_addresses := as\<rparr>) = Inr d'"
proof -
  obtain x where x: "GetDiscovery key d = Inr x" using assms by (auto simp: SyncImportedDiscovery_def bind_res_eq_Inr)
  show thesis
  proof (cases "dy_Status x \<noteq> ''imported'' \<or> dy_ImportedDeviceID x = [] \<or> dy_ImportedDeviceID x \<notin> set (map dv_id (db_devices d))")
    case True
    then have "SyncImportedDiscovery g now tok key d = Inr ([], d)" by (auto simp: SyncImportedDiscovery_def x)
    then show thesis using assms by (intro noop) simp_all
  next
    case False
    define vs where "vs = update_rows (\<lambda>v. dv_id v = dy_ImportedDeviceID x) (stamp_device now x []) (db_devices d)"
    define att where "att = (if dy_MAC x \<noteq> [] then attachDiscoveryMAC g now tok (dy_ImportedDeviceID x) (dy_MAC x) (dy_Vendor x)
        (d\<lparr>db_devices := vs\<rparr>) else Inr (d\<lparr>db_devices := vs\<rparr>))"
    have "\<exists>k. bind_res att k = SyncImportedDiscovery g now tok key d"
      using False by (simp only: SyncImportedDiscovery_def x bind_res_simps Let_def vs_def [symmetric] att_def [symmetric]) auto
    then obtain d2 where att: "att = Inr d2" unfolding assms by (auto simp: bind_res_eq_Inr)
    note d2 = att [unfolded att_def]
    define as where "as = (if dy_Hostname x \<noteq> [] \<and> dy_ImportedAddressID x \<noteq> [] then
        update_rows (\<lambda>a. ad_id a = dy_ImportedAddressID x \<and> ad_hostname a = [])
         (\<lambda>a. a\<lparr>ad_hostname := dy_Hostname x, ad_updated_at := now\<rparr>) (db_addresses d2) else db_addresses d2)"
    have d3: "(if dy_Hostname x \<noteq> [] \<and> dy_ImportedAddressID x \<noteq> [] then
            d2\<lparr>db_addresses := update_rows (\<lambda>a. ad_id a = dy_ImportedAddressID x \<and> ad_hostname a = [])
              (\<lambda>a. a\<lparr>ad_hostname := dy_Hostname x, ad_updated_at := now\<rparr>) (db_addresses d2)\<rparr>
          else d2) = d2\<lparr>db_addresses := as\<rparr>" by (simp add: as_def)
    have b: "bind_res (backfillSubnetVLAN g now (dy_IP x) (dy_VLAN x) (d2\<lparr>db_addresses := as\<rparr>))
        (\<lambda>d4. Inr (dy_ImportedDeviceID x, d4)) = Inr (did, d')"
      using assms False d2 by (simp only: SyncImportedDiscovery_def x bind_res_simps Let_def vs_def [symmetric] d3) simp
    then have "did = dy_ImportedDeviceID x" "backfillSubnetVLAN g now (dy_IP x) (dy_VLAN x) (d2\<lparr>db_addresses := as\<rparr>) = Inr d'"
      by (auto simp: bind_res_eq_Inr)
    then show thesis
      using False d2 by (intro synced [OF x, of vs d2 as]) (auto simp: vs_def as_def split: if_splits)
  qed
qed

lemma SyncImportedDiscovery_inv:
  assumes "inventory_ok d" "SyncImportedDiscovery g now tok key d = Inr (did, d')"
  shows "inventory_ok d'"
  using assms(2)
proof (cases rule: SyncImportedDiscovery_cases)
  case (synced x vs as d2)
  have "inventory_ok (d\<lparr>db_devices := vs\<rparr>)"
    unfolding synced(4) using assms(1) by (intro update_device_columns_ok) simp_all
  then have "inventory_ok d2" using synced(5) attachDiscoveryMAC_inv by auto
  then have "inventory_ok (d2\<lparr>db_addresses := as\<rparr>)"
    using synced(6) by (auto intro!: update_address_columns_ok)
  then show ?thesis by (rule backfillSubnetVLAN_inv [OF _ synced(7)])
qed (simp add: assms(1))

section \<open>Properties\<close>


definition demo_input :: DiscoveryInput where
  "demo_input = \<lparr>in_JobID = [], in_AgentID = [], in_IP = ''10.0.0.9'', in_MAC = ''b8:27:eb:00:00:01'', in_Vendor = [],
     in_Hostname = ''pi'', in_OSFamily = ''Linux'', in_OSDetail = [], in_HWSerial = [], in_HWObjectID = [], in_VLAN = 0,
     in_Services = []\<rparr>"

definition demo_queue :: db where
  "demo_queue = snd (projr (UpsertDiscovery pg_netip 3 (Some ''x1'') demo_input demo_db))"

definition demo_dismissed :: db where
  "demo_dismissed = projr (DismissDiscovery 4 ''x1'' demo_queue)"


text \<open>C13: a successful import keeps the inventory invariant and leaves an address row for the
  discovery, recorded in the managed subnet that contains it, and the discovery marked imported
  with that address.\<close>

theorem ImportDiscovery_places_address:
  assumes "inventory_ok d" "ImportDiscovery g now tokDev tokMac tokAddr key name d = Inr (out, d')"
  shows "inventory_ok d' \<and> dy_Status out = ''imported'' \<and>
    (\<exists>a\<in>set (db_addresses d'). \<exists>r\<in>set (db_subnets d'). ad_id a = dy_ImportedAddressID out \<and>
      pg_inet g (dy_IP out) = Some (ad_address a) \<and> ad_subnet_id a = Some (sn_id r) \<and>
      pg_contains_eq (sn_cidr r) (ad_address a))"
  using assms(2)
proof (cases rule: ImportDiscovery_cases)
  case (1 x i r d1 did d2 ak aid d3 dev)
  obtain P where d1: "d1 = d\<lparr>db_subnets := update_rows P (\<lambda>r. r\<lparr>sn_vlan := Some (dy_VLAN x), sn_updated_at := now\<rparr>) (db_subnets d)\<rparr>"
    using backfillSubnetVLAN_frame [OF 1(4)] by blast
  have ok1: "inventory_ok d1" using backfillSubnetVLAN_inv [OF assms(1) 1(4)] .
  obtain vs ms where d2: "d2 = d1\<lparr>db_devices := vs, db_macs := ms\<rparr>"
    using importDiscoveryDevice_frame [OF ok1 1(5)] by blast
  have "\<forall>a. ad_id (reimport_address now x (sn_id r) dev a) = ad_id a \<and>
      ad_address (reimport_address now x (sn_id r) dev a) = ad_address a" by simp
  from upsert_address_row [OF 1(7) this]
  obtain a as where a: "d3 = d2\<lparr>db_addresses := as\<rparr>" "a \<in> set as" "ad_id a = aid"
    "ad_address a = ad_address (imported_address now x (sn_id r) dev i ak)"
    "a = imported_address now x (sn_id r) dev i ak \<or> (\<exists>b\<in>set (db_addresses d2). a = reimport_address now x (sn_id r) dev b)"
    by blast
  have a4: "ad_address a = i" using a(4) by (simp add: imported_address_def)
  have a5: "ad_subnet_id a = Some (sn_id r)" using a(5) by (auto simp: imported_address_def)
  note r = containing_subnet_spec [OF 1(3)]
  obtain r' where r': "r' \<in> set (db_subnets d')" "sn_id r' = sn_id r" "sn_cidr r' = sn_cidr r"
  proof
    let ?r = "if P r then r\<lparr>sn_vlan := Some (dy_VLAN x), sn_updated_at := now\<rparr> else r"
    show "?r \<in> set (db_subnets d')" using r(1) by (auto simp: 1(8) a(1) d2 d1 set_update_rows)
  qed simp_all
  obtain row where row: "find (\<lambda>y. di_id y = key) (db_discoveries d) = Some row" "x = scanDiscovery d row"
    using 1(1) by (auto simp: GetDiscovery_def split: option.splits)
  have xid: "dy_ID x = key" using row by (auto simp: scanDiscovery_def find_Some_iff)
  have disc: "db_discoveries d3 = db_discoveries d" by (simp add: a(1) d2 d1)
  have "find (\<lambda>y. di_id y = key) (db_discoveries d') = Some (mark_imported now aid did row)"
    using row(1) xid by (simp add: 1(8) disc find_update_rows mark_imported_def) (auto simp: find_Some_iff)
  then have out: "out = scanDiscovery d' (mark_imported now aid did row)"
    using 1(9) by (simp add: GetDiscovery_def)
  have "dy_Status out = ''imported''" "dy_ImportedAddressID out = aid" "dy_IP out = dy_IP x"
    by (simp_all add: out scanDiscovery_def mark_imported_def coalesce_def row(2))
  moreover have "a \<in> set (db_addresses d')" using a(1,2) by (simp add: 1(8))
  moreover have "pg_inet g (dy_IP x) = Some (ad_address a)" using 1(2) a4 by simp
  moreover have "pg_contains_eq (sn_cidr r') (ad_address a)" using r(2) r'(3) a4 by simp
  moreover have "ad_subnet_id a = Some (sn_id r')" using a5 r'(2) by simp
  ultimately show ?thesis using ImportDiscovery_inv [OF assms] r'(1) a(3) by auto
qed

definition demo_imported :: db where
  "demo_imported = snd (projr (ImportDiscovery pg_netip 6 (Some ''dev1'') (Some ''mac1'') (Some ''adr1'') ''x1'' [] demo_queue))"

theorem ImportDiscovery_places_address_witness:
  "\<exists>out. ImportDiscovery pg_netip 6 (Some ''dev1'') (Some ''mac1'') (Some ''adr1'') ''x1'' [] demo_queue = Inr (out, demo_imported) \<and>
     (\<exists>a\<in>set (db_addresses demo_imported). ad_id a = dy_ImportedAddressID out)"
proof -
  have ok: "inventory_ok demo_queue" by code_simp
  have "is_ok (ImportDiscovery pg_netip 6 (Some ''dev1'') (Some ''mac1'') (Some ''adr1'') ''x1'' [] demo_queue)" by code_simp
  then obtain out where out: "ImportDiscovery pg_netip 6 (Some ''dev1'') (Some ''mac1'') (Some ''adr1'') ''x1'' [] demo_queue
      = Inr (out, demo_imported)"
    by (auto simp: is_ok_iff demo_imported_def)
  from ImportDiscovery_places_address [OF ok out] out show ?thesis by blast
qed

lemma backfillSubnetVLAN_fills:
  assumes "backfillSubnetVLAN g now ip vlan d = Inr d'"
  shows "db_devices d' = db_devices d \<and> db_macs d' = db_macs d \<and> db_addresses d' = db_addresses d \<and>
    db_discoveries d' = db_discoveries d \<and>
    list_all2 (\<lambda>r r'. sn_id r' = sn_id r \<and> sn_cidr r' = sn_cidr r \<and> (sn_vlan r \<noteq> None \<longrightarrow> r' = r)) (db_subnets d) (db_subnets d')"
  using backfillSubnetVLAN_frame [OF assms]
  by (auto simp: list_all2_conv_all_nth update_rows_def)

lemma SyncImportedDiscovery_fill:
  assumes "SyncImportedDiscovery g now tok key d = Inr (did, d')"
  shows "db_discoveries d' = db_discoveries d"
    "list_all2 (\<lambda>v v'. dv_id v' = dv_id v \<and> dv_name v' = dv_name v \<and> dv_description v' = dv_description v \<and>
      (dv_id v \<noteq> did \<longrightarrow> v' = v)) (db_devices d) (db_devices d')"
    "list_all2 (\<lambda>a a'. ad_id a' = ad_id a \<and> ad_address a' = ad_address a \<and> (ad_hostname a \<noteq> [] \<longrightarrow> a' = a))
      (db_addresses d) (db_addresses d')"
    "list_all2 (\<lambda>r r'. sn_id r' = sn_id r \<and> sn_cidr r' = sn_cidr r \<and> (sn_vlan r \<noteq> None \<longrightarrow> r' = r))
      (db_subnets d) (db_subnets d')"
proof -
  have "db_discoveries d' = db_discoveries d \<and>
    list_all2 (\<lambda>v v'. dv_id v' = dv_id v \<and> dv_name v' = dv_name v \<and> dv_description v' = dv_description v \<and>
      (dv_id v \<noteq> did \<longrightarrow> v' = v)) (db_devices d) (db_devices d') \<and>
    list_all2 (\<lambda>a a'. ad_id a' = ad_id a \<and> ad_address a' = ad_address a \<and> (ad_hostname a \<noteq> [] \<longrightarrow> a' = a))
      (db_addresses d) (db_addresses d') \<and>
    list_all2 (\<lambda>r r'. sn_id r' = sn_id r \<and> sn_cidr r' = sn_cidr r \<and> (sn_vlan r \<noteq> None \<longrightarrow> r' = r))
      (db_subnets d) (db_subnets d')"
    using assms
  proof (cases rule: SyncImportedDiscovery_cases)
    case noop
    then show ?thesis by (simp add: list.rel_refl)
  next
    case (synced x vs as d2)
    note fill = backfillSubnetVLAN_fills [OF synced(7)]
    obtain ms where d2: "d2 = d\<lparr>db_devices := vs, db_macs := ms\<rparr>"
    proof (cases "d2 = d\<lparr>db_devices := vs\<rparr>")
      case True
      then show thesis by (intro that [of "db_macs d"]) simp
    next
      case False
      then have "attachDiscoveryMAC g now tok did (dy_MAC x) (dy_Vendor x) (d\<lparr>db_devices := vs\<rparr>) = Inr d2"
        using synced(5) by blast
      then show thesis using attachDiscoveryMAC_frame that by fastforce
    qed
    have "list_all2 (\<lambda>v v'. dv_id v' = dv_id v \<and> dv_name v' = dv_name v \<and> dv_description v' = dv_description v \<and>
        (dv_id v \<noteq> did \<longrightarrow> v' = v)) (db_devices d) vs"
      by (simp add: synced(4) list_all2_conv_all_nth update_rows_def stamp_device_def)
    moreover have "list_all2 (\<lambda>a a'. ad_id a' = ad_id a \<and> ad_address a' = ad_address a \<and> (ad_hostname a \<noteq> [] \<longrightarrow> a' = a))
        (db_addresses d) as"
      using synced(6) by (auto simp: d2 list_all2_conv_all_nth update_rows_def)
    ultimately show ?thesis using fill by (simp add: d2)
  qed
  then show "db_discoveries d' = db_discoveries d"
    "list_all2 (\<lambda>v v'. dv_id v' = dv_id v \<and> dv_name v' = dv_name v \<and> dv_description v' = dv_description v \<and>
      (dv_id v \<noteq> did \<longrightarrow> v' = v)) (db_devices d) (db_devices d')"
    "list_all2 (\<lambda>a a'. ad_id a' = ad_id a \<and> ad_address a' = ad_address a \<and> (ad_hostname a \<noteq> [] \<longrightarrow> a' = a))
      (db_addresses d) (db_addresses d')"
    "list_all2 (\<lambda>r r'. sn_id r' = sn_id r \<and> sn_cidr r' = sn_cidr r \<and> (sn_vlan r \<noteq> None \<longrightarrow> r' = r))
      (db_subnets d) (db_subnets d')" by blast+
qed



text \<open>An observation whose VLAN tag exceeds 4094 cannot be imported into a subnet without a VLAN:
  the back-fill breaks the range check of the \<open>vlan\<close> column, and the whole import fails.\<close>

theorem ImportDiscovery_large_vlan_fails:
  assumes "GetDiscovery key d = Inr x" "pg_inet g (dy_IP x) = Some i" "containing_subnet i d = Some r"
    "sn_vlan r = None" "4094 < dy_VLAN x"
  shows "ImportDiscovery g now tokDev tokMac tokAddr key name d = Inl ErrDb"
proof -
  have "0 < affected (\<lambda>r. sn_vlan r = None \<and> pg_contains_eq (sn_cidr r) i) (db_subnets d)"
    using containing_subnet_spec(1,2) [OF assms(3)] assms(4) by (auto simp: affected_def filter_empty_conv)
  then have "backfillSubnetVLAN g now (dy_IP x) (dy_VLAN x) d = Inl ErrDb"
    using assms(2,5) by (simp add: backfillSubnetVLAN_def cast_inet_def vlan_check_def)
  then show ?thesis using assms(1-3) by (simp add: ImportDiscovery_def cast_inet_def)
qed

definition demo_wide_vlan :: db where
  "demo_wide_vlan = snd (projr (UpsertDiscovery pg_netip 3 (Some ''x1'') (demo_input\<lparr>in_VLAN := 4095\<rparr>)
     (snd (CreateSubnet pg_netip 0 (Some ''s1'') (demo_subnet_input\<lparr>si_VLAN := None\<rparr>) empty_db))))"

theorem ImportDiscovery_large_vlan_fails_witness:
  "ImportDiscovery pg_netip 6 (Some ''dev1'') (Some ''mac1'') (Some ''adr1'') ''x1'' [] demo_wide_vlan = Inl ErrDb"
proof -
  have "is_ok (GetDiscovery ''x1'' demo_wide_vlan)" "dy_IP (projr (GetDiscovery ''x1'' demo_wide_vlan)) = ''10.0.0.9''"
    "dy_VLAN (projr (GetDiscovery ''x1'' demo_wide_vlan)) = 4095" by code_simp+
  then obtain x where x: "GetDiscovery ''x1'' demo_wide_vlan = Inr x" "dy_IP x = ''10.0.0.9''" "dy_VLAN x = 4095"
    by (auto simp: is_ok_iff)
  have i: "pg_inet pg_netip (dy_IP x) = Some (PrefixFrom (A4 0x0A000009) 32)" unfolding x(2) by code_simp
  have "map_option sn_vlan (containing_subnet (PrefixFrom (A4 0x0A000009) 32) demo_wide_vlan) = Some None" by code_simp
  then obtain r where r: "containing_subnet (PrefixFrom (A4 0x0A000009) 32) demo_wide_vlan = Some r" "sn_vlan r = None" by auto
  show ?thesis by (rule ImportDiscovery_large_vlan_fails [OF x(1) i r]) (simp add: x(3))
qed

end
