(* ===== verification/StoreScans.thy ===== *)
theory StoreScans
  imports StoreDiscoveries
begin

text \<open>
  \<open>internal/store/scans.go\<close>: scan agents, scan jobs and scan schedules, with the foreign keys
  between them (a deleted agent takes its schedules and jobs along; discoveries keep their rows and
  lose the reference) and the display of a schedule's window.  Times count nanoseconds.  Slice
  arguments stand for non-nil slices; the text cast \<open>::jsonb\<close> is an argument.
\<close>

section \<open>Values\<close>

record ScanAgent =
  Agent_ID :: string
  Agent_Name :: string
  Agent_SiteID :: string
  Agent_EndpointURL :: string
  Agent_CertificateSubject :: string
  Agent_AllowedCIDRs :: "string list"
  Agent_Status :: string
  Agent_AutoImport :: bool
  Agent_Version :: string
  Agent_LastSeenAt :: "time option"
  Agent_CreatedAt :: time
  Agent_UpdatedAt :: time

record ScanAgentInput =
  ai_Name :: string
  ai_SiteID :: string
  ai_EndpointURL :: string
  ai_CertificateSubject :: string
  ai_AllowedCIDRs :: "string list"
  ai_Status :: string
  ai_AutoImport :: bool

record store_ScanJob =
  Job_ID :: string
  Job_AgentID :: string
  Job_AgentName :: string
  Job_ScheduleID :: string
  Job_RequestedBy :: string
  Job_RequestedByName :: string
  Job_ScanType :: string
  Job_Mode :: string
  Job_AllowedCIDRs :: "string list"
  Job_Targets :: "string list"
  Job_TimeoutSeconds :: int
  Job_Status :: string
  Job_Error :: string
  Job_Result :: string
  Job_StartedAt :: "time option"
  Job_FinishedAt :: "time option"
  Job_CreatedAt :: time
  Job_UpdatedAt :: time

record ScanJobInput =
  ji_AgentID :: string
  ji_ScheduleID :: "string option"
  ji_RequestedBy :: "string option"
  ji_ScanType :: string
  ji_Mode :: string
  ji_AllowedCIDRs :: "string list"
  ji_Targets :: "string list"
  ji_TimeoutSeconds :: int

record ScanJobResult =
  jr_Status :: string
  jr_Error :: string
  jr_Result :: string
  jr_StartedAt :: "time option"
  jr_FinishedAt :: "time option"

record ScanSchedule =
  Sched_ID :: string
  Sched_Name :: string
  Sched_AgentID :: string
  Sched_AgentName :: string
  Sched_ScanType :: string
  Sched_Mode :: string
  Sched_AllowedCIDRs :: "string list"
  Sched_Targets :: "string list"
  Sched_TimeoutSeconds :: int
  Sched_IntervalSeconds :: int
  Sched_Enabled :: bool
  WindowStartMin :: "int option"
  WindowEndMin :: "int option"
  WindowDays :: "int list"
  WindowTZ :: string
  LastRunAt :: "time option"
  LastRunStatus :: string
  LastRunError :: string
  LastJobID :: string
  NextRunAt :: time
  Sched_CreatedAt :: time
  Sched_UpdatedAt :: time

record ScanScheduleInput =
  ci_Name :: string
  ci_AgentID :: string
  ci_ScanType :: string
  ci_Mode :: string
  ci_AllowedCIDRs :: "string list"
  ci_Targets :: "string list"
  ci_TimeoutSeconds :: int
  ci_IntervalSeconds :: int
  ci_Enabled :: bool
  ci_WindowStartMin :: "int option"
  ci_WindowEndMin :: "int option"
  ci_WindowDays :: "int list"
  ci_WindowTZ :: string

definition nz :: "string \<Rightarrow> string option" where
  "nz s = (if s \<noteq> [] then Some s else None)"

section \<open>Agents\<close>

definition agent_of_row :: "agent_row \<Rightarrow> ScanAgent" where
  "agent_of_row r =
    \<lparr>Agent_ID = sa_id r, Agent_Name = sa_name r, Agent_SiteID = coalesce (sa_site_id r),
     Agent_EndpointURL = sa_endpoint_url r, Agent_CertificateSubject = sa_certificate_subject r,
     Agent_AllowedCIDRs = sa_allowed_cidrs r, Agent_Status = sa_status r, Agent_AutoImport = sa_auto_import r,
     Agent_Version = sa_version r, Agent_LastSeenAt = sa_last_seen_at r, Agent_CreatedAt = sa_created_at r,
     Agent_UpdatedAt = sa_updated_at r\<rparr>"

definition GetScanAgent :: "string \<Rightarrow> db \<Rightarrow> store_error + ScanAgent" where
  "GetScanAgent key d =
    (case find (\<lambda>r. sa_id r = key) (db_agents d) of None \<Rightarrow> Inl ErrNotFound | Some r \<Rightarrow> Inr (agent_of_row r))"

definition agent_row_ok :: "db \<Rightarrow> agent_row \<Rightarrow> bool" where
  "agent_row_ok d r \<longleftrightarrow> fk_ok (sa_site_id r) (map si_id (db_sites d))"

definition new_agent :: "time \<Rightarrow> string \<Rightarrow> ScanAgentInput \<Rightarrow> agent_row" where
  "new_agent now key inp =
    \<lparr>sa_id = key, sa_name = ai_Name inp, sa_site_id = nz (ai_SiteID inp), sa_endpoint_url = ai_EndpointURL inp,
     sa_certificate_subject = ai_CertificateSubject inp, sa_allowed_cidrs = ai_AllowedCIDRs inp,
     sa_status = (if ai_Status inp = [] then ''pending'' else ai_Status inp), sa_auto_import = ai_AutoImport inp,
     sa_version = [], sa_last_seen_at = None, sa_created_at = now, sa_updated_at = now\<rparr>"

definition CreateScanAgent :: "time \<Rightarrow> string option \<Rightarrow> ScanAgentInput \<Rightarrow> db \<Rightarrow> store_error + (ScanAgent \<times> db)" where
  "CreateScanAgent now tok inp d =
    (case tok of None \<Rightarrow> Inl ErrRand
     | Some key \<Rightarrow>
       let r = new_agent now key inp in
       if key \<in> set (map sa_id (db_agents d)) \<or> \<not> agent_row_ok d r then Inl ErrDb
       else let d' = d\<lparr>db_agents := db_agents d @ [r]\<rparr> in
         bind_res (GetScanAgent key d') (\<lambda>a. Inr (a, d')))"

definition edit_agent :: "time \<Rightarrow> ScanAgentInput \<Rightarrow> agent_row \<Rightarrow> agent_row" where
  "edit_agent now inp r = r\<lparr>sa_name := ai_Name inp, sa_site_id := nz (ai_SiteID inp), sa_endpoint_url := ai_EndpointURL inp,
     sa_certificate_subject := ai_CertificateSubject inp, sa_allowed_cidrs := ai_AllowedCIDRs inp,
     sa_status := ai_Status inp, sa_auto_import := ai_AutoImport inp, sa_updated_at := now\<rparr>"

definition UpdateScanAgent :: "time \<Rightarrow> string \<Rightarrow> ScanAgentInput \<Rightarrow> db \<Rightarrow> store_error + (ScanAgent \<times> db)" where
  "UpdateScanAgent now key inp d =
    (let hit = (\<lambda>r. sa_id r = key) in
     if affected hit (db_agents d) = 0 then Inl ErrNotFound
     else if \<not> fk_ok (nz (ai_SiteID inp)) (map si_id (db_sites d)) then Inl ErrDb
     else let d' = d\<lparr>db_agents := update_rows hit (edit_agent now inp) (db_agents d)\<rparr> in
       bind_res (GetScanAgent key d') (\<lambda>a. Inr (a, d')))"

definition ListScanAgents :: "db \<Rightarrow> ScanAgent list" where
  "ListScanAgents d = map agent_of_row (sort_key sa_name (db_agents d))"

text \<open>Deleting an agent: its schedules and jobs are deleted too, a job of another agent that one of
  those schedules produced keeps its row, and so do the discoveries.\<close>

definition delete_agents :: "(agent_row \<Rightarrow> bool) \<Rightarrow> db \<Rightarrow> db" where
  "delete_agents P d =
    (let gone = (\<lambda>k. k \<in> set (map sa_id (filter P (db_agents d))));
         gs = (\<lambda>k. k \<in> set (map sc_id (filter (\<lambda>s. gone (sc_agent_id s)) (db_schedules d))));
         gj = (\<lambda>k. k \<in> set (map sj_id (filter (\<lambda>j. gone (sj_agent_id j)) (db_jobs d)))) in
     d\<lparr>db_agents := filter (\<lambda>r. \<not> P r) (db_agents d),
       db_schedules := filter (\<lambda>s. \<not> gone (sc_agent_id s)) (db_schedules d),
       db_jobs := map (\<lambda>j. j\<lparr>sj_schedule_id := set_null gs (sj_schedule_id j)\<rparr>)
         (filter (\<lambda>j. \<not> gone (sj_agent_id j)) (db_jobs d)),
       db_discoveries := map (\<lambda>x. x\<lparr>di_job_id := set_null gj (di_job_id x), di_agent_id := set_null gone (di_agent_id x)\<rparr>)
         (db_discoveries d)\<rparr>)"

definition DeleteScanAgent :: "string \<Rightarrow> db \<Rightarrow> store_error + db" where
  "DeleteScanAgent key d =
    (let hit = (\<lambda>r. sa_id r = key) in
     if affected hit (db_agents d) = 0 then Inl ErrNotFound else Inr (delete_agents hit d))"

definition GetScanAgentByEndpoint :: "string \<Rightarrow> db \<Rightarrow> store_error + ScanAgent" where
  "GetScanAgentByEndpoint url d =
    (case find (\<lambda>r. sa_endpoint_url r = url) (db_agents d) of None \<Rightarrow> Inl ErrNotFound | Some r \<Rightarrow> GetScanAgent (sa_id r) d)"

definition scanAgentPending :: string where "scanAgentPending = ''pending''"

definition EnrollDiscoveredAgent :: "time \<Rightarrow> string option \<Rightarrow> string \<Rightarrow> ScanAgentInput \<Rightarrow> db \<Rightarrow>
    store_error + (ScanAgent \<times> bool \<times> db)" where
  "EnrollDiscoveredAgent now tok url inp d =
    (case GetScanAgentByEndpoint url d of
       Inr existing \<Rightarrow> Inr (existing, False, d)
     | Inl err \<Rightarrow>
       if err \<noteq> ErrNotFound then Inl err
       else bind_res (CreateScanAgent now tok (inp\<lparr>ai_EndpointURL := url, ai_Status := scanAgentPending\<rparr>) d)
         (\<lambda>(agent, d'). Inr (agent, True, d')))"

definition SetScanAgentStatus :: "time \<Rightarrow> string \<Rightarrow> string \<Rightarrow> db \<Rightarrow> store_error + db" where
  "SetScanAgentStatus now key status d =
    (let hit = (\<lambda>r. sa_id r = key) in
     if affected hit (db_agents d) = 0 then Inl ErrNotFound
     else Inr (d\<lparr>db_agents := update_rows hit (\<lambda>r. r\<lparr>sa_status := status, sa_updated_at := now\<rparr>) (db_agents d)\<rparr>))"

definition TouchScanAgent :: "time \<Rightarrow> string \<Rightarrow> string \<Rightarrow> db \<Rightarrow> db" where
  "TouchScanAgent now key version d =
    d\<lparr>db_agents := update_rows (\<lambda>r. sa_id r = key)
       (\<lambda>r. r\<lparr>sa_last_seen_at := Some now, sa_version := keep version (sa_version r), sa_updated_at := now\<rparr>) (db_agents d)\<rparr>"

section \<open>Jobs\<close>

definition user_name :: "db \<Rightarrow> string option \<Rightarrow> string" where
  "user_name d u = (case u of None \<Rightarrow> []
     | Some k \<Rightarrow> (case find (\<lambda>r. us_id r = k) (db_users d) of None \<Rightarrow> [] | Some r \<Rightarrow> us_display_name r))"

definition job_of_row :: "db \<Rightarrow> job_row \<Rightarrow> store_ScanJob" where
  "job_of_row d j =
    \<lparr>Job_ID = sj_id j, Job_AgentID = sj_agent_id j, Job_AgentName = agent_name d (Some (sj_agent_id j)),
     Job_ScheduleID = coalesce (sj_schedule_id j), Job_RequestedBy = coalesce (sj_requested_by j),
     Job_RequestedByName = user_name d (sj_requested_by j), Job_ScanType = sj_scan_type j, Job_Mode = sj_mode j,
     Job_AllowedCIDRs = sj_allowed_cidrs j, Job_Targets = sj_targets j, Job_TimeoutSeconds = sj_timeout_seconds j,
     Job_Status = sj_status j, Job_Error = sj_error j, Job_Result = coalesce (sj_result j),
     Job_StartedAt = sj_started_at j, Job_FinishedAt = sj_finished_at j,
     Job_CreatedAt = sj_created_at j, Job_UpdatedAt = sj_updated_at j\<rparr>"

definition GetScanJob :: "string \<Rightarrow> db \<Rightarrow> store_error + store_ScanJob" where
  "GetScanJob key d =
    (case find (\<lambda>j. sj_id j = key) (db_jobs d) of None \<Rightarrow> Inl ErrNotFound | Some j \<Rightarrow> Inr (job_of_row d j))"

definition job_row_ok :: "db \<Rightarrow> job_row \<Rightarrow> bool" where
  "job_row_ok d j \<longleftrightarrow> sj_agent_id j \<in> set (map sa_id (db_agents d)) \<and> fk_ok (sj_schedule_id j) (map sc_id (db_schedules d)) \<and>
     fk_ok (sj_requested_by j) (map us_id (db_users d)) \<and> int4 (sj_timeout_seconds j)"

definition new_job :: "time \<Rightarrow> string \<Rightarrow> ScanJobInput \<Rightarrow> job_row" where
  "new_job now key inp =
    \<lparr>sj_id = key, sj_agent_id = ji_AgentID inp, sj_schedule_id = ji_ScheduleID inp,
     sj_requested_by = ji_RequestedBy inp, sj_scan_type = ji_ScanType inp, sj_mode = ji_Mode inp,
     sj_allowed_cidrs = ji_AllowedCIDRs inp, sj_targets = ji_Targets inp,
     sj_timeout_seconds = (if ji_TimeoutSeconds inp \<le> 0 then 60 else ji_TimeoutSeconds inp),
     sj_status = ''queued'', sj_error = [], sj_result = None, sj_started_at = None, sj_finished_at = None,
     sj_created_at = now, sj_updated_at = now\<rparr>"

definition CreateScanJob :: "time \<Rightarrow> string option \<Rightarrow> ScanJobInput \<Rightarrow> db \<Rightarrow> store_error + (store_ScanJob \<times> db)" where
  "CreateScanJob now tok inp d =
    (case tok of None \<Rightarrow> Inl ErrRand
     | Some key \<Rightarrow>
       let j = new_job now key inp in
       if key \<in> set (map sj_id (db_jobs d)) \<or> \<not> job_row_ok d j then Inl ErrDb
       else let d' = d\<lparr>db_jobs := db_jobs d @ [j]\<rparr> in
         bind_res (GetScanJob key d') (\<lambda>a. Inr (a, d')))"

definition ListScanJobs :: "int \<Rightarrow> db \<Rightarrow> store_ScanJob list" where
  "ListScanJobs limit d =
    (let n = (if limit \<le> 0 \<or> 200 < limit then 50 else nat limit) in
     take n (map (\<lambda>j. (job_of_row d j)\<lparr>Job_Result := []\<rparr>) (sort_key (\<lambda>j. - sj_created_at j) (db_jobs d))))"

definition UpdateScanJobResult :: "(string \<Rightarrow> string option) \<Rightarrow> time \<Rightarrow> string \<Rightarrow> ScanJobResult \<Rightarrow> db \<Rightarrow> store_error + db" where
  "UpdateScanJobResult jsonb now key res d =
    (let set_result = (\<lambda>js. Inr (d\<lparr>db_jobs := update_rows (\<lambda>j. sj_id j = key)
           (\<lambda>j. j\<lparr>sj_status := jr_Status res, sj_error := jr_Error res, sj_result := js,
             sj_started_at := (case jr_StartedAt res of None \<Rightarrow> sj_started_at j | Some t \<Rightarrow> Some t),
             sj_finished_at := jr_FinishedAt res, sj_updated_at := now\<rparr>) (db_jobs d)\<rparr>)) in
     if jr_Result res = [] then set_result None
     else (case jsonb (jr_Result res) of None \<Rightarrow> Inl ErrDb | Some js \<Rightarrow> set_result (Some js)))"

section \<open>Schedules\<close>

definition schedule_of_row :: "db \<Rightarrow> schedule_row \<Rightarrow> ScanSchedule" where
  "schedule_of_row d s =
    \<lparr>Sched_ID = sc_id s, Sched_Name = sc_name s, Sched_AgentID = sc_agent_id s,
     Sched_AgentName = agent_name d (Some (sc_agent_id s)), Sched_ScanType = sc_scan_type s, Sched_Mode = sc_mode s,
     Sched_AllowedCIDRs = sc_allowed_cidrs s, Sched_Targets = sc_targets s,
     Sched_TimeoutSeconds = sc_timeout_seconds s, Sched_IntervalSeconds = sc_interval_seconds s,
     Sched_Enabled = sc_enabled s, WindowStartMin = sc_window_start_min s, WindowEndMin = sc_window_end_min s,
     WindowDays = sc_window_days s, WindowTZ = sc_window_tz s, LastRunAt = sc_last_run_at s,
     LastRunStatus = sc_last_run_status s, LastRunError = sc_last_run_error s, LastJobID = coalesce (sc_last_job_id s),
     NextRunAt = sc_next_run_at s, Sched_CreatedAt = sc_created_at s, Sched_UpdatedAt = sc_updated_at s\<rparr>"

definition GetScanSchedule :: "string \<Rightarrow> db \<Rightarrow> store_error + ScanSchedule" where
  "GetScanSchedule key d =
    (case find (\<lambda>s. sc_id s = key) (db_schedules d) of None \<Rightarrow> Inl ErrNotFound | Some s \<Rightarrow> Inr (schedule_of_row d s))"

text \<open>The columns of a schedule: its agent exists, integers fit their columns, and the minute bounds
  pass their \<open>CHECK\<close>.\<close>

definition minute_check :: "int option \<Rightarrow> bool" where
  "minute_check m = (case m of None \<Rightarrow> True | Some n \<Rightarrow> 0 \<le> n \<and> n \<le> 1439)"

definition schedule_row_ok :: "db \<Rightarrow> schedule_row \<Rightarrow> bool" where
  "schedule_row_ok d s \<longleftrightarrow> sc_agent_id s \<in> set (map sa_id (db_agents d)) \<and> int4 (sc_timeout_seconds s) \<and>
     int4 (sc_interval_seconds s) \<and> minute_check (sc_window_start_min s) \<and> minute_check (sc_window_end_min s) \<and>
     (\<forall>n\<in>set (sc_window_days s). int4 n)"

definition edit_schedule :: "ScanScheduleInput \<Rightarrow> schedule_row \<Rightarrow> schedule_row" where
  "edit_schedule inp s = s\<lparr>sc_name := ci_Name inp, sc_agent_id := ci_AgentID inp, sc_scan_type := ci_ScanType inp,
     sc_mode := ci_Mode inp, sc_allowed_cidrs := ci_AllowedCIDRs inp, sc_targets := ci_Targets inp,
     sc_timeout_seconds := ci_TimeoutSeconds inp, sc_interval_seconds := ci_IntervalSeconds inp,
     sc_enabled := ci_Enabled inp, sc_window_start_min := ci_WindowStartMin inp, sc_window_end_min := ci_WindowEndMin inp,
     sc_window_days := ci_WindowDays inp, sc_window_tz := (if ci_WindowTZ inp = [] then ''UTC'' else ci_WindowTZ inp)\<rparr>"

definition blank_schedule :: "time \<Rightarrow> string \<Rightarrow> time \<Rightarrow> schedule_row" where
  "blank_schedule now key nextRun =
    \<lparr>sc_id = key, sc_name = [], sc_agent_id = [], sc_scan_type = [], sc_mode = [], sc_allowed_cidrs = [], sc_targets = [],
     sc_timeout_seconds = 60, sc_interval_seconds = 0, sc_enabled = True, sc_window_start_min = None,
     sc_window_end_min = None, sc_window_days = [], sc_window_tz = ''UTC'', sc_last_run_at = None, sc_last_run_status = [],
     sc_last_run_error = [], sc_last_job_id = None, sc_next_run_at = nextRun, sc_created_at = now, sc_updated_at = now\<rparr>"

text \<open>The first run is one interval after the application's clock (\<open>clock\<close>); the row is stamped with
  the database's (\<open>now\<close>).\<close>

definition CreateScanSchedule :: "time \<Rightarrow> time \<Rightarrow> string option \<Rightarrow> ScanScheduleInput \<Rightarrow> db \<Rightarrow>
    store_error + (ScanSchedule \<times> db)" where
  "CreateScanSchedule clock now tok inp d =
    (case tok of None \<Rightarrow> Inl ErrRand
     | Some key \<Rightarrow>
       let s = edit_schedule inp (blank_schedule now key (clock + ci_IntervalSeconds inp * second_ns)) in
       if key \<in> set (map sc_id (db_schedules d)) \<or> \<not> schedule_row_ok d s then Inl ErrDb
       else let d' = d\<lparr>db_schedules := db_schedules d @ [s]\<rparr> in
         bind_res (GetScanSchedule key d') (\<lambda>a. Inr (a, d')))"

definition UpdateScanSchedule :: "time \<Rightarrow> string \<Rightarrow> ScanScheduleInput \<Rightarrow> db \<Rightarrow> store_error + (ScanSchedule \<times> db)" where
  "UpdateScanSchedule now key inp d =
    (let hit = (\<lambda>s. sc_id s = key); f = (\<lambda>s. (edit_schedule inp s)\<lparr>sc_updated_at := now\<rparr>) in
     if affected hit (db_schedules d) = 0 then Inl ErrNotFound
     else if \<not> (\<forall>s\<in>set (filter hit (db_schedules d)). schedule_row_ok d (f s)) then Inl ErrDb
     else let d' = d\<lparr>db_schedules := update_rows hit f (db_schedules d)\<rparr> in
       bind_res (GetScanSchedule key d') (\<lambda>a. Inr (a, d')))"

definition ListScanSchedules :: "db \<Rightarrow> ScanSchedule list" where
  "ListScanSchedules d = map (schedule_of_row d) (sort_key sc_name (db_schedules d))"

definition delete_schedules :: "(schedule_row \<Rightarrow> bool) \<Rightarrow> db \<Rightarrow> db" where
  "delete_schedules P d =
    (let gone = (\<lambda>k. k \<in> set (map sc_id (filter P (db_schedules d)))) in
     d\<lparr>db_schedules := filter (\<lambda>s. \<not> P s) (db_schedules d),
       db_jobs := map (\<lambda>j. j\<lparr>sj_schedule_id := set_null gone (sj_schedule_id j)\<rparr>) (db_jobs d)\<rparr>)"

definition DeleteScanSchedule :: "string \<Rightarrow> db \<Rightarrow> store_error + db" where
  "DeleteScanSchedule key d =
    (let hit = (\<lambda>s. sc_id s = key) in
     if affected hit (db_schedules d) = 0 then Inl ErrNotFound else Inr (delete_schedules hit d))"

definition ListDueScanSchedules :: "time \<Rightarrow> db \<Rightarrow> ScanSchedule list" where
  "ListDueScanSchedules now d =
    map (schedule_of_row d) (sort_key sc_next_run_at (filter (\<lambda>s. sc_enabled s \<and> sc_next_run_at s \<le> now) (db_schedules d)))"

definition MarkScanScheduleRan :: "time \<Rightarrow> string \<Rightarrow> db \<Rightarrow> db" where
  "MarkScanScheduleRan now key d =
    d\<lparr>db_schedules := update_rows (\<lambda>s. sc_id s = key)
       (\<lambda>s. s\<lparr>sc_last_run_at := Some now, sc_next_run_at := now + sc_interval_seconds s * second_ns, sc_updated_at := now\<rparr>)
       (db_schedules d)\<rparr>"

definition SetScanScheduleLastRun :: "time \<Rightarrow> string \<Rightarrow> string \<Rightarrow> string \<Rightarrow> string \<Rightarrow> db \<Rightarrow> db" where
  "SetScanScheduleLastRun now key status errMsg jobID d =
    d\<lparr>db_schedules := update_rows (\<lambda>s. sc_id s = key)
       (\<lambda>s. s\<lparr>sc_last_run_at := Some now, sc_last_run_status := status, sc_last_run_error := errMsg,
          sc_last_job_id := nz jobID, sc_updated_at := now\<rparr>) (db_schedules d)\<rparr>"

definition LastRunFailed :: "ScanSchedule \<Rightarrow> bool" where
  "LastRunFailed s \<longleftrightarrow> LastRunStatus s = ''failed'' \<or> LastRunStatus s = ''rejected''"

section \<open>The window label\<close>

definition HasWindow :: "ScanSchedule \<Rightarrow> bool" where
  "HasWindow s \<longleftrightarrow> WindowStartMin s \<noteq> None \<or> WindowEndMin s \<noteq> None \<or> WindowDays s \<noteq> []"

definition pad2 :: "int \<Rightarrow> string" where
  "pad2 n = (let s = itoa n in if length s < 2 then CHR ''0'' # s else s)"

definition formatMinutes :: "int \<Rightarrow> string" where
  "formatMinutes m = pad2 (m sdiv 60) @ '':'' @ pad2 (m smod 60)"

definition weekdayNames :: "string list" where
  "weekdayNames = [''Sun'', ''Mon'', ''Tue'', ''Wed'', ''Thu'', ''Fri'', ''Sat'']"

definition weekday_name :: "int \<Rightarrow> string" where
  "weekday_name n = weekdayNames ! nat n"

text \<open>The UTF-8 encoding of the en dash.\<close>

definition en_dash :: string where "en_dash = [CHR 0xE2, CHR 0x80, CHR 0x93]"

fun run_length :: "int \<Rightarrow> int list \<Rightarrow> nat" where
  "run_length n [] = 0"
| "run_length n (m # ms) = (if m = n + 1 then Suc (run_length m ms) else 0)"

function weekday_groups :: "int list \<Rightarrow> string list" where
  "weekday_groups [] = []"
| "weekday_groups (n # ns) =
    (let k = run_length n ns; run = n # take k ns in
     (if 3 \<le> length run then [weekday_name n @ en_dash @ weekday_name (last run)] else map weekday_name run) @
     weekday_groups (drop k ns))"
  by pat_completeness auto
termination by (relation "measure length") auto

fun valid_days :: "int list \<Rightarrow> int list \<Rightarrow> int list" where
  "valid_days seen [] = []"
| "valid_days seen (n # ns) =
    (if n < 0 \<or> 6 < n \<or> n \<in> set seen then valid_days seen ns else n # valid_days (n # seen) ns)"

definition formatWeekdays :: "int list \<Rightarrow> string" where
  "formatWeekdays days = (let uniq = valid_days [] days in
     if uniq = [] then [] else Join (weekday_groups (sort uniq)) '', '')"

definition WindowLabel :: "ScanSchedule \<Rightarrow> string" where
  "WindowLabel s =
    (let days = formatWeekdays (WindowDays s);
         parts = (if days \<noteq> [] then [days] else []) @
           (case (WindowStartMin s, WindowEndMin s) of
              (Some a, Some b) \<Rightarrow> [formatMinutes a @ en_dash @ formatMinutes b @ '' '' @
                (if WindowTZ s = [] then ''UTC'' else WindowTZ s)]
            | _ \<Rightarrow> []) in
     if parts = [] then ''Any time'' else Join parts '' '')"

section \<open>The invariant of the scan tables\<close>

definition scans_ok :: "db \<Rightarrow> bool" where
  "scans_ok d \<longleftrightarrow>
    distinct (map sa_id (db_agents d)) \<and> distinct (map sc_id (db_schedules d)) \<and> distinct (map sj_id (db_jobs d)) \<and>
    (\<forall>r\<in>set (db_agents d). agent_row_ok d r) \<and> (\<forall>s\<in>set (db_schedules d). schedule_row_ok d s) \<and>
    (\<forall>j\<in>set (db_jobs d). job_row_ok d j) \<and> (\<forall>x\<in>set (db_discoveries d). discovery_row_ok d x)"

lemmas scan_defs = scans_ok_def agent_row_ok_def schedule_row_ok_def job_row_ok_def discovery_row_ok_def

lemma empty_db_scans_ok: "scans_ok empty_db"
  by (simp add: scans_ok_def empty_db_def)

text \<open>A change outside the scan tables, and a change of one table that keeps its keys and references.\<close>

lemma scans_ok_frame:
  assumes "scans_ok d" "db_agents d' = db_agents d" "db_schedules d' = db_schedules d" "db_jobs d' = db_jobs d"
    "db_sites d' = db_sites d" "db_users d' = db_users d"
    "\<And>x. x \<in> set (db_discoveries d') \<Longrightarrow> discovery_row_ok d x"
  shows "scans_ok d'"
  using assms by (auto simp: scan_defs)

text \<open>The conditions on a row depend on the keys of the tables it refers to only.\<close>

lemma row_ok_cong:
  "map si_id (db_sites d') = map si_id (db_sites d) \<Longrightarrow> agent_row_ok d' = agent_row_ok d"
  "map sa_id (db_agents d') = map sa_id (db_agents d) \<Longrightarrow> schedule_row_ok d' = schedule_row_ok d"
  "map sa_id (db_agents d') = map sa_id (db_agents d) \<Longrightarrow> map sc_id (db_schedules d') = map sc_id (db_schedules d) \<Longrightarrow>
    map us_id (db_users d') = map us_id (db_users d) \<Longrightarrow> job_row_ok d' = job_row_ok d"
  "map sa_id (db_agents d') = map sa_id (db_agents d) \<Longrightarrow> map sj_id (db_jobs d') = map sj_id (db_jobs d) \<Longrightarrow>
    discovery_row_ok d' = discovery_row_ok d"
  by (simp_all add: agent_row_ok_def schedule_row_ok_def job_row_ok_def discovery_row_ok_def fun_eq_iff)

lemma update_agents_scans_ok:
  assumes "scans_ok d" "\<And>r. sa_id (f r) = sa_id r" "\<And>r. r \<in> set (db_agents d) \<Longrightarrow> P r \<Longrightarrow> agent_row_ok d (f r)"
  shows "scans_ok (d\<lparr>db_agents := update_rows P f (db_agents d)\<rparr>)"
proof -
  let ?d = "d\<lparr>db_agents := update_rows P f (db_agents d)\<rparr>"
  have "map sa_id (update_rows P f (db_agents d)) = map sa_id (db_agents d)"
    using assms(2) by (rule map_update_rows_key)
  then show ?thesis using assms by (auto simp: scans_ok_def row_ok_cong [of ?d d] set_update_rows)
qed

lemma update_jobs_scans_ok:
  assumes "scans_ok d" "\<And>j. sj_id (f j) = sj_id j" "\<And>j. j \<in> set (db_jobs d) \<Longrightarrow> P j \<Longrightarrow> job_row_ok d (f j)"
  shows "scans_ok (d\<lparr>db_jobs := update_rows P f (db_jobs d)\<rparr>)"
proof -
  let ?d = "d\<lparr>db_jobs := update_rows P f (db_jobs d)\<rparr>"
  have "map sj_id (update_rows P f (db_jobs d)) = map sj_id (db_jobs d)"
    using assms(2) by (rule map_update_rows_key)
  then show ?thesis using assms by (auto simp: scans_ok_def row_ok_cong [of ?d d] set_update_rows)
qed

lemma update_schedules_scans_ok:
  assumes "scans_ok d" "\<And>s. sc_id (f s) = sc_id s"
    "\<And>s. s \<in> set (db_schedules d) \<Longrightarrow> P s \<Longrightarrow> schedule_row_ok d (f s)"
  shows "scans_ok (d\<lparr>db_schedules := update_rows P f (db_schedules d)\<rparr>)"
proof -
  let ?d = "d\<lparr>db_schedules := update_rows P f (db_schedules d)\<rparr>"
  have "map sc_id (update_rows P f (db_schedules d)) = map sc_id (db_schedules d)"
    using assms(2) by (rule map_update_rows_key)
  then show ?thesis using assms by (auto simp: scans_ok_def row_ok_cong [of ?d d] set_update_rows)
qed

lemma insert_agent_scans_ok:
  assumes "scans_ok d" "sa_id r \<notin> set (map sa_id (db_agents d))" "agent_row_ok d r"
  shows "scans_ok (d\<lparr>db_agents := db_agents d @ [r]\<rparr>)"
  using assms by (auto simp: scan_defs fk_ok_snoc)

lemma insert_job_scans_ok:
  assumes "scans_ok d" "sj_id j \<notin> set (map sj_id (db_jobs d))" "job_row_ok d j"
  shows "scans_ok (d\<lparr>db_jobs := db_jobs d @ [j]\<rparr>)"
  using assms by (auto simp: scan_defs fk_ok_snoc)

lemma insert_schedule_scans_ok:
  assumes "scans_ok d" "sc_id s \<notin> set (map sc_id (db_schedules d))" "schedule_row_ok d s"
  shows "scans_ok (d\<lparr>db_schedules := db_schedules d @ [s]\<rparr>)"
  using assms by (auto simp: scan_defs fk_ok_snoc)

lemma delete_schedules_scans_ok:
  assumes "scans_ok d"
  shows "scans_ok (delete_schedules P d)"
proof -
  have "fk_ok (set_null (\<lambda>k. k \<in> set (map sc_id (filter P (db_schedules d)))) (sj_schedule_id j))
      (map sc_id (filter (\<lambda>s. \<not> P s) (db_schedules d)))" if "j \<in> set (db_jobs d)" for j
    using assms that by (intro fk_ok_set_null) (auto simp: scan_defs)
  then show ?thesis
    using assms by (auto simp: delete_schedules_def scan_defs Let_def comp_def distinct_map_filterI)
qed

lemma delete_agents_scans_ok:
  assumes "scans_ok d"
  shows "scans_ok (delete_agents P d)"
proof -
  define gone where "gone = (\<lambda>k. k \<in> set (map sa_id (filter P (db_agents d))))"
  have agents: "k \<in> set (map sa_id (filter (\<lambda>r. \<not> P r) (db_agents d)))"
    if "k \<in> set (map sa_id (db_agents d))" "\<not> gone k" for k
    using that by (auto simp: gone_def)
  have sched: "fk_ok (set_null (\<lambda>k. k \<in> set (map sc_id (filter (\<lambda>s. gone (sc_agent_id s)) (db_schedules d)))) (sj_schedule_id j))
      (map sc_id (filter (\<lambda>s. \<not> gone (sc_agent_id s)) (db_schedules d)))" if "j \<in> set (db_jobs d)" for j
    using assms that by (intro fk_ok_set_null) (auto simp: scan_defs)
  have disc: "fk_ok (set_null (\<lambda>k. k \<in> set (map sj_id (filter (\<lambda>j. gone (sj_agent_id j)) (db_jobs d)))) (di_job_id x))
      (map sj_id (filter (\<lambda>j. \<not> gone (sj_agent_id j)) (db_jobs d)))"
    "fk_ok (set_null gone (di_agent_id x)) (map sa_id (filter (\<lambda>r. \<not> P r) (db_agents d)))"
    if "x \<in> set (db_discoveries d)" for x
    using assms that unfolding gone_def by (auto simp: scan_defs intro!: fk_ok_set_null simp del: set_map)
  show ?thesis
    unfolding delete_agents_def gone_def [symmetric] Let_def
    using assms agents sched disc by (auto simp: scan_defs comp_def distinct_map_filterI)
qed

text \<open>The writes of this file, and of the review queue, as a step relation.\<close>

inductive scan_write :: "(string \<Rightarrow> string option) \<Rightarrow> pg \<Rightarrow> db \<Rightarrow> db \<Rightarrow> bool" for jsonb g where
  CreateAgent: "CreateScanAgent now tok ai d = Inr (a, d') \<Longrightarrow> scan_write jsonb g d d'"
| UpdateAgent: "UpdateScanAgent now key ai d = Inr (a, d') \<Longrightarrow> scan_write jsonb g d d'"
| DeleteAgent: "DeleteScanAgent key d = Inr d' \<Longrightarrow> scan_write jsonb g d d'"
| EnrollAgent: "EnrollDiscoveredAgent now tok url ai d = Inr (a, b, d') \<Longrightarrow> scan_write jsonb g d d'"
| AgentStatus: "SetScanAgentStatus now key status d = Inr d' \<Longrightarrow> scan_write jsonb g d d'"
| TouchAgent: "TouchScanAgent now key version d = d' \<Longrightarrow> scan_write jsonb g d d'"
| CreateJob: "CreateScanJob now tok ji d = Inr (j, d') \<Longrightarrow> scan_write jsonb g d d'"
| JobResult: "UpdateScanJobResult jsonb now key jr d = Inr d' \<Longrightarrow> scan_write jsonb g d d'"
| CreateSchedule: "CreateScanSchedule clock now tok ci d = Inr (s, d') \<Longrightarrow> scan_write jsonb g d d'"
| UpdateSchedule: "UpdateScanSchedule now key ci d = Inr (s, d') \<Longrightarrow> scan_write jsonb g d d'"
| DeleteSchedule: "DeleteScanSchedule key d = Inr d' \<Longrightarrow> scan_write jsonb g d d'"
| MarkRan: "MarkScanScheduleRan now key d = d' \<Longrightarrow> scan_write jsonb g d d'"
| LastRun: "SetScanScheduleLastRun now key status err job d = d' \<Longrightarrow> scan_write jsonb g d d'"
| Observe: "UpsertDiscovery g now tok di d = Inr (u, d') \<Longrightarrow> scan_write jsonb g d d'"
| Dismiss: "DismissDiscovery now key d = Inr d' \<Longrightarrow> scan_write jsonb g d d'"
| Import: "ImportDiscovery g now tokDev tokMac tokAddr key name d = Inr (out, d') \<Longrightarrow> scan_write jsonb g d d'"
| Sync: "SyncImportedDiscovery g now tokMac key d = Inr (did, d') \<Longrightarrow> scan_write jsonb g d d'"

lemma CreateScanAgent_scans_ok:
  assumes "scans_ok d" "CreateScanAgent now tok inp d = Inr (a, d')"
  shows "scans_ok d'"
  using assms by (auto simp: CreateScanAgent_def new_agent_def Let_def bind_res_eq_Inr split: option.splits if_splits
      intro!: insert_agent_scans_ok)

lemma UpdateScanAgent_scans_ok:
  assumes "scans_ok d" "UpdateScanAgent now key inp d = Inr (a, d')"
  shows "scans_ok d'"
  using assms by (auto simp: UpdateScanAgent_def Let_def bind_res_eq_Inr edit_agent_def agent_row_ok_def split: if_splits
      intro!: update_agents_scans_ok)

lemma EnrollDiscoveredAgent_cases:
  assumes "EnrollDiscoveredAgent now tok url inp d = Inr (a, created, d')"
  obtains (known) "\<not> created" "d' = d" "GetScanAgentByEndpoint url d = Inr a"
    | (new) "created" "CreateScanAgent now tok (inp\<lparr>ai_EndpointURL := url, ai_Status := scanAgentPending\<rparr>) d = Inr (a, d')"
  using assms by (auto simp: EnrollDiscoveredAgent_def bind_res_eq_Inr split: sum.splits if_splits)

lemma CreateScanJob_scans_ok:
  assumes "scans_ok d" "CreateScanJob now tok inp d = Inr (a, d')"
  shows "scans_ok d'"
  using assms by (auto simp: CreateScanJob_def new_job_def Let_def bind_res_eq_Inr split: option.splits if_splits
      intro!: insert_job_scans_ok)

lemma CreateScanJob_row:
  assumes "CreateScanJob now tok inp d = Inr (j, d')"
  shows "\<exists>key. tok = Some key \<and> key \<notin> set (map sj_id (db_jobs d)) \<and> job_row_ok d (new_job now key inp) \<and>
    d' = d\<lparr>db_jobs := db_jobs d @ [new_job now key inp]\<rparr> \<and> j = job_of_row d' (new_job now key inp)"
proof -
  obtain key where tok: "tok = Some key" using assms by (cases tok) (simp_all add: CreateScanJob_def)
  let ?r = "new_job now key inp"
  have fresh: "sj_id ?r = key" "key \<notin> set (map sj_id (db_jobs d))"
    using assms tok by (simp_all add: CreateScanJob_def new_job_def Let_def split: if_splits)
  have "j = job_of_row d' ?r \<and> d' = d\<lparr>db_jobs := db_jobs d @ [?r]\<rparr> \<and> job_row_ok d ?r"
    using assms tok find_fresh_key [where key = sj_id, OF fresh]
    by (auto simp: CreateScanJob_def GetScanJob_def Let_def split: if_splits)
  then show ?thesis using fresh tok by auto
qed

lemma UpdateScanJobResult_frame:
  assumes "UpdateScanJobResult jsonb now key res d = Inr d'"
  shows "\<exists>f. d' = d\<lparr>db_jobs := update_rows (\<lambda>j. sj_id j = key) f (db_jobs d)\<rparr> \<and>
    (\<forall>j. sj_id (f j) = sj_id j \<and> sj_agent_id (f j) = sj_agent_id j \<and> sj_schedule_id (f j) = sj_schedule_id j \<and>
      sj_requested_by (f j) = sj_requested_by j \<and> sj_timeout_seconds (f j) = sj_timeout_seconds j \<and>
      sj_targets (f j) = sj_targets j \<and> sj_allowed_cidrs (f j) = sj_allowed_cidrs j \<and>
      sj_status (f j) = jr_Status res \<and> sj_error (f j) = jr_Error res)"
  using assms by (auto simp: UpdateScanJobResult_def Let_def split: if_splits option.splits intro!: exI)

lemma UpdateScanJobResult_scans_ok:
  assumes "scans_ok d" "UpdateScanJobResult jsonb now key res d = Inr d'"
  shows "scans_ok d'"
proof -
  obtain f where d': "d' = d\<lparr>db_jobs := update_rows (\<lambda>j. sj_id j = key) f (db_jobs d)\<rparr>"
    and f: "\<And>j. sj_id (f j) = sj_id j" "\<And>j. job_row_ok d (f j) = job_row_ok d j"
    using UpdateScanJobResult_frame [OF assms(2)] by (auto simp: job_row_ok_def)
  show ?thesis unfolding d' using assms(1) f by (intro update_jobs_scans_ok) (auto simp: scans_ok_def)
qed

lemma edit_schedule_id [simp]:
  "sc_id (edit_schedule inp s) = sc_id s" "sc_next_run_at (edit_schedule inp s) = sc_next_run_at s"
  by (simp_all add: edit_schedule_def)

lemma CreateScanSchedule_scans_ok:
  assumes "scans_ok d" "CreateScanSchedule clock now tok inp d = Inr (a, d')"
  shows "scans_ok d'"
  using assms by (auto simp: CreateScanSchedule_def Let_def bind_res_eq_Inr blank_schedule_def split: option.splits if_splits
      intro!: insert_schedule_scans_ok)

lemma UpdateScanSchedule_scans_ok:
  assumes "scans_ok d" "UpdateScanSchedule now key inp d = Inr (a, d')"
  shows "scans_ok d'"
  using assms by (auto simp: UpdateScanSchedule_def Let_def bind_res_eq_Inr split: if_splits
      intro!: update_schedules_scans_ok)

lemma agent_stamp_scans_ok:
  assumes "scans_ok d" "\<And>r. sa_id (f r) = sa_id r" "\<And>r. agent_row_ok d (f r) = agent_row_ok d r"
  shows "scans_ok (d\<lparr>db_agents := update_rows P f (db_agents d)\<rparr>)"
  using assms by (intro update_agents_scans_ok) (auto simp: scans_ok_def)

lemma schedule_stamp_scans_ok:
  assumes "scans_ok d" "\<And>s. sc_id (f s) = sc_id s" "\<And>s. schedule_row_ok d (f s) = schedule_row_ok d s"
  shows "scans_ok (d\<lparr>db_schedules := update_rows P f (db_schedules d)\<rparr>)"
  using assms by (intro update_schedules_scans_ok) (auto simp: scans_ok_def)

text \<open>What the review queue leaves alone of the scan tables.\<close>

definition same_scans :: "db \<Rightarrow> db \<Rightarrow> bool" where
  "same_scans d d' \<longleftrightarrow> db_agents d' = db_agents d \<and> db_schedules d' = db_schedules d \<and> db_jobs d' = db_jobs d \<and>
    db_sites d' = db_sites d \<and> db_users d' = db_users d"

lemma attachDiscoveryMAC_tables:
  assumes "d' = d \<or> attachDiscoveryMAC g now tok did mac vendor d = Inr d'"
  shows "\<exists>ms. d' = d\<lparr>db_macs := ms\<rparr>"
  using assms
proof
  assume "d' = d"
  then show ?thesis by (intro exI [of _ "db_macs d"]) simp
qed (rule attachDiscoveryMAC_frame)

lemma importDiscoveryDevice_tables:
  assumes "importDiscoveryDevice g now tokDev tokMac x name d = Inr (did, d')"
  shows "\<exists>vs ms. d' = d\<lparr>db_devices := vs, db_macs := ms\<rparr>"
proof -
  obtain found d1 where w: "write_device now tokDev x (TrimSpace name) found d = Inr (did, d1)"
    and m: "d' = d1 \<or> attachDiscoveryMAC g now tokMac did (dy_MAC x) (dy_Vendor x) d1 = Inr d'"
    using assms by (auto simp: importDiscoveryDevice_def bind_res_eq_Inr split: if_splits)
  obtain vs where vs: "d1 = d\<lparr>db_devices := vs\<rparr>"
    using w by (auto simp: write_device_def bind_res_eq_Inr insert_device_def split: option.splits if_splits)
  show ?thesis using attachDiscoveryMAC_tables [OF m] unfolding vs by blast
qed

lemma ImportDiscovery_scans:
  assumes "ImportDiscovery g now tokDev tokMac tokAddr key name d = Inr (out, d')"
  shows "same_scans d d' \<and> (\<exists>P aid did. db_discoveries d' = update_rows P (mark_imported now aid did) (db_discoveries d))"
  using assms
proof (cases rule: ImportDiscovery_cases)
  case (1 x i r d1 did d2 ak aid d3 dev)
  obtain P where d1: "d1 = d\<lparr>db_subnets := update_rows P (\<lambda>r. r\<lparr>sn_vlan := Some (dy_VLAN x), sn_updated_at := now\<rparr>) (db_subnets d)\<rparr>"
    using backfillSubnetVLAN_frame [OF 1(4)] by blast
  obtain vs ms where d2: "d2 = d1\<lparr>db_devices := vs, db_macs := ms\<rparr>"
    using importDiscoveryDevice_tables [OF 1(5)] by blast
  obtain as where d3: "d3 = d2\<lparr>db_addresses := as\<rparr>"
    using upsert_address_row [OF 1(7)] by auto
  show ?thesis by (auto simp: 1(8) d3 d2 d1 same_scans_def)
qed

lemma SyncImportedDiscovery_scans:
  assumes "SyncImportedDiscovery g now tok key d = Inr (did, d')"
  shows "same_scans d d' \<and> db_discoveries d' = db_discoveries d"
  using assms
proof (cases rule: SyncImportedDiscovery_cases)
  case (synced x vs as d2)
  have "d2 = d\<lparr>db_devices := vs\<rparr> \<or>
      attachDiscoveryMAC g now tok did (dy_MAC x) (dy_Vendor x) (d\<lparr>db_devices := vs\<rparr>) = Inr d2" using synced(5) by blast
  from attachDiscoveryMAC_tables [OF this] show ?thesis using backfillSubnetVLAN_frame [OF synced(7)] by (auto simp: same_scans_def)
qed (simp add: same_scans_def)

lemma UpsertDiscovery_scans_ok:
  assumes "scans_ok d" "UpsertDiscovery g now tok inp d = Inr (u, d')"
  shows "scans_ok d'"
proof -
  obtain key i m status conflict where ok: "discovery_row_ok d (observed_row now key inp i m status conflict)"
    and d': "db_discoveries d' = update_rows (\<lambda>x. di_ip x = i) (merge_discovery (observed_row now key inp i m status conflict))
        (db_discoveries d) \<or> db_discoveries d' = db_discoveries d @ [observed_row now key inp i m status conflict]"
    and frame: "same_scans d d'"
    using assms(2)
    by (auto simp: UpsertDiscovery_def bind_res_eq_Inr Let_def refresh_last_seen_def same_scans_def
        split: option.splits if_splits)
  have "discovery_row_ok d (merge_discovery (observed_row now key inp i m status conflict) x)"
    if "x \<in> set (db_discoveries d)" for x
    using ok that assms(1) by (auto simp: scans_ok_def discovery_row_ok_def merge_discovery_def)
  then have "discovery_row_ok d x" if "x \<in> set (db_discoveries d')" for x
    using d' that ok assms(1) by (auto simp: scans_ok_def set_update_rows)
  then show ?thesis using frame by (intro scans_ok_frame [OF assms(1)]) (auto simp: same_scans_def)
qed

lemma discovery_stamp_scans_ok:
  assumes "scans_ok d" "same_scans d d'" "db_discoveries d' = update_rows P f (db_discoveries d)"
    "\<And>x. discovery_row_ok d (f x) = discovery_row_ok d x"
  shows "scans_ok d'"
  using assms by (intro scans_ok_frame [OF assms(1)]) (auto simp: same_scans_def scans_ok_def set_update_rows)

section \<open>Properties\<close>

lemma scan_write_keeps:
  assumes "scan_write jsonb g d1 d2" and ok: "scans_ok d1"
  shows "scans_ok d2"
  using assms(1)
proof cases
  case (EnrollAgent now tok url ai a b)
  then show ?thesis using ok by (cases rule: EnrollDiscoveredAgent_cases) (auto intro: CreateScanAgent_scans_ok)
next
  case (Import now tokDev tokMac tokAddr key name out)
  obtain P aid did where "same_scans d1 d2" "db_discoveries d2 = update_rows P (mark_imported now aid did) (db_discoveries d1)"
    using ImportDiscovery_scans [OF Import] by blast
  then show ?thesis by (rule discovery_stamp_scans_ok [OF ok]) (simp add: mark_imported_def discovery_row_ok_def)
next
  case (Sync now tokMac key did)
  from SyncImportedDiscovery_scans [OF this] ok show ?thesis
    by (intro scans_ok_frame [OF ok]) (auto simp: same_scans_def scans_ok_def)
next
  case (Dismiss now key)
  then show ?thesis
    by (auto simp: DismissDiscovery_def Let_def same_scans_def discovery_row_ok_def split: if_splits
        intro!: discovery_stamp_scans_ok [OF ok])
next
  case (TouchAgent now key version)
  then show ?thesis using ok
    by (auto simp: TouchScanAgent_def agent_row_ok_def intro!: agent_stamp_scans_ok)
next
  case (AgentStatus now key status)
  then show ?thesis using ok
    by (auto simp: SetScanAgentStatus_def Let_def agent_row_ok_def split: if_splits intro!: agent_stamp_scans_ok)
next
  case (DeleteAgent key)
  then show ?thesis using ok by (auto simp: DeleteScanAgent_def Let_def delete_agents_scans_ok split: if_splits)
next
  case (DeleteSchedule key)
  then show ?thesis using ok by (auto simp: DeleteScanSchedule_def Let_def delete_schedules_scans_ok split: if_splits)
next
  case (MarkRan now key)
  then show ?thesis using ok
    by (auto simp: MarkScanScheduleRan_def schedule_row_ok_def intro!: schedule_stamp_scans_ok)
next
  case (LastRun now key status err job)
  then show ?thesis using ok
    by (auto simp: SetScanScheduleLastRun_def schedule_row_ok_def intro!: schedule_stamp_scans_ok)
qed (blast intro: ok CreateScanAgent_scans_ok UpdateScanAgent_scans_ok CreateScanJob_scans_ok UpdateScanJobResult_scans_ok
    CreateScanSchedule_scans_ok UpdateScanSchedule_scans_ok UpsertDiscovery_scans_ok)+

text \<open>Every write of the scan tables and of the review queue keeps their invariant: keys are unique,
  every schedule and job belongs to an agent that exists, the references of jobs and discoveries
  are to rows that exist, and the minute bounds of a schedule are within the day.\<close>

theorem scan_writes_keep_invariant:
  assumes "(scan_write jsonb g)\<^sup>*\<^sup>* d d'" "scans_ok d"
  shows "scans_ok d'"
  using assms
  by (induction rule: rtranclp_induct) (simp_all add: scan_write_keeps)

definition demo_agent_input :: ScanAgentInput where
  "demo_agent_input = \<lparr>ai_Name = ''edge'', ai_SiteID = [], ai_EndpointURL = ''https://agent:8443'',
     ai_CertificateSubject = ''CN=agent'', ai_AllowedCIDRs = [''10.0.0.0/24''], ai_Status = [], ai_AutoImport = False\<rparr>"

definition demo_agents :: db where
  "demo_agents = snd (projr (CreateScanAgent 1 (Some ''a1'') demo_agent_input demo_db))"

definition demo_schedule_input :: ScanScheduleInput where
  "demo_schedule_input = \<lparr>ci_Name = ''nightly'', ci_AgentID = ''a1'', ci_ScanType = ''combined'', ci_Mode = ''light_active'',
     ci_AllowedCIDRs = [''10.0.0.0/24''], ci_Targets = [''10.0.0.0/30''], ci_TimeoutSeconds = 5, ci_IntervalSeconds = 3600,
     ci_Enabled = True, ci_WindowStartMin = Some 1320, ci_WindowEndMin = Some 360, ci_WindowDays = [1, 2, 3, 4, 5],
     ci_WindowTZ = []\<rparr>"

definition demo_schedules :: db where
  "demo_schedules = snd (projr (CreateScanSchedule 1 1 (Some ''sc1'') demo_schedule_input demo_agents))"

theorem scan_writes_keep_invariant_witness:
  "scans_ok demo_db \<and> scans_ok demo_schedules \<and> map sc_agent_id (db_schedules demo_schedules) = [''a1'']"
proof -
  have ok: "scans_ok demo_db" by code_simp
  have "is_ok (CreateScanAgent 1 (Some ''a1'') demo_agent_input demo_db)" by code_simp
  then have 1: "scan_write Some pg_netip demo_db demo_agents"
    by (auto simp: is_ok_iff demo_agents_def intro: scan_write.CreateAgent)
  have "is_ok (CreateScanSchedule 1 1 (Some ''sc1'') demo_schedule_input demo_agents)" by code_simp
  then have 2: "scan_write Some pg_netip demo_agents demo_schedules"
    by (auto simp: is_ok_iff demo_schedules_def intro: scan_write.CreateSchedule)
  have "(scan_write Some pg_netip)\<^sup>*\<^sup>* demo_db demo_schedules" using 1 2 by (meson converse_rtranclp_into_rtranclp rtranclp.rtrancl_refl)
  moreover have "map sc_agent_id (db_schedules demo_schedules) = [''a1'']" by code_simp
  ultimately show ?thesis using scan_writes_keep_invariant ok by blast
qed

text \<open>Deleting an agent leaves no schedule and no job of that agent and no reference to it in the
  review queue; the inventory, the other agents and every discovery with its review decision stay.\<close>

theorem DeleteScanAgent_cascade:
  assumes "DeleteScanAgent key d = Inr d'"
  shows "(\<forall>s\<in>set (db_schedules d'). sc_agent_id s \<noteq> key) \<and> (\<forall>j\<in>set (db_jobs d'). sj_agent_id j \<noteq> key) \<and>
    (\<forall>x\<in>set (db_discoveries d'). di_agent_id x \<noteq> Some key) \<and>
    db_agents d' = filter (\<lambda>r. sa_id r \<noteq> key) (db_agents d) \<and>
    db_schedules d' = filter (\<lambda>s. sc_agent_id s \<noteq> key) (db_schedules d) \<and>
    map (\<lambda>x. (di_id x, di_status x, di_imported_device_id x)) (db_discoveries d') =
      map (\<lambda>x. (di_id x, di_status x, di_imported_device_id x)) (db_discoveries d) \<and>
    db_subnets d' = db_subnets d \<and> db_devices d' = db_devices d \<and> db_addresses d' = db_addresses d"
proof -
  have d': "d' = delete_agents (\<lambda>r. sa_id r = key) d" and "key \<in> set (map sa_id (db_agents d))"
    using assms by (auto simp: DeleteScanAgent_def Let_def affected_def filter_empty_conv split: if_splits)
  then have gone: "(\<lambda>k. k \<in> set (map sa_id (filter (\<lambda>r. sa_id r = key) (db_agents d)))) = (\<lambda>k. k = key)"
    by (auto simp: fun_eq_iff)
  have "set_null (\<lambda>k. k = key) r \<noteq> Some key" for r by (simp add: set_null_def split: option.splits)
  then show ?thesis unfolding d' delete_agents_def gone Let_def by auto
qed

theorem DeleteScanAgent_cascade_witness:
  "is_ok (DeleteScanAgent ''a1'' demo_schedules) \<and> db_schedules demo_schedules \<noteq> [] \<and>
   db_schedules (projr (DeleteScanAgent ''a1'' demo_schedules)) = []"
proof -
  have ok: "is_ok (DeleteScanAgent ''a1'' demo_schedules)" by code_simp
  then have eq: "DeleteScanAgent ''a1'' demo_schedules = Inr (projr (DeleteScanAgent ''a1'' demo_schedules))"
    by (auto simp: is_ok_iff)
  have "map sc_agent_id (db_schedules demo_schedules) = [''a1'']" by code_simp
  then obtain s where "db_schedules demo_schedules = [s]" "sc_agent_id s = ''a1''" by auto
  moreover have "db_schedules (projr (DeleteScanAgent ''a1'' demo_schedules)) =
      filter (\<lambda>s. sc_agent_id s \<noteq> ''a1'') (db_schedules demo_schedules)"
    using DeleteScanAgent_cascade [OF eq] by blast
  ultimately show ?thesis using ok by simp
qed

lemma CreateScanAgent_row:
  assumes "CreateScanAgent now tok inp d = Inr (a, d')"
  shows "\<exists>r. d' = d\<lparr>db_agents := db_agents d @ [r]\<rparr> \<and> a = agent_of_row r \<and> sa_id r \<notin> set (map sa_id (db_agents d)) \<and>
    sa_status r = (if ai_Status inp = [] then ''pending'' else ai_Status inp) \<and> sa_endpoint_url r = ai_EndpointURL inp \<and>
    sa_allowed_cidrs r = ai_AllowedCIDRs inp"
proof -
  obtain key where tok: "tok = Some key" using assms by (cases tok) (simp_all add: CreateScanAgent_def)
  let ?r = "new_agent now key inp"
  have fresh: "sa_id ?r = key" "key \<notin> set (map sa_id (db_agents d))"
    using assms tok by (simp_all add: CreateScanAgent_def new_agent_def Let_def split: if_splits)
  have "a = agent_of_row ?r \<and> d' = d\<lparr>db_agents := db_agents d @ [?r]\<rparr>"
    using assms tok find_fresh_key [where key = sa_id, OF fresh]
    by (simp add: CreateScanAgent_def GetScanAgent_def Let_def split: if_splits)
  then show ?thesis using fresh by (auto simp: new_agent_def)
qed

text \<open>Enrolling an agent that announces itself never approves it: an agent known by its endpoint is
  returned as it is and nothing changes; otherwise exactly one agent is added, and it is pending.\<close>

theorem EnrollDiscoveredAgent_pending:
  assumes "EnrollDiscoveredAgent now tok url inp d = Inr (a, created, d')"
  shows "(created \<longrightarrow> Agent_Status a = ''pending'' \<and> (\<forall>r\<in>set (db_agents d). sa_endpoint_url r \<noteq> url) \<and>
      (\<exists>r. db_agents d' = db_agents d @ [r] \<and> a = agent_of_row r \<and> sa_endpoint_url r = url)) \<and>
    (\<not> created \<longrightarrow> d' = d)"
  using assms
proof (cases rule: EnrollDiscoveredAgent_cases)
  case new
  have "(\<forall>r\<in>set (db_agents d). sa_endpoint_url r \<noteq> url)"
  proof (rule ccontr)
    assume "\<not> ?thesis"
    then obtain r where r: "find (\<lambda>r. sa_endpoint_url r = url) (db_agents d) = Some r"
      by (cases "find (\<lambda>r. sa_endpoint_url r = url) (db_agents d)") (auto simp: find_None_iff)
    then have "r \<in> set (db_agents d)" by (auto simp: find_Some_iff)
    then have "find (\<lambda>q. sa_id q = sa_id r) (db_agents d) \<noteq> None" by (auto simp: find_None_iff)
    then have "\<exists>b. GetScanAgentByEndpoint url d = Inr b" using r by (auto simp: GetScanAgentByEndpoint_def GetScanAgent_def)
    then show False using assms new by (auto simp: EnrollDiscoveredAgent_def)
  qed
  then show ?thesis using CreateScanAgent_row [OF new(2)] new(1) by (auto simp: scanAgentPending_def agent_of_row_def)
qed simp

theorem EnrollDiscoveredAgent_pending_witness:
  "\<exists>a d'. EnrollDiscoveredAgent 1 (Some ''a1'') ''https://agent:8443'' demo_agent_input demo_db = Inr (a, True, d') \<and>
     Agent_Status a = ''pending''"
proof -
  have "is_ok (EnrollDiscoveredAgent 1 (Some ''a1'') ''https://agent:8443'' demo_agent_input demo_db)"
    "fst (snd (projr (EnrollDiscoveredAgent 1 (Some ''a1'') ''https://agent:8443'' demo_agent_input demo_db)))" by code_simp+
  then obtain a d' where a: "EnrollDiscoveredAgent 1 (Some ''a1'') ''https://agent:8443'' demo_agent_input demo_db = Inr (a, True, d')"
    by (auto simp: is_ok_iff)
  from EnrollDiscoveredAgent_pending [OF a] a show ?thesis by blast
qed

lemma valid_days_set: "set (valid_days seen ns) = {n \<in> set ns. 0 \<le> n \<and> n \<le> 6 \<and> n \<notin> set seen}"
proof (induction seen ns rule: valid_days.induct)
  case (2 seen n ns)
  show ?case
  proof (cases "n < 0 \<or> 6 < n \<or> n \<in> set seen")
    case True
    then have "\<not> (0 \<le> n \<and> n \<le> 6 \<and> n \<notin> set seen)" by linarith
    then show ?thesis using 2(1) [OF True] True by (simp del: not_le) blast
  next
    case False
    then have "0 \<le> n \<and> n \<le> 6 \<and> n \<notin> set seen" by linarith
    then show ?thesis using 2(2) [OF False] False by (simp del: not_le) blast
  qed
qed simp

lemma valid_days_distinct: "distinct (valid_days seen ns)"
  by (induction seen ns rule: valid_days.induct) (auto simp: valid_days_set)

lemma filter_in_subseqs: "filter P xs \<in> set (subseqs xs)"
  by (induction xs) (simp_all add: Let_def)

lemma filter_eq_iff_pointwise: "filter P xs = filter Q xs \<longleftrightarrow> (\<forall>x\<in>set xs. P x = Q x)"
proof
  assume "filter P xs = filter Q xs"
  then have "set (filter P xs) = set (filter Q xs)" by (rule arg_cong)
  then show "\<forall>x\<in>set xs. P x = Q x" by auto
qed (simp cong: filter_cong)

definition week :: "int list" where "week = [0, 1, 2, 3, 4, 5, 6]"

lemma week_set: "set week = {n. 0 \<le> n \<and> n \<le> 6}"
proof -
  have "set week = {0..6}" by code_simp
  then show ?thesis by (simp only: set_eq_iff atLeastAtMost_iff mem_Collect_eq simp_thms)
qed

definition week_label :: "int list \<Rightarrow> string" where
  "week_label ns = (if ns = [] then [] else Join (weekday_groups ns) '', '')"

lemma formatWeekdays_week: "formatWeekdays ns = week_label (filter (\<lambda>n. n \<in> set ns) week)"
proof -
  have "sort (valid_days [] ns) = filter (\<lambda>n. n \<in> set ns) week"
  proof (rule sorted_distinct_set_unique)
    show "set (sort (valid_days [] ns)) = set (filter (\<lambda>n. n \<in> set ns) week)"
      by (simp add: valid_days_set week_set) blast
    have "sorted week" "distinct week" by (simp_all add: week_def)
    then show "sorted (filter (\<lambda>n. n \<in> set ns) week)" "distinct (filter (\<lambda>n. n \<in> set ns) week)"
      by (simp_all add: sorted_wrt_filter)
  qed (simp_all add: valid_days_distinct)
  moreover have "valid_days [] ns = [] \<longleftrightarrow> sort (valid_days [] ns) = []" by (metis set_empty set_sort)
  ultimately show ?thesis by (simp add: formatWeekdays_def week_label_def Let_def)
qed

lemma week_label_inj: "inj_on week_label (set (subseqs week))"
proof -
  have "distinct (map week_label (subseqs week))" by code_simp
  then show ?thesis by (simp add: distinct_map)
qed

text \<open>The weekday label of a schedule is unambiguous: two lists of days render alike exactly when
  they allow the same days of the week.\<close>

theorem formatWeekdays_unambiguous:
  "formatWeekdays xs = formatWeekdays ys \<longleftrightarrow> {n \<in> set xs. 0 \<le> n \<and> n \<le> 6} = {n \<in> set ys. 0 \<le> n \<and> n \<le> 6}"
proof -
  have "formatWeekdays xs = formatWeekdays ys \<longleftrightarrow> filter (\<lambda>n. n \<in> set xs) week = filter (\<lambda>n. n \<in> set ys) week"
    unfolding formatWeekdays_week by (rule inj_on_eq_iff [OF week_label_inj filter_in_subseqs filter_in_subseqs])
  also have "\<dots> \<longleftrightarrow> (\<forall>n\<in>set week. n \<in> set xs \<longleftrightarrow> n \<in> set ys)" by (rule filter_eq_iff_pointwise)
  also have "\<dots> \<longleftrightarrow> {n \<in> set xs. 0 \<le> n \<and> n \<le> 6} = {n \<in> set ys. 0 \<le> n \<and> n \<le> 6}"
    unfolding week_set by blast
  finally show ?thesis .
qed

end
