(* ===== verification/Windows.thy ===== *)
theory Windows
  imports StoreScans
begin

text \<open>
  \<open>internal/scanner/orchestrator/windows.go\<close>: when a schedule may fire.  A \<open>time.Time\<close> is an instant
  (nanoseconds since the Unix epoch) with a zone, a function from instants to civil time.  The
  zone database behind \<open>time.LoadLocation\<close> is an argument.
\<close>

section \<open>Civil time\<close>

record civil =
  Weekday :: int
  Hour :: int
  Minute :: int

type_synonym zone = "time \<Rightarrow> civil"

record go_time =
  instant :: time
  zone_of :: zone

definition minute_ns :: int where "minute_ns = 60 * second_ns"
definition day_ns :: int where "day_ns = 1440 * minute_ns"

text \<open>The epoch was a Thursday.\<close>

definition UTC :: zone where
  "UTC t = \<lparr>Weekday = (4 + t div day_ns) mod 7, Hour = t mod day_ns div (60 * minute_ns),
     Minute = t mod (60 * minute_ns) div minute_ns\<rparr>"

definition In_zone :: "go_time \<Rightarrow> zone \<Rightarrow> go_time" where
  "In_zone t z = t\<lparr>zone_of := z\<rparr>"

definition civil_of :: "go_time \<Rightarrow> civil" where
  "civil_of t = zone_of t (instant t)"

section \<open>The window of a schedule\<close>

record scanWindow =
  startMin :: int
  endMin :: int
  days :: "int set"
  loc :: "zone option"

definition windowAllows :: "scanWindow \<Rightarrow> go_time \<Rightarrow> bool" where
  "windowAllows w now0 =
    (let now = (case loc w of Some z \<Rightarrow> In_zone now0 z | None \<Rightarrow> now0); c = civil_of now in
     if days w \<noteq> {} \<and> Weekday c \<notin> days w then False
     else if startMin w < 0 \<or> endMin w < 0 then True
     else let cur = Hour c * 60 + Minute c in
       if startMin w = endMin w then True
       else if startMin w < endMin w then startMin w \<le> cur \<and> cur < endMin w
       else startMin w \<le> cur \<or> cur < endMin w)"

definition windowFromSchedule :: "(string \<Rightarrow> zone option) \<Rightarrow> ScanSchedule \<Rightarrow> scanWindow" where
  "windowFromSchedule LoadLocation s =
    \<lparr>startMin = (case WindowStartMin s of None \<Rightarrow> -1 | Some m \<Rightarrow> m),
     endMin = (case WindowEndMin s of None \<Rightarrow> -1 | Some m \<Rightarrow> m),
     days = set (filter (\<lambda>n. 0 \<le> n \<and> n \<le> 6) (WindowDays s)),
     loc = Some (if WindowTZ s \<noteq> [] \<and> WindowTZ s \<noteq> ''UTC''
        then (case LoadLocation (WindowTZ s) of Some z \<Rightarrow> z | None \<Rightarrow> UTC) else UTC)\<rparr>"

section \<open>Properties\<close>

text \<open>What a zone database provides: civil time is within the week and the day.\<close>

definition civil_ok :: "civil \<Rightarrow> bool" where
  "civil_ok c \<longleftrightarrow> 0 \<le> Weekday c \<and> Weekday c \<le> 6 \<and> 0 \<le> Hour c \<and> Hour c \<le> 23 \<and> 0 \<le> Minute c \<and> Minute c \<le> 59"

definition zones_ok :: "(string \<Rightarrow> zone option) \<Rightarrow> bool" where
  "zones_ok LoadLocation \<longleftrightarrow> (\<forall>n z t. LoadLocation n = Some z \<longrightarrow> civil_ok (z t))"

lemma UTC_ok: "civil_ok (UTC t)"
proof -
  have "0 \<le> t mod day_ns" "t mod day_ns < day_ns" by (simp_all add: day_ns_def minute_ns_def second_ns_def)
  then have "0 \<le> t mod day_ns div (60 * minute_ns)" "t mod day_ns div (60 * minute_ns) < 24"
    by (simp_all add: day_ns_def minute_ns_def second_ns_def div_less_iff_less_mult pos_imp_zdiv_nonneg_iff)
  moreover have "0 \<le> t mod (60 * minute_ns)" "t mod (60 * minute_ns) < 60 * minute_ns"
    by (simp_all add: minute_ns_def second_ns_def)
  then have "0 \<le> t mod (60 * minute_ns) div minute_ns" "t mod (60 * minute_ns) div minute_ns < 60"
    by (simp_all add: minute_ns_def second_ns_def div_less_iff_less_mult pos_imp_zdiv_nonneg_iff)
  ultimately show ?thesis by (simp add: civil_ok_def UTC_def)
qed

definition schedule_zone :: "(string \<Rightarrow> zone option) \<Rightarrow> ScanSchedule \<Rightarrow> zone" where
  "schedule_zone LoadLocation s = the (loc (windowFromSchedule LoadLocation s))"

lemma schedule_zone_ok: "zones_ok LoadLocation \<Longrightarrow> civil_ok (schedule_zone LoadLocation s t)"
  by (auto simp: schedule_zone_def windowFromSchedule_def zones_ok_def UTC_ok split: option.splits)

text \<open>Membership in the half-open interval from \<open>a\<close> to \<open>b\<close> on the circle of the 1440 minutes of a day.\<close>

definition in_arc :: "int \<Rightarrow> int \<Rightarrow> int \<Rightarrow> bool" where
  "in_arc a b m \<longleftrightarrow> a = b \<or> (m - a) mod 1440 < (b - a) mod 1440"

lemma mod_1440:
  fixes x :: int
  assumes "- 1440 < x" "x < 1440"
  shows "x mod 1440 = (if x < 0 then x + 1440 else x)"
proof (cases "x < 0")
  case True
  have "x mod 1440 = (x + 1440) mod 1440" by simp
  also have "\<dots> = x + 1440" using True assms by (intro mod_pos_pos_trivial) linarith+
  finally show ?thesis using True by simp
qed (simp add: assms)

lemma in_arc_cases:
  assumes "0 \<le> a" "a < 1440" "0 \<le> b" "b < 1440" "0 \<le> m" "m < 1440"
  shows "in_arc a b m \<longleftrightarrow> (if a = b then True else if a < b then a \<le> m \<and> m < b else a \<le> m \<or> m < b)"
  using assms mod_1440 [of "m - a"] mod_1440 [of "b - a"] by (auto simp: in_arc_def)

text \<open>C38: a stored schedule may fire at an instant exactly when that instant, read in the schedule's
  zone, falls on one of its valid weekdays (any day when it lists none) and its minute of the day
  lies on the arc from the start to the end minute, which wraps past midnight and is the whole day
  when both coincide (any minute when a bound is missing).\<close>

theorem windowAllows_spec:
  assumes "zones_ok LoadLocation" "minute_check (WindowStartMin s)" "minute_check (WindowEndMin s)"
    and "c = schedule_zone LoadLocation s (instant now)"
  shows "windowAllows (windowFromSchedule LoadLocation s) now \<longleftrightarrow>
    ((\<forall>n\<in>set (WindowDays s). n < 0 \<or> 6 < n) \<or> Weekday c \<in> set (WindowDays s)) \<and>
    (case (WindowStartMin s, WindowEndMin s) of (Some a, Some b) \<Rightarrow> in_arc a b (60 * Hour c + Minute c) | _ \<Rightarrow> True)"
proof -
  have c: "civil_ok c" using assms(1,4) by (simp add: schedule_zone_ok)
  have civil: "civil_of (In_zone now (schedule_zone LoadLocation s)) = c"
    by (simp add: assms(4) civil_of_def In_zone_def)
  have loc: "loc (windowFromSchedule LoadLocation s) = Some (schedule_zone LoadLocation s)"
    by (simp add: schedule_zone_def windowFromSchedule_def)
  have day: "(days (windowFromSchedule LoadLocation s) \<noteq> {} \<and> Weekday c \<notin> days (windowFromSchedule LoadLocation s)) \<longleftrightarrow>
      \<not> ((\<forall>n\<in>set (WindowDays s). n < 0 \<or> 6 < n) \<or> Weekday c \<in> set (WindowDays s))"
    using c by (auto simp: windowFromSchedule_def civil_ok_def not_less)
  have cur: "0 \<le> 60 * Hour c + Minute c" "60 * Hour c + Minute c < 1440" using c by (auto simp: civil_ok_def)
  show ?thesis
  proof (cases "\<exists>a b. WindowStartMin s = Some a \<and> WindowEndMin s = Some b")
    case True
    then obtain a b where ab: "WindowStartMin s = Some a" "WindowEndMin s = Some b" by blast
    then have m: "0 \<le> a" "a < 1440" "0 \<le> b" "b < 1440" using assms(2,3) by (auto simp: minute_check_def)
    have w: "startMin (windowFromSchedule LoadLocation s) = a" "endMin (windowFromSchedule LoadLocation s) = b"
      by (simp_all add: windowFromSchedule_def ab)
    show ?thesis
      using m unfolding windowAllows_def Let_def loc option.case civil day w ab prod.case in_arc_cases [OF m cur]
      by (auto simp: algebra_simps)
  next
    case False
    then have "startMin (windowFromSchedule LoadLocation s) < 0 \<or> endMin (windowFromSchedule LoadLocation s) < 0"
      by (cases "WindowStartMin s"; cases "WindowEndMin s") (auto simp: windowFromSchedule_def)
    moreover have "(case (WindowStartMin s, WindowEndMin s) of (Some a, Some b) \<Rightarrow> in_arc a b (60 * Hour c + Minute c) | _ \<Rightarrow> True)"
      using False by (auto split: option.splits)
    ultimately show ?thesis unfolding windowAllows_def Let_def loc option.case civil day by auto
  qed
qed

definition demo_window :: ScanSchedule where
  "demo_window = (schedule_of_row empty_db (edit_schedule demo_schedule_input (blank_schedule 0 ''sc1'' 0)))"

definition utc_only :: "string \<Rightarrow> zone option" where
  "utc_only name = (if name = ''UTC'' then Some UTC else None)"

lemma demo_window_columns:
  "WindowStartMin demo_window = Some 1320" "WindowEndMin demo_window = Some 360"
  "WindowDays demo_window = [1, 2, 3, 4, 5]" "WindowTZ demo_window = ''UTC''"
  by (simp_all add: demo_window_def schedule_of_row_def edit_schedule_def demo_schedule_input_def)

text \<open>Monday, 1970-01-05, 23:30 and 12:00, against Monday to Friday from 22:00 to 06:00.\<close>

theorem windowAllows_spec_witness:
  "windowAllows (windowFromSchedule utc_only demo_window) \<lparr>instant = 4 * day_ns + 1410 * minute_ns, zone_of = UTC\<rparr> \<and>
   \<not> windowAllows (windowFromSchedule utc_only demo_window) \<lparr>instant = 4 * day_ns + 720 * minute_ns, zone_of = UTC\<rparr>"
proof -
  have z: "zones_ok utc_only" by (simp add: zones_ok_def utc_only_def UTC_ok)
  note m = demo_window_columns
  have zone: "schedule_zone utc_only demo_window = UTC" by (simp add: schedule_zone_def windowFromSchedule_def m)
  have c: "UTC (4 * day_ns + 1410 * minute_ns) = \<lparr>Weekday = 1, Hour = 23, Minute = 30\<rparr>"
    "UTC (4 * day_ns + 720 * minute_ns) = \<lparr>Weekday = 1, Hour = 12, Minute = 0\<rparr>" by code_simp+
  have chk: "minute_check (WindowStartMin demo_window)" "minute_check (WindowEndMin demo_window)"
    by (simp_all add: m minute_check_def)
  show ?thesis
    by (simp add: windowAllows_spec [OF z chk refl] zone c m in_arc_def)
qed

text \<open>In UTC every weekday and minute recurs within a week.\<close>

lemma UTC_recurs:
  assumes "0 \<le> wd" "wd \<le> 6" "0 \<le> m" "m < 1440"
  obtains t' where "t \<le> t'" "t' < t + 7 * day_ns" "UTC t' = \<lparr>Weekday = wd, Hour = m div 60, Minute = m mod 60\<rparr>"
proof -
  define week where "week = 7 * day_ns"
  define r where "r = ((wd + 3) mod 7) * day_ns + m * minute_ns"
  define t' where "t' = t + (r - t) mod week"
  have pos: "0 < day_ns" "0 < minute_ns" "0 < week" by (simp_all add: week_def day_ns_def minute_ns_def second_ns_def)
  have "t' mod week = r mod week" by (simp add: t'_def mod_simps)
  then obtain k where k: "t' = k * week + r" by (metis add.commute div_mult_mod_eq mod_eq_dvd_iff dvd_def mult.commute diff_add_cancel)
  have mlt: "m * minute_ns < day_ns" "0 \<le> m * minute_ns" using assms pos by (simp_all add: day_ns_def)
  have q: "t' = (7 * k + (wd + 3) mod 7) * day_ns + m * minute_ns" by (simp add: k r_def week_def algebra_simps)
  have day: "t' div day_ns = 7 * k + (wd + 3) mod 7" "t' mod day_ns = m * minute_ns"
    unfolding q using mlt pos by (simp_all add: div_pos_pos_trivial)
  have wd: "(4 + (7 * k + (wd + 3) mod 7)) mod 7 = wd"
    using assms(1,2) by presburger
  have "t' mod (60 * minute_ns) = (t' mod day_ns) mod (60 * minute_ns)"
    by (simp add: day_ns_def mod_mod_cancel)
  also have "\<dots> = minute_ns * (m mod 60)" unfolding day(2) by (metis mult.commute mult_mod_right)
  finally have minute: "t' mod (60 * minute_ns) div minute_ns = m mod 60" using pos by simp
  have hour: "t' mod day_ns div (60 * minute_ns) = m div 60"
    unfolding day(2) using pos by (metis div_mult_mult2 less_irrefl)
  have "UTC t' = \<lparr>Weekday = wd, Hour = m div 60, Minute = m mod 60\<rparr>"
    by (simp add: UTC_def day(1) wd minute hour)
  moreover have "t \<le> t'" "t' < t + 7 * day_ns" using pos by (simp_all add: t'_def week_def [symmetric])
  ultimately show thesis using that by blast
qed

text \<open>A window read in UTC never closes for good: from any instant on, a stored schedule may fire at
  some instant less than a week later.\<close>

theorem windowAllows_within_week:
  assumes "WindowTZ s = ''UTC''" "minute_check (WindowStartMin s)" "minute_check (WindowEndMin s)"
  shows "\<exists>t'. t \<le> t' \<and> t' < t + 7 * day_ns \<and>
    windowAllows (windowFromSchedule LoadLocation s) \<lparr>instant = t', zone_of = z\<rparr>"
proof -
  obtain wd where wd: "0 \<le> wd" "wd \<le> 6" "days (windowFromSchedule LoadLocation s) = {} \<or> wd \<in> days (windowFromSchedule LoadLocation s)"
    by (cases "days (windowFromSchedule LoadLocation s) = {}") (auto simp: windowFromSchedule_def filter_empty_conv intro: that [of 0])
  define m where "m = (case WindowStartMin s of None \<Rightarrow> 0 | Some a \<Rightarrow> a)"
  have m: "0 \<le> m" "m < 1440" using assms(2) by (auto simp: m_def minute_check_def split: option.splits)
  obtain t' where t': "t \<le> t'" "t' < t + 7 * day_ns" "UTC t' = \<lparr>Weekday = wd, Hour = m div 60, Minute = m mod 60\<rparr>"
    using UTC_recurs [OF wd(1,2) m] by blast
  have loc: "loc (windowFromSchedule LoadLocation s) = Some UTC" by (simp add: windowFromSchedule_def assms(1))
  have start: "startMin (windowFromSchedule LoadLocation s) < 0 \<or> startMin (windowFromSchedule LoadLocation s) = m"
    by (simp add: windowFromSchedule_def m_def split: option.splits)
  have "m div 60 * 60 + m mod 60 = m" by simp
  with start wd(3) have "windowAllows (windowFromSchedule LoadLocation s) \<lparr>instant = t', zone_of = z\<rparr>"
    by (auto simp: windowAllows_def Let_def loc civil_of_def In_zone_def t'(3))
  with t'(1,2) show ?thesis by blast
qed

theorem windowAllows_within_week_witness:
  "\<exists>t'. 0 \<le> t' \<and> t' < 7 * day_ns \<and>
     windowAllows (windowFromSchedule utc_only demo_window) \<lparr>instant = t', zone_of = UTC\<rparr>"
proof -
  have "WindowTZ demo_window = ''UTC''" "minute_check (WindowStartMin demo_window)" "minute_check (WindowEndMin demo_window)"
    by (simp_all add: demo_window_columns minute_check_def)
  from windowAllows_within_week [OF this, of 0 utc_only UTC] show ?thesis by simp
qed

end
