(* ===== verification/Orchestrator.thy ===== *)
theory Orchestrator
  imports Windows
begin

text \<open>
  \<open>internal/scanner/orchestrator/orchestrator.go\<close>: the coordinator of scans.  It validates and enqueues
  jobs, dispatches them to agents, writes their outcome and observations to the store, and runs due
  schedules.  The goroutines it starts are a list of pending runs; calls of the audit log are the
  list of their arguments (the JSON text of an entry's metadata is not modelled, only the value in
  it); log lines are left out.  A record of arguments stands for what lies outside: the dispatcher,
  the database's casts, \<open>json.Marshal\<close>, the zone database and the wording of errors.
\<close>

section \<open>Values\<close>

datatype orch_error = StoreError store_error | JobError job_error | NotConfigured | DispatchError string

record audit_entry =
  au_actor :: "string option"
  au_action :: string
  au_subject_type :: string
  au_subject_id :: string
  au_value :: string

text \<open>The dispatcher gets the budget of the call, the endpoint and the job.\<close>

record outside =
  out_pg :: pg
  out_jsonb :: "string \<Rightarrow> string option"
  out_marshal :: "ScanResult \<Rightarrow> string option"
  out_zones :: "string \<Rightarrow> zone option"
  out_error :: "orch_error \<Rightarrow> string"
  out_enabled :: bool
  out_dispatch :: "int \<Rightarrow> string \<Rightarrow> Protocol.ScanJob \<Rightarrow> string + ScanResult"
  out_register :: "string \<Rightarrow> string + AgentRegistration"

text \<open>The random tokens and the database time the handling of one observation draws.\<close>

record draws =
  dr_now :: time
  dr_discovery :: "string option"
  dr_device :: "string option"
  dr_mac :: "string option"
  dr_address :: "string option"
  dr_link :: "string option"

record pending_run =
  run_agent :: ScanAgent
  run_job :: store_ScanJob
  run_actor :: "string option"

section \<open>Conversions\<close>

definition registrationFromAgent :: "ScanAgent \<Rightarrow> AgentRegistration" where
  "registrationFromAgent a =
    \<lparr>ag_ID = Agent_ID a, ag_Name = Agent_Name a, ag_SiteID = [], ag_Version = [], ag_CertificateSubject = Agent_CertificateSubject a,
     ag_AllowedCIDRs = Agent_AllowedCIDRs a, ag_Status = Agent_Status a, ag_CreatedAt = 0, ag_LastSeenAt = None\<rparr>"

definition scannerJob :: "time \<Rightarrow> string \<Rightarrow> ScanJobInput \<Rightarrow> Protocol.ScanJob" where
  "scannerJob clock key inp =
    \<lparr>job_ID = key, job_AgentID = ji_AgentID inp, job_RequestedBy = coalesce (ji_RequestedBy inp), job_Type = ji_ScanType inp,
     job_Mode = ji_Mode inp, job_AllowedCIDRs = ji_AllowedCIDRs inp, job_Targets = ji_Targets inp, job_Ports = [],
     job_RateLimit = \<lparr>rl_ProbesPerSecond = 0, rl_Concurrency = 0\<rparr>, job_TimeoutSeconds = ji_TimeoutSeconds inp,
     job_CreatedAt = clock\<rparr>"

definition scannerJobFromStore :: "store_ScanJob \<Rightarrow> Protocol.ScanJob" where
  "scannerJobFromStore j =
    \<lparr>job_ID = Job_ID j, job_AgentID = Job_AgentID j, job_RequestedBy = Job_RequestedBy j, job_Type = Job_ScanType j,
     job_Mode = Job_Mode j, job_AllowedCIDRs = Job_AllowedCIDRs j, job_Targets = Job_Targets j, job_Ports = [],
     job_RateLimit = \<lparr>rl_ProbesPerSecond = 0, rl_Concurrency = 0\<rparr>, job_TimeoutSeconds = Job_TimeoutSeconds j,
     job_CreatedAt = Job_CreatedAt j\<rparr>"

fun headlineError :: "ScanError list \<Rightarrow> string" where
  "headlineError [] = []"
| "headlineError (e # es) = (if se_Code e = CodeScanIgnored then headlineError es else se_Message e)"

definition servicesFromObservation :: "ServiceObservation list \<Rightarrow> DiscoveryService list" where
  "servicesFromObservation svcs =
    map (\<lambda>s. \<lparr>ds_Protocol = sv_Protocol s, ds_Port = sv_Port s, ds_State = sv_State s, ds_ServiceName = sv_ServiceName s,
      ds_Product = sv_Product s, ds_Version = sv_Version s\<rparr>) svcs"

definition audit :: "string option \<Rightarrow> string \<Rightarrow> string \<Rightarrow> string \<Rightarrow> audit_entry" where
  "audit actor action subjectID status =
    \<lparr>au_actor = actor, au_action = action, au_subject_type = ''scan_job'', au_subject_id = subjectID, au_value = status\<rparr>"

definition auditSubject :: "string option \<Rightarrow> string \<Rightarrow> string \<Rightarrow> string \<Rightarrow> string \<Rightarrow> audit_entry" where
  "auditSubject actor action subjectType subjectID status =
    \<lparr>au_actor = actor, au_action = action, au_subject_type = subjectType, au_subject_id = subjectID, au_value = status\<rparr>"

definition auditCount :: "string \<Rightarrow> string \<Rightarrow> nat \<Rightarrow> audit_entry list" where
  "auditCount action subjectID count = (if 0 < count then [audit None action subjectID (itoa_nat count)] else [])"

section \<open>Recording observations\<close>

definition discovery_input :: "ScanAgent \<Rightarrow> store_ScanJob \<Rightarrow> Observation \<Rightarrow> DiscoveryInput" where
  "discovery_input agent job obs =
    \<lparr>in_JobID = Job_ID job, in_AgentID = Agent_ID agent, in_IP = ob_IP obs, in_MAC = ob_MAC obs, in_Vendor = ob_Vendor obs,
     in_Hostname = ob_Hostname obs, in_OSFamily = ob_OSFamily obs, in_OSDetail = ob_OSDetail obs,
     in_HWSerial = ob_HWSerial obs, in_HWObjectID = ob_HWObjectID obs, in_VLAN = ob_VLAN obs,
     in_Services = servicesFromObservation (ob_Services obs)\<rparr>"

definition autoLinkBySerial :: "draws \<Rightarrow> string \<Rightarrow> db \<Rightarrow> audit_entry list \<times> db" where
  "autoLinkBySerial dr deviceID d =
    (if deviceID = [] then ([], d)
     else (case AutoLinkDeviceBySerial (dr_now dr) (dr_link dr) deviceID d of
        Inl _ \<Rightarrow> ([], d)
      | Inr (matches, d') \<Rightarrow>
         (if matches \<noteq> [] then [auditSubject None ''device.link.auto'' ''device'' deviceID ''serial''] else [], d')))"

definition maybeAutoImport :: "pg \<Rightarrow> draws \<Rightarrow> ScanAgent \<Rightarrow> DiscoveryUpsert \<Rightarrow> db \<Rightarrow> bool \<times> audit_entry list \<times> db" where
  "maybeAutoImport g dr agent result d =
    (if \<not> Agent_AutoImport agent \<or> up_ReviewStatus result \<noteq> ''pending'' \<or> up_ReconcileStatus result = ReconcileConflict
     then (False, [], d)
     else (case ImportDiscovery g (dr_now dr) (dr_device dr) (dr_mac dr) (dr_address dr) (up_ID result) [] d of
        Inl _ \<Rightarrow> (False, [], d)
      | Inr (x, d1) \<Rightarrow>
         let (au, d2) = autoLinkBySerial dr (dy_ImportedDeviceID x) d1 in
         (True, auditSubject None ''scan.discovery.imported'' ''ip_address'' (dy_ImportedAddressID x) ''auto'' # au, d2)))"

definition syncImported :: "pg \<Rightarrow> draws \<Rightarrow> DiscoveryUpsert \<Rightarrow> db \<Rightarrow> bool \<times> audit_entry list \<times> db" where
  "syncImported g dr result d =
    (if up_ReviewStatus result \<noteq> ''imported'' \<or> up_ReconcileStatus result = ReconcileConflict then (False, [], d)
     else (case SyncImportedDiscovery g (dr_now dr) (dr_mac dr) (up_ID result) d of
        Inl _ \<Rightarrow> (False, [], d)
      | Inr (deviceID, d1) \<Rightarrow>
         let (au, d2) = autoLinkBySerial dr deviceID d1 in (True, au, d2)))"

record tally =
  n_recorded :: nat
  n_imported :: nat
  n_synced :: nat

definition recordObservation :: "pg \<Rightarrow> ScanAgent \<Rightarrow> store_ScanJob \<Rightarrow> Observation \<times> draws \<Rightarrow>
    tally \<times> audit_entry list \<times> db \<Rightarrow> tally \<times> audit_entry list \<times> db" where
  "recordObservation g agent job = (\<lambda>(obs, dr) (n, au, d).
    if TrimSpace (ob_IP obs) = [] then (n, au, d)
    else (case UpsertDiscovery g (dr_now dr) (dr_discovery dr) (discovery_input agent job obs) d of
       Inl _ \<Rightarrow> (n, au, d)
     | Inr (result, d1) \<Rightarrow>
        let n1 = n\<lparr>n_recorded := Suc (n_recorded n)\<rparr>; (imported, au2, d2) = maybeAutoImport g dr agent result d1 in
        if imported then (n1\<lparr>n_imported := Suc (n_imported n1)\<rparr>, au @ au2, d2)
        else let (synced, au3, d3) = syncImported g dr result d2 in
          if synced then (n1\<lparr>n_synced := Suc (n_synced n1)\<rparr>, au @ au2 @ au3, d3) else (n1, au @ au2 @ au3, d3)))"

definition recordDiscoveries :: "pg \<Rightarrow> ScanAgent \<Rightarrow> store_ScanJob \<Rightarrow> (Observation \<times> draws) list \<Rightarrow> db \<Rightarrow> audit_entry list \<times> db" where
  "recordDiscoveries g agent job observations d =
    (let (n, au, d') = fold (recordObservation g agent job) observations (\<lparr>n_recorded = 0, n_imported = 0, n_synced = 0\<rparr>, [], d) in
     (au @ auditCount ''scan.discovery.recorded'' (Job_ID job) (n_recorded n) @
      auditCount ''scan.discovery.auto_imported'' (Job_ID job) (n_imported n) @
      auditCount ''scan.discovery.synced'' (Job_ID job) (n_synced n), d'))"

section \<open>Running a job\<close>

text \<open>The clock readings of a run, the database times of its statements and the draws for its
  observations, in order.\<close>

record run_times =
  rt_started :: time
  rt_running :: time
  rt_finished :: time
  rt_recorded :: time
  rt_draws :: "nat \<Rightarrow> draws"

definition dispatch_timeout :: "int \<Rightarrow> string list \<Rightarrow> int option" where
  "dispatch_timeout timeoutSeconds targets =
    (case ScanBudget timeoutSeconds targets of None \<Rightarrow> None
     | Some timeout \<Rightarrow> Some ((if timeout \<le> 0 then 30 * 60 * second_ns else timeout) + 60 * second_ns))"

definition failed_result :: "string \<Rightarrow> run_times \<Rightarrow> ScanJobResult" where
  "failed_result msg rt =
    \<lparr>jr_Status = ''failed'', jr_Error = msg, jr_Result = [], jr_StartedAt = Some (rt_started rt), jr_FinishedAt = Some (rt_finished rt)\<rparr>"

definition result_of :: "outside \<Rightarrow> run_times \<Rightarrow> ScanResult \<Rightarrow> ScanJobResult" where
  "result_of out rt result =
    (let r = \<lparr>jr_Status = res_Status result, jr_Error = headlineError (res_Errors result),
           jr_Result = (case out_marshal out result of Some s \<Rightarrow> s | None \<Rightarrow> []),
           jr_StartedAt = Some (rt_started rt), jr_FinishedAt = Some (rt_finished rt)\<rparr> in
     if res_Status result = [] then r\<lparr>jr_Status := ''failed'', jr_Error := ''agent returned no status''\<rparr> else r)"

text \<open>\<open>None\<close> is the panic of the budget computation.\<close>

definition dispatch :: "outside \<Rightarrow> run_times \<Rightarrow> ScanAgent \<Rightarrow> store_ScanJob \<Rightarrow> db \<Rightarrow> (ScanJobResult \<times> audit_entry list \<times> db) option" where
  "dispatch out rt agent job d =
    (if \<not> out_enabled out then
       Some (failed_result ''scanner dispatch is not configured (set the app's mTLS client certificate)'' rt, [], d)
     else (case dispatch_timeout (Job_TimeoutSeconds job) (Job_Targets job) of
        None \<Rightarrow> None
      | Some timeout \<Rightarrow>
        (case out_dispatch out timeout (Agent_EndpointURL agent) (scannerJobFromStore job) of
           Inl err \<Rightarrow> Some (failed_result err rt, [], d)
         | Inr result \<Rightarrow>
            if res_Status result = JobSucceeded \<and> res_Observations result \<noteq> [] then
              let (au, d') = recordDiscoveries (out_pg out) agent job (zip (res_Observations result) (map (rt_draws rt) [0..<length (res_Observations result)])) d in
              Some (result_of out rt result, au, d')
            else Some (result_of out rt result, [], d))))"

definition recordScheduleRun :: "time \<Rightarrow> store_ScanJob \<Rightarrow> string \<Rightarrow> string \<Rightarrow> db \<Rightarrow> db" where
  "recordScheduleRun now job status errMsg d =
    (if Job_ScheduleID job = [] then d else SetScanScheduleLastRun now (Job_ScheduleID job) status errMsg (Job_ID job) d)"

text \<open>A failed status write is logged and skipped.\<close>

definition try_result :: "outside \<Rightarrow> time \<Rightarrow> string \<Rightarrow> ScanJobResult \<Rightarrow> db \<Rightarrow> db" where
  "try_result out now key r d = (case UpdateScanJobResult (out_jsonb out) now key r d of Inl _ \<Rightarrow> d | Inr d' \<Rightarrow> d')"

definition run :: "outside \<Rightarrow> run_times \<Rightarrow> pending_run \<Rightarrow> db \<Rightarrow> (audit_entry list \<times> db) option" where
  "run out rt p d =
    (let agent = run_agent p; job = run_job p;
         d1 = try_result out (rt_running rt) (Job_ID job) \<lparr>jr_Status = ''running'', jr_Error = [], jr_Result = [],
                jr_StartedAt = Some (rt_started rt), jr_FinishedAt = None\<rparr> d;
         d2 = recordScheduleRun (rt_running rt) job ''running'' [] d1 in
     case dispatch out rt agent job d2 of None \<Rightarrow> None
     | Some (result, au, d3) \<Rightarrow>
       let d4 = try_result out (rt_recorded rt) (Job_ID job) result d3;
           d5 = recordScheduleRun (rt_recorded rt) job (jr_Status result) (jr_Error result) d4 in
       if jr_Status result \<noteq> ''succeeded'' then
         Some (au @ [audit (run_actor p) ''scan.job.failed'' (Job_ID job) (jr_Status result)], d5)
       else
         Some (au @ [audit (run_actor p) ''scan.job.completed'' (Job_ID job) (jr_Status result)],
           TouchScanAgent (rt_recorded rt) (Agent_ID agent) [] d5))"

section \<open>Enqueueing\<close>

record enqueued =
  enq_job :: store_ScanJob
  enq_audit :: audit_entry
  enq_run :: pending_run

definition enqueue :: "time \<Rightarrow> time \<Rightarrow> string option \<Rightarrow> ScanAgent \<Rightarrow> ScanJobInput \<Rightarrow> string option \<Rightarrow> db \<Rightarrow>
    orch_error + (enqueued \<times> db)" where
  "enqueue clock now tok agent inp actor d =
    (case ValidateJobForAgent (scannerJob clock ''preview'' inp) (registrationFromAgent agent) of
       Some e \<Rightarrow> Inl (JobError e)
     | None \<Rightarrow>
       (case CreateScanJob now tok inp d of
          Inl e \<Rightarrow> Inl (StoreError e)
        | Inr (job, d') \<Rightarrow>
          Inr (\<lparr>enq_job = job, enq_audit = audit actor ''scan.job.created'' (Job_ID job) (Job_Status job),
                enq_run = \<lparr>run_agent = agent, run_job = job, run_actor = actor\<rparr>\<rparr>, d')))"

definition TriggerManual :: "time \<Rightarrow> time \<Rightarrow> string option \<Rightarrow> ScanJobInput \<Rightarrow> db \<Rightarrow> orch_error + (enqueued \<times> db)" where
  "TriggerManual clock now tok inp d =
    (case GetScanAgent (ji_AgentID inp) d of
       Inl e \<Rightarrow> Inl (StoreError e)
     | Inr agent \<Rightarrow> enqueue clock now tok agent inp (ji_RequestedBy inp) d)"

definition ValidateScope :: "time \<Rightarrow> ScanJobInput \<Rightarrow> db \<Rightarrow> orch_error option" where
  "ValidateScope clock inp d =
    (case GetScanAgent (ji_AgentID inp) d of
       Inl e \<Rightarrow> Some (StoreError e)
     | Inr agent \<Rightarrow> map_option JobError (ValidateAgentScope (scannerJob clock ''preview'' inp) (Agent_AllowedCIDRs agent)))"

section \<open>Schedules\<close>

definition schedule_input :: "ScanSchedule \<Rightarrow> ScanJobInput" where
  "schedule_input s =
    \<lparr>ji_AgentID = Sched_AgentID s, ji_ScheduleID = Some (Sched_ID s), ji_RequestedBy = None, ji_ScanType = Sched_ScanType s,
     ji_Mode = Sched_Mode s, ji_AllowedCIDRs = Sched_AllowedCIDRs s, ji_Targets = Sched_Targets s,
     ji_TimeoutSeconds = Sched_TimeoutSeconds s\<rparr>"

definition runSchedule :: "outside \<Rightarrow> time \<Rightarrow> time \<Rightarrow> string option \<Rightarrow> ScanSchedule \<Rightarrow> db \<Rightarrow>
    audit_entry list \<times> pending_run list \<times> db" where
  "runSchedule out clock now tok s d =
    (case GetScanAgent (Sched_AgentID s) d of
       Inl _ \<Rightarrow> ([], [], d)
     | Inr agent \<Rightarrow>
       (case enqueue clock now tok agent (schedule_input s) None d of
          Inr (e, d') \<Rightarrow> ([enq_audit e], [enq_run e], d')
        | Inl err \<Rightarrow>
          ([audit None ''scan.schedule.rejected'' (Sched_ID s) (out_error out err)], [],
           SetScanScheduleLastRun now (Sched_ID s) ''rejected'' (out_error out err) [] d)))"

definition fireSchedule :: "outside \<Rightarrow> go_time \<Rightarrow> time \<Rightarrow> ScanSchedule \<times> string option \<Rightarrow>
    audit_entry list \<times> pending_run list \<times> db \<Rightarrow> audit_entry list \<times> pending_run list \<times> db" where
  "fireSchedule out clock now = (\<lambda>(s, tok) (au, runs, d).
    if \<not> windowAllows (windowFromSchedule (out_zones out) s) clock then (au, runs, d)
    else let (au', runs', d') = runSchedule out (instant clock) now tok s d in
      (au @ au', runs @ runs', MarkScanScheduleRan now (Sched_ID s) d'))"

text \<open>One tick.  \<open>due\<close> is the database's clock when the due schedules are listed, \<open>now\<close> its clock for the
  statements that follow; each due schedule draws one token, in order.\<close>

definition RunDueSchedules :: "outside \<Rightarrow> go_time \<Rightarrow> time \<Rightarrow> time \<Rightarrow> (nat \<Rightarrow> string option) \<Rightarrow> db \<Rightarrow>
    audit_entry list \<times> pending_run list \<times> db" where
  "RunDueSchedules out clock due now toks d =
    (let schedules = ListDueScanSchedules due d in
     fold (fireSchedule out clock now) (zip schedules (map toks [0..<length schedules])) ([], [], d))"

section \<open>Enrolment\<close>

definition DiscoverAgent :: "outside \<Rightarrow> time \<Rightarrow> string option \<Rightarrow> string \<Rightarrow> db \<Rightarrow>
    orch_error + (ScanAgent \<times> bool \<times> audit_entry list \<times> db)" where
  "DiscoverAgent out now tok url d =
    (if \<not> out_enabled out then Inl NotConfigured
     else (case out_register out url of
        Inl e \<Rightarrow> Inl (DispatchError e)
      | Inr reg \<Rightarrow>
        let name = TrimSpace (ag_Name reg);
            inp = \<lparr>ai_Name = (if name = [] then url else name), ai_SiteID = [], ai_EndpointURL = [],
              ai_CertificateSubject = ag_CertificateSubject reg, ai_AllowedCIDRs = ag_AllowedCIDRs reg, ai_Status = [],
              ai_AutoImport = False\<rparr> in
        (case EnrollDiscoveredAgent now tok url inp d of
           Inl e \<Rightarrow> Inl (StoreError e)
         | Inr (agent, created, d') \<Rightarrow>
           Inr (agent, created,
             (if created then [auditSubject None ''scan.agent.discovered'' ''scan_agent'' (Agent_ID agent) (Agent_Status agent)] else []),
             d'))))"

section \<open>What the orchestrator needs of the store\<close>

text \<open>A property of the database the statements of an observation keep; what an import keeps; and what
  the bookkeeping of a run and of a tick keep.\<close>

locale observation_contract =
  fixes g :: pg and I :: "db \<Rightarrow> bool"
  assumes keys: "I d \<Longrightarrow> discoveries_ok d"
    and upsert: "I d \<Longrightarrow> UpsertDiscovery g now tok inp d = Inr (u, d') \<Longrightarrow> I d'"
    and sync: "I d \<Longrightarrow> SyncImportedDiscovery g now tok key d = Inr (did, d') \<Longrightarrow> I d'"
    and autolink: "I d \<Longrightarrow> AutoLinkDeviceBySerial now tok did d = Inr (ms, d') \<Longrightarrow> I d'"
begin

lemma autoLinkBySerial_keeps: "I d \<Longrightarrow> autoLinkBySerial dr did d = (au, d') \<Longrightarrow> I d'"
  by (auto simp: autoLinkBySerial_def split: if_splits sum.splits prod.splits intro: autolink)

lemma syncImported_keeps:
  assumes "I d" "syncImported g dr u d = (b, au, d')"
  shows "I d'"
proof (cases "SyncImportedDiscovery g (dr_now dr) (dr_mac dr) (up_ID u) d")
  case (Inl e)
  then show ?thesis using assms by (auto simp: syncImported_def split: if_splits)
next
  case (Inr r)
  then show ?thesis using assms
    by (cases r; auto simp: syncImported_def split: if_splits prod.splits intro: sync autoLinkBySerial_keeps)
qed

text \<open>Recording one observation, given what its automatic import keeps.\<close>

lemma recordObservation_step:
  assumes "I d"
    and "\<And>u d1 b au1 d2. UpsertDiscovery g (dr_now dr) (dr_discovery dr) (discovery_input agent job obs) d = Inr (u, d1) \<Longrightarrow>
      maybeAutoImport g dr agent u d1 = (b, au1, d2) \<Longrightarrow> I d1 \<Longrightarrow> I d2"
    and "recordObservation g agent job (obs, dr) (n, au, d) = (n', au', d')"
  shows "I d'"
proof (cases "UpsertDiscovery g (dr_now dr) (dr_discovery dr) (discovery_input agent job obs) d")
  case (Inl e)
  then show ?thesis using assms(1,3) by (auto simp: recordObservation_def split: if_splits)
next
  case (Inr r)
  then obtain u d1 where u: "UpsertDiscovery g (dr_now dr) (dr_discovery dr) (discovery_input agent job obs) d = Inr (u, d1)"
    by (cases r) simp
  obtain b au1 d2 where m: "maybeAutoImport g dr agent u d1 = (b, au1, d2)" by (rule prod_cases3)
  have I2: "I d2" using assms(2) [OF u m] upsert [OF assms(1) u] by blast
  obtain b3 au3 d3 where s: "syncImported g dr u d2 = (b3, au3, d3)" by (rule prod_cases3)
  have "I d3" using syncImported_keeps [OF I2 s] .
  with I2 assms(1,3) u m s show ?thesis
    by (simp add: recordObservation_def Let_def split: if_splits)
qed

lemma recordDiscoveries_fold:
  assumes "\<And>ob dr n au d n' au' d'. I d \<Longrightarrow> recordObservation g agent job (ob, dr) (n, au, d) = (n', au', d') \<Longrightarrow> I d'"
    and "I d" "recordDiscoveries g agent job observations d = (au, d')"
  shows "I d'"
proof -
  have fold: "I (snd (snd (fold (recordObservation g agent job) os (n, au, d))))" if "I d" for os n au d
    using that
  proof (induction os arbitrary: n au d)
    case (Cons o1 os)
    obtain o2 dr where o: "o1 = (o2, dr)" by (cases o1)
    obtain n' au' d' where r: "recordObservation g agent job (o2, dr) (n, au, d) = (n', au', d')" by (rule prod_cases3)
    show ?case using Cons.IH [OF assms(1) [OF Cons.prems r]] by (simp add: o r)
  qed simp
  then show ?thesis using fold [OF assms(2), of observations] assms(3)
    by (auto simp: recordDiscoveries_def Let_def split: prod.splits) (metis snd_conv)
qed

lemma maybeAutoImport_untrusted: "\<not> Agent_AutoImport agent \<Longrightarrow> maybeAutoImport g dr agent u d = (False, [], d)"
  by (simp add: maybeAutoImport_def)

lemma recordDiscoveries_untrusted_keeps:
  assumes "\<not> Agent_AutoImport agent" "I d" "recordDiscoveries g agent job observations d = (au, d')"
  shows "I d'"
proof (rule recordDiscoveries_fold [OF _ assms(2,3)])
  fix o2 dr n au1 d1 n' au' d2
  assume "I d1" "recordObservation g agent job (o2, dr) (n, au1, d1) = (n', au', d2)"
  then show "I d2"
    using recordObservation_step [of d1 dr agent job o2] by (auto simp: maybeAutoImport_untrusted [OF assms(1)])
qed

end

lemma UpsertDiscovery_result:
  assumes "discoveries_ok d" "UpsertDiscovery g now tok inp d = Inr (u, d')"
  shows "\<exists>x\<in>set (db_discoveries d'). di_id x = up_ID u \<and> di_status x = up_ReviewStatus u \<and>
    di_reconcile_status x = up_ReconcileStatus u"
  using assms(2)
proof (cases rule: UpsertDiscovery_cases)
  case (merged key status conflict i m old)
  let ?new = "observed_row now key inp i m status conflict"
  have old: "old \<in> set (db_discoveries d)" "di_ip old = i" using merged(4) by (auto simp: find_Some_iff)
  then have "merge_discovery ?new old \<in> set (db_discoveries d')" by (auto simp: merged(6) set_update_rows)
  then show ?thesis
    by (intro bexI [of _ "merge_discovery ?new old"])
       (simp_all add: merged(5), simp add: merge_discovery_def observed_row_def)
next
  case (fresh key status conflict i m)
  then show ?thesis by (simp add: observed_row_def)
qed

locale import_contract = observation_contract +
  assumes import: "I d \<Longrightarrow> x \<in> set (db_discoveries d) \<Longrightarrow> di_status x = ''pending'' \<Longrightarrow>
    di_reconcile_status x \<noteq> ReconcileConflict \<Longrightarrow>
    ImportDiscovery g now tokDev tokMac tokAddr (di_id x) [] d = Inr (out, d') \<Longrightarrow> I d'"
begin

lemma maybeAutoImport_keeps:
  assumes "I d" "x \<in> set (db_discoveries d)" "di_id x = up_ID u" "di_status x = up_ReviewStatus u"
    "di_reconcile_status x = up_ReconcileStatus u" "maybeAutoImport g dr agent u d = (b, au, d')"
  shows "I d'"
proof (cases "\<not> Agent_AutoImport agent \<or> up_ReviewStatus u \<noteq> ''pending'' \<or> up_ReconcileStatus u = ReconcileConflict")
  case True
  then show ?thesis using assms(1,6) by (auto simp: maybeAutoImport_def)
next
  case False
  show ?thesis
  proof (cases "ImportDiscovery g (dr_now dr) (dr_device dr) (dr_mac dr) (dr_address dr) (up_ID u) [] d")
    case (Inl e)
    then show ?thesis using False assms(1,6) by (auto simp: maybeAutoImport_def)
  next
    case (Inr r)
    then obtain y d1 where y: "ImportDiscovery g (dr_now dr) (dr_device dr) (dr_mac dr) (dr_address dr) (di_id x) [] d = Inr (y, d1)"
      using assms(3) by (cases r) simp
    have "I d1" using import [OF assms(1,2) _ _ y] False assms(4,5) by simp
    then show ?thesis
      using False assms(3,6) y by (auto simp: maybeAutoImport_def Let_def split: prod.splits intro: autoLinkBySerial_keeps)
  qed
qed

lemma recordDiscoveries_keeps:
  assumes "I d" "recordDiscoveries g agent job observations d = (au, d')"
  shows "I d'"
proof (rule recordDiscoveries_fold [OF _ assms])
  fix o2 dr n au1 d1 n' au' d2
  assume I: "I d1" and r: "recordObservation g agent job (o2, dr) (n, au1, d1) = (n', au', d2)"
  show "I d2"
  proof (rule recordObservation_step [OF I _ r])
    fix u d3 b au3 d4
    assume u: "UpsertDiscovery g (dr_now dr) (dr_discovery dr) (discovery_input agent job o2) d1 = Inr (u, d3)"
      and m: "maybeAutoImport g dr agent u d3 = (b, au3, d4)" and I3: "I d3"
    obtain x where "x \<in> set (db_discoveries d3)" "di_id x = up_ID u" "di_status x = up_ReviewStatus u"
      "di_reconcile_status x = up_ReconcileStatus u"
      using UpsertDiscovery_result [OF keys [OF I] u] by blast
    then show "I d4" using maybeAutoImport_keeps [OF I3] m by blast
  qed
qed

end

locale run_contract = import_contract +
  assumes job_result: "I d \<Longrightarrow> UpdateScanJobResult jsonb now key r d = Inr d' \<Longrightarrow> I d'"
    and last_run: "I d \<Longrightarrow> I (SetScanScheduleLastRun now key status msg jobID d)"
    and touch: "I d \<Longrightarrow> I (TouchScanAgent now key version d)"
begin

lemma try_result_keeps: "I d \<Longrightarrow> I (try_result out now key r d)"
  by (auto simp: try_result_def split: sum.splits intro: job_result)

lemma recordScheduleRun_keeps: "I d \<Longrightarrow> I (recordScheduleRun now job status msg d)"
  by (simp add: recordScheduleRun_def last_run)

lemma dispatch_keeps:
  assumes "I d" "out_pg out = g" "dispatch out rt agent job d = Some (r, au, d')"
  shows "I d'"
  using assms by (auto simp: dispatch_def split: if_splits option.splits sum.splits prod.splits intro: recordDiscoveries_keeps)

lemma run_keeps:
  assumes "I d" "out_pg out = g" "run out rt p d = Some (au, d')"
  shows "I d'"
proof -
  define d2 where "d2 = recordScheduleRun (rt_running rt) (run_job p) ''running'' [] (try_result out (rt_running rt) (Job_ID (run_job p))
      \<lparr>jr_Status = ''running'', jr_Error = [], jr_Result = [], jr_StartedAt = Some (rt_started rt), jr_FinishedAt = None\<rparr> d)"
  have "I d2" unfolding d2_def by (intro recordScheduleRun_keeps try_result_keeps assms(1))
  then show ?thesis
    using assms(3) dispatch_keeps [of d2 out rt "run_agent p" "run_job p", OF _ assms(2)]
    unfolding run_def Let_def d2_def [symmetric]
    by (auto split: option.splits prod.splits if_splits intro!: touch recordScheduleRun_keeps try_result_keeps)
qed

end

locale tick_contract = run_contract +
  assumes create_job: "I d \<Longrightarrow> CreateScanJob now tok ji d = Inr (j, d') \<Longrightarrow> I d'"
    and mark_ran: "I d \<Longrightarrow> I (MarkScanScheduleRan now key d)"
begin

lemma enqueue_keeps: "I d \<Longrightarrow> enqueue clock now tok agent inp actor d = Inr (e, d') \<Longrightarrow> I d'"
  by (auto simp: enqueue_def split: option.splits sum.splits prod.splits intro: create_job)

lemma runSchedule_keeps: "I d \<Longrightarrow> runSchedule out clock now tok s d = (au, runs, d') \<Longrightarrow> I d'"
  by (auto simp: runSchedule_def split: sum.splits prod.splits intro: enqueue_keeps last_run)

lemma fireSchedule_keeps:
  assumes "I d" "fireSchedule out clock now (s, tok) (au, runs, d) = (au', runs', d')"
  shows "I d'"
  using assms by (auto simp: fireSchedule_def Let_def split: if_splits prod.splits intro!: mark_ran intro: runSchedule_keeps)

lemma RunDueSchedules_keeps:
  assumes "I d" "RunDueSchedules out clock due now toks d = (au, runs, d')"
  shows "I d'"
proof -
  have "I (snd (snd (fold (fireSchedule out clock now) ss (au, runs, d))))" if "I d" for ss au runs d
    using that
  proof (induction ss arbitrary: au runs d)
    case (Cons st ss)
    obtain s tok where st: "st = (s, tok)" by (cases st)
    obtain au' runs' d' where f: "fireSchedule out clock now (s, tok) (au, runs, d) = (au', runs', d')" by (rule prod_cases3)
    show ?case using Cons.IH [OF fireSchedule_keeps [OF Cons.prems f]] by (simp add: st f)
  qed simp
  from this [OF assms(1)] show ?thesis using assms(2) by (metis RunDueSchedules_def snd_conv)
qed

end

section \<open>The contracts hold for the store\<close>

lemma LinkDevices_frame:
  assumes "LinkDevices now tok ids d = Inr d'"
  shows "\<exists>P f. d' = d\<lparr>db_devices := update_rows P f (db_devices d)\<rparr> \<and>
    (\<forall>v. dv_id (f v) = dv_id v \<and> dv_name (f v) = dv_name v)"
  using assms by (auto simp: LinkDevices_def Let_def split: if_splits option.splits intro!: exI)

lemma AutoLinkDeviceBySerial_frame:
  assumes "AutoLinkDeviceBySerial now tok did d = Inr (ms, d')"
  shows "\<exists>P f. d' = d\<lparr>db_devices := update_rows P f (db_devices d)\<rparr> \<and>
    (\<forall>v. dv_id (f v) = dv_id v \<and> dv_name (f v) = dv_name v)"
proof -
  have "d' = d \<or> (\<exists>ids. LinkDevices now tok ids d = Inr d')"
    using assms by (auto simp: AutoLinkDeviceBySerial_def Let_def bind_res_eq_Inr split: if_splits sum.splits store_error.splits)
  then show ?thesis
  proof
    assume "d' = d"
    then show ?thesis by (intro exI [of _ "\<lambda>_. False"] exI [of _ id]) (simp add: update_rows_def)
  qed (use LinkDevices_frame in blast)
qed

text \<open>What identifies the managed records, and the review decisions an observation must not make.\<close>

definition same_records :: "db \<Rightarrow> db \<Rightarrow> bool" where
  "same_records d d' \<longleftrightarrow>
    map (\<lambda>r. (sn_id r, sn_cidr r)) (db_subnets d') = map (\<lambda>r. (sn_id r, sn_cidr r)) (db_subnets d) \<and>
    map (\<lambda>v. (dv_id v, dv_name v)) (db_devices d') = map (\<lambda>v. (dv_id v, dv_name v)) (db_devices d) \<and>
    map (\<lambda>a. (ad_id a, ad_address a)) (db_addresses d') = map (\<lambda>a. (ad_id a, ad_address a)) (db_addresses d)"

definition not_imported :: "string \<Rightarrow> db \<Rightarrow> bool" where
  "not_imported key d \<longleftrightarrow> (\<forall>x\<in>set (db_discoveries d). di_id x = key \<longrightarrow> di_status x \<noteq> ''imported'')"

definition dismissed :: "string \<Rightarrow> db \<Rightarrow> bool" where
  "dismissed key d \<longleftrightarrow> (\<exists>x\<in>set (db_discoveries d). di_id x = key) \<and>
    (\<forall>x\<in>set (db_discoveries d). di_id x = key \<longrightarrow> di_status x = ''dismissed'')"

lemma ImportDiscovery_discoveries_ok:
  assumes "discoveries_ok d" "ImportDiscovery g now tokDev tokMac tokAddr key name d = Inr (out, d')"
  shows "discoveries_ok d'"
proof -
  obtain P aid did where "db_discoveries d' = update_rows P (mark_imported now aid did) (db_discoveries d)"
    using ImportDiscovery_scans [OF assms(2)] by blast
  then show ?thesis using assms(1) by (simp add: discoveries_ok_def map_update_rows_key mark_imported_def)
qed

lemma SyncImportedDiscovery_discoveries_ok:
  assumes "discoveries_ok d" "SyncImportedDiscovery g now tok key d = Inr (did, d')"
  shows "discoveries_ok d'"
  using assms SyncImportedDiscovery_scans by (simp add: discoveries_ok_def)

lemma AutoLinkDeviceBySerial_discoveries:
  assumes "AutoLinkDeviceBySerial now tok did d = Inr (ms, d')"
  shows "db_discoveries d' = db_discoveries d" "same_scans d d'"
  using AutoLinkDeviceBySerial_frame [OF assms] by (auto simp: same_scans_def)

text \<open>The invariants of the database.\<close>

definition store_ok :: "db \<Rightarrow> bool" where
  "store_ok d \<longleftrightarrow> inventory_ok d \<and> scans_ok d \<and> discoveries_ok d"

lemma scan_write_once: "scan_write jsonb g d d' \<Longrightarrow> scans_ok d \<Longrightarrow> scans_ok d'"
  by (rule scan_write_keeps)

lemma inventory_ok_scan_tables [simp]:
  "inventory_ok (d\<lparr>db_agents := x1\<rparr>) = inventory_ok d" "inventory_ok (d\<lparr>db_schedules := x2\<rparr>) = inventory_ok d"
  "inventory_ok (d\<lparr>db_jobs := x3\<rparr>) = inventory_ok d" "inventory_ok (d\<lparr>db_discoveries := x4\<rparr>) = inventory_ok d"
  by (simp_all add: inventory_defs)

lemma discoveries_ok_scan_tables [simp]:
  "discoveries_ok (d\<lparr>db_agents := x1\<rparr>) = discoveries_ok d" "discoveries_ok (d\<lparr>db_schedules := x2\<rparr>) = discoveries_ok d"
  "discoveries_ok (d\<lparr>db_jobs := x3\<rparr>) = discoveries_ok d"
  by (simp_all add: discoveries_ok_def)

lemma bookkeeping_store_ok:
  "store_ok d \<Longrightarrow> UpdateScanJobResult jsonb now key r d = Inr d' \<Longrightarrow> store_ok d'"
  "store_ok d \<Longrightarrow> store_ok (SetScanScheduleLastRun now key status msg jobID d)"
  "store_ok d \<Longrightarrow> store_ok (TouchScanAgent now key version d)"
  "store_ok d \<Longrightarrow> CreateScanJob now tok ji d = Inr (j, d') \<Longrightarrow> store_ok d'"
  "store_ok d \<Longrightarrow> store_ok (MarkScanScheduleRan now key d)"
proof -
  assume ok: "store_ok d"
  then have s: "scans_ok d" by (simp add: store_ok_def)
  show "UpdateScanJobResult jsonb now key r d = Inr d' \<Longrightarrow> store_ok d'"
    using ok UpdateScanJobResult_frame scan_write_once [OF scan_write.JobResult s] by (fastforce simp: store_ok_def)
  show "store_ok (SetScanScheduleLastRun now key status msg jobID d)"
    using ok scan_write_once [OF scan_write.LastRun [OF refl] s] by (simp add: store_ok_def SetScanScheduleLastRun_def)
  show "store_ok (TouchScanAgent now key version d)"
    using ok scan_write_once [OF scan_write.TouchAgent [OF refl] s] by (simp add: store_ok_def TouchScanAgent_def)
  show "CreateScanJob now tok ji d = Inr (j, d') \<Longrightarrow> store_ok d'"
    using ok CreateScanJob_row scan_write_once [OF scan_write.CreateJob s] by (fastforce simp: store_ok_def)
  show "store_ok (MarkScanScheduleRan now key d)"
    using ok scan_write_once [OF scan_write.MarkRan [OF refl] s] by (simp add: store_ok_def MarkScanScheduleRan_def)
qed

lemma AutoLinkDeviceBySerial_scans_ok:
  assumes "scans_ok d" "AutoLinkDeviceBySerial now tok did d = Inr (ms, d')"
  shows "scans_ok d'"
  using AutoLinkDeviceBySerial_discoveries [OF assms(2)] assms(1)
  by (intro scans_ok_frame [OF assms(1)]) (auto simp: same_scans_def scans_ok_def)

interpretation so: tick_contract g store_ok for g
proof unfold_locales
  fix d assume ok: "store_ok d"
  then have s: "scans_ok d" "inventory_ok d" "discoveries_ok d" by (simp_all add: store_ok_def)
  show "discoveries_ok d" by fact
  show "store_ok d'" if "UpsertDiscovery g now tok inp d = Inr (u, d')" for now tok inp u d'
    using UpsertDiscovery_inv [OF s(2) that] UpsertDiscovery_discoveries_ok [OF s(3) that] UpsertDiscovery_scans_ok [OF s(1) that]
    by (simp add: store_ok_def)
  show "store_ok d'" if "SyncImportedDiscovery g now tok key d = Inr (did, d')" for now tok key did d'
    using SyncImportedDiscovery_inv [OF s(2) that] SyncImportedDiscovery_discoveries_ok [OF s(3) that]
      scan_write_once [OF scan_write.Sync [OF that] s(1)] by (simp add: store_ok_def)
  show "store_ok d'" if "AutoLinkDeviceBySerial now tok did d = Inr (ms, d')" for now tok did ms d'
    using AutoLinkDeviceBySerial_inv [OF s(2) that] AutoLinkDeviceBySerial_scans_ok [OF s(1) that]
      AutoLinkDeviceBySerial_discoveries(1) [OF that] s(3) by (simp add: store_ok_def discoveries_ok_def)
  show "store_ok d'" if "ImportDiscovery g now tokDev tokMac tokAddr (di_id x) [] d = Inr (out, d')"
    for x now tokDev tokMac tokAddr out d'
    using ImportDiscovery_inv [OF s(2) that] ImportDiscovery_discoveries_ok [OF s(3) that]
      scan_write_once [OF scan_write.Import [OF that] s(1)] by (simp add: store_ok_def)
qed (rule bookkeeping_store_ok; assumption)+

text \<open>An observation that is not imported leaves the managed records in place.\<close>

lemma same_records_trans: "same_records d d1 \<Longrightarrow> same_records d1 d2 \<Longrightarrow> same_records d d2"
  by (simp add: same_records_def)

lemma list_all2_map_eq: "list_all2 (\<lambda>x y. f y = f x) xs ys \<Longrightarrow> map f ys = map f xs"
  by (induction xs ys rule: list_all2_induct) auto

lemma refresh_last_seen_records: "same_records d (refresh_last_seen now status i d)"
  by (simp add: same_records_def refresh_last_seen_def map_update_rows_key)

lemma UpsertDiscovery_records:
  assumes "UpsertDiscovery g now tok inp d = Inr (u, d')"
  shows "same_records d d'"
  using assms
proof (cases rule: UpsertDiscovery_cases)
  case (merged key status conflict i m old)
  show ?thesis unfolding merged(6)
    by (rule same_records_trans [OF _ refresh_last_seen_records]) (simp add: same_records_def)
next
  case (fresh key status conflict i m)
  show ?thesis unfolding fresh(7)
    by (rule same_records_trans [OF _ refresh_last_seen_records]) (simp add: same_records_def)
qed

lemma SyncImportedDiscovery_records:
  assumes "SyncImportedDiscovery g now tok key d = Inr (did, d')"
  shows "same_records d d'"
proof -
  note fill = SyncImportedDiscovery_fill [OF assms]
  have "map (\<lambda>v. (dv_id v, dv_name v)) (db_devices d') = map (\<lambda>v. (dv_id v, dv_name v)) (db_devices d)"
    by (rule list_all2_map_eq, rule list_all2_mono [OF fill(2)]) simp
  moreover have "map (\<lambda>a. (ad_id a, ad_address a)) (db_addresses d') = map (\<lambda>a. (ad_id a, ad_address a)) (db_addresses d)"
    by (rule list_all2_map_eq, rule list_all2_mono [OF fill(3)]) simp
  moreover have "map (\<lambda>r. (sn_id r, sn_cidr r)) (db_subnets d') = map (\<lambda>r. (sn_id r, sn_cidr r)) (db_subnets d)"
    by (rule list_all2_map_eq, rule list_all2_mono [OF fill(4)]) simp
  ultimately show ?thesis by (simp add: same_records_def)
qed

lemma AutoLinkDeviceBySerial_records:
  assumes "AutoLinkDeviceBySerial now tok did d = Inr (ms, d')"
  shows "same_records d d'"
  using AutoLinkDeviceBySerial_frame [OF assms] by (auto simp: same_records_def map_update_rows_key)

text \<open>The status an observation leaves on a recorded discovery.\<close>

lemma UpsertDiscovery_status:
  assumes "discoveries_ok d" "UpsertDiscovery g now tok inp d = Inr (u, d')" "y \<in> set (db_discoveries d')"
  shows "(\<exists>x\<in>set (db_discoveries d). di_id x = di_id y \<and> (di_status y = di_status x \<or> di_status x = ''imported'' \<and> di_status y = ''pending'')) \<or>
    (di_id y \<notin> set (map di_id (db_discoveries d)) \<and> di_status y = ''pending'')"
  using assms(2)
proof (cases rule: UpsertDiscovery_cases)
  case (merged key status conflict i m old)
  let ?f = "merge_discovery (observed_row now key inp i m status conflict)"
  obtain x where x: "x \<in> set (db_discoveries d)" "y = (if di_ip x = i then ?f x else x)"
    using assms(3) merged(6) by (auto simp: set_update_rows)
  have "di_status (?f x) = di_status x \<or> di_status x = ''imported'' \<and> di_status (?f x) = ''pending''"
    by (simp add: merge_discovery_def)
  then show ?thesis using x by (intro disjI1 bexI [of _ x]) simp_all
next
  case (fresh key status conflict i m)
  then consider "y \<in> set (db_discoveries d)" | "y = observed_row now key inp i m status conflict" using assms(3) by auto
  then show ?thesis using fresh(5) by cases (auto simp: observed_row_def)
qed

lemma UpsertDiscovery_ids:
  assumes "UpsertDiscovery g now tok inp d = Inr (u, d')"
  shows "set (map di_id (db_discoveries d)) \<subseteq> set (map di_id (db_discoveries d'))"
  using assms
proof (cases rule: UpsertDiscovery_cases)
  case (merged key status conflict i m old)
  then have "map di_id (db_discoveries d') = map di_id (db_discoveries d)" by (simp add: map_update_rows_key)
  then show ?thesis by simp
next
  case (fresh key status conflict i m)
  then have "map di_id (db_discoveries d') = map di_id (db_discoveries d) @ [key]" by (simp add: observed_row_def)
  then show ?thesis by (simp only: set_append) blast
qed

interpretation kr: observation_contract g "\<lambda>d. discoveries_ok d \<and> same_records d0 d \<and>
    (\<forall>k. not_imported k d0 \<and> k \<in> set (map di_id (db_discoveries d0)) \<longrightarrow> not_imported k d \<and> k \<in> set (map di_id (db_discoveries d)))" for g d0
proof unfold_locales
  fix d
  let ?I = "\<lambda>d. discoveries_ok d \<and> same_records d0 d \<and>
    (\<forall>k. not_imported k d0 \<and> k \<in> set (map di_id (db_discoveries d0)) \<longrightarrow> not_imported k d \<and> k \<in> set (map di_id (db_discoveries d)))"
  assume I: "?I d"
  then show "discoveries_ok d" by blast
  show "?I d'" if u: "UpsertDiscovery g now tok inp d = Inr (u, d')" for now tok inp u d'
  proof (intro conjI allI impI)
    show "discoveries_ok d'" using I UpsertDiscovery_discoveries_ok [OF _ u] by blast
    show "same_records d0 d'" using I UpsertDiscovery_records [OF u] same_records_trans by blast
    fix k assume "not_imported k d0 \<and> k \<in> set (map di_id (db_discoveries d0))"
    with I have k: "not_imported k d" "k \<in> set (map di_id (db_discoveries d))" by blast+
    show "not_imported k d'"
      unfolding not_imported_def
    proof (intro ballI impI)
      fix y assume y: "y \<in> set (db_discoveries d')" "di_id y = k"
      from UpsertDiscovery_status [OF _ u y(1)] I k y(2) show "di_status y \<noteq> ''imported''"
        by (auto simp: not_imported_def)
    qed
    show "k \<in> set (map di_id (db_discoveries d'))" using k(2) UpsertDiscovery_ids [OF u] by blast
  qed
  show "?I d'" if "SyncImportedDiscovery g now tok key d = Inr (did, d')" for now tok key did d'
    using I SyncImportedDiscovery_records [OF that] SyncImportedDiscovery_scans [OF that] same_records_trans [of d0 d d']
    by (simp add: not_imported_def discoveries_ok_def)
  show "?I d'" if "AutoLinkDeviceBySerial now tok did d = Inr (ms, d')" for now tok did ms d'
    using I AutoLinkDeviceBySerial_records [OF that] AutoLinkDeviceBySerial_discoveries(1) [OF that] same_records_trans [of d0 d d']
    by (simp add: not_imported_def discoveries_ok_def)
qed

section \<open>Properties\<close>

definition demo_store_job :: store_ScanJob where
  "demo_store_job = job_of_row empty_db (new_job 0 ''j1'' \<lparr>ji_AgentID = ''a1'', ji_ScheduleID = None, ji_RequestedBy = None,
     ji_ScanType = ScanCombined, ji_Mode = ModeLightActive, ji_AllowedCIDRs = [''10.0.0.0/24''], ji_Targets = [''10.0.0.0/30''],
     ji_TimeoutSeconds = 5\<rparr>)"

definition demo_observation :: Observation where
  "demo_observation = \<lparr>ob_IP = ''10.0.0.9'', ob_MAC = [], ob_Vendor = [], ob_Hostname = ''pi'', ob_OSFamily = [], ob_OSDetail = [],
     ob_VLAN = 0, ob_HWSerial = [], ob_HWObjectID = [], ob_Services = [], ob_Evidence = [], ob_ObservedAt = None\<rparr>"

definition demo_draws :: draws where
  "demo_draws = \<lparr>dr_now = 9, dr_discovery = Some ''x2'', dr_device = Some ''dev2'', dr_mac = Some ''mac2'',
     dr_address = Some ''adr2'', dr_link = Some ''lnk2''\<rparr>"





text \<open>The job handed to the dispatcher, and the addresses it may touch.\<close>

lemma enqueue_cases:
  assumes "enqueue clock now tok agent inp actor d = Inr (e, d')"
  obtains key where "ValidateJobForAgent (scannerJob clock ''preview'' inp) (registrationFromAgent agent) = None"
    "tok = Some key" "d' = d\<lparr>db_jobs := db_jobs d @ [new_job now key inp]\<rparr>" "enq_job e = job_of_row d' (new_job now key inp)"
    "enq_run e = \<lparr>run_agent = agent, run_job = enq_job e, run_actor = actor\<rparr>"
proof -
  obtain job where v: "ValidateJobForAgent (scannerJob clock ''preview'' inp) (registrationFromAgent agent) = None"
    and c: "CreateScanJob now tok inp d = Inr (job, d')"
    and e: "enq_job e = job" "enq_run e = \<lparr>run_agent = agent, run_job = job, run_actor = actor\<rparr>"
    using assms by (auto simp: enqueue_def split: option.splits sum.splits)
  obtain key where "tok = Some key" "d' = d\<lparr>db_jobs := db_jobs d @ [new_job now key inp]\<rparr>" "job = job_of_row d' (new_job now key inp)"
    using CreateScanJob_row [OF c] by blast
  with v e show thesis using that by simp
qed

definition confined :: "ScanAgent \<Rightarrow> store_ScanJob \<Rightarrow> bool" where
  "confined agent job \<longleftrightarrow> Agent_Status agent = AgentActive \<and> Job_AgentID job = Agent_ID agent \<and>
    (\<forall>t\<in>set (Job_Targets job). \<forall>a\<in>target_addrs t. \<exists>c\<in>set (Agent_AllowedCIDRs agent). a \<in> cidr_addrs c)"

lemma enqueue_confined:
  assumes "enqueue clock now tok agent inp actor d = Inr (e, d')"
  shows "confined agent (enq_job e)"
  using assms
proof (cases rule: enqueue_cases)
  case (1 key)
  have job: "job_Targets (scannerJob clock ''preview'' inp) = Job_Targets (enq_job e)"
    "job_AgentID (scannerJob clock ''preview'' inp) = Job_AgentID (enq_job e)"
    by (simp_all add: 1(4) scannerJob_def job_of_row_def new_job_def)
  have reg: "ag_Status (registrationFromAgent agent) = Agent_Status agent" "ag_ID (registrationFromAgent agent) = Agent_ID agent"
    "ag_AllowedCIDRs (registrationFromAgent agent) = Agent_AllowedCIDRs agent" by (simp_all add: registrationFromAgent_def)
  have "Agent_Status agent = AgentActive" "Job_AgentID (enq_job e) = Agent_ID agent"
    using 1(1) by (simp_all add: ValidateJobForAgent_def reg job split: if_splits)
  then show ?thesis
    using ValidateJobForAgent_inside [OF 1(1)] unfolding confined_def reg job by blast
qed

text \<open>A job an operator triggers is accepted only for an agent the database lists as active, and then
  exactly one queued job row is added, whose targets denote only addresses of that agent's stored
  allowlist.\<close>

theorem TriggerManual_confined:
  assumes "TriggerManual clock now tok inp d = Inr (e, d')"
  shows "\<exists>r\<in>set (db_agents d). \<exists>j. sa_id r = ji_AgentID inp \<and> sa_status r = AgentActive \<and>
    db_jobs d' = db_jobs d @ [j] \<and> sj_status j = ''queued'' \<and> sj_agent_id j = sa_id r \<and> sj_id j = Job_ID (enq_job e) \<and>
    (\<forall>t\<in>set (sj_targets j). \<forall>a\<in>target_addrs t. \<exists>c\<in>set (sa_allowed_cidrs r). a \<in> cidr_addrs c)"
proof -
  obtain r where r: "find (\<lambda>r. sa_id r = ji_AgentID inp) (db_agents d) = Some r"
    and e: "enqueue clock now tok (agent_of_row r) inp (ji_RequestedBy inp) d = Inr (e, d')"
    using assms by (auto simp: TriggerManual_def GetScanAgent_def split: option.splits)
  have rin: "r \<in> set (db_agents d)" "sa_id r = ji_AgentID inp" using r by (auto simp: find_Some_iff)
  note c = enqueue_confined [OF e, unfolded confined_def]
  from e show ?thesis
  proof (cases rule: enqueue_cases)
    case (1 key)
    then show ?thesis
      using rin c by (intro bexI [of _ r] exI [of _ "new_job now key inp"]) (auto simp: agent_of_row_def job_of_row_def new_job_def)
  qed
qed

definition demo_active :: db where
  "demo_active = demo_db\<lparr>db_agents := [new_agent 0 ''a1'' (demo_agent_input\<lparr>ai_Status := AgentActive\<rparr>)]\<rparr>"

definition demo_job_input :: ScanJobInput where
  "demo_job_input = \<lparr>ji_AgentID = ''a1'', ji_ScheduleID = None, ji_RequestedBy = None, ji_ScanType = ScanCombined,
     ji_Mode = ModeLightActive, ji_AllowedCIDRs = [''10.0.0.0/24''], ji_Targets = [''10.0.0.0/30''], ji_TimeoutSeconds = 5\<rparr>"

theorem TriggerManual_confined_witness:
  "\<exists>e d'. TriggerManual 1 1 (Some ''j1'') demo_job_input demo_active = Inr (e, d') \<and>
     (\<exists>j. db_jobs d' = db_jobs demo_active @ [j] \<and> sj_status j = ''queued'')"
proof -
  have "is_ok (TriggerManual 1 1 (Some ''j1'') demo_job_input demo_active)" by code_simp
  then obtain e d' where e: "TriggerManual 1 1 (Some ''j1'') demo_job_input demo_active = Inr (e, d')" by (auto simp: is_ok_iff)
  from TriggerManual_confined [OF e] e show ?thesis by blast
qed

text \<open>The two sides agree: a job the application has queued passes the validation of an agent that
  enforces the allowlist the application has stored for it.\<close>

theorem enqueued_job_accepted_by_agent:
  assumes "enqueue clock now tok agent inp actor d = Inr (e, d')" "tok \<noteq> Some []"
  shows "ValidateAgentScope (scannerJobFromStore (enq_job e)) (Agent_AllowedCIDRs agent) = None"
  using assms(1)
proof (cases rule: enqueue_cases)
  case (1 key)
  then have scope: "ValidateAgentScope (scannerJob clock ''preview'' inp) (Agent_AllowedCIDRs agent) = None"
    by (simp add: ValidateJobForAgent_def registrationFromAgent_def split: if_splits)
  have pos: "0 < ji_TimeoutSeconds inp"
    using scope by (auto simp: ValidateAgentScope_None well_formed_job_def scannerJob_def)
  have "scannerJobFromStore (enq_job e) = (scannerJob clock ''preview'' inp)\<lparr>job_ID := key, job_CreatedAt := now\<rparr>"
    using pos by (simp add: 1(4) scannerJobFromStore_def scannerJob_def job_of_row_def new_job_def)
  moreover have "key \<noteq> []" using assms(2) 1(2) by auto
  ultimately show ?thesis
    using scope by (auto simp: ValidateAgentScope_None well_formed_job_def targets_in_allowlist_def)
qed

theorem enqueued_job_accepted_by_agent_witness:
  "\<exists>e d'. enqueue 1 1 (Some ''j1'') (agent_of_row (hd (db_agents demo_active))) demo_job_input None demo_active = Inr (e, d') \<and>
     ValidateAgentScope (scannerJobFromStore (enq_job e)) [''10.0.0.0/24''] = None"
proof -
  have "is_ok (enqueue 1 1 (Some ''j1'') (agent_of_row (hd (db_agents demo_active))) demo_job_input None demo_active)" by code_simp
  then obtain e d' where e: "enqueue 1 1 (Some ''j1'') (agent_of_row (hd (db_agents demo_active))) demo_job_input None demo_active
      = Inr (e, d')" by (auto simp: is_ok_iff)
  have "Agent_AllowedCIDRs (agent_of_row (hd (db_agents demo_active))) = [''10.0.0.0/24'']"
    by (simp add: demo_active_def agent_of_row_def new_agent_def demo_agent_input_def)
  with enqueued_job_accepted_by_agent [OF e] e show ?thesis by auto
qed

end
