(* ===== verification/Scheduler.thy ===== *)
theory Scheduler
  imports Orchestrator
begin

text \<open>
  What a tick of the scheduler and a run of a job do, on top of \<open>Orchestrator\<close>: which schedules
  fire and when they fire next, and the state a run leaves on its job.
\<close>

section \<open>A tick\<close>

text \<open>The statements of a tick leave agents alone, and of the schedules change bookkeeping columns only.\<close>

lemma runSchedule_frame:
  assumes "runSchedule out clock now tok s d = (au, runs, d')"
  shows "db_agents d' = db_agents d \<and>
    list_all2 (\<lambda>r r'. sc_id r' = sc_id r \<and> sc_interval_seconds r' = sc_interval_seconds r \<and> sc_next_run_at r' = sc_next_run_at r)
      (db_schedules d) (db_schedules d')"
proof -
  have "db_agents d2 = db_agents d \<and> db_schedules d2 = db_schedules d"
    if "enqueue clock now tok agent inp None d = Inr (e, d2)" for agent inp e d2
    using that by (cases rule: enqueue_cases) simp
  then show ?thesis
    using assms
    by (auto simp: runSchedule_def SetScanScheduleLastRun_def list_all2_conv_all_nth update_rows_def split: sum.splits prod.splits)
qed

definition stamped :: "time \<Rightarrow> string set \<Rightarrow> schedule_row list \<Rightarrow> schedule_row list \<Rightarrow> bool" where
  "stamped now F rs rs' \<longleftrightarrow> list_all2 (\<lambda>r r'. sc_id r' = sc_id r \<and> sc_interval_seconds r' = sc_interval_seconds r \<and>
     sc_next_run_at r' = (if sc_id r \<in> F then now + sc_interval_seconds r * second_ns else sc_next_run_at r)) rs rs'"

lemma fireSchedule_stamped:
  assumes "stamped now F rs (db_schedules d)" "fireSchedule out clock now (s, tok) (au, runs, d) = (au', runs', d')"
  shows "stamped now (if windowAllows (windowFromSchedule (out_zones out) s) clock then insert (Sched_ID s) F else F) rs (db_schedules d')"
proof (cases "windowAllows (windowFromSchedule (out_zones out) s) clock")
  case False
  then show ?thesis using assms by (simp add: fireSchedule_def)
next
  case True
  obtain au1 runs1 d1 where r: "runSchedule out (instant clock) now tok s d = (au1, runs1, d1)" by (rule prod_cases3)
  have d': "d' = MarkScanScheduleRan now (Sched_ID s) d1" using assms(2) True r by (simp add: fireSchedule_def)
  have "list_all2 (\<lambda>r r'. sc_id r' = sc_id r \<and> sc_interval_seconds r' = sc_interval_seconds r \<and> sc_next_run_at r' = sc_next_run_at r)
      (db_schedules d) (db_schedules d1)" using runSchedule_frame [OF r] by blast
  then show ?thesis
    using assms(1) True by (auto simp: stamped_def d' MarkScanScheduleRan_def list_all2_conv_all_nth update_rows_def)
qed

definition fires :: "outside \<Rightarrow> go_time \<Rightarrow> ScanSchedule \<Rightarrow> bool" where
  "fires out clock s \<longleftrightarrow> windowAllows (windowFromSchedule (out_zones out) s) clock"

lemma fold_fire_stamped:
  assumes "stamped now F rs (db_schedules d)" "fold (fireSchedule out clock now) st (au, runs, d) = (au', runs', d')"
  shows "stamped now (F \<union> {Sched_ID s |s. s \<in> fst ` set st \<and> fires out clock s}) rs (db_schedules d')"
  using assms
proof (induction st arbitrary: F au runs d)
  case Nil
  then show ?case by simp
next
  case (Cons p st)
  obtain s tok where p: "p = (s, tok)" by (cases p)
  obtain au1 runs1 d1 where f: "fireSchedule out clock now (s, tok) (au, runs, d) = (au1, runs1, d1)" by (rule prod_cases3)
  let ?F = "if fires out clock s then insert (Sched_ID s) F else F"
  have "stamped now ?F rs (db_schedules d1)" using fireSchedule_stamped [OF Cons.prems(1) f] by (simp add: fires_def)
  from Cons.IH [OF this] Cons.prems(2)
  have "stamped now (?F \<union> {Sched_ID s |s. s \<in> fst ` set st \<and> fires out clock s}) rs (db_schedules d')" by (simp add: p f)
  moreover have "?F \<union> {Sched_ID s |s. s \<in> fst ` set st \<and> fires out clock s} =
      F \<union> {Sched_ID s |s. s \<in> fst ` set (p # st) \<and> fires out clock s}" by (auto simp: p)
  ultimately show ?case by simp
qed

lemma fst_zip_tokens: "fst ` set (zip xs (map f [0..<length xs])) = set xs"
  by (metis length_map length_upt list.set_map map_fst_zip minus_nat.diff_0)

text \<open>The runs a tick starts.\<close>

definition run_ok :: "outside \<Rightarrow> go_time \<Rightarrow> ScanSchedule list \<Rightarrow> db \<Rightarrow> pending_run \<Rightarrow> bool" where
  "run_ok out clock ss d p \<longleftrightarrow> (\<exists>s\<in>set ss. fires out clock s \<and> Job_ScheduleID (run_job p) = Sched_ID s \<and>
     Job_Targets (run_job p) = Sched_Targets s) \<and> (\<exists>r\<in>set (db_agents d). run_agent p = agent_of_row r) \<and> confined (run_agent p) (run_job p)"

lemma runSchedule_runs:
  assumes "runSchedule out clock now tok s d = (au, runs, d')" "p \<in> set runs"
  shows "Job_ScheduleID (run_job p) = Sched_ID s \<and> Job_Targets (run_job p) = Sched_Targets s \<and>
    (\<exists>r\<in>set (db_agents d). run_agent p = agent_of_row r) \<and> confined (run_agent p) (run_job p)"
proof -
  obtain r where r: "find (\<lambda>r. sa_id r = Sched_AgentID s) (db_agents d) = Some r"
    using assms by (auto simp: runSchedule_def GetScanAgent_def split: option.splits)
  then have rin: "r \<in> set (db_agents d)" by (auto simp: find_Some_iff)
  obtain e where e: "enqueue clock now tok (agent_of_row r) (schedule_input s) None d = Inr (e, d')" and p: "p = enq_run e"
    using assms r by (auto simp: runSchedule_def GetScanAgent_def split: sum.splits prod.splits)
  from e show ?thesis
  proof (cases rule: enqueue_cases)
    case (1 key)
    have "Job_ScheduleID (enq_job e) = Sched_ID s" "Job_Targets (enq_job e) = Sched_Targets s"
      by (simp_all add: 1(4) job_of_row_def new_job_def schedule_input_def coalesce_def)
    then show ?thesis using enqueue_confined [OF e] rin by (auto simp: p 1(5))
  qed
qed

lemma fold_fire_runs:
  assumes "\<forall>p\<in>set runs. run_ok out clock ss d0 p" "db_agents d = db_agents d0" "fst ` set st \<subseteq> set ss"
    "fold (fireSchedule out clock now) st (au, runs, d) = (au', runs', d')"
  shows "\<forall>p\<in>set runs'. run_ok out clock ss d0 p"
  using assms
proof (induction st arbitrary: au runs d)
  case (Cons q st)
  obtain s tok where q: "q = (s, tok)" by (cases q)
  show ?case
  proof (cases "fires out clock s")
    case False
    then show ?thesis using Cons by (simp add: q fireSchedule_def fires_def)
  next
    case True
    obtain au1 runs1 d1 where r: "runSchedule out (instant clock) now tok s d = (au1, runs1, d1)" by (rule prod_cases3)
    have "\<forall>p\<in>set (runs @ runs1). run_ok out clock ss d0 p"
      using Cons.prems(1-3) runSchedule_runs [OF r] True by (auto simp: run_ok_def q)
    moreover have "db_agents (MarkScanScheduleRan now (Sched_ID s) d1) = db_agents d0"
      using runSchedule_frame [OF r] Cons.prems(2) by (simp add: MarkScanScheduleRan_def)
    ultimately show ?thesis
      using Cons.IH [of "runs @ runs1" "MarkScanScheduleRan now (Sched_ID s) d1" "au @ au1"] Cons.prems(3,4) True r
      by (simp add: q fireSchedule_def fires_def)
  qed
qed simp

section \<open>Properties\<close>


definition demo_outside :: outside where
  "demo_outside = \<lparr>out_pg = pg_netip, out_jsonb = Some, out_marshal = (\<lambda>_. Some ''{}''), out_zones = utc_only,
     out_error = (\<lambda>_. ''rejected''), out_enabled = True, out_dispatch = (\<lambda>_ _ _. Inl ''connection refused''),
     out_register = (\<lambda>_. Inl ''connection refused'')\<rparr>"

definition demo_due :: db where
  "demo_due = demo_active\<lparr>db_schedules := [edit_schedule demo_schedule_input (blank_schedule 0 ''sc1'' 0)]\<rparr>"


section \<open>A run\<close>

text \<open>Recording observations leaves the job table alone.\<close>

lemma UpsertDiscovery_jobs:
  assumes "UpsertDiscovery g now tok inp d = Inr (u, d')"
  shows "db_jobs d' = db_jobs d"
  using assms by (cases rule: UpsertDiscovery_cases) (simp_all add: refresh_last_seen_def)

interpretation jt: import_contract g "\<lambda>d. discoveries_ok d \<and> db_jobs d = js" for g js
proof unfold_locales
  fix d assume I: "discoveries_ok d \<and> db_jobs d = js"
  then have ok: "discoveries_ok d" and js: "db_jobs d = js" by blast+
  show "discoveries_ok d" by fact
  show "discoveries_ok d' \<and> db_jobs d' = js" if "UpsertDiscovery g now tok inp d = Inr (u, d')" for now tok inp u d'
    using UpsertDiscovery_discoveries_ok [OF ok that] UpsertDiscovery_jobs [OF that] js by simp
  show "discoveries_ok d' \<and> db_jobs d' = js" if "SyncImportedDiscovery g now tok key d = Inr (did, d')" for now tok key did d'
    using SyncImportedDiscovery_discoveries_ok [OF ok that] SyncImportedDiscovery_scans [OF that] js by (simp add: same_scans_def)
  show "discoveries_ok d' \<and> db_jobs d' = js" if "AutoLinkDeviceBySerial now tok did d = Inr (ms, d')" for now tok did ms d'
    using AutoLinkDeviceBySerial_discoveries [OF that] ok js by (simp add: same_scans_def discoveries_ok_def)
  show "discoveries_ok d' \<and> db_jobs d' = js" if "ImportDiscovery g now tokDev tokMac tokAddr (di_id x) [] d = Inr (out, d')"
    for x now tokDev tokMac tokAddr out d'
    using ImportDiscovery_discoveries_ok [OF ok that] ImportDiscovery_scans [OF that] js by (simp add: same_scans_def)
qed

lemma dispatch_jobs:
  assumes "discoveries_ok d" "dispatch out rt agent job d = Some (r, au, d')"
  shows "db_jobs d' = db_jobs d"
proof -
  have "db_jobs d1 = db_jobs d" if "recordDiscoveries (out_pg out) agent job obs d = (au1, d1)" for obs au1 d1
    using jt.recordDiscoveries_keeps [OF _ that] assms(1) by blast
  then show ?thesis using assms(2)
    by (auto simp: dispatch_def split: if_splits option.splits sum.splits prod.splits)
qed

text \<open>The result a run records, as a function of what the dispatcher answers.\<close>

definition outcome :: "outside \<Rightarrow> run_times \<Rightarrow> pending_run \<Rightarrow> ScanJobResult option" where
  "outcome out rt p =
    (if \<not> out_enabled out then
       Some (failed_result ''scanner dispatch is not configured (set the app's mTLS client certificate)'' rt)
     else (case dispatch_timeout (Job_TimeoutSeconds (run_job p)) (Job_Targets (run_job p)) of None \<Rightarrow> None
       | Some t \<Rightarrow> (case out_dispatch out t (Agent_EndpointURL (run_agent p)) (scannerJobFromStore (run_job p)) of
           Inl err \<Rightarrow> Some (failed_result err rt) | Inr res \<Rightarrow> Some (result_of out rt res))))"

lemma dispatch_outcome:
  "map_option fst (dispatch out rt (run_agent p) (run_job p) d) = outcome out rt p"
  by (auto simp: dispatch_def outcome_def split: option.splits sum.splits prod.splits)

lemma ScanBudget_total:
  assumes "int4 t"
  shows "\<exists>b. ScanBudget t targets = Some b"
proof (cases "t \<le> 0")
  case False
  then have "wrap64 (t * second_ns) = t * second_ns" using assms by (intro wrap64_id) (simp_all add: int4_def second_ns_def)
  then have "wrap64 (t * second_ns) \<noteq> 0" using False by (simp add: second_ns_def)
  then show ?thesis by (simp add: ScanBudget_def Let_def)
qed (simp add: ScanBudget_def)

lemma dispatch_timeout_total:
  assumes "int4 t"
  shows "\<exists>n. dispatch_timeout t targets = Some n \<and> 60 * second_ns < n"
proof -
  obtain b where b: "ScanBudget t targets = Some b"
    using ScanBudget_total [OF assms] by blast
  then show ?thesis by (auto simp: dispatch_timeout_def second_ns_def)
qed

text \<open>The first half of a run marks the job and its schedule as running.\<close>

definition mark_running :: "outside \<Rightarrow> run_times \<Rightarrow> pending_run \<Rightarrow> db \<Rightarrow> db" where
  "mark_running out rt p d = recordScheduleRun (rt_running rt) (run_job p) ''running'' []
    (try_result out (rt_running rt) (Job_ID (run_job p))
      \<lparr>jr_Status = ''running'', jr_Error = [], jr_Result = [], jr_StartedAt = Some (rt_started rt), jr_FinishedAt = None\<rparr> d)"

lemma recordScheduleRun_tables [simp]:
  "db_jobs (recordScheduleRun now job status msg d) = db_jobs d"
  "db_discoveries (recordScheduleRun now job status msg d) = db_discoveries d"
  by (simp_all add: recordScheduleRun_def SetScanScheduleLastRun_def)

lemma mark_running_discoveries: "discoveries_ok (mark_running out rt p d) = discoveries_ok d"
  by (simp add: mark_running_def try_result_def UpdateScanJobResult_def discoveries_ok_def)

lemma mark_running_job:
  assumes "j \<in> set (db_jobs d)" "sj_id j = Job_ID (run_job p)"
  shows "\<exists>j'\<in>set (db_jobs (mark_running out rt p d)). sj_id j' = sj_id j \<and> sj_targets j' = sj_targets j \<and> sj_status j' = ''running''"
proof -
  let ?f = "\<lambda>j. j\<lparr>sj_status := ''running'', sj_error := [], sj_result := None, sj_started_at := Some (rt_started rt),
    sj_finished_at := None, sj_updated_at := rt_running rt\<rparr>"
  have "db_jobs (mark_running out rt p d) = update_rows (\<lambda>j. sj_id j = Job_ID (run_job p)) ?f (db_jobs d)"
    by (simp add: mark_running_def try_result_def UpdateScanJobResult_def)
  then have "?f j \<in> set (db_jobs (mark_running out rt p d))" using assms by (auto simp: set_update_rows)
  then show ?thesis by (rule rev_bexI) simp
qed

lemma run_cases:
  assumes "run out rt p d = Some (au, d')"
  obtains r au1 d3 where "outcome out rt p = Some r"
    "dispatch out rt (run_agent p) (run_job p) (mark_running out rt p d) = Some (r, au1, d3)"
    "db_jobs d' = db_jobs (try_result out (rt_recorded rt) (Job_ID (run_job p)) r d3)"
    "au_action (last au) = (if jr_Status r = ''succeeded'' then ''scan.job.completed'' else ''scan.job.failed'')"
proof -
  obtain r au1 d3 where disp: "dispatch out rt (run_agent p) (run_job p) (mark_running out rt p d) = Some (r, au1, d3)"
    using assms unfolding run_def Let_def mark_running_def by (auto split: option.splits)
  have "outcome out rt p = Some r" using dispatch_outcome [of out rt p "mark_running out rt p d"] disp by simp
  moreover have "db_jobs d' = db_jobs (try_result out (rt_recorded rt) (Job_ID (run_job p)) r d3) \<and>
      au_action (last au) = (if jr_Status r = ''succeeded'' then ''scan.job.completed'' else ''scan.job.failed'')"
    using assms disp unfolding run_def Let_def mark_running_def [symmetric]
    by (auto simp: TouchScanAgent_def audit_def split: if_splits)
  ultimately show thesis using that disp by blast
qed

lemma run_returns:
  assumes "outcome out rt p \<noteq> None"
  shows "\<exists>au d'. run out rt p d = Some (au, d')"
proof -
  obtain r where "dispatch out rt (run_agent p) (run_job p) (mark_running out rt p d) = Some r"
    using dispatch_outcome [of out rt p "mark_running out rt p d"] assms by auto
  then show ?thesis unfolding run_def Let_def mark_running_def [symmetric] by (cases r) simp
qed

definition demo_queued :: db where
  "demo_queued = demo_active\<lparr>db_jobs := [new_job 0 ''j1'' demo_job_input]\<rparr>"

text \<open>C29: running a job that is stored in the database never panics, and enough is left of the budget:
  the call to the agent has more than the network grace of 60 seconds.\<close>

theorem run_total:
  assumes "scans_ok d0" "j \<in> set (db_jobs d0)" "run_job p = job_of_row d0 j"
  shows "(\<exists>au d'. run out rt p d = Some (au, d')) \<and>
    (\<exists>n. dispatch_timeout (Job_TimeoutSeconds (run_job p)) (Job_Targets (run_job p)) = Some n \<and> 60 * second_ns < n)"
proof -
  have "int4 (Job_TimeoutSeconds (run_job p))" using assms by (auto simp: scan_defs job_of_row_def)
  from dispatch_timeout_total [OF this]
  obtain n where n: "dispatch_timeout (Job_TimeoutSeconds (run_job p)) (Job_Targets (run_job p)) = Some n" "60 * second_ns < n" by blast
  have "outcome out rt p \<noteq> None" using n(1) by (auto simp: outcome_def split: sum.splits)
  then have "\<exists>au d'. run out rt p d = Some (au, d')" by (rule run_returns)
  with n show ?thesis by blast
qed

theorem run_total_witness:
  "\<exists>au d'. run demo_outside \<lparr>rt_started = 1, rt_running = 1, rt_finished = 2, rt_recorded = 2, rt_draws = (\<lambda>_. demo_draws)\<rparr>
     \<lparr>run_agent = agent_of_row (new_agent 0 ''a1'' demo_agent_input), run_job = job_of_row demo_queued (hd (db_jobs demo_queued)),
      run_actor = None\<rparr> demo_queued = Some (au, d')"
proof -
  have ok: "scans_ok demo_queued" by code_simp
  have j: "hd (db_jobs demo_queued) \<in> set (db_jobs demo_queued)" by (simp add: demo_queued_def)
  show ?thesis using run_total [OF ok j] by simp
qed


text \<open>C40: a result the database does not accept as JSON is lost: the run of a succeeded scan is audited as
  completed and the schedule is told so, but the job stays \<open>running\<close> forever.\<close>

theorem run_rejected_result_stays_running:
  assumes "discoveries_ok d" "out_enabled out" "dispatch_timeout (Job_TimeoutSeconds (run_job p)) (Job_Targets (run_job p)) = Some n"
    and "out_dispatch out n (Agent_EndpointURL (run_agent p)) (scannerJobFromStore (run_job p)) = Inr res" "res_Status res = JobSucceeded"
    and "out_marshal out res = Some js" "js \<noteq> []" "out_jsonb out js = None"
    and "j \<in> set (db_jobs d)" "sj_id j = Job_ID (run_job p)"
  shows "\<exists>au d' j'. run out rt p d = Some (au, d') \<and> au_action (last au) = ''scan.job.completed'' \<and>
    j' \<in> set (db_jobs d') \<and> sj_id j' = sj_id j \<and> sj_status j' = JobRunning"
proof -
  have o: "outcome out rt p = Some (result_of out rt res)" using assms(2-4) by (simp add: outcome_def)
  then obtain au d' where run: "run out rt p d = Some (au, d')" using run_returns [of out rt p d] by auto
  obtain r au1 d3 where r: "outcome out rt p = Some r"
    and disp: "dispatch out rt (run_agent p) (run_job p) (mark_running out rt p d) = Some (r, au1, d3)"
    and d': "db_jobs d' = db_jobs (try_result out (rt_recorded rt) (Job_ID (run_job p)) r d3)"
    and au: "au_action (last au) = (if jr_Status r = ''succeeded'' then ''scan.job.completed'' else ''scan.job.failed'')"
    by (rule run_cases [OF run])
  have res: "r = result_of out rt res" using r o by simp
  have "UpdateScanJobResult (out_jsonb out) (rt_recorded rt) (Job_ID (run_job p)) r d3 = Inl ErrDb"
    using assms(5-8) by (simp add: res result_of_def UpdateScanJobResult_def Let_def)
  then have jobs: "db_jobs d' = db_jobs d3" using d' by (simp add: try_result_def)
  have "db_jobs d3 = db_jobs (mark_running out rt p d)"
    by (rule dispatch_jobs [OF _ disp]) (simp add: mark_running_discoveries assms(1))
  moreover obtain j1 where "j1 \<in> set (db_jobs (mark_running out rt p d))" "sj_id j1 = sj_id j" "sj_status j1 = JobRunning"
    using mark_running_job [OF assms(9,10)] by blast
  moreover have "jr_Status r = ''succeeded''" using assms(5) by (simp add: res result_of_def Let_def)
  ultimately show ?thesis using run au jobs by auto
qed

definition demo_success :: outside where
  "demo_success = demo_outside\<lparr>out_dispatch := (\<lambda>_ _ _. Inr \<lparr>res_ProtocolVersion = ''v1'', res_JobID = ''j1'', res_AgentID = ''a1'',
     res_Status = JobSucceeded, res_StartedAt = None, res_FinishedAt = None, res_Observations = [], res_Errors = []\<rparr>)\<rparr>"

definition demo_run :: pending_run where
  "demo_run = \<lparr>run_agent = agent_of_row (new_agent 0 ''a1'' demo_agent_input),
     run_job = job_of_row demo_queued (new_job 0 ''j1'' demo_job_input), run_actor = None\<rparr>"

definition demo_times :: run_times where
  "demo_times = \<lparr>rt_started = 1, rt_running = 1, rt_finished = 2, rt_recorded = 2, rt_draws = (\<lambda>_. demo_draws)\<rparr>"

lemma demo_run_job:
  "new_job 0 ''j1'' demo_job_input \<in> set (db_jobs demo_queued)" "sj_id (new_job 0 ''j1'' demo_job_input) = Job_ID (run_job demo_run)"
  "int4 (Job_TimeoutSeconds (run_job demo_run))" "discoveries_ok demo_queued"
proof -
  show "discoveries_ok demo_queued" by code_simp
qed (simp_all add: demo_queued_def demo_run_def job_of_row_def new_job_def demo_job_input_def int4_def)


theorem run_rejected_result_stays_running_witness:
  "\<exists>au d'. run (demo_success\<lparr>out_jsonb := (\<lambda>_. None)\<rparr>) demo_times demo_run demo_queued = Some (au, d') \<and>
     (\<exists>j'\<in>set (db_jobs d'). sj_id j' = ''j1'' \<and> sj_status j' = JobRunning)"
proof -
  let ?out = "demo_success\<lparr>out_jsonb := (\<lambda>_. None)\<rparr>"
  obtain n where n: "dispatch_timeout (Job_TimeoutSeconds (run_job demo_run)) (Job_Targets (run_job demo_run)) = Some n"
    using dispatch_timeout_total [OF demo_run_job(3)] by blast
  have "sj_id (new_job 0 ''j1'' demo_job_input) = ''j1''" by (simp add: new_job_def)
  moreover have "\<exists>au d' j'. run ?out demo_times demo_run demo_queued = Some (au, d') \<and> au_action (last au) = ''scan.job.completed'' \<and>
    j' \<in> set (db_jobs d') \<and> sj_id j' = sj_id (new_job 0 ''j1'' demo_job_input) \<and> sj_status j' = JobRunning"
    by (rule run_rejected_result_stays_running [OF demo_run_job(4) _ n _ _ _ _ _ demo_run_job(1,2)])
      (simp add: demo_success_def demo_outside_def)+
  ultimately show ?thesis by auto
qed

end
