(* ===== verification/Credentials.thy ===== *)
theory Credentials
  imports GoStrings
begin

text \<open>
  \<open>internal/auth\<close> and \<open>internal/secret\<close>: password hashes, one-time codes, recovery codes, tokens and
  sealed secrets.  Strings are their bytes.  The cryptographic functions (\<open>argon2.IDKey\<close>, HMAC-SHA1,
  SHA-256, AES-GCM) and the random source are arguments; everything around them (encodings, parsing, bounds, truncation) is computed.
\<close>

section \<open>Encodings\<close>

text \<open>\<open>encoding/base64\<close> without padding.  Decoding skips line ends and ignores the spare bits of the
  last character, as Go's decoder does.\<close>

definition b64_alphabet :: string where
  "b64_alphabet = ''ABCDEFGHIJKLMNOPQRSTUVWXYZabcdefghijklmnopqrstuvwxyz0123456789''"

definition StdAlphabet :: string where "StdAlphabet = b64_alphabet @ ''+/''"
definition URLAlphabet :: string where "URLAlphabet = b64_alphabet @ ''-_''"

fun b64_encode :: "string \<Rightarrow> string \<Rightarrow> string" where
  "b64_encode al [] = []"
| "b64_encode al [a] = [al ! (byte a div 4), al ! (byte a mod 4 * 16)]"
| "b64_encode al [a, b] =
    [al ! (byte a div 4), al ! (byte a mod 4 * 16 + byte b div 16), al ! (byte b mod 16 * 4)]"
| "b64_encode al (a # b # c # s) =
    [al ! (byte a div 4), al ! (byte a mod 4 * 16 + byte b div 16), al ! (byte b mod 16 * 4 + byte c div 64),
     al ! (byte c mod 64)] @ b64_encode al s"

fun index_of :: "char \<Rightarrow> string \<Rightarrow> nat option" where
  "index_of c [] = None"
| "index_of c (x # xs) = (if x = c then Some 0 else map_option Suc (index_of c xs))"

fun sextets :: "string \<Rightarrow> string \<Rightarrow> nat list option" where
  "sextets al [] = Some []"
| "sextets al (c # s) =
    (if c = CHR 0x0A \<or> c = CHR 0x0D then sextets al s
     else (case index_of c al of None \<Rightarrow> None | Some v \<Rightarrow> map_option ((#) v) (sextets al s)))"

fun b64_quanta :: "nat list \<Rightarrow> string option" where
  "b64_quanta [] = Some []"
| "b64_quanta [p] = None"
| "b64_quanta [p, q] = Some [char_of (p * 4 + q div 16)]"
| "b64_quanta [p, q, r] = Some [char_of (p * 4 + q div 16), char_of (q mod 16 * 16 + r div 4)]"
| "b64_quanta (p # q # r # t # vs) =
    map_option (\<lambda>s. char_of (p * 4 + q div 16) # char_of (q mod 16 * 16 + r div 4) # char_of (r mod 4 * 64 + t) # s)
      (b64_quanta vs)"

definition b64_decode :: "string \<Rightarrow> string \<Rightarrow> string option" where
  "b64_decode al s = Option.bind (sextets al s) b64_quanta"

text \<open>\<open>encoding/base32\<close> without padding: eight characters make five bytes; of a shorter last group
  2, 4, 5 and 7 characters make 1, 2, 3 and 4 bytes, and any other number makes none.\<close>

definition base32_alphabet :: string where
  "base32_alphabet = ''ABCDEFGHIJKLMNOPQRSTUVWXYZ234567''"

definition b32_bytes :: "nat list \<Rightarrow> string" where
  "b32_bytes vs =
    (let w = (\<lambda>i. if i < length vs then vs ! i else 0);
         bs = [w 0 * 8 + w 1 div 4, (w 1 mod 4 * 64 + w 2 * 2 + w 3 div 16), (w 3 mod 16 * 16 + w 4 div 2),
               (w 4 mod 2 * 128 + w 5 * 4 + w 6 div 8), (w 6 mod 8 * 32 + w 7)];
         k = (if length vs = 8 then 5 else if length vs = 7 then 4 else if length vs = 5 then 3
              else if length vs = 4 then 2 else if length vs = 2 then 1 else 0) in
     map char_of (take k bs))"

function b32_quanta :: "nat list \<Rightarrow> string" where
  "b32_quanta vs = (if vs = [] then [] else b32_bytes (take 8 vs) @ b32_quanta (drop 8 vs))"
  by pat_completeness auto
termination by (relation "measure length") auto

declare b32_quanta.simps [simp del]

definition b32_decode :: "string \<Rightarrow> string option" where
  "b32_decode s = map_option b32_quanta (sextets base32_alphabet s)"

definition hex_string :: "string \<Rightarrow> string" where
  "hex_string s = concat (map (\<lambda>c. [hex_char (byte c div 16), hex_char (byte c mod 16)]) s)"

section \<open>Tokens\<close>

text \<open>The bytes read from the random source, \<open>None\<close> when it fails.\<close>

definition RandomToken :: "string option \<Rightarrow> string option" where
  "RandomToken bytes = map_option (b64_encode URLAlphabet) bytes"

definition HashToken :: "(string \<Rightarrow> string) \<Rightarrow> string \<Rightarrow> string" where
  "HashToken sha256 token = hex_string (sha256 token)"

section \<open>Sealed secrets\<close>

text \<open>\<open>internal/secret/secret.go\<close> over an AEAD cipher with a 12-byte nonce (AES-256-GCM); \<open>nonce\<close> is the draw
  from the random source.\<close>

record aead =
  aead_seal :: "string \<Rightarrow> string \<Rightarrow> string"
  aead_open :: "string \<Rightarrow> string \<Rightarrow> string option"

definition NonceSize :: nat where "NonceSize = 12"

definition sealedPrefix :: string where "sealedPrefix = ''v1.''"

definition Seal :: "aead \<Rightarrow> string option \<Rightarrow> string \<Rightarrow> string option" where
  "Seal c nonce plaintext =
    (if plaintext = [] then Some []
     else (case nonce of None \<Rightarrow> None
       | Some n \<Rightarrow> Some (sealedPrefix @ b64_encode URLAlphabet (n @ aead_seal c n plaintext))))"

definition Open :: "aead \<Rightarrow> string \<Rightarrow> string option" where
  "Open c token =
    (if token = [] then Some []
     else if \<not> HasPrefix token sealedPrefix then None
     else (case b64_decode URLAlphabet (TrimPrefix token sealedPrefix) of None \<Rightarrow> None
       | Some raw \<Rightarrow> if length raw < NonceSize then None else aead_open c (take NonceSize raw) (drop NonceSize raw)))"

section \<open>Passwords\<close>

text \<open>\<open>argon2.IDKey(password, salt, time, memory, threads, keyLen)\<close>.\<close>

type_synonym argon2 = "string \<Rightarrow> string \<Rightarrow> int \<Rightarrow> int \<Rightarrow> int \<Rightarrow> nat \<Rightarrow> string"

definition argonMemory :: int where "argonMemory = 64 * 1024"
definition argonIterations :: int where "argonIterations = 3"
definition argonParallelism :: int where "argonParallelism = 4"
definition argonKeyLength :: nat where "argonKeyLength = 32"

definition HashPassword :: "argon2 \<Rightarrow> string option \<Rightarrow> string \<Rightarrow> string option" where
  "HashPassword IDKey randomSalt password =
    (case randomSalt of None \<Rightarrow> None
     | Some salt \<Rightarrow>
        let hash = IDKey password salt argonIterations argonMemory argonParallelism argonKeyLength in
        Some (''argon2id$v=19$m='' @ itoa argonMemory @ '',t='' @ itoa argonIterations @ '',p='' @ itoa argonParallelism @
          ''$'' @ b64_encode StdAlphabet salt @ ''$'' @ b64_encode StdAlphabet hash))"

definition parseParam :: "string \<Rightarrow> string \<Rightarrow> int option" where
  "parseParam value key =
    (let pre = key @ ''='' in if \<not> HasPrefix value pre then None else Atoi (TrimPrefix value pre))"

definition VerifyPassword :: "argon2 \<Rightarrow> string \<Rightarrow> string \<Rightarrow> bool" where
  "VerifyPassword IDKey encoded password =
    (let parts = split_on (CHR ''$'') encoded in
     if length parts \<noteq> 5 \<or> parts ! 0 \<noteq> ''argon2id'' \<or> parts ! 1 \<noteq> ''v=19'' then False
     else let params = split_on (CHR '','') (parts ! 2) in
     if length params \<noteq> 3 then False
     else (case (parseParam (params ! 0) ''m'', parseParam (params ! 1) ''t'', parseParam (params ! 2) ''p'') of
       (Some memory, Some iterations, Some parallelism) \<Rightarrow>
         if memory \<le> 0 \<or> 2 ^ 32 - 1 < memory then False
         else if iterations \<le> 0 \<or> 2 ^ 32 - 1 < iterations then False
         else if parallelism \<le> 0 \<or> 2 ^ 8 - 1 < parallelism then False
         else (case (b64_decode StdAlphabet (parts ! 3), b64_decode StdAlphabet (parts ! 4)) of
           (Some salt, Some expected) \<Rightarrow>
             IDKey password salt iterations memory parallelism (length expected) = expected
         | _ \<Rightarrow> False)
     | _ \<Rightarrow> False))"

section \<open>One-time codes\<close>

definition totpPeriod :: nat where "totpPeriod = 30"
definition totpDigits :: nat where "totpDigits = 6"

definition zero_pad :: "nat \<Rightarrow> nat \<Rightarrow> string" where
  "zero_pad n v = (let s = itoa_nat v in replicate (n - length s) (CHR ''0'') @ s)"

text \<open>\<open>binary.BigEndian.PutUint64\<close>.\<close>

definition be_bytes :: "64 word \<Rightarrow> string" where
  "be_bytes w = map (\<lambda>i. char_of (unat w div 256 ^ i mod 256)) (rev [0..<8])"

text \<open>\<open>None\<close> when the secret is not base32.  \<open>hmac key msg\<close> is the 20-byte HMAC-SHA1.\<close>

definition totpCode :: "(string \<Rightarrow> string \<Rightarrow> string) \<Rightarrow> string \<Rightarrow> 64 word \<Rightarrow> string option" where
  "totpCode hmac secret counter =
    (case b32_decode (ToUpper (TrimSpace secret)) of None \<Rightarrow> None
     | Some key \<Rightarrow>
        let sum = hmac key (be_bytes counter);
            off = byte (sum ! (length sum - 1)) mod 16;
            b = (\<lambda>i. byte (sum ! (off + i)));
            val = b 0 mod 128 * 2 ^ 24 + b 1 * 2 ^ 16 + b 2 * 2 ^ 8 + b 3 in
        Some (zero_pad totpDigits (val mod 10 ^ totpDigits)))"

text \<open>The loop over the skew \<open>-1, 0, 1\<close>; a secret that cannot be decoded ends it.  \<open>unix\<close> is
  \<open>t.Unix()\<close>; the counter is unsigned and wraps.\<close>

fun totp_any :: "(string \<Rightarrow> string \<Rightarrow> string) \<Rightarrow> string \<Rightarrow> string \<Rightarrow> 64 word \<Rightarrow> int list \<Rightarrow> bool" where
  "totp_any hmac secret code counter [] = False"
| "totp_any hmac secret code counter (delta # ds) =
    (case totpCode hmac secret (counter + word_of_int delta) of None \<Rightarrow> False
     | Some want \<Rightarrow> if want = code then True else totp_any hmac secret code counter ds)"

definition VerifyTOTP :: "(string \<Rightarrow> string \<Rightarrow> string) \<Rightarrow> string \<Rightarrow> string \<Rightarrow> int \<Rightarrow> bool" where
  "VerifyTOTP hmac secret code0 unix =
    (let code = TrimSpace code0 in
     if length code \<noteq> totpDigits then False
     else totp_any hmac secret code (word_of_int unix div of_nat totpPeriod) [-1, 0, 1])"

definition recoveryCodeAlphabet :: string where
  "recoveryCodeAlphabet = ''ABCDEFGHJKMNPQRSTUVWXYZ23456789''"

definition randomFromAlphabet :: "string option \<Rightarrow> string option" where
  "randomFromAlphabet bytes =
    map_option (map (\<lambda>b. recoveryCodeAlphabet ! (byte b mod length recoveryCodeAlphabet))) bytes"

text \<open>One draw of ten bytes per code; the first failing draw ends the loop with an error.\<close>

fun GenerateRecoveryCodes :: "string option list \<Rightarrow> string list option" where
  "GenerateRecoveryCodes [] = Some []"
| "GenerateRecoveryCodes (r # rs) =
    (case randomFromAlphabet r of None \<Rightarrow> None
     | Some raw \<Rightarrow> map_option ((#) (take 5 raw @ ''-'' @ drop 5 raw)) (GenerateRecoveryCodes rs))"

definition NormalizeRecoveryCode :: "string \<Rightarrow> string" where
  "NormalizeRecoveryCode code =
    filter (\<lambda>c. c \<noteq> CHR '' '') (filter (\<lambda>c. c \<noteq> CHR ''-'') (ToUpper (TrimSpace code)))"

definition HashRecoveryCode :: "(string \<Rightarrow> string) \<Rightarrow> string \<Rightarrow> string" where
  "HashRecoveryCode sha256 code = hex_string (sha256 (NormalizeRecoveryCode code))"

text \<open>\<open>FormatTOTPSecret\<close>: a blank before every fourth byte.\<close>

fun format_from :: "nat \<Rightarrow> string \<Rightarrow> string" where
  "format_from i [] = []"
| "format_from i (c # s) = (if 0 < i \<and> i mod 4 = 0 then CHR '' '' # c # format_from (Suc i) s else c # format_from (Suc i) s)"

definition FormatTOTPSecret :: "string \<Rightarrow> string" where
  "FormatTOTPSecret secret = format_from 0 secret"

section \<open>Encoding round trips\<close>

lemma triples_induct [case_names none one two three]:
  assumes "P []" "\<And>a. P [a]" "\<And>a b. P [a, b]" "\<And>a b c s. P s \<Longrightarrow> P (a # b # c # s)"
  shows "P (s :: string)"
  using assms by (rule b64_encode.induct [of "\<lambda>_. P"])

locale b64_alphabet_contract =
  fixes al :: string
  assumes al_distinct: "distinct al" and al_length: "length al = 64"
    and al_clean: "\<And>c. c \<in> set al \<Longrightarrow> c \<noteq> CHR 0x0A \<and> c \<noteq> CHR 0x0D \<and> c \<noteq> CHR ''$''"
begin

lemma index_of_nth:
  assumes "distinct xs" "i < length xs"
  shows "index_of (xs ! i) xs = Some i"
  using assms by (induction xs arbitrary: i) (auto simp: nth_Cons split: nat.splits)

lemma sextets_nth: "i < 64 \<Longrightarrow> sextets al (al ! i # s) = map_option ((#) i) (sextets al s)"
  using index_of_nth [OF al_distinct, of i] al_clean [of "al ! i"] by (simp add: al_length)

lemma byte_parts:
  "byte a div 4 < 64" "byte a mod 4 * 16 < 64" "byte a mod 4 * 16 + byte b div 16 < 64" "byte b mod 16 * 4 < 64"
  "byte b mod 16 * 4 + byte c div 64 < 64" "byte c mod 64 < 64"
  using byte_less [of a] byte_less [of b] byte_less [of c] by linarith+

lemma byte_small:
  "byte b div 16 div 16 = 0" "byte b div 16 mod 16 = byte b div 16" "byte c div 64 div 4 = 0" "byte c div 64 mod 4 = byte c div 64"
proof -
  have "byte b div 16 < 16" "byte c div 64 < 4" using byte_less [of b] byte_less [of c] by linarith+
  then show "byte b div 16 div 16 = 0" "byte b div 16 mod 16 = byte b div 16" "byte c div 64 div 4 = 0"
    "byte c div 64 mod 4 = byte c div 64" by simp_all
qed

lemma decode_encode: "b64_decode al (b64_encode al s) = Some s"
proof (induction s rule: triples_induct)
  case (three a b c s)
  then show ?case
    by (auto simp: b64_decode_def sextets_nth byte_parts byte_small bind_eq_Some_conv simp del: sextets.simps)
qed (auto simp: b64_decode_def sextets_nth byte_parts byte_small simp del: sextets.simps(2))

lemma encode_clean: "CHR ''$'' \<notin> set (b64_encode al s)"
proof -
  have "CHR ''$'' \<noteq> al ! i" if "i < 64" for i using al_clean [of "al ! i"] that by (auto simp: al_length)
  then show ?thesis by (induction s rule: triples_induct) (auto simp: byte_parts)
qed

end

interpretation std: b64_alphabet_contract StdAlphabet
  by unfold_locales (auto simp: StdAlphabet_def b64_alphabet_def)

interpretation url: b64_alphabet_contract URLAlphabet
  by unfold_locales (auto simp: URLAlphabet_def b64_alphabet_def)

section \<open>Sealed secrets open\<close>

lemma Open_Seal:
  assumes "Seal c (Some n) plaintext = Some token" "length n = NonceSize"
    "aead_open c n (aead_seal c n plaintext) = Some plaintext"
  shows "Open c token = Some plaintext"
  using assms by (auto simp: Seal_def Open_def sealedPrefix_def HasPrefix_def TrimPrefix_def url.decode_encode split: if_splits)

section \<open>Passwords verify\<close>

lemma hashed_parts:
  assumes "CHR ''$'' \<notin> set a" "CHR ''$'' \<notin> set b"
  shows "split_on (CHR ''$'') (''argon2id$v=19$m=65536,t=3,p=4$'' @ a @ ''$'' @ b) =
    [''argon2id'', ''v=19'', ''m=65536,t=3,p=4'', a, b]"
  using assms split_on_Join [of "[''argon2id'', ''v=19'', ''m=65536,t=3,p=4'', a, b]" "CHR ''$''"] by simp

lemma argon_params:
  "split_on (CHR '','') ''m=65536,t=3,p=4'' = [''m=65536'', ''t=3'', ''p=4'']"
  "parseParam ''m=65536'' ''m'' = Some 65536" "parseParam ''t=3'' ''t'' = Some 3" "parseParam ''p=4'' ''p'' = Some 4"
  by code_simp+

lemma HashPassword_text:
  "HashPassword IDKey (Some salt) pw = Some (''argon2id$v=19$m=65536,t=3,p=4$'' @ b64_encode StdAlphabet salt @ ''$'' @
    b64_encode StdAlphabet (IDKey pw salt 3 65536 4 32))"
proof -
  have "itoa argonMemory = ''65536''" "itoa argonIterations = ''3''" "itoa argonParallelism = ''4''"
    by code_simp+
  then show ?thesis
    by (simp add: HashPassword_def argonMemory_def argonIterations_def argonParallelism_def argonKeyLength_def Let_def)
qed

text \<open>A password verifies against the hash made of another one exactly when the two derive the
  same Argon2 key, with the parameters the hash was made with; in particular the password itself
  verifies.  Base64, the parameter syntax and the bounds on the parameters never get in the way.\<close>

theorem VerifyPassword_HashPassword:
  assumes "HashPassword IDKey (Some salt) pw = Some enc"
    and "length (IDKey pw salt 3 65536 4 32) = 32"
  shows "VerifyPassword IDKey enc pw' \<longleftrightarrow> IDKey pw' salt 3 65536 4 32 = IDKey pw salt 3 65536 4 32"
proof -
  have enc: "enc = ''argon2id$v=19$m=65536,t=3,p=4$'' @ b64_encode StdAlphabet salt @ ''$'' @
    b64_encode StdAlphabet (IDKey pw salt 3 65536 4 32)"
    using assms(1) by (simp only: HashPassword_text option.inject)
  show ?thesis
    unfolding VerifyPassword_def enc hashed_parts [OF std.encode_clean std.encode_clean] Let_def
    using assms(2) by (simp add: argon_params std.decode_encode)
qed

definition demo_argon2 :: argon2 where
  "demo_argon2 pw salt t m p n = take n (pw @ salt @ replicate n (CHR ''x''))"

theorem VerifyPassword_HashPassword_witness:
  "VerifyPassword demo_argon2 (the (HashPassword demo_argon2 (Some ''salt'') ''correct horse'')) ''correct horse'' \<and>
   \<not> VerifyPassword demo_argon2 (the (HashPassword demo_argon2 (Some ''salt'') ''correct horse'')) ''battery staple''"
proof -
  have h: "HashPassword demo_argon2 (Some ''salt'') ''correct horse'' =
      Some (the (HashPassword demo_argon2 (Some ''salt'') ''correct horse''))" by (simp add: HashPassword_text)
  have l: "length (demo_argon2 ''correct horse'' ''salt'' 3 65536 4 32) = 32" by (simp add: demo_argon2_def)
  have n: "demo_argon2 ''battery staple'' ''salt'' 3 65536 4 32 \<noteq> demo_argon2 ''correct horse'' ''salt'' 3 65536 4 32"
    by (simp add: demo_argon2_def)
  show ?thesis
    using VerifyPassword_HashPassword [OF h l, of "''correct horse''"] VerifyPassword_HashPassword [OF h l, of "''battery staple''"] n
    by blast
qed

section \<open>One-time codes\<close>

lemma itoa_nat_length: "n < 10 ^ k \<Longrightarrow> 0 < k \<Longrightarrow> length (itoa_nat n) \<le> k"
proof (induction k arbitrary: n)
  case (Suc k)
  show ?case
  proof (cases "n < 10")
    case True
    then show ?thesis by (subst itoa_nat.simps) simp
  next
    case False
    then have "0 < k" "n div 10 < 10 ^ k" using Suc.prems by (cases k; auto)+
    with Suc.IH False show ?thesis by (subst itoa_nat.simps) simp
  qed
qed simp

lemma zero_pad_props:
  assumes "v < 10 ^ n" "0 < n"
  shows "length (zero_pad n v) = n" "list_all is_digit (zero_pad n v)"
  using itoa_nat_length [OF assms] itoa_nat_digits [of v]
  by (auto simp: zero_pad_def Let_def list_all_iff is_digit_def)

lemma totpCode_format:
  assumes "totpCode hmac secret counter = Some code"
  shows "length code = totpDigits" "TrimSpace code = code"
proof -
  obtain v where "code = zero_pad totpDigits (v mod 10 ^ totpDigits)"
    using assms by (auto simp: totpCode_def Let_def split: option.splits)
  with zero_pad_props [of "v mod 10 ^ totpDigits" totpDigits]
  have l: "length code = totpDigits" and d: "list_all is_digit code" by (simp_all add: totpDigits_def)
  show "length code = totpDigits" by fact
  have "code \<noteq> []" using l by (auto simp: totpDigits_def)
  then have "is_digit (hd code)" "is_digit (last code)" using d by (auto simp: list_all_iff)
  then show "TrimSpace code = code" by (intro TrimSpace_visible) (auto simp: visible_def is_digit_def)
qed

lemma totpCode_decodes: "totpCode hmac secret c = None \<longleftrightarrow> b32_decode (ToUpper (TrimSpace secret)) = None"
  by (simp add: totpCode_def Let_def split: option.splits)

lemma VerifyTOTP_iff:
  "VerifyTOTP hmac secret code unix \<longleftrightarrow>
    (\<exists>delta\<in>{-1, 0, 1}. totpCode hmac secret (word_of_int unix div 30 + word_of_int delta) = Some (TrimSpace code))"
proof (cases "b32_decode (ToUpper (TrimSpace secret))")
  case None
  then show ?thesis by (simp add: VerifyTOTP_def totpCode_def Let_def)
next
  case (Some key)
  then have "totpCode hmac secret c \<noteq> None" for c by (simp add: totpCode_decodes)
  then have "\<forall>c. \<exists>y. totpCode hmac secret c = Some y" by blast
  then obtain f where f: "\<And>c. totpCode hmac secret c = Some (f c)" by metis
  then have l: "f c = s \<Longrightarrow> length s = totpDigits" for c s using totpCode_format(1) by blast
  show ?thesis by (auto simp: VerifyTOTP_def Let_def totpPeriod_def f dest: l)
qed

lemma counter_of_unix:
  assumes "0 \<le> t" "t < 2 ^ 63"
  shows "(word_of_int t :: 64 word) div 30 = word_of_int (t div 30)"
proof -
  have "uint (word_of_int t :: 64 word) = t" "uint (word_of_int (t div 30) :: 64 word) = t div 30"
    using assms by (simp_all add: uint_word_of_int_eq take_bit_int_eq_self)
  then show ?thesis by (simp add: word_uint_eq_iff uint_div_distrib)
qed

text \<open>The code an authenticator shows is accepted by a server whose clock is at most thirty seconds
  off, and the server accepts nothing but a code of its current period or of one of the two
  neighbouring periods (with blanks around it).\<close>

theorem VerifyTOTP_skew:
  assumes "totpCode hmac secret (word_of_int (t div 30)) = Some code" "0 \<le> t" "0 \<le> t'" "t' < 2 ^ 63" "\<bar>t - t'\<bar> \<le> 30"
  shows "VerifyTOTP hmac secret code t' \<and>
    (\<forall>typed. VerifyTOTP hmac secret typed t' \<longleftrightarrow> (\<exists>k\<in>{t' div 30 - 1, t' div 30, t' div 30 + 1}.
      totpCode hmac secret (word_of_int k) = Some (TrimSpace typed)))"
proof -
  have v: "VerifyTOTP hmac secret typed t' \<longleftrightarrow> (\<exists>k\<in>{t' div 30 - 1, t' div 30, t' div 30 + 1}.
      totpCode hmac secret (word_of_int k) = Some (TrimSpace typed))" for typed
    using assms(3,4) by (simp add: VerifyTOTP_iff counter_of_unix disj_ac)
  have "t' div 30 - 1 \<le> t div 30 \<and> t div 30 \<le> t' div 30 + 1" using assms(5) by linarith
  then have "t div 30 \<in> {t' div 30 - 1, t' div 30, t' div 30 + 1}" by auto
  then have "VerifyTOTP hmac secret code t'"
    unfolding v [of code] using assms(1) totpCode_format(2) [OF assms(1)] by (intro bexI [of _ "t div 30"]) simp_all
  with v show ?thesis by blast
qed

definition demo_hmac :: "string \<Rightarrow> string \<Rightarrow> string" where
  "demo_hmac key msg = key @ rev msg @ ''abcd''"

theorem VerifyTOTP_skew_witness:
  "VerifyTOTP demo_hmac ''MFRGGZDFMZTWQ2LK'' (the (totpCode demo_hmac ''MFRGGZDFMZTWQ2LK'' 3)) 75"
proof -
  have "totpCode demo_hmac ''MFRGGZDFMZTWQ2LK'' (word_of_int (100 div 30)) = Some (the (totpCode demo_hmac ''MFRGGZDFMZTWQ2LK'' 3))"
    by code_simp
  then show ?thesis by (rule VerifyTOTP_skew [THEN conjunct1]) simp_all
qed

section \<open>Recovery codes\<close>

text \<open>However a user types a recovery code - in lower case, with or without the dash - it has the hash
  that was stored.\<close>

lemma NormalizeRecoveryCode_plain:
  assumes "\<And>c. c \<in> set code \<Longrightarrow> visible c"
  shows "NormalizeRecoveryCode code = filter (\<lambda>c. c \<noteq> CHR ''-'') (ToUpper code)"
proof -
  have "TrimSpace code = code" using assms by (intro TrimSpace_visible) auto
  moreover have "c \<noteq> CHR '' ''" if c: "c \<in> set (ToUpper code)" for c
  proof -
    obtain x where "visible x" "c = upper_char x" using c assms by (auto simp: ToUpper_def)
    then have "33 \<le> byte c" by (auto simp: upper_char_def visible_def)
    then show ?thesis by auto
  qed
  ultimately show ?thesis by (auto simp: NormalizeRecoveryCode_def intro!: filter_cong)
qed

lemma recovery_chars:
  assumes "c \<in> set recoveryCodeAlphabet \<or> c = CHR ''-''"
  shows "visible c" "visible (lower_char c)" "upper_char c = c" "upper_char (lower_char c) = c"
proof -
  have "\<forall>c\<in>set (CHR ''-'' # recoveryCodeAlphabet). visible c \<and> visible (lower_char c) \<and> upper_char c = c \<and> upper_char (lower_char c) = c"
    by code_simp
  with assms show "visible c" "visible (lower_char c)" "upper_char c = c" "upper_char (lower_char c) = c" by auto
qed

lemma GenerateRecoveryCodes_chars:
  assumes "GenerateRecoveryCodes rs = Some codes" "code \<in> set codes" "c \<in> set code"
  shows "c \<in> set recoveryCodeAlphabet \<or> c = CHR ''-''"
  using assms
proof (induction rs arbitrary: codes)
  case (Cons r rs)
  obtain raw rest where r: "randomFromAlphabet r = Some raw" "GenerateRecoveryCodes rs = Some rest"
    "codes = (take 5 raw @ ''-'' @ drop 5 raw) # rest"
    using Cons.prems(1) by (auto split: option.splits)
  have "recoveryCodeAlphabet ! (n mod length recoveryCodeAlphabet) \<in> set recoveryCodeAlphabet" for n
    by (rule nth_mem) (simp add: recoveryCodeAlphabet_def)
  then have "x \<in> set raw \<Longrightarrow> x \<in> set recoveryCodeAlphabet" for x using r(1) by (auto simp: randomFromAlphabet_def)
  then have "x \<in> set (take 5 raw) \<union> set (drop 5 raw) \<Longrightarrow> x \<in> set recoveryCodeAlphabet" for x
    by (meson UnE in_set_takeD in_set_dropD)
  with Cons r show ?case by auto
qed simp

lemma HashRecoveryCode_typed:
  assumes "GenerateRecoveryCodes rs = Some codes" "code \<in> set codes"
  shows "HashRecoveryCode sha256 (ToLower code) = HashRecoveryCode sha256 code"
    "HashRecoveryCode sha256 (filter (\<lambda>c. c \<noteq> CHR ''-'') code) = HashRecoveryCode sha256 code"
proof -
  note ch = recovery_chars [OF GenerateRecoveryCodes_chars [OF assms]]
  have up: "ToUpper code = code" "ToUpper (ToLower code) = code" "ToUpper (filter P code) = filter P code" for P
    using ch by (auto simp: ToUpper_def ToLower_def intro!: map_idI)
  have n: "NormalizeRecoveryCode s = filter (\<lambda>c. c \<noteq> CHR ''-'') (ToUpper s)"
    if "set s \<subseteq> set code \<union> set (ToLower code)" for s
    using that ch by (intro NormalizeRecoveryCode_plain) (auto simp: ToLower_def)
  show "HashRecoveryCode sha256 (ToLower code) = HashRecoveryCode sha256 code"
    "HashRecoveryCode sha256 (filter (\<lambda>c. c \<noteq> CHR ''-'') code) = HashRecoveryCode sha256 code"
    by (simp_all add: HashRecoveryCode_def n [of "ToLower code"] n [of code] n [of "filter P code" for P] up subset_iff)
qed

end
