(* ===== verification/StoreAuth.thy ===== *)
theory StoreAuth
  imports Orchestrator Credentials
begin

text \<open>
  Accounts in the store: users and sessions (\<open>internal/store/store.go\<close>), failed logins
  (\<open>login_attempts.go\<close>), application settings (\<open>settings.go\<close>), API tokens (\<open>api_tokens.go\<close>), second factors
  (\<open>totp.go\<close>) and identities of a single sign-on provider (\<open>oidc.go\<close>).  The state is the database of the
  inventory, which holds the users, with the tables only this part uses.  Times count nanoseconds
  since the Unix epoch.
\<close>

section \<open>Tables\<close>

record session_row =
  se_id :: string
  se_user_id :: string
  se_csrf_token :: string
  se_expires_at :: time
  se_created_at :: time
  se_last_seen_at :: time
  se_client_ip :: string
  se_user_agent :: string

record attempt_row =
  la_username :: string
  la_ip :: string
  la_created_at :: time

record totp_row =
  to_user_id :: string
  to_secret :: string
  to_enabled :: bool
  to_confirmed_at :: "time option"
  to_created_at :: time

record code_row =
  rc_id :: nat
  rc_user_id :: string
  rc_code_hash :: string
  rc_used_at :: "time option"
  rc_created_at :: time

record token_row =
  tk_id :: string
  tk_user_id :: string
  tk_name :: string
  tk_token_hash :: string
  tk_last_used_at :: "time option"
  tk_created_at :: time

text \<open>\<open>ac_next_code\<close> is the sequence behind \<open>user_recovery_codes.id\<close>.\<close>

record accounts =
  ac_db :: db
  ac_sessions :: "session_row list"
  ac_attempts :: "attempt_row list"
  ac_totp :: "totp_row list"
  ac_codes :: "code_row list"
  ac_next_code :: nat
  ac_tokens :: "token_row list"

abbreviation ac_users :: "accounts \<Rightarrow> user_row list" where
  "ac_users a \<equiv> db_users (ac_db a)"

abbreviation user_ids :: "accounts \<Rightarrow> string list" where
  "user_ids a \<equiv> map us_id (ac_users a)"

definition set_users :: "user_row list \<Rightarrow> accounts \<Rightarrow> accounts" where
  "set_users us a = a\<lparr>ac_db := (ac_db a)\<lparr>db_users := us\<rparr>\<rparr>"

text \<open>Go's zero \<open>time.Time\<close>, 1 January of year 1.\<close>

definition zero_time :: time where "zero_time = -62135596800 * second_ns"

section \<open>Users\<close>

definition RoleAdmin :: string where "RoleAdmin = ''admin''"
definition RoleViewer :: string where "RoleViewer = ''viewer''"

definition ValidRole :: "string \<Rightarrow> bool" where
  "ValidRole role \<longleftrightarrow> role = RoleAdmin \<or> role = RoleViewer"

record User =
  User_ID :: string
  User_Username :: string
  User_DisplayName :: string
  User_PasswordHash :: string
  User_Role :: string
  User_IsAdmin :: bool
  User_CreatedAt :: time

text \<open>What a query reads of a row; columns it does not read keep Go's zero value.\<close>

definition user_of_row :: "user_row \<Rightarrow> User" where
  "user_of_row r = \<lparr>User_ID = us_id r, User_Username = us_username r, User_DisplayName = us_display_name r,
     User_PasswordHash = us_password_hash r, User_Role = us_role r, User_IsAdmin = us_is_admin r,
     User_CreatedAt = us_created_at r\<rparr>"

definition undated_user :: "user_row \<Rightarrow> User" where
  "undated_user r = (user_of_row r)\<lparr>User_CreatedAt := zero_time\<rparr>"

definition CountAdmins :: "accounts \<Rightarrow> nat" where
  "CountAdmins a = length (filter us_is_admin (ac_users a))"

text \<open>\<open>INSERT INTO users\<close> with the primary key and the unique username and subject.\<close>

definition insert_user :: "user_row \<Rightarrow> accounts \<Rightarrow> store_error + accounts" where
  "insert_user r a =
    (if us_id r \<in> set (user_ids a) \<or> us_username r \<in> set (map us_username (ac_users a)) \<or>
        (us_oidc_subject r \<noteq> None \<and> us_oidc_subject r \<in> set (map us_oidc_subject (ac_users a)))
     then Inl ErrDb else Inr (set_users (ac_users a @ [r]) a))"

definition new_user :: "time \<Rightarrow> string \<Rightarrow> string \<Rightarrow> string \<Rightarrow> string \<Rightarrow> string \<Rightarrow> string option \<Rightarrow> user_row" where
  "new_user now key username displayName hash role subject =
    \<lparr>us_id = key, us_username = username, us_display_name = displayName, us_password_hash = hash, us_role = role,
     us_is_admin = (role = RoleAdmin), us_oidc_subject = subject, us_created_at = now, us_updated_at = now\<rparr>"

definition CreateAdmin :: "time \<Rightarrow> string option \<Rightarrow> string \<Rightarrow> string \<Rightarrow> string \<Rightarrow> accounts \<Rightarrow> store_error + (User \<times> accounts)" where
  "CreateAdmin now tok username displayName passwordHash a =
    (case tok of None \<Rightarrow> Inl ErrRand
     | Some key \<Rightarrow>
        let r = new_user now key username displayName passwordHash RoleAdmin None in
        bind_res (insert_user r a) (\<lambda>a'. Inr (undated_user r, a')))"

definition CreateUser :: "time \<Rightarrow> string option \<Rightarrow> string \<Rightarrow> string \<Rightarrow> string \<Rightarrow> string \<Rightarrow> accounts \<Rightarrow>
    store_error + (User \<times> accounts)" where
  "CreateUser now tok username displayName passwordHash role0 a =
    (case tok of None \<Rightarrow> Inl ErrRand
     | Some key \<Rightarrow>
        let role = (if \<not> ValidRole role0 then RoleViewer else role0);
            r = new_user now key username displayName passwordHash role None in
        bind_res (insert_user r a) (\<lambda>a'. Inr (undated_user r, a')))"

definition ListUsers :: "accounts \<Rightarrow> User list" where
  "ListUsers a = map (\<lambda>r. (user_of_row r)\<lparr>User_PasswordHash := []\<rparr>) (sort_key us_username (ac_users a))"

definition GetUser :: "string \<Rightarrow> accounts \<Rightarrow> store_error + User" where
  "GetUser key a =
    (case find (\<lambda>r. us_id r = key) (ac_users a) of None \<Rightarrow> Inl ErrNotFound | Some r \<Rightarrow> Inr (user_of_row r))"

definition SetUserRole :: "time \<Rightarrow> string \<Rightarrow> string \<Rightarrow> accounts \<Rightarrow> store_error + accounts" where
  "SetUserRole now key role a =
    (if \<not> ValidRole role then Inl ErrArgs
     else Inr (set_users (update_rows (\<lambda>r. us_id r = key)
       (\<lambda>r. r\<lparr>us_role := role, us_is_admin := (role = RoleAdmin), us_updated_at := now\<rparr>) (ac_users a)) a))"

definition SetUserPassword :: "time \<Rightarrow> string \<Rightarrow> string \<Rightarrow> accounts \<Rightarrow> accounts" where
  "SetUserPassword now key hash a =
    set_users (update_rows (\<lambda>r. us_id r = key) (\<lambda>r. r\<lparr>us_password_hash := hash, us_updated_at := now\<rparr>) (ac_users a)) a"

text \<open>Sessions, second factor, recovery codes and tokens are deleted along; jobs lose the requester.\<close>

definition DeleteUser :: "string \<Rightarrow> accounts \<Rightarrow> accounts" where
  "DeleteUser key a = a\<lparr>
     ac_db := (ac_db a)\<lparr>db_users := filter (\<lambda>r. us_id r \<noteq> key) (ac_users a),
       db_jobs := map (\<lambda>j. j\<lparr>sj_requested_by := set_null (\<lambda>k. k = key) (sj_requested_by j)\<rparr>) (db_jobs (ac_db a))\<rparr>,
     ac_sessions := filter (\<lambda>r. se_user_id r \<noteq> key) (ac_sessions a),
     ac_totp := filter (\<lambda>r. to_user_id r \<noteq> key) (ac_totp a),
     ac_codes := filter (\<lambda>r. rc_user_id r \<noteq> key) (ac_codes a),
     ac_tokens := filter (\<lambda>r. tk_user_id r \<noteq> key) (ac_tokens a)\<rparr>"

definition FindUserByUsername :: "string \<Rightarrow> accounts \<Rightarrow> store_error + User" where
  "FindUserByUsername username a =
    (case find (\<lambda>r. us_username r = username) (ac_users a) of None \<Rightarrow> Inl ErrNotFound | Some r \<Rightarrow> Inr (undated_user r))"

definition FindUserByOIDCSubject :: "string \<Rightarrow> accounts \<Rightarrow> store_error + User" where
  "FindUserByOIDCSubject subject a =
    (case find (\<lambda>r. us_oidc_subject r = Some subject) (ac_users a) of None \<Rightarrow> Inl ErrNotFound
     | Some r \<Rightarrow> Inr (undated_user r))"

definition LinkOIDCSubject :: "time \<Rightarrow> string \<Rightarrow> string \<Rightarrow> accounts \<Rightarrow> store_error + accounts" where
  "LinkOIDCSubject now key subject a =
    (if (\<exists>r\<in>set (ac_users a). us_id r = key) \<and> (\<exists>r\<in>set (ac_users a). us_id r \<noteq> key \<and> us_oidc_subject r = Some subject)
     then Inl ErrDb
     else Inr (set_users (update_rows (\<lambda>r. us_id r = key) (\<lambda>r. r\<lparr>us_oidc_subject := Some subject, us_updated_at := now\<rparr>)
       (ac_users a)) a))"

text \<open>\<open>hash\<close> is the hash of a random password, \<open>None\<close> when the random source fails.\<close>

definition CreateSSOUser :: "time \<Rightarrow> string option \<Rightarrow> string option \<Rightarrow> string \<Rightarrow> string \<Rightarrow> string \<Rightarrow> string \<Rightarrow> accounts \<Rightarrow>
    store_error + (User \<times> accounts)" where
  "CreateSSOUser now tok hash username displayName role0 subject a =
    (case (tok, hash) of
       (Some key, Some h) \<Rightarrow>
        let role = (if \<not> ValidRole role0 then RoleViewer else role0);
            r = new_user now key username displayName h role (Some subject) in
        bind_res (insert_user r a) (\<lambda>a'. Inr ((undated_user r)\<lparr>User_PasswordHash := []\<rparr>, a'))
     | _ \<Rightarrow> Inl ErrRand)"

section \<open>Sessions\<close>

record Session =
  Session_ID :: string
  Session_User :: User
  Session_CSRFToken :: string
  Session_ExpiresAt :: time
  Session_CreatedAt :: time
  Session_LastSeenAt :: time
  Session_ClientIP :: string
  Session_UserAgent :: string

definition no_user :: User where
  "no_user = \<lparr>User_ID = [], User_Username = [], User_DisplayName = [], User_PasswordHash = [], User_Role = [],
     User_IsAdmin = False, User_CreatedAt = zero_time\<rparr>"

definition session_of_row :: "User \<Rightarrow> session_row \<Rightarrow> Session" where
  "session_of_row u r = \<lparr>Session_ID = se_id r, Session_User = u, Session_CSRFToken = se_csrf_token r,
     Session_ExpiresAt = se_expires_at r, Session_CreatedAt = se_created_at r, Session_LastSeenAt = se_last_seen_at r,
     Session_ClientIP = se_client_ip r, Session_UserAgent = se_user_agent r\<rparr>"

definition CreateSession :: "time \<Rightarrow> string option \<Rightarrow> string option \<Rightarrow> string \<Rightarrow> time \<Rightarrow> string \<Rightarrow> string \<Rightarrow> accounts \<Rightarrow>
    store_error + (Session \<times> accounts)" where
  "CreateSession now tok csrfTok userID expiresAt clientIP userAgent a =
    (case (tok, csrfTok) of
       (Some key, Some csrf) \<Rightarrow>
        let r = \<lparr>se_id = key, se_user_id = userID, se_csrf_token = csrf, se_expires_at = expiresAt, se_created_at = now,
                 se_last_seen_at = now, se_client_ip = clientIP, se_user_agent = userAgent\<rparr> in
        if key \<in> set (map se_id (ac_sessions a)) \<or> userID \<notin> set (user_ids a) then Inl ErrDb
        else Inr (session_of_row no_user r, a\<lparr>ac_sessions := ac_sessions a @ [r]\<rparr>)
     | _ \<Rightarrow> Inl ErrRand)"

definition live :: "time \<Rightarrow> time \<Rightarrow> session_row \<Rightarrow> bool" where
  "live now idleCutoff r \<longleftrightarrow> now < se_expires_at r \<and> idleCutoff < se_last_seen_at r"

definition GetSession :: "time \<Rightarrow> string \<Rightarrow> time \<Rightarrow> accounts \<Rightarrow> (store_error + Session) \<times> accounts" where
  "GetSession now sessionID idleCutoff a =
    (let hit = (\<lambda>r. se_id r = sessionID \<and> live now idleCutoff r); touch = (\<lambda>r. r\<lparr>se_last_seen_at := now\<rparr>);
         a' = a\<lparr>ac_sessions := update_rows hit touch (ac_sessions a)\<rparr> in
     case find hit (ac_sessions a) of None \<Rightarrow> (Inl ErrNotFound, a')
     | Some r \<Rightarrow>
        (case find (\<lambda>u. us_id u = se_user_id r) (ac_users a) of None \<Rightarrow> (Inl ErrNotFound, a')
         | Some u \<Rightarrow> (Inr (session_of_row (undated_user u) (touch r)), a')))"

definition DeleteSession :: "string \<Rightarrow> accounts \<Rightarrow> accounts" where
  "DeleteSession sessionID a = a\<lparr>ac_sessions := filter (\<lambda>r. se_id r \<noteq> sessionID) (ac_sessions a)\<rparr>"

definition ListUserSessions :: "time \<Rightarrow> string \<Rightarrow> time \<Rightarrow> accounts \<Rightarrow> Session list" where
  "ListUserSessions now userID idleCutoff a =
    map (session_of_row no_user) (sort_key (\<lambda>r. - se_last_seen_at r)
      (filter (\<lambda>r. se_user_id r = userID \<and> live now idleCutoff r) (ac_sessions a)))"

definition DeleteUserSessions :: "string \<Rightarrow> accounts \<Rightarrow> nat \<times> accounts" where
  "DeleteUserSessions userID a =
    (affected (\<lambda>r. se_user_id r = userID) (ac_sessions a),
     a\<lparr>ac_sessions := filter (\<lambda>r. se_user_id r \<noteq> userID) (ac_sessions a)\<rparr>)"

definition DeleteOtherUserSessions :: "string \<Rightarrow> string \<Rightarrow> accounts \<Rightarrow> nat \<times> accounts" where
  "DeleteOtherUserSessions userID exceptID a =
    (let hit = (\<lambda>r. se_user_id r = userID \<and> se_id r \<noteq> exceptID) in
     (affected hit (ac_sessions a), a\<lparr>ac_sessions := filter (\<lambda>r. \<not> hit r) (ac_sessions a)\<rparr>))"

section \<open>Failed logins\<close>

record LoginFailureStats =
  UserFailures :: nat
  UserLast :: time
  IPFailures :: nat
  IPLast :: time

definition RecordLoginFailure :: "time \<Rightarrow> string \<Rightarrow> string \<Rightarrow> accounts \<Rightarrow> accounts" where
  "RecordLoginFailure now username ip a =
    a\<lparr>ac_attempts := ac_attempts a @ [\<lparr>la_username = username, la_ip = ip, la_created_at = now\<rparr>]\<rparr>"

text \<open>\<open>max\<close> over the matching rows; the zero time when there are none.\<close>

definition last_attempt :: "attempt_row list \<Rightarrow> time" where
  "last_attempt rows = (if rows = [] then zero_time else Max (set (map la_created_at rows)))"

definition RecentLoginFailures :: "string \<Rightarrow> string \<Rightarrow> time \<Rightarrow> accounts \<Rightarrow> LoginFailureStats" where
  "RecentLoginFailures username ip since a =
    (let rows = filter (\<lambda>r. since < la_created_at r \<and> (la_username r = username \<or> la_ip r = ip)) (ac_attempts a);
         byUser = filter (\<lambda>r. la_username r = username) rows; byIP = filter (\<lambda>r. la_ip r = ip) rows in
     \<lparr>UserFailures = length byUser, UserLast = last_attempt byUser, IPFailures = length byIP, IPLast = last_attempt byIP\<rparr>)"

definition ClearLoginFailures :: "string \<Rightarrow> accounts \<Rightarrow> accounts" where
  "ClearLoginFailures username a = a\<lparr>ac_attempts := filter (\<lambda>r. la_username r \<noteq> username) (ac_attempts a)\<rparr>"

section \<open>Settings\<close>

definition GetAppSettings :: "accounts \<Rightarrow> string \<rightharpoonup> string" where
  "GetAppSettings a = map_of (db_settings (ac_db a))"

definition upsert_setting :: "string \<times> string \<Rightarrow> (string \<times> string) list \<Rightarrow> (string \<times> string) list" where
  "upsert_setting kv rows =
    (if fst kv \<in> set (map fst rows) then update_rows (\<lambda>r. fst r = fst kv) (\<lambda>_. kv) rows else rows @ [kv])"

definition SetAppSettings :: "(string \<times> string) list \<Rightarrow> accounts \<Rightarrow> accounts" where
  "SetAppSettings kvs a =
    a\<lparr>ac_db := (ac_db a)\<lparr>db_settings := fold upsert_setting kvs (db_settings (ac_db a))\<rparr>\<rparr>"

section \<open>API tokens\<close>

record APIToken =
  APIToken_ID :: string
  APIToken_UserID :: string
  APIToken_Name :: string
  APIToken_LastUsedAt :: "time option"
  APIToken_CreatedAt :: time

definition api_token_of_row :: "token_row \<Rightarrow> APIToken" where
  "api_token_of_row r = \<lparr>APIToken_ID = tk_id r, APIToken_UserID = tk_user_id r, APIToken_Name = tk_name r,
     APIToken_LastUsedAt = tk_last_used_at r, APIToken_CreatedAt = tk_created_at r\<rparr>"

definition GetAPIToken :: "string \<Rightarrow> accounts \<Rightarrow> store_error + APIToken" where
  "GetAPIToken key a =
    (case find (\<lambda>r. tk_id r = key) (ac_tokens a) of None \<Rightarrow> Inl ErrNotFound | Some r \<Rightarrow> Inr (api_token_of_row r))"

definition CreateAPIToken :: "time \<Rightarrow> string option \<Rightarrow> string \<Rightarrow> string \<Rightarrow> string \<Rightarrow> accounts \<Rightarrow>
    (store_error + APIToken) \<times> accounts" where
  "CreateAPIToken now tok userID name tokenHash a =
    (case tok of None \<Rightarrow> (Inl ErrRand, a)
     | Some key \<Rightarrow>
        if key \<in> set (map tk_id (ac_tokens a)) \<or> tokenHash \<in> set (map tk_token_hash (ac_tokens a)) \<or>
           userID \<notin> set (user_ids a) then (Inl ErrDb, a)
        else let a' = a\<lparr>ac_tokens := ac_tokens a @ [\<lparr>tk_id = key, tk_user_id = userID, tk_name = name,
               tk_token_hash = tokenHash, tk_last_used_at = None, tk_created_at = now\<rparr>]\<rparr> in
          (GetAPIToken key a', a'))"

definition ListAPITokens :: "string \<Rightarrow> accounts \<Rightarrow> APIToken list" where
  "ListAPITokens userID a =
    map api_token_of_row (sort_key (\<lambda>r. - tk_created_at r) (filter (\<lambda>r. tk_user_id r = userID) (ac_tokens a)))"

definition DeleteAPIToken :: "string \<Rightarrow> string \<Rightarrow> accounts \<Rightarrow> store_error + accounts" where
  "DeleteAPIToken key userID a =
    (let hit = (\<lambda>r. tk_id r = key \<and> tk_user_id r = userID) in
     if affected hit (ac_tokens a) = 0 then Inl ErrNotFound
     else Inr (a\<lparr>ac_tokens := filter (\<lambda>r. \<not> hit r) (ac_tokens a)\<rparr>))"

definition AuthenticateAPIToken :: "time \<Rightarrow> string \<Rightarrow> accounts \<Rightarrow> (store_error + User) \<times> accounts" where
  "AuthenticateAPIToken now tokenHash a =
    (let hit = (\<lambda>r. tk_token_hash r = tokenHash);
         a' = a\<lparr>ac_tokens := update_rows hit (\<lambda>r. r\<lparr>tk_last_used_at := Some now\<rparr>) (ac_tokens a)\<rparr> in
     case find hit (ac_tokens a) of None \<Rightarrow> (Inl ErrNotFound, a')
     | Some r \<Rightarrow>
        (case find (\<lambda>u. us_id u = tk_user_id r) (ac_users a) of None \<Rightarrow> (Inl ErrNotFound, a')
         | Some u \<Rightarrow> (Inr ((undated_user u)\<lparr>User_PasswordHash := []\<rparr>), a')))"

section \<open>Second factors\<close>

record UserTOTP =
  UserTOTP_UserID :: string
  UserTOTP_Secret :: string
  UserTOTP_Enabled :: bool
  UserTOTP_ConfirmedAt :: "time option"

definition GetUserTOTP :: "string \<Rightarrow> accounts \<Rightarrow> store_error + UserTOTP" where
  "GetUserTOTP userID a =
    (case find (\<lambda>r. to_user_id r = userID) (ac_totp a) of None \<Rightarrow> Inl ErrNotFound
     | Some r \<Rightarrow> Inr \<lparr>UserTOTP_UserID = to_user_id r, UserTOTP_Secret = to_secret r, UserTOTP_Enabled = to_enabled r,
         UserTOTP_ConfirmedAt = to_confirmed_at r\<rparr>)"

definition TOTPEnabled :: "string \<Rightarrow> accounts \<Rightarrow> bool" where
  "TOTPEnabled userID a = (case find (\<lambda>r. to_user_id r = userID) (ac_totp a) of None \<Rightarrow> False | Some r \<Rightarrow> to_enabled r)"

definition StartTOTPEnrollment :: "time \<Rightarrow> string \<Rightarrow> string \<Rightarrow> accounts \<Rightarrow> store_error + accounts" where
  "StartTOTPEnrollment now userID sealedSecret a =
    (if userID \<notin> set (user_ids a) then Inl ErrDb
     else if userID \<in> set (map to_user_id (ac_totp a)) then
       Inr (a\<lparr>ac_totp := update_rows (\<lambda>r. to_user_id r = userID)
         (\<lambda>r. r\<lparr>to_secret := sealedSecret, to_enabled := False, to_confirmed_at := None, to_created_at := now\<rparr>) (ac_totp a)\<rparr>)
     else Inr (a\<lparr>ac_totp := ac_totp a @ [\<lparr>to_user_id = userID, to_secret = sealedSecret, to_enabled = False,
         to_confirmed_at = None, to_created_at = now\<rparr>]\<rparr>))"

definition insert_code :: "time \<Rightarrow> string \<Rightarrow> string \<Rightarrow> accounts \<Rightarrow> accounts" where
  "insert_code now userID h a = a\<lparr>ac_codes := ac_codes a @ [\<lparr>rc_id = ac_next_code a, rc_user_id = userID, rc_code_hash = h,
     rc_used_at = None, rc_created_at = now\<rparr>], ac_next_code := Suc (ac_next_code a)\<rparr>"

text \<open>One transaction.  The updated row has the user's key, so the inserts meet their foreign key.\<close>

definition EnableTOTP :: "time \<Rightarrow> string \<Rightarrow> string list \<Rightarrow> accounts \<Rightarrow> store_error + accounts" where
  "EnableTOTP now userID recoveryHashes a =
    (let hit = (\<lambda>r. to_user_id r = userID) in
     if affected hit (ac_totp a) = 0 then Inl ErrNotFound
     else Inr (fold (insert_code now userID) recoveryHashes
       (a\<lparr>ac_totp := update_rows hit (\<lambda>r. r\<lparr>to_enabled := True, to_confirmed_at := Some now\<rparr>) (ac_totp a),
          ac_codes := filter (\<lambda>r. rc_user_id r \<noteq> userID) (ac_codes a)\<rparr>)))"

definition DisableTOTP :: "string \<Rightarrow> accounts \<Rightarrow> accounts" where
  "DisableTOTP userID a = a\<lparr>ac_totp := filter (\<lambda>r. to_user_id r \<noteq> userID) (ac_totp a)\<rparr>"

definition unused_code :: "string \<Rightarrow> code_row \<Rightarrow> bool" where
  "unused_code userID r \<longleftrightarrow> rc_user_id r = userID \<and> rc_used_at r = None"

definition ConsumeRecoveryCode :: "time \<Rightarrow> string \<Rightarrow> string \<Rightarrow> accounts \<Rightarrow> bool \<times> accounts" where
  "ConsumeRecoveryCode now userID codeHash a =
    (case find (\<lambda>r. unused_code userID r \<and> rc_code_hash r = codeHash) (ac_codes a) of None \<Rightarrow> (False, a)
     | Some r \<Rightarrow> (True, a\<lparr>ac_codes := update_rows (\<lambda>q. rc_id q = rc_id r) (\<lambda>q. q\<lparr>rc_used_at := Some now\<rparr>) (ac_codes a)\<rparr>))"

definition CountUnusedRecoveryCodes :: "string \<Rightarrow> accounts \<Rightarrow> nat" where
  "CountUnusedRecoveryCodes userID a = length (filter (unused_code userID) (ac_codes a))"

section \<open>The invariant\<close>

text \<open>A table with a unique key whose rows belong to users.\<close>

definition owned :: "('r \<Rightarrow> 'k) \<Rightarrow> ('r \<Rightarrow> string) \<Rightarrow> string set \<Rightarrow> 'r list \<Rightarrow> bool" where
  "owned key owner ids rows \<longleftrightarrow> distinct (map key rows) \<and> (\<forall>r\<in>set rows. owner r \<in> ids)"

lemma owned_simps [simp]:
  "owned key owner ids []"
  "owned key owner ids (rows @ [r]) \<longleftrightarrow> owned key owner ids rows \<and> key r \<notin> key ` set rows \<and> owner r \<in> ids"
  by (auto simp: owned_def)

lemma owned_mono: "owned key owner ids rows \<Longrightarrow> ids \<subseteq> ids' \<Longrightarrow> owned key owner ids' rows"
  by (auto simp: owned_def)

lemma owned_filter [simp, intro]: "owned key owner ids rows \<Longrightarrow> owned key owner ids (filter P rows)"
  by (auto simp: owned_def distinct_map_filterI)

lemma owned_without: "owned key owner ids rows \<Longrightarrow> owned key owner (ids - {u}) (filter (\<lambda>r. owner r \<noteq> u) rows)"
  by (auto simp: owned_def distinct_map_filterI)

lemma owned_update [simp]:
  assumes "\<And>r. key (f r) = key r" "\<And>r. owner (f r) = owner r"
  shows "owned key owner ids (update_rows P f rows) \<longleftrightarrow> owned key owner ids rows"
proof -
  have "(\<forall>r\<in>set xs. owner r \<in> ids) \<longleftrightarrow> set (map owner xs) \<subseteq> ids" for xs by auto
  with assms show ?thesis by (simp only: owned_def map_update_rows_key)
qed

definition users_ok :: "user_row list \<Rightarrow> bool" where
  "users_ok us \<longleftrightarrow> distinct (map us_id us) \<and> distinct (map us_username us) \<and>
    (\<forall>u\<in>set us. \<forall>v\<in>set us. \<forall>s. us_oidc_subject u = Some s \<and> us_oidc_subject v = Some s \<longrightarrow> us_id u = us_id v) \<and>
    (\<forall>u\<in>set us. ValidRole (us_role u) \<and> (us_is_admin u \<longleftrightarrow> us_role u = RoleAdmin))"

definition accounts_ok :: "accounts \<Rightarrow> bool" where
  "accounts_ok a \<longleftrightarrow> store_ok (ac_db a) \<and> users_ok (ac_users a) \<and>
    owned se_id se_user_id (set (user_ids a)) (ac_sessions a) \<and>
    owned to_user_id to_user_id (set (user_ids a)) (ac_totp a) \<and>
    owned rc_id rc_user_id (set (user_ids a)) (ac_codes a) \<and> (\<forall>r\<in>set (ac_codes a). rc_id r < ac_next_code a) \<and>
    owned tk_id tk_user_id (set (user_ids a)) (ac_tokens a) \<and> distinct (map tk_token_hash (ac_tokens a))"

definition empty_accounts :: accounts where
  "empty_accounts = \<lparr>ac_db = empty_db, ac_sessions = [], ac_attempts = [], ac_totp = [], ac_codes = [], ac_next_code = 1,
     ac_tokens = []\<rparr>"

lemma set_users_simps [simp]:
  "ac_sessions (set_users us a) = ac_sessions a" "ac_attempts (set_users us a) = ac_attempts a"
  "ac_totp (set_users us a) = ac_totp a" "ac_codes (set_users us a) = ac_codes a"
  "ac_next_code (set_users us a) = ac_next_code a" "ac_tokens (set_users us a) = ac_tokens a"
  "ac_db (set_users us a) = (ac_db a)\<lparr>db_users := us\<rparr>"
  by (simp_all add: set_users_def)

text \<open>The rest of the store depends on the keys of the users only.\<close>

lemma store_ok_users:
  assumes "store_ok d" "set (map us_id (db_users d)) \<subseteq> set (map us_id us)"
  shows "store_ok (d\<lparr>db_users := us\<rparr>)"
proof -
  have "job_row_ok (d\<lparr>db_users := us\<rparr>) j" if "job_row_ok d j" for j
    using that fk_ok_mono [OF _ assms(2)] by (auto simp: job_row_ok_def)
  then show ?thesis
    using assms(1) by (auto simp: store_ok_def inventory_defs scan_defs discoveries_ok_def)
qed

lemma store_ok_without_user:
  assumes "store_ok d"
  shows "store_ok (d\<lparr>db_users := filter (\<lambda>r. us_id r \<noteq> key) (db_users d),
    db_jobs := map (\<lambda>j. j\<lparr>sj_requested_by := set_null (\<lambda>k. k = key) (sj_requested_by j)\<rparr>) (db_jobs d)\<rparr>)" (is "store_ok ?d")
proof -
  have "job_row_ok ?d (j\<lparr>sj_requested_by := set_null (\<lambda>k. k = key) (sj_requested_by j)\<rparr>)" if "job_row_ok d j" for j
    using that by (auto simp: job_row_ok_def fk_ok_def set_null_def split: option.splits)
  then show ?thesis
    using assms by (auto simp: store_ok_def inventory_defs scan_defs discoveries_ok_def comp_def)
qed

lemma empty_accounts_ok: "accounts_ok empty_accounts"
  by (simp add: accounts_ok_def empty_accounts_def users_ok_def store_ok_def empty_db_ok empty_db_scans_ok discoveries_ok_def)
     (simp add: empty_db_def)

text \<open>A change of the users that keeps their keys, and a new user.\<close>

lemma accounts_ok_set_users:
  assumes "accounts_ok a" "users_ok us" "set (user_ids a) \<subseteq> set (map us_id us)"
  shows "accounts_ok (set_users us a)"
proof -
  have sub: "us_id ` set (ac_users a) \<subseteq> us_id ` set us" using assms(3) by simp
  show ?thesis
    using assms(1,2) store_ok_users [OF _ assms(3)] by (auto simp: accounts_ok_def intro: owned_mono [OF _ sub])
qed

lemma insert_user_inv:
  assumes "accounts_ok a" "insert_user r a = Inr a'" "ValidRole (us_role r)" "us_is_admin r \<longleftrightarrow> us_role r = RoleAdmin"
  shows "accounts_ok a'"
proof -
  have "us_oidc_subject u = Some s \<Longrightarrow> u \<in> set (ac_users a) \<Longrightarrow> us_oidc_subject r \<noteq> Some s" for u s
    using assms(2) by (force simp: insert_user_def split: if_splits)
  then have "a' = set_users (ac_users a @ [r]) a" "users_ok (ac_users a @ [r])"
    using assms by (auto simp: insert_user_def accounts_ok_def users_ok_def split: if_splits)
  then show ?thesis using accounts_ok_set_users [OF assms(1), of "ac_users a @ [r]"] by (simp add: subset_insertI)
qed

lemma users_ok_role: "users_ok us \<Longrightarrow> r \<in> set us \<Longrightarrow> ValidRole (us_role r) \<and> (us_is_admin r \<longleftrightarrow> us_role r = RoleAdmin)"
  by (simp add: users_ok_def)

lemma users_ok_subject:
  "users_ok us \<Longrightarrow> u \<in> set us \<Longrightarrow> v \<in> set us \<Longrightarrow> us_oidc_subject u = Some s \<Longrightarrow> us_oidc_subject v = Some s \<Longrightarrow> us_id u = us_id v"
  unfolding users_ok_def by blast

lemma users_ok_update:
  assumes "users_ok us" "\<And>r. us_id (f r) = us_id r" "\<And>r. us_username (f r) = us_username r"
    "\<And>r. r \<in> set us \<Longrightarrow> P r \<Longrightarrow> ValidRole (us_role (f r)) \<and> (us_is_admin (f r) \<longleftrightarrow> us_role (f r) = RoleAdmin)"
    "\<And>r s. r \<in> set us \<Longrightarrow> P r \<Longrightarrow> us_oidc_subject (f r) = Some s \<Longrightarrow>
      us_oidc_subject r = Some s \<or> (\<forall>u\<in>set us. us_oidc_subject u = Some s \<or> P u \<longrightarrow> us_id u = us_id r)"
  shows "users_ok (update_rows P f us)"
proof -
  have "us_id u = us_id v"
    if uv: "u \<in> set (update_rows P f us)" "v \<in> set (update_rows P f us)" "us_oidc_subject u = Some s" "us_oidc_subject v = Some s"
    for u v s
  proof -
    obtain p q where pq: "p \<in> set us" "u = (if P p then f p else p)" "q \<in> set us" "v = (if P q then f q else q)"
      using uv(1,2) by (auto simp: set_update_rows)
    then have "us_id u = us_id p" "us_id v = us_id q" using assms(2) by simp_all
    moreover have "us_id p = us_id q"
    proof -
      have w: "us_oidc_subject w = Some s \<or> (P w \<and> (\<forall>x\<in>set us. us_oidc_subject x = Some s \<or> P x \<longrightarrow> us_id x = us_id w))"
        if "w \<in> set us" "us_oidc_subject (if P w then f w else w) = Some s" for w
        using that assms(5) [of w s] by (cases "P w") auto
      have p: "us_oidc_subject p = Some s \<or> (P p \<and> (\<forall>x\<in>set us. us_oidc_subject x = Some s \<or> P x \<longrightarrow> us_id x = us_id p))"
        and q: "us_oidc_subject q = Some s \<or> (P q \<and> (\<forall>x\<in>set us. us_oidc_subject x = Some s \<or> P x \<longrightarrow> us_id x = us_id q))"
        using w [OF pq(1)] w [OF pq(3)] uv(3,4) pq(2,4) by simp_all
      then show ?thesis using users_ok_subject [OF assms(1) pq(1,3)] pq(1,3) by (elim disjE conjE) metis+
    qed
    ultimately show ?thesis by simp
  qed
  moreover have "distinct (map us_id (update_rows P f us))" "distinct (map us_username (update_rows P f us))"
    using assms(1) by (simp_all only: map_update_rows_key assms(2,3) users_ok_def)
  moreover have "\<forall>u\<in>set (update_rows P f us). ValidRole (us_role u) \<and> (us_is_admin u \<longleftrightarrow> us_role u = RoleAdmin)"
    using assms(4) users_ok_role [OF assms(1)] by (auto simp: set_update_rows)
  ultimately show ?thesis unfolding users_ok_def by blast
qed

lemma update_users_inv:
  assumes "accounts_ok a" "\<And>r. us_id (f r) = us_id r" "users_ok (update_rows P f (ac_users a))"
  shows "accounts_ok (set_users (update_rows P f (ac_users a)) a)"
  using assms(1,3) by (rule accounts_ok_set_users) (simp only: map_update_rows_key assms(2) order_refl)

text \<open>Every write of the account tables keeps the invariant.\<close>

lemma CreateAdmin_inv: "accounts_ok a \<Longrightarrow> CreateAdmin now tok un dn h a = Inr (u, a') \<Longrightarrow> accounts_ok a'"
  by (auto simp: CreateAdmin_def new_user_def ValidRole_def bind_res_eq_Inr Let_def split: option.splits intro: insert_user_inv)

lemma CreateUser_inv: "accounts_ok a \<Longrightarrow> CreateUser now tok un dn h role a = Inr (u, a') \<Longrightarrow> accounts_ok a'"
  by (auto simp: CreateUser_def new_user_def ValidRole_def bind_res_eq_Inr Let_def split: option.splits if_splits
      intro: insert_user_inv)

lemma CreateSSOUser_inv: "accounts_ok a \<Longrightarrow> CreateSSOUser now tok h un dn role sub a = Inr (u, a') \<Longrightarrow> accounts_ok a'"
  by (auto simp: CreateSSOUser_def new_user_def ValidRole_def bind_res_eq_Inr Let_def split: option.splits if_splits
      intro: insert_user_inv)

lemma accounts_users_ok: "accounts_ok a \<Longrightarrow> users_ok (ac_users a)"
  by (simp add: accounts_ok_def)

lemma SetUserRole_inv: "accounts_ok a \<Longrightarrow> SetUserRole now key role a = Inr a' \<Longrightarrow> accounts_ok a'"
  by (auto simp: SetUserRole_def split: if_splits intro!: update_users_inv users_ok_update dest: accounts_users_ok)

lemma SetUserPassword_inv: "accounts_ok a \<Longrightarrow> accounts_ok (SetUserPassword now key h a)"
  unfolding SetUserPassword_def
  by (intro update_users_inv users_ok_update) (auto dest!: accounts_users_ok dest: users_ok_role)

lemma LinkOIDCSubject_inv:
  assumes "accounts_ok a" "LinkOIDCSubject now key sub a = Inr a'"
  shows "accounts_ok a'"
proof -
  let ?f = "\<lambda>r. r\<lparr>us_oidc_subject := Some sub, us_updated_at := now\<rparr>"
  have free: "us_id u = key" if "r \<in> set (ac_users a)" "us_id r = key" "u \<in> set (ac_users a)" "us_oidc_subject u = Some sub" for u r
    using that assms(2) by (auto simp: LinkOIDCSubject_def split: if_splits)
  have u: "users_ok (ac_users a)" using assms(1) by (rule accounts_users_ok)
  then have "users_ok (update_rows (\<lambda>r. us_id r = key) ?f (ac_users a))"
    by (rule users_ok_update) (auto dest: users_ok_role [OF u] free)
  then have "accounts_ok (set_users (update_rows (\<lambda>r. us_id r = key) ?f (ac_users a)) a)"
    using assms(1) by (intro update_users_inv) simp_all
  moreover have "a' = set_users (update_rows (\<lambda>r. us_id r = key) ?f (ac_users a)) a"
    using assms(2) by (simp add: LinkOIDCSubject_def split: if_splits)
  ultimately show ?thesis by simp
qed

lemma DeleteUser_inv:
  assumes "accounts_ok a"
  shows "accounts_ok (DeleteUser key a)"
proof -
  have ids: "set (user_ids (DeleteUser key a)) = set (user_ids a) - {key}" by (auto simp: DeleteUser_def)
  have "users_ok (filter (\<lambda>r. us_id r \<noteq> key) (ac_users a))"
    using accounts_users_ok [OF assms] by (auto simp: users_ok_def distinct_map_filterI)
  then show ?thesis
    using assms store_ok_without_user [of "ac_db a" key] unfolding accounts_ok_def ids
    by (simp add: DeleteUser_def owned_without distinct_map_filterI del: set_map)
qed

lemma session_writes_inv:
  assumes "accounts_ok a"
  shows "CreateSession now tok csrf uid expires ip ua a = Inr (s, a') \<Longrightarrow> accounts_ok a'"
    "GetSession now key cutoff a = (r, a') \<Longrightarrow> accounts_ok a'"
    "accounts_ok (DeleteSession key a)" "accounts_ok (snd (DeleteUserSessions uid a))"
    "accounts_ok (snd (DeleteOtherUserSessions uid key a))"
  using assms
  by (auto simp: accounts_ok_def CreateSession_def GetSession_def DeleteSession_def DeleteUserSessions_def
      DeleteOtherUserSessions_def Let_def split: option.splits if_splits)

lemma attempt_writes_inv:
  assumes "accounts_ok a"
  shows "accounts_ok (RecordLoginFailure now un ip a)" "accounts_ok (ClearLoginFailures un a)"
  using assms by (simp_all add: accounts_ok_def RecordLoginFailure_def ClearLoginFailures_def)

lemma SetAppSettings_inv: "accounts_ok a \<Longrightarrow> accounts_ok (SetAppSettings kvs a)"
  by (simp add: accounts_ok_def SetAppSettings_def store_ok_def inventory_defs scan_defs discoveries_ok_def)

lemma token_writes_inv:
  assumes "accounts_ok a"
  shows "CreateAPIToken now tok uid name h a = (r, a') \<Longrightarrow> accounts_ok a'"
    "DeleteAPIToken key uid a = Inr a' \<Longrightarrow> accounts_ok a'"
    "AuthenticateAPIToken now h a = (u, a') \<Longrightarrow> accounts_ok a'"
  using assms
  by (auto simp: accounts_ok_def CreateAPIToken_def DeleteAPIToken_def AuthenticateAPIToken_def Let_def
      map_update_rows_key distinct_map_filterI split: option.splits if_splits)

lemma insert_code_inv:
  assumes "accounts_ok a" "uid \<in> set (user_ids a)"
  shows "accounts_ok (insert_code now uid h a)" "uid \<in> set (user_ids (insert_code now uid h a))"
  using assms by (auto simp: accounts_ok_def insert_code_def less_Suc_eq)

lemma fold_insert_code_inv:
  "accounts_ok a \<Longrightarrow> uid \<in> set (user_ids a) \<Longrightarrow> accounts_ok (fold (insert_code now uid) hs a)"
  by (induction hs arbitrary: a) (simp_all only: fold_simps insert_code_inv id_apply comp_apply)

lemma totp_writes_inv:
  assumes "accounts_ok a"
  shows "StartTOTPEnrollment now uid sec a = Inr a' \<Longrightarrow> accounts_ok a'" "accounts_ok (DisableTOTP uid a)"
    "ConsumeRecoveryCode now uid h a = (b, a') \<Longrightarrow> accounts_ok a'"
  using assms
  by (auto simp: accounts_ok_def StartTOTPEnrollment_def DisableTOTP_def ConsumeRecoveryCode_def set_update_rows
      split: option.splits if_splits) metis

lemma EnableTOTP_inv:
  assumes "accounts_ok a" "EnableTOTP now uid hs a = Inr a'"
  shows "accounts_ok a'"
proof -
  let ?a = "a\<lparr>ac_totp := update_rows (\<lambda>r. to_user_id r = uid) (\<lambda>r. r\<lparr>to_enabled := True, to_confirmed_at := Some now\<rparr>) (ac_totp a),
    ac_codes := filter (\<lambda>r. rc_user_id r \<noteq> uid) (ac_codes a)\<rparr>"
  have a': "a' = fold (insert_code now uid) hs ?a" and "filter (\<lambda>r. to_user_id r = uid) (ac_totp a) \<noteq> []"
    using assms(2) by (auto simp: EnableTOTP_def affected_def Let_def split: if_splits)
  then obtain r where "r \<in> set (ac_totp a)" "to_user_id r = uid" by (auto simp: filter_empty_conv)
  then have "uid \<in> set (user_ids ?a)" using assms(1) by (auto simp: accounts_ok_def owned_def)
  moreover have "accounts_ok ?a" using assms(1) by (auto simp: accounts_ok_def)
  ultimately show ?thesis unfolding a' by (intro fold_insert_code_inv)
qed

end
