(* ===== verification/Access.thy ===== *)
theory Access
  imports StoreAuth
begin

text \<open>
  Who may do what: login throttling (\<open>internal/app/lockout.go\<close>), the role checks (\<open>authz.go\<close>, the bearer
  tokens of \<open>api.go\<close>), sessions, login and bootstrap (\<open>app.go\<close>), the second factor (\<open>mfa.go\<close>) and the
  security policy (\<open>settings.go\<close>).  A handler maps a request and the accounts to an outcome: the reply,
  the cookies it sets, its audit entries (without metadata) and the accounts it leaves.  A request is
  handled at one instant of the server's clock and one of the database's.
\<close>

section \<open>The security policy\<close>

definition hour_ns :: int where "hour_ns = 60 * minute_ns"

record SecuritySettings =
  LoginMaxAttempts :: int
  LoginWindow :: int
  LoginLockout :: int
  SessionAbsoluteTimeout :: int
  SessionIdleTimeout :: int
  LogoutEverywhereKeepsCurrent :: bool

definition durationMinutes :: "int \<Rightarrow> int" where
  "durationMinutes d = (let m = d sdiv minute_ns in if 1 \<le> m then m else 1)"

definition durationHours :: "int \<Rightarrow> int" where
  "durationHours d = (let h = d sdiv hour_ns in if 1 \<le> h then h else 1)"

text \<open>A form is a function from names to values, empty for a missing name.\<close>

type_synonym form = "string \<Rightarrow> string"

definition formValues :: "SecuritySettings \<Rightarrow> form" where
  "formValues s = ((\<lambda>_. [])
    (''login_max_attempts'' := itoa (LoginMaxAttempts s),
     ''login_window_minutes'' := itoa (durationMinutes (LoginWindow s)),
     ''login_lockout_minutes'' := itoa (durationMinutes (LoginLockout s)),
     ''session_idle_minutes'' := itoa (durationMinutes (SessionIdleTimeout s)),
     ''session_absolute_hours'' := itoa (durationHours (SessionAbsoluteTimeout s)),
     ''logout_keeps_current'' := (if LogoutEverywhereKeepsCurrent s then ''on'' else [])))"

definition intInRange :: "string \<Rightarrow> int \<Rightarrow> int \<Rightarrow> int option" where
  "intInRange v lo hi =
    (case Atoi (TrimSpace v) of None \<Rightarrow> None | Some n \<Rightarrow> if n < lo \<or> hi < n then None else Some n)"

definition minutesInRange :: "string \<Rightarrow> int \<Rightarrow> int \<Rightarrow> int option" where
  "minutesInRange v lo hi = map_option (\<lambda>n. wrap64 (n * minute_ns)) (intInRange v lo hi)"

definition hoursInRange :: "string \<Rightarrow> int \<Rightarrow> int \<Rightarrow> int option" where
  "hoursInRange v lo hi = map_option (\<lambda>n. wrap64 (n * hour_ns)) (intInRange v lo hi)"

definition parseSecuritySettingsForm :: "form \<Rightarrow> string + SecuritySettings" where
  "parseSecuritySettingsForm f =
    (case intInRange (f ''login_max_attempts'') 1 100 of
       None \<Rightarrow> Inl ''Maximum failed attempts must be a whole number between 1 and 100.''
     | Some maxAttempts \<Rightarrow>
    (case minutesInRange (f ''login_window_minutes'') 1 1440 of
       None \<Rightarrow> Inl ''Attempt window must be between 1 and 1440 minutes.''
     | Some window \<Rightarrow>
    (case minutesInRange (f ''login_lockout_minutes'') 1 1440 of
       None \<Rightarrow> Inl ''Lockout duration must be between 1 and 1440 minutes.''
     | Some lockout \<Rightarrow>
    (case minutesInRange (f ''session_idle_minutes'') 1 10080 of
       None \<Rightarrow> Inl ''Idle timeout must be between 1 and 10080 minutes.''
     | Some idle \<Rightarrow>
    (case hoursInRange (f ''session_absolute_hours'') 1 720 of
       None \<Rightarrow> Inl ''Absolute timeout must be between 1 and 720 hours.''
     | Some absolute \<Rightarrow>
       if window < lockout then Inl ''Attempt window must be at least as long as the lockout duration.''
       else Inr \<lparr>LoginMaxAttempts = maxAttempts, LoginWindow = window, LoginLockout = lockout,
         SessionAbsoluteTimeout = absolute, SessionIdleTimeout = idle,
         LogoutEverywhereKeepsCurrent = (f ''logout_keeps_current'' \<noteq> [])\<rparr>)))))"

text \<open>\<open>time.Duration.String\<close>.  \<open>frac\<close> prints \<open>v / 10 ^ prec\<close> without trailing zeros.\<close>

definition frac_digits :: "nat \<Rightarrow> nat \<Rightarrow> string" where
  "frac_digits v prec =
    (let ds = rev (dropWhile (\<lambda>c. c = CHR ''0'') (rev (zero_pad prec (v mod 10 ^ prec)))) in if ds = [] then [] else CHR ''.'' # ds)"

definition frac :: "nat \<Rightarrow> nat \<Rightarrow> string" where
  "frac v prec = itoa_nat (v div 10 ^ prec) @ (if prec = 0 then [] else frac_digits v prec)"

definition Duration_String :: "int \<Rightarrow> string" where
  "Duration_String d =
    (let u = nat \<bar>d\<bar>; secs = u div 10 ^ 9;
         tail = itoa_nat (secs mod 60) @ frac_digits u 9 @ ''s'';
         body = (if u = 0 then ''0s''
           else if u < 1000 then frac u 0 @ ''ns''
           else if u < 10 ^ 6 then frac u 3 @ [CHR 0xC2, CHR 0xB5] @ ''s''
           else if u < 10 ^ 9 then frac u 6 @ ''ms''
           else if secs < 60 then tail
           else if secs < 3600 then itoa_nat (secs div 60) @ ''m'' @ tail
           else itoa_nat (secs div 3600) @ ''h'' @ itoa_nat (secs div 60 mod 60) @ ''m'' @ tail) in
     if d < 0 then CHR ''-'' # body else body)"

definition toMap :: "SecuritySettings \<Rightarrow> (string \<times> string) list" where
  "toMap s =
    [(''login_max_attempts'', itoa (LoginMaxAttempts s)), (''login_window'', Duration_String (LoginWindow s)),
     (''login_lockout'', Duration_String (LoginLockout s)),
     (''session_absolute_timeout'', Duration_String (SessionAbsoluteTimeout s)),
     (''session_idle_timeout'', Duration_String (SessionIdleTimeout s)),
     (''logout_everywhere_keeps_current'', if LogoutEverywhereKeepsCurrent s then ''true'' else ''false'')]"

section \<open>Throttling\<close>

record lockout_policy =
  MaxAttempts :: int
  Window :: int
  Cooldown :: int

record lockoutDecision =
  Locked :: bool
  RetryAfter :: int

text \<open>\<open>Time.Sub\<close> saturates at the range of a duration.\<close>

definition time_sub :: "time \<Rightarrow> time \<Rightarrow> int" where
  "time_sub t u = max (- (2 ^ 63)) (min (2 ^ 63 - 1) (t - u))"

definition lockoutForKey :: "lockout_policy \<Rightarrow> nat \<Rightarrow> time \<Rightarrow> time \<Rightarrow> lockoutDecision" where
  "lockoutForKey policy failures lastFailure now =
    (if MaxAttempts policy \<le> 0 \<or> int failures < MaxAttempts policy \<or> lastFailure = zero_time
     then \<lparr>Locked = False, RetryAfter = 0\<rparr>
     else let unlockAt = lastFailure + Cooldown policy in
       if \<not> now < unlockAt then \<lparr>Locked = False, RetryAfter = 0\<rparr>
       else \<lparr>Locked = True, RetryAfter = time_sub unlockAt now\<rparr>)"

definition evaluateLockout :: "lockout_policy \<Rightarrow> LoginFailureStats \<Rightarrow> time \<Rightarrow> lockoutDecision" where
  "evaluateLockout policy stats now =
    (let user = lockoutForKey policy (UserFailures stats) (UserLast stats) now;
         ip = lockoutForKey policy (IPFailures stats) (IPLast stats) now in
     if RetryAfter user < RetryAfter ip then ip else user)"

definition lockoutPolicy :: "SecuritySettings \<Rightarrow> lockout_policy" where
  "lockoutPolicy s = \<lparr>MaxAttempts = LoginMaxAttempts s, Window = LoginWindow s, Cooldown = LoginLockout s\<rparr>"

section \<open>Requests and outcomes\<close>

text \<open>\<open>rq_ip\<close> is \<open>clientIP(r)\<close>, \<open>rq_id\<close> the \<open>id\<close> of the path, \<open>rq_form_ok\<close> whether \<open>ParseForm\<close> succeeds.\<close>

record request =
  rq_method :: string
  rq_path :: string
  rq_id :: string
  rq_form :: form
  rq_form_ok :: bool
  rq_session_cookie :: "string option"
  rq_csrf_cookie :: "string option"
  rq_mfa_cookie :: "string option"
  rq_ip :: string
  rq_user_agent :: string
  rq_authorization :: string

text \<open>\<open>Aborted\<close> is a panic of the handler, which the server turns into a closed connection.\<close>

datatype reply = Redirect string | Status nat | Page string string | Aborted

datatype cookie = SetSession string time | ClearSession | SetMFA string | ClearMFA | SetCSRF string

record entry =
  en_actor :: "string option"
  en_action :: string
  en_subject_type :: string
  en_subject_id :: string

text \<open>\<open>oc_settings\<close> are the settings the server caches from then on, when they change.\<close>

record outcome =
  oc_reply :: reply
  oc_cookies :: "cookie list"
  oc_audit :: "entry list"
  oc_settings :: "SecuritySettings option"
  oc_accounts :: accounts

text \<open>What a handler uses from outside: the cached settings, the clocks, the cryptographic functions, the
  sealer (absent without an encryption key), the values it would draw from the random source, and
  whether the two reads of the login handler fail whose failure it only logs.\<close>

record env =
  ev_settings :: SecuritySettings
  ev_now :: time
  ev_dbnow :: time
  ev_IDKey :: argon2
  ev_sha256 :: "string \<Rightarrow> string"
  ev_hmac :: "string \<Rightarrow> string \<Rightarrow> string"
  ev_sealer :: "aead option"
  ev_nonce :: "string option"
  ev_salt :: "string option"
  ev_id :: "string option"
  ev_session :: "string option"
  ev_csrf :: "string option"
  ev_form_csrf :: "string option"
  ev_secret :: "string option"
  ev_api_secret :: "string option"
  ev_codes :: "string option list"
  ev_recent_fails :: bool
  ev_totp_fails :: bool

definition respond :: "reply \<Rightarrow> accounts \<Rightarrow> outcome" where
  "respond r a = \<lparr>oc_reply = r, oc_cookies = [], oc_audit = [], oc_settings = None, oc_accounts = a\<rparr>"

definition log_entry :: "string option \<Rightarrow> string \<Rightarrow> string \<Rightarrow> string \<Rightarrow> entry" where
  "log_entry actor action subjectType subjectID =
    \<lparr>en_actor = actor, en_action = action, en_subject_type = subjectType, en_subject_id = subjectID\<rparr>"

definition logged :: "reply \<Rightarrow> cookie list \<Rightarrow> entry \<Rightarrow> accounts \<Rightarrow> outcome" where
  "logged r cs x a = \<lparr>oc_reply = r, oc_cookies = cs, oc_audit = [x], oc_settings = None, oc_accounts = a\<rparr>"

section \<open>Sessions\<close>

definition userAgent :: "request \<Rightarrow> string" where
  "userAgent rq = take 255 (TrimSpace (rq_user_agent rq))"

definition idleCutoff :: "env \<Rightarrow> time" where
  "idleCutoff e =
    (let idle = SessionIdleTimeout (ev_settings e) in if idle \<le> 0 then zero_time else ev_now e - idle)"

definition currentSession :: "env \<Rightarrow> request \<Rightarrow> accounts \<Rightarrow> Session option \<times> accounts" where
  "currentSession e rq a =
    (case rq_session_cookie rq of None \<Rightarrow> (None, a)
     | Some v \<Rightarrow>
        if v = [] then (None, a)
        else (case GetSession (ev_dbnow e) v (idleCutoff e) a of
            (Inl _, a') \<Rightarrow> (None, a') | (Inr s, a') \<Rightarrow> (Some s, a')))"

text \<open>\<open>requireSession\<close> and \<open>requireAdmin\<close> take the rest of the handler as an argument.\<close>

definition requireSession :: "env \<Rightarrow> request \<Rightarrow> (Session \<Rightarrow> accounts \<Rightarrow> outcome) \<Rightarrow> accounts \<Rightarrow> outcome" where
  "requireSession e rq handler a =
    (case currentSession e rq a of (None, a') \<Rightarrow> respond (Redirect ''/login'') a' | (Some s, a') \<Rightarrow> handler s a')"

definition requireAdmin :: "env \<Rightarrow> request \<Rightarrow> (Session \<Rightarrow> accounts \<Rightarrow> outcome) \<Rightarrow> accounts \<Rightarrow> outcome" where
  "requireAdmin e rq handler = requireSession e rq (\<lambda>s a.
     if \<not> User_IsAdmin (Session_User s) then respond (Status 403) a else handler s a)"

definition establishSession :: "env \<Rightarrow> request \<Rightarrow> string \<Rightarrow> accounts \<Rightarrow> cookie list \<times> accounts" where
  "establishSession e rq userID a =
    (let expiresAt = ev_now e + SessionAbsoluteTimeout (ev_settings e) in
     case CreateSession (ev_dbnow e) (ev_session e) (ev_csrf e) userID expiresAt (rq_ip rq) (userAgent rq) a of
       Inl _ \<Rightarrow> ([], a)
     | Inr (session, a') \<Rightarrow> ([SetSession (Session_ID session) expiresAt], a'))"

definition verifyFormCSRF :: "request \<Rightarrow> bool" where
  "verifyFormCSRF rq =
    (case rq_csrf_cookie rq of None \<Rightarrow> False | Some v \<Rightarrow> v \<noteq> [] \<and> v = rq_form rq ''csrf_token'')"

definition verifySessionCSRF :: "request \<Rightarrow> Session \<Rightarrow> bool" where
  "verifySessionCSRF rq s \<longleftrightarrow> Session_CSRFToken s \<noteq> [] \<and> Session_CSRFToken s = rq_form rq ''csrf_token''"

section \<open>Roles\<close>

definition canWrite :: "string \<Rightarrow> bool" where "canWrite role \<longleftrightarrow> role = RoleAdmin"

definition publicWritePath :: "string \<Rightarrow> bool" where
  "publicWritePath path \<longleftrightarrow> path \<in> {''/login'', ''/logout'', ''/bootstrap''}"

definition isAccountPath :: "string \<Rightarrow> bool" where
  "isAccountPath path \<longleftrightarrow> path = ''/account'' \<or>
    (length ''/account/'' < length path \<and> take (length ''/account/'') path = ''/account/'')"

definition safeMethod :: "string \<Rightarrow> bool" where
  "safeMethod m \<longleftrightarrow> m \<in> {''GET'', ''HEAD'', ''OPTIONS''}"

definition authorize :: "env \<Rightarrow> request \<Rightarrow> (accounts \<Rightarrow> outcome) \<Rightarrow> accounts \<Rightarrow> outcome" where
  "authorize e rq next a =
    (if safeMethod (rq_method rq) \<or> publicWritePath (rq_path rq) \<or> isAccountPath (rq_path rq) then next a
     else (case currentSession e rq a of
        (Some s, a') \<Rightarrow> if \<not> canWrite (User_Role (Session_User s)) then respond (Status 403) a' else next a'
      | (None, a') \<Rightarrow> next a'))"

definition authenticateAPI :: "env \<Rightarrow> request \<Rightarrow> accounts \<Rightarrow> User option \<times> accounts" where
  "authenticateAPI e rq a =
    (let header = rq_authorization rq; n = length ''Bearer '' in
     if length header \<le> n \<or> ToLower (take n header) \<noteq> ToLower ''Bearer '' then (None, a)
     else let token = TrimSpace (drop n header) in
       if token = [] then (None, a)
       else (case AuthenticateAPIToken (ev_dbnow e) (HashToken (ev_sha256 e) token) a of
           (Inl _, a') \<Rightarrow> (None, a') | (Inr u, a') \<Rightarrow> (Some u, a')))"

definition apiHandler :: "env \<Rightarrow> request \<Rightarrow> bool \<Rightarrow> (User \<Rightarrow> accounts \<Rightarrow> outcome) \<Rightarrow> accounts \<Rightarrow> outcome" where
  "apiHandler e rq write handler a =
    (case authenticateAPI e rq a of
       (None, a') \<Rightarrow> respond (Status 401) a'
     | (Some u, a') \<Rightarrow> if write \<and> \<not> canWrite (User_Role u) then respond (Status 403) a' else handler u a')"

section \<open>Bootstrap and login\<close>

definition minPasswordLength :: nat where "minPasswordLength = 12"

definition needsBootstrap :: "accounts \<Rightarrow> bool" where "needsBootstrap a \<longleftrightarrow> CountAdmins a = 0"

definition bootstrapSubmit :: "env \<Rightarrow> request \<Rightarrow> accounts \<Rightarrow> outcome" where
  "bootstrapSubmit e rq a =
    (if \<not> needsBootstrap a then respond (Redirect ''/login'') a
     else if \<not> verifyFormCSRF rq then respond (Status 403) a
     else if \<not> rq_form_ok rq then respond (Status 400) a
     else
      let username = TrimSpace (rq_form rq ''username''); dn = TrimSpace (rq_form rq ''display_name'');
          password = rq_form rq ''password''; displayName = (if dn = [] then username else dn);
          bad = (\<lambda>msg. \<lparr>oc_reply = Page ''bootstrap.html'' msg,
                   oc_cookies = [SetCSRF (case ev_form_csrf e of None \<Rightarrow> [] | Some c \<Rightarrow> c)], oc_audit = [], oc_settings = None, oc_accounts = a\<rparr>) in
      if username = [] \<or> length password < 12 then bad ''Use a username and a password with at least 12 characters.''
      else (case HashPassword (ev_IDKey e) (ev_salt e) password of None \<Rightarrow> respond (Status 500) a
       | Some hash \<Rightarrow>
         (case CreateAdmin (ev_dbnow e) (ev_id e) username displayName hash a of
            Inl _ \<Rightarrow> bad ''Unable to create the admin account. Try a different username.''
          | Inr (user, a1) \<Rightarrow>
             let (cs, a2) = establishSession e rq (User_ID user) a1 in
             logged (Redirect ''/'') cs (log_entry (Some (User_ID user)) ''admin.bootstrap.created'' ''user'' (User_ID user)) a2)))"

definition mfaChallengeTTL :: int where "mfaChallengeTTL = 5 * minute_ns"

text \<open>\<open>None\<close> when the challenge cannot be sealed.\<close>

definition startMFAChallenge :: "env \<Rightarrow> string \<Rightarrow> cookie list option" where
  "startMFAChallenge e userID =
    (case ev_sealer e of None \<Rightarrow> None
     | Some sl \<Rightarrow>
        (case Seal sl (ev_nonce e) (userID @ '':'' @ itoa ((ev_now e + mfaChallengeTTL) div second_ns)) of None \<Rightarrow> None
         | Some token \<Rightarrow> Some [SetMFA token, SetCSRF (case ev_form_csrf e of None \<Rightarrow> [] | Some c \<Rightarrow> c)]))"

definition pendingMFAUser :: "env \<Rightarrow> request \<Rightarrow> string option" where
  "pendingMFAUser e rq =
    (case (ev_sealer e, rq_mfa_cookie rq) of
       (Some sl, Some v) \<Rightarrow>
         if v = [] then None
         else (case Open sl v of None \<Rightarrow> None
          | Some payload \<Rightarrow>
            (case cut_first (CHR '':'') payload of None \<Rightarrow> None
             | Some (userID, expiry) \<Rightarrow>
               (case Atoi expiry of None \<Rightarrow> None
                | Some unix \<Rightarrow> if unix < ev_now e div second_ns then None else Some userID)))
     | _ \<Rightarrow> None)"

definition login_failed :: "env \<Rightarrow> string \<Rightarrow> string \<Rightarrow> string option \<Rightarrow> accounts \<Rightarrow> outcome" where
  "login_failed e username ip actor a =
    logged (Page ''login.html'' ''The username or password is incorrect.'') [] (log_entry actor ''auth.login.failed'' ''user'' username)
      (RecordLoginFailure (ev_dbnow e) username ip a)"

definition loginSubmit :: "env \<Rightarrow> request \<Rightarrow> accounts \<Rightarrow> outcome" where
  "loginSubmit e rq a =
    (if \<not> verifyFormCSRF rq then respond (Status 403) a
     else if \<not> rq_form_ok rq then respond (Status 400) a
     else
      let username = TrimSpace (rq_form rq ''username''); password = rq_form rq ''password''; ip = rq_ip rq; now = ev_now e;
          policy = lockoutPolicy (ev_settings e);
          stats = (if ev_recent_fails e then \<lparr>UserFailures = 0, UserLast = zero_time, IPFailures = 0, IPLast = zero_time\<rparr>
                   else RecentLoginFailures username ip (now - Window policy) a) in
      if Locked (evaluateLockout policy stats now)
      then logged (Status 429) [] (log_entry None ''auth.login.locked'' ''user'' username) a
      else (case FindUserByUsername username a of
         Inl _ \<Rightarrow> login_failed e username ip None a
       | Inr user \<Rightarrow>
         if \<not> VerifyPassword (ev_IDKey e) (User_PasswordHash user) password
         then login_failed e username ip (Some (User_ID user)) a
         else
          let a1 = ClearLoginFailures username a in
          if \<not> ev_totp_fails e \<and> TOTPEnabled (User_ID user) a1 then
            (case startMFAChallenge e (User_ID user) of
               Some cs \<Rightarrow> \<lparr>oc_reply = Redirect ''/login/mfa'', oc_cookies = cs, oc_audit = [], oc_settings = None, oc_accounts = a1\<rparr>
             | None \<Rightarrow> respond (Page ''login.html'' ''Unable to start two-factor verification. Please try again.'') a1)
          else
           let (cs, a2) = establishSession e rq (User_ID user) a1 in
           logged (Redirect ''/'') cs (log_entry (Some (User_ID user)) ''auth.login'' ''user'' (User_ID user)) a2))"

definition logout :: "env \<Rightarrow> request \<Rightarrow> accounts \<Rightarrow> outcome" where
  "logout e rq a =
    (case currentSession e rq a of
       (Some s, a1) \<Rightarrow>
         if rq_form rq ''csrf_token'' = Session_CSRFToken s then
           logged (Redirect ''/login'') [ClearSession]
             (log_entry (Some (User_ID (Session_User s))) ''auth.logout'' ''user'' (User_ID (Session_User s)))
             (DeleteSession (Session_ID s) a1)
         else \<lparr>oc_reply = Redirect ''/login'', oc_cookies = [ClearSession], oc_audit = [], oc_settings = None, oc_accounts = a1\<rparr>
     | (None, a1) \<Rightarrow> \<lparr>oc_reply = Redirect ''/login'', oc_cookies = [ClearSession], oc_audit = [], oc_settings = None, oc_accounts = a1\<rparr>)"

end
