(* ===== verification/Accounts.thy ===== *)
theory Accounts
  imports Access
begin

text \<open>
  The pages that change accounts: user administration (\<open>internal/app/users.go\<close>), a user's own account
  (\<open>account.go\<close>, \<open>account_tokens.go\<close>), the second factor (\<open>mfa.go\<close>), log out everywhere and the settings
  forms (\<open>app.go\<close>, \<open>settings.go\<close>).  Every request is one step; the steps together keep the invariant of the
  accounts and never remove the last administrator.
\<close>

section \<open>User administration\<close>

definition users_page :: "string \<Rightarrow> accounts \<Rightarrow> outcome" where
  "users_page msg a = respond (Page ''settings.html'' msg) a"

definition userCreate :: "env \<Rightarrow> request \<Rightarrow> accounts \<Rightarrow> outcome" where
  "userCreate e rq = requireAdmin e rq (\<lambda>s a.
    if \<not> verifySessionCSRF rq s then respond (Status 403) a
    else if \<not> rq_form_ok rq then respond (Status 400) a
    else
     let username = TrimSpace (rq_form rq ''username''); dn = TrimSpace (rq_form rq ''display_name'');
         password = rq_form rq ''password''; role = TrimSpace (rq_form rq ''role'');
         displayName = (if dn = [] then username else dn) in
     if username = [] \<or> length password < minPasswordLength
     then users_page ''Use a username and a password with at least 12 characters.'' a
     else if \<not> ValidRole role then users_page ''Choose a valid role.'' a
     else (case HashPassword (ev_IDKey e) (ev_salt e) password of None \<Rightarrow> respond (Status 500) a
      | Some hash \<Rightarrow>
        (case CreateUser (ev_dbnow e) (ev_id e) username displayName hash role a of
           Inl _ \<Rightarrow> users_page ''Unable to create the user. The username may already be taken.'' a
         | Inr (user, a1) \<Rightarrow> logged (Redirect ''/settings/users?notice=created'') []
             (log_entry (Some (User_ID (Session_User s))) ''user.created'' ''user'' (User_ID user)) a1)))"

definition loadManagedUser :: "env \<Rightarrow> request \<Rightarrow> (Session \<Rightarrow> User \<Rightarrow> accounts \<Rightarrow> outcome) \<Rightarrow> accounts \<Rightarrow> outcome" where
  "loadManagedUser e rq handler = requireAdmin e rq (\<lambda>s a.
    case GetUser (rq_id rq) a of
      Inl err \<Rightarrow> respond (Status (if err = ErrNotFound then 404 else 500)) a
    | Inr target \<Rightarrow> handler s target a)"

definition isLastAdmin :: "accounts \<Rightarrow> bool" where "isLastAdmin a \<longleftrightarrow> CountAdmins a \<le> 1"

definition userSetRole :: "env \<Rightarrow> request \<Rightarrow> accounts \<Rightarrow> outcome" where
  "userSetRole e rq = loadManagedUser e rq (\<lambda>s target a.
    if \<not> verifySessionCSRF rq s then respond (Status 403) a
    else
     let role = TrimSpace (rq_form rq ''role'') in
     if \<not> ValidRole role then users_page ''Choose a valid role.'' a
     else if User_IsAdmin target \<and> role \<noteq> RoleAdmin \<and> isLastAdmin a
     then users_page ''You cannot remove the last admin. Promote another user first.'' a
     else (case SetUserRole (ev_dbnow e) (User_ID target) role a of
         Inl _ \<Rightarrow> respond (Status 500) a
       | Inr a1 \<Rightarrow> logged (Redirect ''/settings/users?notice=updated'') []
           (log_entry (Some (User_ID (Session_User s))) ''user.role.updated'' ''user'' (User_ID target)) a1))"

definition userResetPassword :: "env \<Rightarrow> request \<Rightarrow> accounts \<Rightarrow> outcome" where
  "userResetPassword e rq = loadManagedUser e rq (\<lambda>s target a.
    if \<not> verifySessionCSRF rq s then respond (Status 403) a
    else
     let password = rq_form rq ''password'' in
     if length password < minPasswordLength then users_page ''New password must be at least 12 characters.'' a
     else (case HashPassword (ev_IDKey e) (ev_salt e) password of None \<Rightarrow> respond (Status 500) a
      | Some hash \<Rightarrow>
         logged (Redirect ''/settings/users?notice=password'') []
           (log_entry (Some (User_ID (Session_User s))) ''user.password.reset'' ''user'' (User_ID target))
           (snd (DeleteUserSessions (User_ID target) (SetUserPassword (ev_dbnow e) (User_ID target) hash a)))))"

definition userDelete :: "env \<Rightarrow> request \<Rightarrow> accounts \<Rightarrow> outcome" where
  "userDelete e rq = loadManagedUser e rq (\<lambda>s target a.
    if \<not> verifySessionCSRF rq s then respond (Status 403) a
    else if User_ID target = User_ID (Session_User s) then users_page ''You cannot delete your own account.'' a
    else if User_IsAdmin target \<and> isLastAdmin a then users_page ''You cannot delete the last admin.'' a
    else logged (Redirect ''/settings/users?notice=deleted'') []
      (log_entry (Some (User_ID (Session_User s))) ''user.deleted'' ''user'' (User_ID target)) (DeleteUser (User_ID target) a))"

section \<open>A user's own account\<close>

definition account_page :: "string \<Rightarrow> accounts \<Rightarrow> outcome" where
  "account_page msg a = respond (Page ''account.html'' msg) a"

definition accountChangePassword :: "env \<Rightarrow> request \<Rightarrow> accounts \<Rightarrow> outcome" where
  "accountChangePassword e rq = requireSession e rq (\<lambda>s a.
    if \<not> verifySessionCSRF rq s then respond (Status 403) a
    else if \<not> rq_form_ok rq then respond (Status 400) a
    else
     let current = rq_form rq ''current_password''; next = rq_form rq ''new_password''; confirm = rq_form rq ''confirm_password'';
         uid = User_ID (Session_User s) in
     (case GetUser uid a of Inl _ \<Rightarrow> respond (Status 500) a
      | Inr user \<Rightarrow>
        if \<not> VerifyPassword (ev_IDKey e) (User_PasswordHash user) current then account_page ''Your current password is incorrect.'' a
        else if length next < minPasswordLength then account_page ''New password must be at least 12 characters.'' a
        else if next \<noteq> confirm then account_page ''The new passwords do not match.'' a
        else (case HashPassword (ev_IDKey e) (ev_salt e) next of None \<Rightarrow> respond (Status 500) a
         | Some hash \<Rightarrow>
            logged (Redirect ''/account?notice=password'') [] (log_entry (Some uid) ''auth.password.changed'' ''user'' uid)
              (snd (DeleteOtherUserSessions uid (Session_ID s) (SetUserPassword (ev_dbnow e) uid hash a))))))"

definition accountLogoutAll :: "env \<Rightarrow> request \<Rightarrow> accounts \<Rightarrow> outcome" where
  "accountLogoutAll e rq = requireSession e rq (\<lambda>s a.
    if \<not> verifySessionCSRF rq s then respond (Status 403) a
    else
     let uid = User_ID (Session_User s) in
     logged (Redirect ''/account?notice=revoked'') [] (log_entry (Some uid) ''session.revoked_all'' ''user'' uid)
       (snd (DeleteOtherUserSessions uid (Session_ID s) a)))"

definition logoutEverywhere :: "env \<Rightarrow> request \<Rightarrow> accounts \<Rightarrow> outcome" where
  "logoutEverywhere e rq = requireSession e rq (\<lambda>s a.
    if \<not> verifySessionCSRF rq s then respond (Status 403) a
    else
     let uid = User_ID (Session_User s); x = log_entry (Some uid) ''session.revoked_all'' ''user'' uid in
     if LogoutEverywhereKeepsCurrent (ev_settings e)
     then logged (Redirect ''/settings/security?notice=revoked'') [] x (snd (DeleteOtherUserSessions uid (Session_ID s) a))
     else logged (Redirect ''/login'') [ClearSession] x (snd (DeleteUserSessions uid a)))"

definition apiTokenPrefix :: string where "apiTokenPrefix = ''lipam_''"

definition accountTokenCreate :: "env \<Rightarrow> request \<Rightarrow> accounts \<Rightarrow> outcome" where
  "accountTokenCreate e rq = requireSession e rq (\<lambda>s a.
    if \<not> canWrite (User_Role (Session_User s)) then respond (Status 403) a
    else if \<not> verifySessionCSRF rq s then respond (Status 403) a
    else if \<not> rq_form_ok rq then respond (Status 400) a
    else
     let name = TrimSpace (rq_form rq ''name''); uid = User_ID (Session_User s) in
     if name = [] then account_page ''Give the token a name so you can recognize it later.'' a
     else (case ev_api_secret e of None \<Rightarrow> respond (Status 500) a
      | Some secret \<Rightarrow>
        (case CreateAPIToken (ev_dbnow e) (ev_id e) uid name (HashToken (ev_sha256 e) (apiTokenPrefix @ secret)) a of
           (Inl _, a1) \<Rightarrow> account_page ''Unable to create the token. Please try again.'' a1
         | (Inr _, a1) \<Rightarrow> logged (Page ''account.html'' []) [] (log_entry (Some uid) ''auth.api_token.created'' ''user'' uid) a1)))"

definition accountTokenDelete :: "env \<Rightarrow> request \<Rightarrow> accounts \<Rightarrow> outcome" where
  "accountTokenDelete e rq = requireSession e rq (\<lambda>s a.
    if \<not> verifySessionCSRF rq s then respond (Status 403) a
    else
     let uid = User_ID (Session_User s) in
     (case DeleteAPIToken (rq_id rq) uid a of
        Inl _ \<Rightarrow> respond (Redirect ''/account?notice=token_revoked'') a
      | Inr a1 \<Rightarrow> logged (Redirect ''/account?notice=token_revoked'') [] (log_entry (Some uid) ''auth.api_token.revoked'' ''user'' uid) a1))"

section \<open>The second factor\<close>

definition unix_now :: "env \<Rightarrow> int" where "unix_now e = ev_now e div second_ns"

definition mfaChallengeSubmit :: "env \<Rightarrow> request \<Rightarrow> accounts \<Rightarrow> outcome" where
  "mfaChallengeSubmit e rq a =
    (if \<not> verifyFormCSRF rq then respond (Status 403) a
     else (case (pendingMFAUser e rq, ev_sealer e) of
       (Some userID, Some sl) \<Rightarrow>
        if \<not> rq_form_ok rq then respond (Status 400) a
        else
         let code = TrimSpace (rq_form rq ''code'') in
         (case GetUserTOTP userID a of Inl _ \<Rightarrow> respond (Redirect ''/login'') a
          | Inr enrollment \<Rightarrow>
            if \<not> UserTOTP_Enabled enrollment then respond (Redirect ''/login'') a
            else (case Open sl (UserTOTP_Secret enrollment) of
               None \<Rightarrow> respond (Page ''mfa_challenge.html'' ''Unable to verify the code. Please try again.'') a
             | Some secret \<Rightarrow>
               let byCode = VerifyTOTP (ev_hmac e) secret code (unix_now e);
                   (byRecovery, a1) = (if byCode then (False, a)
                     else ConsumeRecoveryCode (ev_dbnow e) userID (HashRecoveryCode (ev_sha256 e) code) a) in
               if \<not> byCode \<and> \<not> byRecovery
               then logged (Page ''mfa_challenge.html'' ''That code is incorrect or expired.'') []
                 (log_entry (Some userID) ''auth.mfa.failed'' ''user'' userID) a1
               else let (cs, a2) = establishSession e rq userID a1 in
                 logged (Redirect ''/'') (ClearMFA # cs)
                   (log_entry (Some userID) (if byRecovery then ''auth.mfa.recovery_used'' else ''auth.mfa.success'') ''user'' userID) a2))
     | _ \<Rightarrow> respond (Redirect ''/login'') a))"

text \<open>\<open>GET /account/mfa\<close> stores a pending secret unless one can be read.\<close>

definition mfaSettings :: "env \<Rightarrow> request \<Rightarrow> accounts \<Rightarrow> outcome" where
  "mfaSettings e rq = requireSession e rq (\<lambda>s a.
    case ev_sealer e of None \<Rightarrow> respond (Status 503) a
    | Some sl \<Rightarrow>
      let uid = User_ID (Session_User s); enrollment = GetUserTOTP uid a;
          page = respond (Page ''mfa_settings.html'' []);
          known = (case enrollment of Inl _ \<Rightarrow> []
            | Inr t \<Rightarrow> if UserTOTP_Secret t = [] then [] else (case Open sl (UserTOTP_Secret t) of None \<Rightarrow> [] | Some v \<Rightarrow> v)) in
      if (case enrollment of Inl _ \<Rightarrow> False | Inr t \<Rightarrow> UserTOTP_Enabled t) \<or> known \<noteq> [] then page a
      else (case ev_secret e of None \<Rightarrow> respond (Status 500) a
       | Some secret \<Rightarrow>
         (case Seal sl (ev_nonce e) secret of None \<Rightarrow> respond (Status 500) a
          | Some sealed \<Rightarrow>
            (case StartTOTPEnrollment (ev_dbnow e) uid sealed a of Inl _ \<Rightarrow> respond (Status 500) a | Inr a1 \<Rightarrow> page a1))))"

definition recoveryCodeQty :: nat where "recoveryCodeQty = 10"

definition mfaEnable :: "env \<Rightarrow> request \<Rightarrow> accounts \<Rightarrow> outcome" where
  "mfaEnable e rq = requireSession e rq (\<lambda>s a.
    if \<not> verifySessionCSRF rq s then respond (Status 403) a
    else (case ev_sealer e of None \<Rightarrow> respond (Status 503) a
     | Some sl \<Rightarrow>
       let uid = User_ID (Session_User s) in
       (case GetUserTOTP uid a of Inl _ \<Rightarrow> respond (Redirect ''/account/mfa'') a
        | Inr enrollment \<Rightarrow>
          if UserTOTP_Enabled enrollment then respond (Redirect ''/account/mfa'') a
          else (case Open sl (UserTOTP_Secret enrollment) of None \<Rightarrow> respond (Status 500) a
           | Some secret \<Rightarrow>
             if \<not> VerifyTOTP (ev_hmac e) secret (TrimSpace (rq_form rq ''code'')) (unix_now e)
             then respond (Page ''mfa_settings.html'' ''That code didn't match. Make sure your device clock is correct and try again.'') a
             else (case GenerateRecoveryCodes (take recoveryCodeQty (ev_codes e)) of None \<Rightarrow> respond (Status 500) a
              | Some codes \<Rightarrow>
                (case EnableTOTP (ev_dbnow e) uid (map (HashRecoveryCode (ev_sha256 e)) codes) a of
                   Inl _ \<Rightarrow> respond (Status 500) a
                 | Inr a1 \<Rightarrow> logged (Page ''mfa_settings.html'' []) [] (log_entry (Some uid) ''auth.mfa.enabled'' ''user'' uid) a1))))))"

text \<open>\<open>mfaDisable\<close> uses the sealer without a check: without one, opening a stored secret panics.\<close>

definition mfaDisable :: "env \<Rightarrow> request \<Rightarrow> accounts \<Rightarrow> outcome" where
  "mfaDisable e rq = requireSession e rq (\<lambda>s a.
    if \<not> verifySessionCSRF rq s then respond (Status 403) a
    else
     let uid = User_ID (Session_User s) in
     (case GetUserTOTP uid a of Inl _ \<Rightarrow> respond (Redirect ''/account/mfa'') a
      | Inr enrollment \<Rightarrow>
        if \<not> UserTOTP_Enabled enrollment then respond (Redirect ''/account/mfa'') a
        else if ev_sealer e = None \<and> UserTOTP_Secret enrollment \<noteq> [] then respond Aborted a
        else
         let code = TrimSpace (rq_form rq ''code'');
             secret = (case ev_sealer e of None \<Rightarrow> [] | Some sl \<Rightarrow> (case Open sl (UserTOTP_Secret enrollment) of None \<Rightarrow> [] | Some v \<Rightarrow> v));
             byCode = (secret \<noteq> [] \<and> VerifyTOTP (ev_hmac e) secret code (unix_now e));
             (byRecovery, a1) = (if byCode then (False, a)
               else ConsumeRecoveryCode (ev_dbnow e) uid (HashRecoveryCode (ev_sha256 e) code) a) in
         if \<not> byCode \<and> \<not> byRecovery then account_page ''Enter a current code to turn off two-factor.'' a1
         else logged (Redirect ''/account?notice=mfa_off'') [] (log_entry (Some uid) ''auth.mfa.disabled'' ''user'' uid)
           (DisableTOTP uid a1)))"

section \<open>Settings\<close>

definition settingsSecurityUpdate :: "env \<Rightarrow> request \<Rightarrow> accounts \<Rightarrow> outcome" where
  "settingsSecurityUpdate e rq = requireAdmin e rq (\<lambda>s a.
    if \<not> verifySessionCSRF rq s then respond (Status 403) a
    else if \<not> rq_form_ok rq then respond (Status 400) a
    else (case parseSecuritySettingsForm (rq_form rq) of
        Inl msg \<Rightarrow> respond (Page ''settings.html'' msg) a
      | Inr settings \<Rightarrow> (logged (Redirect ''/settings/security?notice=saved'') []
          (log_entry (Some (User_ID (Session_User s))) ''settings.security.updated'' ''settings'' ''security'')
          (SetAppSettings (toMap settings) a))\<lparr>oc_settings := Some settings\<rparr>))"

definition parseDiscoverySettingsForm :: "form \<Rightarrow> (string \<times> string) list" where
  "parseDiscoverySettingsForm f = [(SettingDeviceLinkAutoSerial, if f ''auto_link_serial'' \<noteq> [] then ''true'' else ''false'')]"

definition settingsDiscoveryUpdate :: "env \<Rightarrow> request \<Rightarrow> accounts \<Rightarrow> outcome" where
  "settingsDiscoveryUpdate e rq = requireAdmin e rq (\<lambda>s a.
    if \<not> verifySessionCSRF rq s then respond (Status 403) a
    else if \<not> rq_form_ok rq then respond (Status 400) a
    else logged (Redirect ''/settings/discovery?notice=saved'') []
      (log_entry (Some (User_ID (Session_User s))) ''settings.discovery.updated'' ''settings'' ''discovery'')
      (SetAppSettings (parseDiscoverySettingsForm (rq_form rq)) a))"

section \<open>What every request keeps\<close>

text \<open>A condition the operations of the store keep.  A role change and a deletion are promised only what
  the handlers check before them.\<close>

locale account_frame =
  fixes I :: "accounts \<Rightarrow> bool"
  assumes GetSession: "\<And>a now k c r a'. I a \<Longrightarrow> GetSession now k c a = (r, a') \<Longrightarrow> I a'"
    and DeleteSession: "\<And>a k. I a \<Longrightarrow> I (DeleteSession k a)"
    and DeleteUserSessions: "\<And>a u. I a \<Longrightarrow> I (snd (DeleteUserSessions u a))"
    and DeleteOtherUserSessions: "\<And>a u k. I a \<Longrightarrow> I (snd (DeleteOtherUserSessions u k a))"
    and RecordLoginFailure: "\<And>a now u ip. I a \<Longrightarrow> I (RecordLoginFailure now u ip a)"
    and ClearLoginFailures: "\<And>a u. I a \<Longrightarrow> I (ClearLoginFailures u a)"
    and CreateUser: "\<And>a now tok u n h role r a'. I a \<Longrightarrow> CreateUser now tok u n h role a = Inr (r, a') \<Longrightarrow> I a'"
    and SetUserRole: "\<And>a now k role u a'. I a \<Longrightarrow> GetUser k a = Inr u \<Longrightarrow>
      (User_IsAdmin u \<and> role \<noteq> RoleAdmin \<longrightarrow> 1 < CountAdmins a) \<Longrightarrow> SetUserRole now k role a = Inr a' \<Longrightarrow> I a'"
    and SetUserPassword: "\<And>a now k h. I a \<Longrightarrow> I (SetUserPassword now k h a)"
    and DeleteUser: "\<And>a k u. I a \<Longrightarrow> GetUser k a = Inr u \<Longrightarrow> (User_IsAdmin u \<longrightarrow> 1 < CountAdmins a) \<Longrightarrow> I (DeleteUser k a)"
    and SetAppSettings: "\<And>a kvs. I a \<Longrightarrow> I (SetAppSettings kvs a)"
    and CreateAPIToken: "\<And>a now tok u n h r a'. I a \<Longrightarrow> CreateAPIToken now tok u n h a = (r, a') \<Longrightarrow> I a'"
    and DeleteAPIToken: "\<And>a k u a'. I a \<Longrightarrow> DeleteAPIToken k u a = Inr a' \<Longrightarrow> I a'"
    and StartTOTPEnrollment: "\<And>a now u s a'. I a \<Longrightarrow> StartTOTPEnrollment now u s a = Inr a' \<Longrightarrow> I a'"
    and EnableTOTP: "\<And>a now u hs a'. I a \<Longrightarrow> EnableTOTP now u hs a = Inr a' \<Longrightarrow> I a'"
    and DisableTOTP: "\<And>a u. I a \<Longrightarrow> I (DisableTOTP u a)"
    and ConsumeRecoveryCode: "\<And>a now u h b a'. I a \<Longrightarrow> ConsumeRecoveryCode now u h a = (b, a') \<Longrightarrow> I a'"
begin

lemma currentSession: "I a \<Longrightarrow> currentSession e rq a = (s, a') \<Longrightarrow> I a'"
  by (auto simp: currentSession_def split: option.splits if_splits sum.splits prod.splits intro: GetSession)

lemma requireSession:
  assumes "I a" "\<And>s a. I a \<Longrightarrow> I (oc_accounts (h s a))"
  shows "I (oc_accounts (requireSession e rq h a))"
  using assms currentSession [OF assms(1)] by (auto simp: requireSession_def respond_def split: option.splits prod.splits)

lemma requireAdmin:
  assumes "I a" "\<And>s a. I a \<Longrightarrow> I (oc_accounts (h s a))"
  shows "I (oc_accounts (requireAdmin e rq h a))"
  using assms by (auto simp: requireAdmin_def respond_def intro!: requireSession)

lemma loadManagedUser:
  assumes "I a" "\<And>s u a. I a \<Longrightarrow> GetUser (User_ID u) a = Inr u \<Longrightarrow> I (oc_accounts (h s u a))"
  shows "I (oc_accounts (loadManagedUser e rq h a))"
proof -
  have "User_ID u = rq_id rq" if "GetUser (rq_id rq) b = Inr u" for u b
    using that by (auto simp: GetUser_def user_of_row_def find_Some_iff split: option.splits)
  then show ?thesis using assms by (auto simp: loadManagedUser_def respond_def intro!: requireAdmin split: sum.splits)
qed

lemmas page_defs = respond_def logged_def users_page_def account_page_def Let_def

lemma administration:
  assumes "I a"
  shows "I (oc_accounts (userCreate e rq a))" "I (oc_accounts (userSetRole e rq a))"
    "I (oc_accounts (userResetPassword e rq a))" "I (oc_accounts (userDelete e rq a))"
    "I (oc_accounts (settingsSecurityUpdate e rq a))" "I (oc_accounts (settingsDiscoveryUpdate e rq a))"
proof -
  show "I (oc_accounts (userCreate e rq a))"
    unfolding userCreate_def using assms
    by (rule requireAdmin) (auto simp: page_defs split: option.splits sum.splits intro: CreateUser)
  show "I (oc_accounts (userSetRole e rq a))"
    unfolding userSetRole_def using assms
    by (rule loadManagedUser) (auto simp: page_defs isLastAdmin_def split: sum.splits intro: SetUserRole)
  show "I (oc_accounts (userResetPassword e rq a))"
    unfolding userResetPassword_def using assms
    by (rule loadManagedUser) (auto simp: page_defs split: option.splits intro!: DeleteUserSessions SetUserPassword)
  show "I (oc_accounts (userDelete e rq a))"
    unfolding userDelete_def using assms
    by (rule loadManagedUser) (auto simp: page_defs isLastAdmin_def intro: DeleteUser)
  show "I (oc_accounts (settingsSecurityUpdate e rq a))"
    unfolding settingsSecurityUpdate_def using assms
    by (rule requireAdmin) (auto simp: page_defs split: sum.splits intro: SetAppSettings)
  show "I (oc_accounts (settingsDiscoveryUpdate e rq a))"
    unfolding settingsDiscoveryUpdate_def using assms
    by (rule requireAdmin) (auto simp: page_defs intro: SetAppSettings)
qed

lemma own_account:
  assumes "I a"
  shows "I (oc_accounts (accountChangePassword e rq a))" "I (oc_accounts (accountLogoutAll e rq a))"
    "I (oc_accounts (logoutEverywhere e rq a))" "I (oc_accounts (accountTokenCreate e rq a))"
    "I (oc_accounts (accountTokenDelete e rq a))" "I (oc_accounts (logout e rq a))"
proof -
  show "I (oc_accounts (accountChangePassword e rq a))"
    unfolding accountChangePassword_def using assms
    by (rule requireSession)
      (auto simp: page_defs split: option.splits sum.splits intro!: DeleteOtherUserSessions SetUserPassword)
  show "I (oc_accounts (accountLogoutAll e rq a))"
    unfolding accountLogoutAll_def using assms
    by (rule requireSession) (auto simp: page_defs intro!: DeleteOtherUserSessions)
  show "I (oc_accounts (logoutEverywhere e rq a))"
    unfolding logoutEverywhere_def using assms
    by (rule requireSession) (auto simp: page_defs intro!: DeleteOtherUserSessions DeleteUserSessions)
  show "I (oc_accounts (accountTokenCreate e rq a))"
    unfolding accountTokenCreate_def using assms
    by (rule requireSession) (auto simp: page_defs split: option.splits sum.splits prod.splits intro: CreateAPIToken)
  show "I (oc_accounts (accountTokenDelete e rq a))"
    unfolding accountTokenDelete_def using assms
    by (rule requireSession) (auto simp: page_defs split: sum.splits intro: DeleteAPIToken)
  show "I (oc_accounts (logout e rq a))"
    using currentSession [OF assms]
    by (auto simp: logout_def page_defs split: prod.splits option.splits intro!: DeleteSession)
qed

lemma second_factor:
  assumes "I a"
  shows "I (oc_accounts (mfaSettings e rq a))" "I (oc_accounts (mfaEnable e rq a))" "I (oc_accounts (mfaDisable e rq a))"
proof -
  show "I (oc_accounts (mfaSettings e rq a))"
    unfolding mfaSettings_def using assms
    by (rule requireSession) (auto simp: page_defs split: option.splits sum.splits intro: StartTOTPEnrollment)
  show "I (oc_accounts (mfaEnable e rq a))"
    unfolding mfaEnable_def using assms
    by (rule requireSession) (auto simp: page_defs split: option.splits sum.splits intro: EnableTOTP)
  show "I (oc_accounts (mfaDisable e rq a))"
    unfolding mfaDisable_def using assms
    by (rule requireSession)
      (auto simp: page_defs split: option.splits sum.splits prod.splits if_splits intro!: DisableTOTP intro: ConsumeRecoveryCode)
qed

lemma authorize:
  assumes "I a" "\<And>a. I a \<Longrightarrow> I (oc_accounts (h a))"
  shows "I (oc_accounts (authorize e rq h a))"
  using assms currentSession [OF assms(1)] by (auto simp: authorize_def respond_def split: option.splits prod.splits)

end

text \<open>The three handlers that sign a user in also open sessions and create the first administrator.\<close>

locale account_contract = account_frame +
  assumes CreateSession: "\<And>a now tok csrf u x ip ua s a'. I a \<Longrightarrow> CreateSession now tok csrf u x ip ua a = Inr (s, a') \<Longrightarrow> I a'"
    and CreateAdmin: "\<And>a now tok u n h r a'. I a \<Longrightarrow> CreateAdmin now tok u n h a = Inr (r, a') \<Longrightarrow> I a'"
begin

lemma establishSession: "I a \<Longrightarrow> establishSession e rq u a = (cs, a') \<Longrightarrow> I a'"
  by (auto simp: establishSession_def Let_def split: sum.splits intro: CreateSession)

lemma sign_in:
  assumes "I a"
  shows "I (oc_accounts (loginSubmit e rq a))" "I (oc_accounts (mfaChallengeSubmit e rq a))" "I (oc_accounts (bootstrapSubmit e rq a))"
proof -
  show "I (oc_accounts (loginSubmit e rq a))"
    using assms ClearLoginFailures [OF assms] RecordLoginFailure [OF assms]
    by (auto simp: loginSubmit_def login_failed_def page_defs split: sum.splits option.splits prod.splits intro: establishSession)
  show "I (oc_accounts (mfaChallengeSubmit e rq a))"
    using assms
    by (auto simp: mfaChallengeSubmit_def page_defs split: sum.splits option.splits prod.splits if_splits
        intro: establishSession [OF ConsumeRecoveryCode] establishSession ConsumeRecoveryCode)
  show "I (oc_accounts (bootstrapSubmit e rq a))"
    using assms
    by (auto simp: bootstrapSubmit_def page_defs split: sum.splits option.splits prod.splits intro: establishSession CreateAdmin)
qed

end

section \<open>Requests\<close>

definition account_handlers :: "(env \<Rightarrow> request \<Rightarrow> accounts \<Rightarrow> outcome) list" where
  "account_handlers =
    [bootstrapSubmit, loginSubmit, mfaChallengeSubmit, logout, logoutEverywhere, accountChangePassword, accountLogoutAll,
     accountTokenCreate, accountTokenDelete, mfaSettings, mfaEnable, mfaDisable, userCreate, userSetRole, userResetPassword,
     userDelete, settingsSecurityUpdate, settingsDiscoveryUpdate]"

definition serve :: "(env \<Rightarrow> request \<Rightarrow> accounts \<Rightarrow> outcome) \<Rightarrow> env \<Rightarrow> request \<Rightarrow> accounts \<Rightarrow> outcome" where
  "serve h e rq = authorize e rq (h e rq)"

context account_frame
begin

lemma no_sign_in:
  "h \<in> set account_handlers \<Longrightarrow> h \<notin> {bootstrapSubmit, loginSubmit, mfaChallengeSubmit} \<Longrightarrow> I a \<Longrightarrow> I (oc_accounts (h e rq a))"
  by (auto simp: account_handlers_def intro: administration own_account second_factor)

end

context account_contract
begin

lemma serve: "h \<in> set account_handlers \<Longrightarrow> I a \<Longrightarrow> I (oc_accounts (serve h e rq a))"
  unfolding serve_def
  by (rule authorize) (auto simp: account_handlers_def intro: administration own_account second_factor sign_in)

end

inductive served :: "accounts \<Rightarrow> accounts \<Rightarrow> bool" where
  start: "served a a"
| request: "served a a' \<Longrightarrow> h \<in> set account_handlers \<Longrightarrow> served a (oc_accounts (serve h e rq a'))"

context account_contract
begin

lemma served: "served a a' \<Longrightarrow> I a \<Longrightarrow> I a'"
  by (induction rule: served.induct) (auto intro: serve)

end

interpretation ok: account_contract accounts_ok
  by unfold_locales
    (auto intro: session_writes_inv attempt_writes_inv CreateUser_inv CreateAdmin_inv SetUserRole_inv SetUserPassword_inv
      DeleteUser_inv SetAppSettings_inv token_writes_inv totp_writes_inv EnableTOTP_inv)

section \<open>An administrator remains\<close>

lemma find_SomeD: "find P xs = Some x \<Longrightarrow> x \<in> set xs \<and> P x"
  by (auto simp: find_Some_iff)

lemma bex_update_rows: "(\<exists>x\<in>set (update_rows P f rows). Q x) \<longleftrightarrow> (\<exists>r\<in>set rows. Q (if P r then f r else r))"
  by (auto simp: update_rows_def)

lemma admins_but_one:
  "distinct (map us_id us) \<Longrightarrow>
    length (filter us_is_admin us) \<le> Suc (length (filter us_is_admin (filter (\<lambda>r. us_id r \<noteq> key) us)))"
proof (induction us)
  case (Cons u us)
  have "filter (\<lambda>r. us_id r \<noteq> key) us = us" if "us_id u = key"
    unfolding filter_id_conv using Cons.prems that by (metis distinct.simps(2) list.simps(9) image_eqI set_map)
  with Cons show ?case by auto
qed simp

lemma admins_others:
  "\<forall>r\<in>set us. us_id r = key \<longrightarrow> \<not> us_is_admin r \<Longrightarrow> filter us_is_admin (filter (\<lambda>r. us_id r \<noteq> key) us) = filter us_is_admin us"
  by (auto intro: filter_cong)

text \<open>When the last-administrator check lets a change of one user pass, another administrator is left.\<close>

lemma other_admin:
  assumes "accounts_ok a" "0 < CountAdmins a" "GetUser key a = Inr u" "User_IsAdmin u \<longrightarrow> 1 < CountAdmins a"
  shows "\<exists>r\<in>set (ac_users a). us_is_admin r \<and> us_id r \<noteq> key"
proof -
  have d: "distinct (user_ids a)" using accounts_users_ok [OF assms(1)] by (simp add: users_ok_def)
  obtain q where q: "q \<in> set (ac_users a)" "us_id q = key" "User_IsAdmin u = us_is_admin q"
    using assms(3) by (auto simp: GetUser_def user_of_row_def split: option.splits dest!: find_SomeD)
  have "filter us_is_admin (filter (\<lambda>r. us_id r \<noteq> key) (ac_users a)) \<noteq> []"
  proof (cases "us_is_admin q")
    case True
    then show ?thesis using admins_but_one [OF d, of key] assms(4) q(3) by (auto simp: CountAdmins_def)
  next
    case False
    then have "\<forall>r\<in>set (ac_users a). us_id r = key \<longrightarrow> \<not> us_is_admin r"
      using q(1,2) distinct_key_unique [OF d] by blast
    then have "filter us_is_admin (filter (\<lambda>r. us_id r \<noteq> key) (ac_users a)) = filter us_is_admin (ac_users a)"
      by (rule admins_others)
    with assms(2) show ?thesis by (simp add: CountAdmins_def)
  qed
  then show ?thesis by (auto simp: filter_empty_conv)
qed

lemma CountAdmins_pos: "0 < CountAdmins a \<longleftrightarrow> (\<exists>r\<in>set (ac_users a). us_is_admin r)"
  by (auto simp: CountAdmins_def filter_empty_conv)

definition administered :: "accounts \<Rightarrow> bool" where
  "administered a \<longleftrightarrow> accounts_ok a \<and> 0 < CountAdmins a"

lemma administeredI: "administered a \<Longrightarrow> accounts_ok a' \<Longrightarrow> set (ac_users a) \<subseteq> set (ac_users a') \<Longrightarrow> administered a'"
  by (auto simp: administered_def CountAdmins_pos)

lemma fold_insert_code_db [simp]: "ac_db (fold (insert_code now u) hs a) = ac_db a"
  by (induction hs arbitrary: a) (simp_all add: insert_code_def)

lemma insert_user_users: "insert_user r a = Inr a' \<Longrightarrow> set (ac_users a) \<subseteq> set (ac_users a')"
  by (auto simp: insert_user_def split: if_splits)

text \<open>The operations that leave the table of users alone.\<close>

lemma same_users:
  "GetSession now k c a = (r, a') \<Longrightarrow> ac_users a' = ac_users a" "ac_users (DeleteSession k a) = ac_users a"
  "ac_users (snd (DeleteUserSessions u a)) = ac_users a" "ac_users (snd (DeleteOtherUserSessions u k a)) = ac_users a"
  "ac_users (RecordLoginFailure now n ip a) = ac_users a" "ac_users (ClearLoginFailures n a) = ac_users a"
  "ac_users (SetAppSettings kvs a) = ac_users a" "CreateAPIToken now tok u n h a = (t, a') \<Longrightarrow> ac_users a' = ac_users a"
  "DeleteAPIToken k u a = Inr a' \<Longrightarrow> ac_users a' = ac_users a" "StartTOTPEnrollment now u sec a = Inr a' \<Longrightarrow> ac_users a' = ac_users a"
  "EnableTOTP now u hs a = Inr a' \<Longrightarrow> ac_users a' = ac_users a" "ac_users (DisableTOTP u a) = ac_users a"
  "ConsumeRecoveryCode now u h a = (b, a') \<Longrightarrow> ac_users a' = ac_users a"
  "CreateSession now tok csrf u x ip ua a = Inr (s, a') \<Longrightarrow> ac_users a' = ac_users a"
  by (auto simp: GetSession_def DeleteSession_def DeleteUserSessions_def DeleteOtherUserSessions_def RecordLoginFailure_def
      ClearLoginFailures_def SetAppSettings_def CreateAPIToken_def DeleteAPIToken_def StartTOTPEnrollment_def EnableTOTP_def
      DisableTOTP_def ConsumeRecoveryCode_def CreateSession_def Let_def split: option.splits if_splits)

lemma administered_same_users:
  "administered a \<Longrightarrow> accounts_ok a' \<Longrightarrow> ac_users a' = ac_users a \<Longrightarrow> administered a'"
  by (simp add: administered_def CountAdmins_def)

lemma administered_new_user:
  "administered a \<Longrightarrow> insert_user r a = Inr a' \<Longrightarrow> accounts_ok a' \<Longrightarrow> administered a'"
  by (rule administeredI [OF _ _ insert_user_users])

lemma SetUserRole_keeps_admin:
  assumes "administered a" "GetUser k a = Inr u" "User_IsAdmin u \<and> role \<noteq> RoleAdmin \<longrightarrow> 1 < CountAdmins a"
    "SetUserRole now k role a = Inr a'"
  shows "administered a'"
proof -
  have ok: "accounts_ok a'" using assms(1,4) by (auto simp: administered_def intro: SetUserRole_inv)
  have "\<exists>r\<in>set (ac_users a). if us_id r = k then role = RoleAdmin else us_is_admin r"
  proof (cases "role = RoleAdmin")
    case True
    then show ?thesis using assms(2) by (auto simp: GetUser_def split: option.splits dest!: find_SomeD)
  next
    case False
    then show ?thesis using assms(1-3) other_admin [of a k u] by (auto simp: administered_def)
  qed
  then have "\<exists>x\<in>set (ac_users a'). us_is_admin x"
    using assms(4) by (auto simp: SetUserRole_def bex_update_rows if_distrib split: if_splits)
  with ok show ?thesis by (simp add: administered_def CountAdmins_pos)
qed

interpretation adm: account_contract administered
proof
  fix a assume I: "administered a"
  then have ok: "accounts_ok a" by (simp add: administered_def)
  note keep = administered_same_users [OF I]
  show "GetSession now k c a = (r, a') \<Longrightarrow> administered a'" for now k c r a' by (rule keep [OF ok.GetSession [OF ok]]) (simp_all add: same_users)
  show "administered (DeleteSession k a)" for k by (rule keep [OF ok.DeleteSession [OF ok]]) (simp add: same_users)
  show "administered (snd (DeleteUserSessions u a))" for u by (rule keep [OF ok.DeleteUserSessions [OF ok]]) (simp add: same_users)
  show "administered (snd (DeleteOtherUserSessions u k a))" for u k by (rule keep [OF ok.DeleteOtherUserSessions [OF ok]]) (simp add: same_users)
  show "administered (RecordLoginFailure now u ip a)" for now u ip by (rule keep [OF ok.RecordLoginFailure [OF ok]]) (simp add: same_users)
  show "administered (ClearLoginFailures u a)" for u by (rule keep [OF ok.ClearLoginFailures [OF ok]]) (simp add: same_users)
  show "administered (SetAppSettings kvs a)" for kvs by (rule keep [OF ok.SetAppSettings [OF ok]]) (simp add: same_users)
  show "CreateAPIToken now tok u n h a = (r, a') \<Longrightarrow> administered a'" for now tok u n h r a'
    by (rule keep [OF ok.CreateAPIToken [OF ok]]) (simp_all add: same_users)
  show "DeleteAPIToken k u a = Inr a' \<Longrightarrow> administered a'" for k u a' by (rule keep [OF ok.DeleteAPIToken [OF ok]]) (simp_all add: same_users)
  show "StartTOTPEnrollment now u s a = Inr a' \<Longrightarrow> administered a'" for now u s a'
    by (rule keep [OF ok.StartTOTPEnrollment [OF ok]]) (simp_all add: same_users)
  show "EnableTOTP now u hs a = Inr a' \<Longrightarrow> administered a'" for now u hs a' by (rule keep [OF ok.EnableTOTP [OF ok]]) (simp_all add: same_users)
  show "administered (DisableTOTP u a)" for u by (rule keep [OF ok.DisableTOTP [OF ok]]) (simp add: same_users)
  show "ConsumeRecoveryCode now u h a = (b, a') \<Longrightarrow> administered a'" for now u h b a'
    by (rule keep [OF ok.ConsumeRecoveryCode [OF ok]]) (simp_all add: same_users)
  show "CreateSession now tok csrf u x ip ua a = Inr (s, a') \<Longrightarrow> administered a'" for now tok csrf u x ip ua s a'
    by (rule keep [OF ok.CreateSession [OF ok]]) (simp_all add: same_users)
  show "CreateUser now tok u n h role a = Inr (r, a') \<Longrightarrow> administered a'" for now tok u n h role r a'
    using ok.CreateUser [OF ok, of now tok u n h role r a'] administered_new_user [OF I]
    by (auto simp: CreateUser_def bind_res_eq_Inr Let_def split: option.splits)
  show "CreateAdmin now tok u n h a = Inr (r, a') \<Longrightarrow> administered a'" for now tok u n h r a'
    using ok.CreateAdmin [OF ok, of now tok u n h r a'] administered_new_user [OF I]
    by (auto simp: CreateAdmin_def bind_res_eq_Inr Let_def split: option.splits)
  show "administered (SetUserPassword now k h a)" for now k h
    using I ok.SetUserPassword [OF ok, of now k h]
    by (fastforce simp: administered_def CountAdmins_pos SetUserPassword_def bex_update_rows)
  show "GetUser k a = Inr u \<Longrightarrow> User_IsAdmin u \<and> role \<noteq> RoleAdmin \<longrightarrow> 1 < CountAdmins a \<Longrightarrow>
      SetUserRole now k role a = Inr a' \<Longrightarrow> administered a'" for now k role u a'
    using I SetUserRole_keeps_admin by blast
  show "GetUser k a = Inr u \<Longrightarrow> User_IsAdmin u \<longrightarrow> 1 < CountAdmins a \<Longrightarrow> administered (DeleteUser k a)" for k u
    using I other_admin [of a k u] ok.DeleteUser [OF ok, of k u]
    by (auto simp: administered_def CountAdmins_pos DeleteUser_def)
qed

text \<open>C23: every account invariant (unique names, roles in step with the administrator flag, references intact,
  the store's invariants) and, once there is one, an administrator survive any sequence of requests to the
  account pages, in any order and by anyone; so the bootstrap page, which needs no login, stays closed.\<close>

theorem requests_keep_admin:
  assumes "served a a'" "accounts_ok a"
  shows "accounts_ok a' \<and> (0 < CountAdmins a \<longrightarrow> 0 < CountAdmins a' \<and> \<not> needsBootstrap a')"
  using ok.served [OF assms] adm.served [OF assms(1)] assms(2) by (auto simp: administered_def needsBootstrap_def)

end
