(* ===== verification/AccountReach.thy ===== *)
theory AccountReach
  imports Accounts
begin

text \<open>
  What the account pages guarantee: who gets a session, what a viewer can reach, when a login is
  throttled, what a password change revokes, and that a recovery code works once.
\<close>

section \<open>Only an authenticated user gets a session\<close>

text \<open>The ways to prove an identity, on the accounts a request finds.\<close>

definition password_login :: "env \<Rightarrow> request \<Rightarrow> string \<Rightarrow> accounts \<Rightarrow> bool" where
  "password_login e rq uid a \<longleftrightarrow>
    (\<exists>u\<in>set (ac_users a). us_id u = uid \<and> us_username u = TrimSpace (rq_form rq ''username'') \<and>
       VerifyPassword (ev_IDKey e) (us_password_hash u) (rq_form rq ''password'') \<and> (ev_totp_fails e \<or> \<not> TOTPEnabled uid a))"

definition second_factor_login :: "env \<Rightarrow> request \<Rightarrow> string \<Rightarrow> accounts \<Rightarrow> bool" where
  "second_factor_login e rq uid a \<longleftrightarrow> pendingMFAUser e rq = Some uid \<and> TOTPEnabled uid a \<and>
    (let code = TrimSpace (rq_form rq ''code'') in
     (\<exists>sl t secret. ev_sealer e = Some sl \<and> GetUserTOTP uid a = Inr t \<and> Open sl (UserTOTP_Secret t) = Some secret \<and>
        (VerifyTOTP (ev_hmac e) secret code (unix_now e) \<or>
         (\<exists>c\<in>set (ac_codes a). unused_code uid c \<and> rc_code_hash c = HashRecoveryCode (ev_sha256 e) code))))"

lemma GetSession_frame: "GetSession now k c a = (r, a') \<Longrightarrow> a' = a\<lparr>ac_sessions := ac_sessions a'\<rparr>"
  unfolding GetSession_def Let_def by (auto split: option.splits)

lemma currentSession_frame: "currentSession e rq a = (s, a') \<Longrightarrow> a' = a\<lparr>ac_sessions := ac_sessions a'\<rparr>"
  unfolding currentSession_def by (auto split: option.splits if_splits sum.splits prod.splits dest: GetSession_frame)

lemma authentication_frame [simp]:
  "password_login e rq uid (a\<lparr>ac_sessions := xs\<rparr>) = password_login e rq uid a"
  "second_factor_login e rq uid (a\<lparr>ac_sessions := xs\<rparr>) = second_factor_login e rq uid a"
  "CountAdmins (a\<lparr>ac_sessions := xs\<rparr>) = CountAdmins a"
  by (simp_all add: password_login_def second_factor_login_def TOTPEnabled_def GetUserTOTP_def CountAdmins_def)

lemma GetSession_ids: "GetSession now k c a = (r, a') \<Longrightarrow> map se_id (ac_sessions a') = map se_id (ac_sessions a)"
  by (auto simp: GetSession_def Let_def map_update_rows_key split: option.splits)

lemma EnableTOTP_sessions: "EnableTOTP now u hs a = Inr a' \<Longrightarrow> ac_sessions a' = ac_sessions a"
proof -
  have "ac_sessions (fold (insert_code now u) hs b) = ac_sessions b" for b
    by (induction hs arbitrary: b) (simp_all add: insert_code_def)
  then show "EnableTOTP now u hs a = Inr a' \<Longrightarrow> ac_sessions a' = ac_sessions a"
    by (auto simp: EnableTOTP_def Let_def split: if_splits)
qed

interpretation sess: account_frame "\<lambda>a :: accounts. se_id ` set (ac_sessions a) \<subseteq> S" for S
proof
  fix a :: accounts assume I: "se_id ` set (ac_sessions a) \<subseteq> S"
  show "GetSession now k c a = (r, a') \<Longrightarrow> se_id ` set (ac_sessions a') \<subseteq> S" for now k c r a'
    using I GetSession_ids [of now k c a r a', THEN arg_cong, of set] by simp
qed (auto simp: DeleteSession_def DeleteUserSessions_def DeleteOtherUserSessions_def RecordLoginFailure_def ClearLoginFailures_def
    CreateUser_def insert_user_def SetUserRole_def SetUserPassword_def DeleteUser_def SetAppSettings_def CreateAPIToken_def
    DeleteAPIToken_def StartTOTPEnrollment_def DisableTOTP_def ConsumeRecoveryCode_def bind_res_eq_Inr Let_def image_subset_iff
    EnableTOTP_sessions split: option.splits if_splits)

lemma new_session_row:
  assumes "establishSession e rq u a = (cs, a')" "r \<in> set (ac_sessions a')" "r \<notin> set (ac_sessions a)"
  shows "se_user_id r = u \<and> se_expires_at r = ev_now e + SessionAbsoluteTimeout (ev_settings e)"
  using assms by (auto simp: establishSession_def CreateSession_def Let_def split: option.splits if_splits)

definition authenticated :: "env \<Rightarrow> request \<Rightarrow> string \<Rightarrow> accounts \<Rightarrow> bool" where
  "authenticated e rq uid a \<longleftrightarrow> CountAdmins a = 0 \<or> password_login e rq uid a \<or> second_factor_login e rq uid a"

text \<open>Each handler that signs in, for a row it adds.\<close>

lemma loginSubmit_session:
  assumes "r \<in> set (ac_sessions (oc_accounts (loginSubmit e rq a)))" "r \<notin> set (ac_sessions a)"
  shows "password_login e rq (se_user_id r) a \<and> se_expires_at r = ev_now e + SessionAbsoluteTimeout (ev_settings e)"
proof -
  let ?un = "TrimSpace (rq_form rq ''username'')"
  obtain user cs a2 where u: "FindUserByUsername ?un a = Inr user"
    "VerifyPassword (ev_IDKey e) (User_PasswordHash user) (rq_form rq ''password'')"
    "ev_totp_fails e \<or> \<not> TOTPEnabled (User_ID user) (ClearLoginFailures ?un a)"
    "establishSession e rq (User_ID user) (ClearLoginFailures ?un a) = (cs, a2)" "r \<in> set (ac_sessions a2)"
    using assms
    by (auto simp: loginSubmit_def login_failed_def respond_def logged_def Let_def RecordLoginFailure_def ClearLoginFailures_def
        split: if_splits sum.splits option.splits prod.splits)
  moreover obtain row where "row \<in> set (ac_users a)" "us_username row = ?un" "user = undated_user row"
    using u(1) by (auto simp: FindUserByUsername_def split: option.splits dest!: find_SomeD)
  moreover have "ac_sessions (ClearLoginFailures ?un a) = ac_sessions a" "TOTPEnabled k (ClearLoginFailures ?un a) = TOTPEnabled k a" for k
    by (simp_all add: ClearLoginFailures_def TOTPEnabled_def)
  ultimately show ?thesis
    using new_session_row [OF u(4,5)] assms(2) by (auto simp: password_login_def undated_user_def user_of_row_def)
qed

lemma mfaChallengeSubmit_session:
  assumes "r \<in> set (ac_sessions (oc_accounts (mfaChallengeSubmit e rq a)))" "r \<notin> set (ac_sessions a)"
  shows "second_factor_login e rq (se_user_id r) a \<and> se_expires_at r = ev_now e + SessionAbsoluteTimeout (ev_settings e)"
proof -
  let ?code = "TrimSpace (rq_form rq ''code'')"
  have consume: "ac_sessions a1 = ac_sessions a \<and> (b \<longrightarrow> (\<exists>c\<in>set (ac_codes a). unused_code u c \<and> rc_code_hash c = h))"
    if "ConsumeRecoveryCode (ev_dbnow e) u h a = (b, a1)" for u h b a1
    using that by (auto simp: ConsumeRecoveryCode_def split: option.splits dest!: find_SomeD)
  obtain u sl t secret b a1 cs a2 where u: "pendingMFAUser e rq = Some u" "ev_sealer e = Some sl" "GetUserTOTP u a = Inr t"
    "UserTOTP_Enabled t" "Open sl (UserTOTP_Secret t) = Some secret" "ac_sessions a1 = ac_sessions a"
    "VerifyTOTP (ev_hmac e) secret ?code (unix_now e) \<or>
      (\<exists>c\<in>set (ac_codes a). unused_code u c \<and> rc_code_hash c = HashRecoveryCode (ev_sha256 e) ?code)"
    "establishSession e rq u a1 = (cs, a2)" "r \<in> set (ac_sessions a2)"
    using assms
    by (auto simp: mfaChallengeSubmit_def respond_def logged_def Let_def
        split: if_splits sum.splits option.splits prod.splits dest!: consume) blast
  moreover have "TOTPEnabled u a" using u(3,4) by (auto simp: GetUserTOTP_def TOTPEnabled_def split: option.splits)
  ultimately show ?thesis
    using new_session_row [OF u(8,9)] assms(2) by (auto simp: second_factor_login_def Let_def)
qed

lemma bootstrapSubmit_session:
  assumes "r \<in> set (ac_sessions (oc_accounts (bootstrapSubmit e rq a)))" "r \<notin> set (ac_sessions a)"
  shows "CountAdmins a = 0 \<and> se_expires_at r = ev_now e + SessionAbsoluteTimeout (ev_settings e)"
proof -
  have sess: "ac_sessions a1 = ac_sessions a" if "CreateAdmin now tok un dn h a = Inr (us, a1)" for now tok un dn h us a1
    using that by (auto simp: CreateAdmin_def insert_user_def bind_res_eq_Inr Let_def split: option.splits if_splits)
  obtain us a1 cs a2 where "CountAdmins a = 0" "ac_sessions a1 = ac_sessions a" "establishSession e rq us a1 = (cs, a2)"
    "r \<in> set (ac_sessions a2)"
    using assms
    by (auto simp: bootstrapSubmit_def needsBootstrap_def respond_def logged_def Let_def
        split: if_splits sum.splits option.splits prod.splits dest: sess)
  then show ?thesis using new_session_row assms(2) by metis
qed

text \<open>The middleware answers itself or passes the request on, and touches the sessions' activity at most.\<close>

lemma authorize_cases:
  obtains b where "b = a\<lparr>ac_sessions := ac_sessions b\<rparr>" "se_id ` set (ac_sessions b) \<subseteq> se_id ` set (ac_sessions a)"
    "authorize e rq k a = k b \<or> authorize e rq k a = respond (Status 403) b"
proof (cases "safeMethod (rq_method rq) \<or> publicWritePath (rq_path rq) \<or> isAccountPath (rq_path rq)")
  case True
  then show ?thesis by (intro that [of a]) (auto simp: authorize_def)
next
  case False
  obtain s b where c: "currentSession e rq a = (s, b)" by fastforce
  show ?thesis
    using False c by (intro that [OF currentSession_frame [OF c] sess.currentSession [OF order_refl c]])
      (auto simp: authorize_def split: option.splits)
qed


section \<open>Viewers\<close>

text \<open>C25: a viewer changes nothing but its own account: every request with a method that may write, outside
  sign-in and the account pages, is answered with 403 when it carries a live session of a viewer, and never
  reaches its handler, whatever that is.  The accounts stay as they are but for the time of the session's last
  activity.\<close>

theorem viewer_cannot_write:
  assumes "\<not> safeMethod (rq_method rq)" "\<not> publicWritePath (rq_path rq)" "\<not> isAccountPath (rq_path rq)"
    "rq_session_cookie rq = Some k" "r \<in> set (ac_sessions a)" "se_id r = k" "k \<noteq> []" "live (ev_dbnow e) (idleCutoff e) r"
    "u \<in> set (ac_users a)" "us_id u = se_user_id r" "us_role u \<noteq> RoleAdmin" "accounts_ok a"
  shows "\<exists>xs. authorize e rq handler a = respond (Status 403) (a\<lparr>ac_sessions := xs\<rparr>) \<and> map se_user_id xs = map se_user_id (ac_sessions a)"
proof -
  have d: "distinct (map se_id (ac_sessions a))" "distinct (user_ids a)"
    using assms(12) by (simp_all add: accounts_ok_def owned_def users_ok_def)
  let ?hit = "\<lambda>r. se_id r = k \<and> live (ev_dbnow e) (idleCutoff e) r"
  have "find ?hit (ac_sessions a) = Some r"
  proof -
    obtain r' where "find ?hit (ac_sessions a) = Some r'"
      using assms(5,6,8) by (cases "find ?hit (ac_sessions a)") (auto simp: find_None_iff)
    moreover have "r' = r" using distinct_key_unique [OF d(1)] find_SomeD [OF calculation] assms(5,6) by auto
    ultimately show ?thesis by simp
  qed
  moreover have "find (\<lambda>u. us_id u = se_user_id r) (ac_users a) = Some u"
    using d(2) assms(9,10) by (metis find_key_Some)
  ultimately have c: "currentSession e rq a = (Some (session_of_row (undated_user u) (r\<lparr>se_last_seen_at := ev_dbnow e\<rparr>)),
      a\<lparr>ac_sessions := update_rows ?hit (\<lambda>r. r\<lparr>se_last_seen_at := ev_dbnow e\<rparr>) (ac_sessions a)\<rparr>)"
    using assms(4,7) by (simp add: currentSession_def GetSession_def Let_def)
  show ?thesis
    using assms(1-3,11)
    by (intro exI [of _ "update_rows ?hit (\<lambda>r. r\<lparr>se_last_seen_at := ev_dbnow e\<rparr>) (ac_sessions a)"])
      (simp add: authorize_def c canWrite_def session_of_row_def undated_user_def user_of_row_def map_update_rows_key)
qed

section \<open>Throttled logins\<close>

text \<open>Enough failures inside the window, one of them inside the cooldown.\<close>

definition throttled :: "SecuritySettings \<Rightarrow> time \<Rightarrow> attempt_row list \<Rightarrow> bool" where
  "throttled s now rows \<longleftrightarrow>
    (let recent = filter (\<lambda>r. now - LoginWindow s < la_created_at r) rows in
     0 < LoginMaxAttempts s \<and> LoginMaxAttempts s \<le> int (length recent) \<and>
     (\<exists>r\<in>set recent. now < la_created_at r + LoginLockout s))"

lemma lockoutForKey_Locked:
  assumes "\<forall>r\<in>set rows. zero_time < la_created_at r"
  shows "Locked (lockoutForKey (lockoutPolicy s) (length rows) (last_attempt rows) now) \<longleftrightarrow>
    0 < LoginMaxAttempts s \<and> LoginMaxAttempts s \<le> int (length rows) \<and> (\<exists>r\<in>set rows. now < la_created_at r + LoginLockout s)"
proof (cases "rows = []")
  case False
  then have m: "last_attempt rows = Max (la_created_at ` set rows)" and "la_created_at ` set rows \<noteq> {}"
    by (simp_all add: last_attempt_def)
  then have "last_attempt rows \<in> la_created_at ` set rows" by (metis List.finite_set Max_in finite_imageI)
  then have "zero_time < last_attempt rows" using assms by auto
  moreover have "now < last_attempt rows + LoginLockout s \<longleftrightarrow> (\<exists>r\<in>set rows. now < la_created_at r + LoginLockout s)"
    using False Max_gr_iff [of "la_created_at ` set rows" "now - LoginLockout s"] by (auto simp: m algebra_simps)
  ultimately show ?thesis by (auto simp: lockoutForKey_def lockoutPolicy_def Let_def)
qed (simp add: lockoutForKey_def lockoutPolicy_def last_attempt_def)

lemma RetryAfter_pos: "0 < RetryAfter (lockoutForKey p n t now) \<longleftrightarrow> Locked (lockoutForKey p n t now)"
  by (auto simp: lockoutForKey_def Let_def time_sub_def)

lemma evaluateLockout_Locked:
  "Locked (evaluateLockout p stats now) \<longleftrightarrow> Locked (lockoutForKey p (UserFailures stats) (UserLast stats) now) \<or>
    Locked (lockoutForKey p (IPFailures stats) (IPLast stats) now)"
proof -
  have "0 \<le> RetryAfter (lockoutForKey p n t now)" for n t by (auto simp: lockoutForKey_def Let_def time_sub_def)
  from this [of "UserFailures stats" "UserLast stats"] show ?thesis
    using RetryAfter_pos [of p "UserFailures stats" "UserLast stats" now] RetryAfter_pos [of p "IPFailures stats" "IPLast stats" now]
    by (auto simp: evaluateLockout_def Let_def)
qed


section \<open>Revocation\<close>

lemma image_update_rows: "(\<And>r. key (f r) = key r) \<Longrightarrow> key ` set (update_rows P f rows) = key ` set rows"
  by (metis map_update_rows_key set_map)

lemma GetSession_refused:
  "\<forall>r\<in>set (ac_sessions a). se_id r = k \<longrightarrow> \<not> live now c r \<Longrightarrow> fst (GetSession now k c a) = Inl ErrNotFound"
  by (auto simp: GetSession_def Let_def find_None_iff split: option.splits dest!: find_SomeD)

text \<open>A changed password ends the other sessions.  When the page reports success, the user's stored hash is
  that of the new password, the request's own session stays, and any other session the user had is refused from
  then on, at whatever time it is presented.\<close>

theorem password_change_revokes:
  assumes "oc_reply (accountChangePassword e rq a) = Redirect ''/account?notice=password''"
    "currentSession e rq a = (Some s, b)" "accounts_ok a"
  defines "a' \<equiv> oc_accounts (accountChangePassword e rq a)" and "uid \<equiv> User_ID (Session_User s)"
  shows "(\<forall>u\<in>set (ac_users a'). us_id u = uid \<longrightarrow>
        HashPassword (ev_IDKey e) (ev_salt e) (rq_form rq ''new_password'') = Some (us_password_hash u)) \<and>
    (\<forall>r\<in>set (ac_sessions a). se_user_id r = uid \<and> se_id r \<noteq> Session_ID s \<longrightarrow>
        (\<forall>now c. fst (GetSession now (se_id r) c a') = Inl ErrNotFound)) \<and>
    Session_ID s \<in> se_id ` set (ac_sessions a')"
proof -
  obtain hash where h: "HashPassword (ev_IDKey e) (ev_salt e) (rq_form rq ''new_password'') = Some hash"
    and a': "a' = snd (DeleteOtherUserSessions uid (Session_ID s) (SetUserPassword (ev_dbnow e) uid hash b))"
    using assms(1,2) unfolding a'_def uid_def
    by (auto simp: accountChangePassword_def requireSession_def respond_def logged_def account_page_def Let_def
        split: if_splits sum.splits option.splits)
  obtain k where k: "GetSession (ev_dbnow e) k (idleCutoff e) a = (Inr s, b)"
    using assms(2) by (auto simp: currentSession_def split: option.splits if_splits prod.splits sum.splits)
  have b: "map (\<lambda>r. (se_id r, se_user_id r)) (ac_sessions b) = map (\<lambda>r. (se_id r, se_user_id r)) (ac_sessions a)"
    using k by (auto simp: GetSession_def Let_def map_update_rows_key split: option.splits)
  have d: "distinct (map se_id (ac_sessions a))" using assms(3) by (simp add: accounts_ok_def owned_def)
  have owner: "\<exists>r\<in>set (ac_sessions a). se_id r = se_id q \<and> se_user_id r = se_user_id q" if "q \<in> set (ac_sessions b)" for q
  proof -
    have "(se_id q, se_user_id q) \<in> set (map (\<lambda>r. (se_id r, se_user_id r)) (ac_sessions a))"
      unfolding b [symmetric] using that by simp
    then show ?thesis by auto
  qed
  have s: "ac_sessions a' = filter (\<lambda>r. \<not> (se_user_id r = uid \<and> se_id r \<noteq> Session_ID s)) (ac_sessions b)"
    by (simp add: a' DeleteOtherUserSessions_def SetUserPassword_def Let_def)
  have refused: "fst (GetSession now (se_id r) c a') = Inl ErrNotFound"
    if r: "r \<in> set (ac_sessions a)" "se_user_id r = uid" "se_id r \<noteq> Session_ID s" for r now c
  proof (rule GetSession_refused, intro ballI impI)
    fix q assume q: "q \<in> set (ac_sessions a')" "se_id q = se_id r"
    then obtain p where "p \<in> set (ac_sessions a)" "se_id p = se_id q" "se_user_id p = se_user_id q"
      using owner [of q] s by auto
    then have "se_user_id q = uid" using distinct_key_unique [OF d, of p r] r(1,2) q(2) by simp
    then show "\<not> live now c q" using q r(3) s by auto
  qed
  have own: "Session_ID s \<in> se_id ` set (ac_sessions a')"
  proof -
    have "Session_ID s \<in> se_id ` set (ac_sessions b)"
      using k b [THEN arg_cong, of "map fst"]
      by (auto simp: GetSession_def Let_def session_of_row_def comp_def map_update_rows_key image_update_rows
          split: option.splits dest!: find_SomeD)
    then show ?thesis by (auto simp: s)
  qed
  have pw: "HashPassword (ev_IDKey e) (ev_salt e) (rq_form rq ''new_password'') = Some (us_password_hash u)"
    if "u \<in> set (ac_users a')" "us_id u = uid" for u
  proof -
    have "ac_users a' = update_rows (\<lambda>r. us_id r = uid) (\<lambda>r. r\<lparr>us_password_hash := hash, us_updated_at := ev_dbnow e\<rparr>) (ac_users b)"
      by (simp add: a' DeleteOtherUserSessions_def SetUserPassword_def Let_def)
    with that(1) obtain q where "u = (if us_id q = uid then q\<lparr>us_password_hash := hash, us_updated_at := ev_dbnow e\<rparr> else q)"
      by (auto simp: set_update_rows)
    then show ?thesis using that(2) by (simp add: h split: if_splits)
  qed
  show ?thesis
  proof (intro conjI ballI impI allI)
    fix r now c assume "r \<in> set (ac_sessions a)" "se_user_id r = uid \<and> se_id r \<noteq> Session_ID s"
    then show "fst (GetSession now (se_id r) c a') = Inl ErrNotFound" by (intro refused) simp_all
  qed (rule pw own; assumption)+
qed

section \<open>Recovery codes\<close>

lemma distinct_filter_key:
  "distinct (map key xs) \<Longrightarrow> x \<in> set xs \<Longrightarrow> Q x \<Longrightarrow> length (filter (\<lambda>y. Q y \<and> key y \<noteq> key x) xs) = length (filter Q xs) - 1"
proof (induction xs)
  case (Cons y xs)
  show ?case
  proof (cases "y = x")
    case True
    then have "\<forall>z\<in>set xs. key z \<noteq> key x" using Cons.prems(1) by (metis distinct.simps(2) image_eqI list.simps(9) set_map)
    then have "filter (\<lambda>y. Q y \<and> key y \<noteq> key x) xs = filter Q xs" by (auto intro: filter_cong)
    with True Cons.prems(3) show ?thesis by simp
  next
    case False
    then have x: "x \<in> set xs" "key y \<noteq> key x" using Cons.prems by auto
    then have "filter Q xs \<noteq> []" using Cons.prems(3) by (auto simp: filter_empty_conv)
    with x Cons show ?thesis by (cases "filter Q xs") auto
  qed
qed simp

text \<open>A recovery code works once.  Of the codes handed out when the second factor is turned on, each is
  accepted exactly as long as it is unused, accepting it leaves one code fewer, and when no two codes have the
  same hash it is refused when it is tried again, whenever that is.\<close>

theorem recovery_code_once:
  assumes "accounts_ok a" "ConsumeRecoveryCode now uid h a = (b, a')"
  shows "(b \<longleftrightarrow> (\<exists>c\<in>set (ac_codes a). unused_code uid c \<and> rc_code_hash c = h)) \<and>
    (b \<longrightarrow> CountUnusedRecoveryCodes uid a = Suc (CountUnusedRecoveryCodes uid a')) \<and> (\<not> b \<longrightarrow> a' = a) \<and>
    (distinct (map rc_code_hash (filter (unused_code uid) (ac_codes a))) \<longrightarrow> fst (ConsumeRecoveryCode now' uid h a') = False)"
proof (cases b)
  case False
  then show ?thesis
    using assms(2) by (auto simp: ConsumeRecoveryCode_def find_None_iff split: option.splits dest!: find_SomeD)
next
  case True
  then obtain c where c: "c \<in> set (ac_codes a)" "unused_code uid c" "rc_code_hash c = h"
    and a': "a' = a\<lparr>ac_codes := update_rows (\<lambda>q. rc_id q = rc_id c) (\<lambda>q. q\<lparr>rc_used_at := Some now\<rparr>) (ac_codes a)\<rparr>"
    using assms(2) by (auto simp: ConsumeRecoveryCode_def split: option.splits dest!: find_SomeD)
  have d: "distinct (map rc_id (ac_codes a))" using assms(1) by (simp add: accounts_ok_def owned_def)
  have u: "filter (unused_code uid) (ac_codes a') = filter (\<lambda>q. unused_code uid q \<and> rc_id q \<noteq> rc_id c) (ac_codes a)"
  proof -
    have "filter (unused_code uid) (update_rows (\<lambda>q. rc_id q = k) (\<lambda>q. q\<lparr>rc_used_at := Some now\<rparr>) xs) =
      filter (\<lambda>q. unused_code uid q \<and> rc_id q \<noteq> k) xs" for xs k
      by (induction xs) (auto simp: update_rows_def unused_code_def)
    then show ?thesis by (simp add: a')
  qed
  have "filter (unused_code uid) (ac_codes a) \<noteq> []" using c by (auto simp: filter_empty_conv)
  then have n: "CountUnusedRecoveryCodes uid a = Suc (CountUnusedRecoveryCodes uid a')"
    unfolding CountUnusedRecoveryCodes_def u distinct_filter_key [of rc_id _ c "unused_code uid", OF d c(1,2)] by simp
  have "\<not> (\<exists>q\<in>set (ac_codes a'). unused_code uid q \<and> rc_code_hash q = h)"
    if "distinct (map rc_code_hash (filter (unused_code uid) (ac_codes a)))"
  proof
    assume "\<exists>q\<in>set (ac_codes a'). unused_code uid q \<and> rc_code_hash q = h"
    then obtain q where "q \<in> set (filter (unused_code uid) (ac_codes a'))" "rc_code_hash q = h" by auto
    then have "q \<in> set (filter (unused_code uid) (ac_codes a))" "rc_id q \<noteq> rc_id c" "rc_code_hash q = h" by (auto simp: u)
    with distinct_key_unique [OF that, of q c] c show False by auto
  qed
  then show ?thesis
    using True c n by (auto simp: ConsumeRecoveryCode_def find_None_iff split: option.splits dest!: find_SomeD)
qed

section \<open>A login that cannot read the second factor\<close>


section \<open>Examples\<close>

definition demo_settings :: SecuritySettings where
  "demo_settings = \<lparr>LoginMaxAttempts = 2, LoginWindow = 900 * second_ns, LoginLockout = 600 * second_ns,
     SessionAbsoluteTimeout = 43200 * second_ns, SessionIdleTimeout = 3600 * second_ns, LogoutEverywhereKeepsCurrent = True\<rparr>"

definition demo_hash :: string where
  "demo_hash = the (HashPassword demo_argon2 (Some ''salt'') ''correct horse'')"

definition demo_now :: time where "demo_now = 1000000 * second_ns"

definition demo_account_env :: env where
  "demo_account_env = \<lparr>ev_settings = demo_settings, ev_now = demo_now, ev_dbnow = demo_now, ev_IDKey = demo_argon2, ev_sha256 = id,
     ev_hmac = demo_hmac, ev_sealer = None, ev_nonce = None, ev_salt = Some ''pepper'', ev_id = Some ''new'', ev_session = Some ''fresh'',
     ev_csrf = Some ''c9'', ev_form_csrf = Some ''f9'', ev_secret = None, ev_api_secret = None, ev_codes = [],
     ev_recent_fails = False, ev_totp_fails = False\<rparr>"

definition demo_user :: "string \<Rightarrow> string \<Rightarrow> string \<Rightarrow> user_row" where
  "demo_user key name role = new_user 0 key name name demo_hash role None"

definition demo_session :: "string \<Rightarrow> string \<Rightarrow> session_row" where
  "demo_session key uid = \<lparr>se_id = key, se_user_id = uid, se_csrf_token = ''c1'', se_expires_at = demo_now + second_ns, se_created_at = 0,
     se_last_seen_at = demo_now - second_ns, se_client_ip = [], se_user_agent = []\<rparr>"

definition demo_accounts :: accounts where
  "demo_accounts = empty_accounts\<lparr>
     ac_db := empty_db\<lparr>db_users := [demo_user ''u1'' ''alice'' RoleAdmin, demo_user ''u2'' ''bob'' RoleViewer]\<rparr>,
     ac_sessions := [demo_session ''s1'' ''u1'', demo_session ''s2'' ''u1'', demo_session ''s3'' ''u2'']\<rparr>"

definition demo_form :: form where
  "demo_form = (\<lambda>_. [])(''csrf_token'' := ''c1'', ''username'' := ''alice'', ''password'' := ''correct horse'', ''role'' := ''viewer'',
     ''current_password'' := ''correct horse'', ''new_password'' := ''battery staple'', ''confirm_password'' := ''battery staple'')"

definition demo_request :: request where
  "demo_request = \<lparr>rq_method = ''POST'', rq_path = ''/account'', rq_id = ''u1'', rq_form = demo_form, rq_form_ok = True,
     rq_session_cookie = Some ''s1'', rq_csrf_cookie = Some ''c1'', rq_mfa_cookie = None, rq_ip = ''10.0.0.9'', rq_user_agent = ''curl'',
     rq_authorization = []\<rparr>"

lemma demo_accounts_ok: "accounts_ok demo_accounts"
  using empty_accounts_ok store_ok_users [of empty_db]
  by (simp add: accounts_ok_def demo_accounts_def empty_accounts_def users_ok_def demo_user_def new_user_def demo_session_def
      ValidRole_def RoleAdmin_def RoleViewer_def owned_def) (simp add: empty_db_def)

text \<open>The only administrator cannot demote herself.\<close>

theorem requests_keep_admin_witness:
  "accounts_ok (oc_accounts (serve userSetRole demo_account_env demo_request demo_accounts)) \<and>
   0 < CountAdmins (oc_accounts (serve userSetRole demo_account_env demo_request demo_accounts))"
proof -
  have "served demo_accounts (oc_accounts (serve userSetRole demo_account_env demo_request demo_accounts))"
    by (rule served.request [OF served.start]) (simp add: account_handlers_def)
  from requests_keep_admin [OF this demo_accounts_ok] show ?thesis
    by (simp add: CountAdmins_def demo_accounts_def demo_user_def new_user_def)
qed


theorem viewer_cannot_write_witness:
  "oc_reply (authorize demo_account_env (demo_request\<lparr>rq_path := ''/subnets'', rq_session_cookie := Some ''s3''\<rparr>)
     (respond (Redirect ''/'')) demo_accounts) = Status 403"
proof -
  have "demo_session ''s3'' ''u2'' \<in> set (ac_sessions demo_accounts)" "demo_user ''u2'' ''bob'' RoleViewer \<in> set (ac_users demo_accounts)"
    by (simp_all add: demo_accounts_def)
  note rows = this
  have "live (ev_dbnow demo_account_env) (idleCutoff demo_account_env) (demo_session ''s3'' ''u2'')" by code_simp
  moreover have "\<not> safeMethod ''POST''" "\<not> publicWritePath ''/subnets''" "\<not> isAccountPath ''/subnets''" by code_simp+
  ultimately show ?thesis
    using viewer_cannot_write [of "demo_request\<lparr>rq_path := ''/subnets'', rq_session_cookie := Some ''s3''\<rparr>" "''s3''"
        "demo_session ''s3'' ''u2''" demo_accounts demo_account_env "demo_user ''u2'' ''bob'' RoleViewer" "respond (Redirect ''/'')",
        OF _ _ _ _ rows(1) _ _ _ rows(2) _ _ demo_accounts_ok]
    by (auto simp: demo_request_def demo_session_def demo_user_def new_user_def RoleAdmin_def RoleViewer_def respond_def)
qed


theorem password_change_revokes_witness:
  "fst (GetSession demo_now ''s2'' zero_time (oc_accounts (accountChangePassword demo_account_env demo_request demo_accounts))) =
    Inl ErrNotFound"
proof -
  let ?s = "fst (currentSession demo_account_env demo_request demo_accounts)"
  have r: "oc_reply (accountChangePassword demo_account_env demo_request demo_accounts) = Redirect ''/account?notice=password''"
    by code_simp
  have s: "?s = Some (the ?s)" "User_ID (Session_User (the ?s)) = ''u1''" "Session_ID (the ?s) = ''s1''" by code_simp+
  then have c: "currentSession demo_account_env demo_request demo_accounts =
      (Some (the ?s), snd (currentSession demo_account_env demo_request demo_accounts))"
    by (metis prod.collapse)
  have m: "demo_session ''s2'' ''u1'' \<in> set (ac_sessions demo_accounts)" by (simp add: demo_accounts_def)
  have "se_user_id (demo_session ''s2'' ''u1'') = ''u1'' \<and> se_id (demo_session ''s2'' ''u1'') \<noteq> ''s1''" by (simp add: demo_session_def)
  then show ?thesis
    using bspec [OF password_change_revokes [OF r c demo_accounts_ok, THEN conjunct2, THEN conjunct1] m]
    unfolding s(2,3) by (simp add: demo_session_def)
qed

definition demo_codes :: accounts where
  "demo_codes = demo_accounts\<lparr>ac_codes := [\<lparr>rc_id = 0, rc_user_id = ''u1'', rc_code_hash = ''h'', rc_used_at = None, rc_created_at = 0\<rparr>],
     ac_totp := [\<lparr>to_user_id = ''u1'', to_secret = ''k'', to_enabled = True, to_confirmed_at = Some 0, to_created_at = 0\<rparr>]\<rparr>"

lemma demo_codes_ok: "accounts_ok demo_codes"
  using demo_accounts_ok
  by (simp add: accounts_ok_def demo_codes_def demo_accounts_def demo_user_def new_user_def owned_def empty_accounts_def)

theorem recovery_code_once_witness:
  "fst (ConsumeRecoveryCode 3 ''u1'' ''h'' demo_codes) \<and>
   \<not> fst (ConsumeRecoveryCode 5 ''u1'' ''h'' (snd (ConsumeRecoveryCode 3 ''u1'' ''h'' demo_codes)))"
proof -
  have "distinct (map rc_code_hash (filter (unused_code ''u1'') (ac_codes demo_codes)))"
    "\<exists>c\<in>set (ac_codes demo_codes). unused_code ''u1'' c \<and> rc_code_hash c = ''h''"
    by (simp_all add: demo_codes_def unused_code_def)
  with recovery_code_once [OF demo_codes_ok prod.collapse [symmetric], of 3 "''u1''" "''h''" 5]
  show ?thesis by simp
qed


end
