(* ===== verification/StoreReach.thy ===== *)
theory StoreReach
  imports Orchestrator
begin

text \<open>
  All writes of the store as one step relation, in any order and interleaving: the inventory
  (\<open>ipam.go\<close>, \<open>bulk.go\<close>, \<open>devices.go\<close>, \<open>device_links.go\<close>), the review queue (\<open>discoveries.go\<close>) and the
  scan tables (\<open>scans.go\<close>).  Every database reached from the migrated empty one satisfies the
  invariants of all three.
\<close>

section \<open>The step relation\<close>

inductive inventory_write :: "pg \<Rightarrow> db \<Rightarrow> db \<Rightarrow> bool" for g where
  CreateSubnet: "CreateSubnet g now tok si d = (r, d') \<Longrightarrow> inventory_write g d d'"
| UpdateSubnet: "UpdateSubnet g now key si d = (r, d') \<Longrightarrow> inventory_write g d d'"
| DeleteSubnet: "DeleteSubnet key d = Inr d' \<Longrightarrow> inventory_write g d d'"
| CreateAddress: "CreateAddress g now tok s ai d = Inr (a, d') \<Longrightarrow> inventory_write g d d'"
| UpdateAddress: "UpdateAddress g now key s ai d = (r, d') \<Longrightarrow> inventory_write g d d'"
| DeleteAddress: "DeleteAddress key d = Inr d' \<Longrightarrow> inventory_write g d d'"
| BulkState: "BulkSetAddressState now ids state d = Inr (n, d') \<Longrightarrow> inventory_write g d d'"
| BulkClear: "BulkClearAddressDevice now ids d = (n, d') \<Longrightarrow> inventory_write g d d'"
| BulkAddresses: "BulkDeleteAddresses ids d = (n, d') \<Longrightarrow> inventory_write g d d'"
| BulkVLAN: "BulkSetSubnetVLAN now ids vlan d = Inr (n, d') \<Longrightarrow> inventory_write g d d'"
| BulkSubnets: "BulkDeleteSubnets ids d = (n, d') \<Longrightarrow> inventory_write g d d'"
| BulkDevices: "BulkDeleteDevices ids d = (n, d') \<Longrightarrow> inventory_write g d d'"
| BulkTag: "BulkAddTag tok et ids tag d = Inr (n, d') \<Longrightarrow> inventory_write g d d'"
| BulkUntag: "BulkRemoveTag et ids tag d = Inr (n, d') \<Longrightarrow> inventory_write g d d'"
| CreateDevice: "CreateDevice now tok di d = Inr (v, d') \<Longrightarrow> inventory_write g d d'"
| UpdateDevice: "UpdateDevice now key di d = Inr (v, d') \<Longrightarrow> inventory_write g d d'"
| DeleteDevice: "DeleteDevice key d = Inr d' \<Longrightarrow> inventory_write g d d'"
| TagDevice: "TagDevice did t n c d = Inr d' \<Longrightarrow> inventory_write g d d'"
| CreateMAC: "CreateMACAddress g now tok did value d = (r, d') \<Longrightarrow> inventory_write g d d'"
| DeleteMAC: "DeleteMACAddress key d = Inr d' \<Longrightarrow> inventory_write g d d'"
| Link: "LinkDevices now tok ids d = Inr d' \<Longrightarrow> inventory_write g d d'"
| Unlink: "UnlinkDevice now key d = Inr d' \<Longrightarrow> inventory_write g d d'"
| AutoLink: "AutoLinkDeviceBySerial now tok did d = Inr (ms, d') \<Longrightarrow> inventory_write g d d'"
| DismissLink: "DismissDeviceLinkSuggestion a b d = Inr d' \<Longrightarrow> inventory_write g d d'"

inductive store_step :: "(string \<Rightarrow> string option) \<Rightarrow> pg \<Rightarrow> db \<Rightarrow> db \<Rightarrow> bool" for jsonb g where
  inventory: "inventory_write g d d' \<Longrightarrow> store_step jsonb g d d'"
| scans: "scan_write jsonb g d d' \<Longrightarrow> store_step jsonb g d d'"

section \<open>Inventory writes and the other tables\<close>

text \<open>An inventory write leaves the scan tables alone and clears references of the review queue at most.\<close>

definition queue_key :: "discovery_row \<Rightarrow> string \<times> netprefix \<times> string option \<times> string option \<times> int \<times> string" where
  "queue_key x = (di_id x, di_ip x, di_job_id x, di_agent_id x, di_vlan x, di_status x)"

definition queue_frame :: "db \<Rightarrow> db \<Rightarrow> bool" where
  "queue_frame d d' \<longleftrightarrow> same_scans d d' \<and> map queue_key (db_discoveries d') = map queue_key (db_discoveries d)"

lemma queue_frame_refl [simp]: "queue_frame d d"
  by (simp add: queue_frame_def same_scans_def)

lemma queue_frame_trans: "queue_frame d d1 \<Longrightarrow> queue_frame d1 d2 \<Longrightarrow> queue_frame d d2"
  by (simp add: queue_frame_def same_scans_def)

lemma queue_frame_updates [simp]:
  "queue_frame d (d1\<lparr>db_subnets := x1\<rparr>) = queue_frame d d1" "queue_frame d (d1\<lparr>db_addresses := x2\<rparr>) = queue_frame d d1"
  "queue_frame d (d1\<lparr>db_devices := x3\<rparr>) = queue_frame d d1" "queue_frame d (d1\<lparr>db_macs := x4\<rparr>) = queue_frame d d1"
  "queue_frame d (d1\<lparr>db_tags := x5\<rparr>) = queue_frame d d1" "queue_frame d (d1\<lparr>db_taggings := x6\<rparr>) = queue_frame d d1"
  "queue_frame d (d1\<lparr>db_rejections := x7\<rparr>) = queue_frame d d1"
  by (simp_all add: queue_frame_def same_scans_def)

lemma queue_key_updates [simp]:
  "queue_key (x\<lparr>di_imported_address_id := a\<rparr>) = queue_key x" "queue_key (x\<lparr>di_imported_device_id := b\<rparr>) = queue_key x"
  by (simp_all add: queue_key_def)

lemma queue_frame_deletes [simp]:
  "queue_frame d (delete_subnets P d1) = queue_frame d d1" "queue_frame d (delete_addresses Q d1) = queue_frame d d1"
  "queue_frame d (delete_devices R d1) = queue_frame d d1" "queue_frame d (delete_macs S d1) = queue_frame d d1"
  by (simp_all add: queue_frame_def same_scans_def delete_subnets_def delete_addresses_def delete_devices_def delete_macs_def
      Let_def comp_def)

lemma insert_frames:
  "insert_subnet r d = Inr d' \<Longrightarrow> queue_frame d d'" "insert_address a d = Inr d' \<Longrightarrow> queue_frame d d'"
  "insert_device v d = Inr d' \<Longrightarrow> queue_frame d d'" "insert_mac m d = Inr d' \<Longrightarrow> queue_frame d d'"
  "update_subnet key f d = Inr d' \<Longrightarrow> queue_frame d d'" "update_address key h d = Inr d' \<Longrightarrow> queue_frame d d'"
  by (auto simp: insert_subnet_def insert_address_def insert_device_def insert_mac_def update_subnet_def update_address_def
      split: if_splits)

lemma queue_frame_ok:
  assumes "queue_frame d d'" "scans_ok d" "discoveries_ok d"
  shows "scans_ok d' \<and> discoveries_ok d'"
proof -
  have same: "same_scans d d'" and q: "map queue_key (db_discoveries d') = map queue_key (db_discoveries d)"
    using assms(1) by (simp_all add: queue_frame_def)
  have "map di_id (db_discoveries d') = map (fst \<circ> queue_key) (db_discoveries d')"
    "map di_id (db_discoveries d) = map (fst \<circ> queue_key) (db_discoveries d)"
    "map di_ip (db_discoveries d') = map (fst \<circ> snd \<circ> queue_key) (db_discoveries d')"
    "map di_ip (db_discoveries d) = map (fst \<circ> snd \<circ> queue_key) (db_discoveries d)" by (simp_all add: queue_key_def)
  then have "discoveries_ok d'" using assms(3) q by (simp add: discoveries_ok_def flip: map_map)
  moreover have "discovery_row_ok d x" if x: "x \<in> set (db_discoveries d')" for x
  proof -
    have "queue_key x \<in> queue_key ` set (db_discoveries d)" using x q by (metis image_eqI list.set_map)
    then obtain y where "y \<in> set (db_discoveries d)" "queue_key x = queue_key y" by blast
    then show ?thesis using assms(2) by (auto simp: scans_ok_def discovery_row_ok_def queue_key_def)
  qed
  then have "scans_ok d'" using same by (intro scans_ok_frame [OF assms(2)]) (simp_all add: same_scans_def)
  ultimately show ?thesis by blast
qed

lemma delete_orphan_devices_frame [simp]: "queue_frame d (delete_orphan_devices ids d1) = queue_frame d d1"
  by (simp add: delete_orphan_devices_def)

lemma subnet_frames:
  "CreateSubnet g now tok si d = (r, d') \<Longrightarrow> queue_frame d d'"
  "UpdateSubnet g now key si d = (s, d') \<Longrightarrow> queue_frame d d'"
  by (auto simp: CreateSubnet_def UpdateSubnet_def Let_def split: sum.splits option.splits if_splits dest: insert_frames)

lemma address_frames:
  "CreateAddress g now tok s ai d = Inr (a, d') \<Longrightarrow> queue_frame d d'"
  "UpdateAddress g now key s ai d = (r, d') \<Longrightarrow> queue_frame d d'"
  "DeleteAddress key d = Inr d' \<Longrightarrow> queue_frame d d'"
  by (auto simp: CreateAddress_def UpdateAddress_def DeleteAddress_def Let_def bind_res_eq_Inr
      split: sum.splits option.splits if_splits dest: insert_frames)

lemma ensure_tag_frame: "ensure_tag key tag d = Inr (t, d') \<Longrightarrow> queue_frame d d' \<and> inventory_ok d' = inventory_ok d"
  by (auto simp: ensure_tag_def split: option.splits if_splits)

lemma BulkAddTag_frame: "BulkAddTag tok et ids tag d = Inr (n, d') \<Longrightarrow> queue_frame d d' \<and> inventory_ok d' = inventory_ok d"
  using ensure_tag_frame by (fastforce simp: BulkAddTag_def Let_def bind_res_eq_Inr split: option.splits if_splits)

lemma bulk_frames:
  "BulkSetAddressState now ids state d = Inr (n, d') \<Longrightarrow> queue_frame d d'"
  "BulkClearAddressDevice now ids d = (n, d') \<Longrightarrow> queue_frame d d'"
  "BulkDeleteAddresses ids d = (n, d') \<Longrightarrow> queue_frame d d'"
  "BulkSetSubnetVLAN now ids vlan d = Inr (n, d') \<Longrightarrow> queue_frame d d'"
  "BulkDeleteSubnets ids d = (n, d') \<Longrightarrow> queue_frame d d'"
  "BulkDeleteDevices ids d = (n, d') \<Longrightarrow> queue_frame d d'"
  "BulkRemoveTag et ids tag d = Inr (n, d') \<Longrightarrow> queue_frame d d'"
  by (auto simp: BulkSetAddressState_def BulkClearAddressDevice_def BulkDeleteAddresses_def BulkSetSubnetVLAN_def
      BulkDeleteSubnets_def BulkDeleteDevices_def BulkRemoveTag_def Let_def split: if_splits)

lemma BulkRemoveTag_inv: "BulkRemoveTag et ids tag d = Inr (n, d') \<Longrightarrow> inventory_ok d' = inventory_ok d"
  by (auto simp: BulkRemoveTag_def Let_def split: if_splits)

lemma device_frames:
  "CreateDevice now tok di d = Inr (v, d') \<Longrightarrow> queue_frame d d'"
  "UpdateDevice now key di d = Inr (v, d') \<Longrightarrow> queue_frame d d'"
  "DeleteDevice key d = Inr d' \<Longrightarrow> queue_frame d d'"
  "DeleteMACAddress key d = Inr d' \<Longrightarrow> queue_frame d d'"
  "UnlinkDevice now key d = Inr d' \<Longrightarrow> queue_frame d d'"
  "DismissDeviceLinkSuggestion a b d = Inr d' \<Longrightarrow> queue_frame d d'"
  by (auto simp: CreateDevice_def UpdateDevice_def DeleteDevice_def DeleteMACAddress_def UnlinkDevice_def
      DismissDeviceLinkSuggestion_def Let_def bind_res_eq_Inr split: option.splits if_splits dest: insert_frames)

lemma TagDevice_frame: "TagDevice did t n c d = Inr d' \<Longrightarrow> queue_frame d d'"
  by (auto simp: TagDevice_def Let_def bind_res_eq_Inr split: if_splits option.splits)

lemma CreateMACAddress_frame: "CreateMACAddress g now tok did value d = (r, d') \<Longrightarrow> queue_frame d d'"
  by (auto simp: CreateMACAddress_def Let_def split: sum.splits option.splits if_splits prod.splits
      dest!: insert_frames TagDevice_frame intro: queue_frame_trans)

lemma link_frames:
  "LinkDevices now tok ids d = Inr d' \<Longrightarrow> queue_frame d d'"
  "AutoLinkDeviceBySerial now tok did d = Inr (ms, d') \<Longrightarrow> queue_frame d d'"
  using LinkDevices_frame AutoLinkDeviceBySerial_frame by fastforce+

lemmas inventory_frames = subnet_frames address_frames bulk_frames BulkAddTag_frame [THEN conjunct1] device_frames TagDevice_frame
  CreateMACAddress_frame link_frames

lemma DeleteSubnet_frame: "DeleteSubnet key d = Inr d' \<Longrightarrow> queue_frame d d' \<and> (inventory_ok d \<longrightarrow> inventory_ok d')"
  by (auto simp: DeleteSubnet_def delete_subnets_ok split: if_splits)

lemma inventory_write_frame: "inventory_write g d d' \<Longrightarrow> queue_frame d d'"
  by (induction rule: inventory_write.induct) (erule inventory_frames DeleteSubnet_frame [THEN conjunct1])+

lemma inventory_write_inv:
  assumes "inventory_write g d d'" "pg_documented g" "inventory_ok d"
  shows "inventory_ok d'"
  using assms
proof (induction rule: inventory_write.induct)
  case (CreateSubnet now tok si d r d')
  then show ?case using CreateSubnet_inv [of g d now tok si] by simp
next
  case (UpdateSubnet now key si d r d')
  then show ?case using UpdateSubnet_inv [of g d now key si] by simp
next
  case (UpdateAddress now key s ai d r d')
  then show ?case using UpdateAddress_inv [of d g now key s ai] by simp
next
  case (CreateMAC now tok did v d r d')
  then show ?case using CreateMACAddress_inv [of d g now tok did v] by simp
next
  case (BulkClear now ids d n d')
  then show ?case using bulk_inv(2) [of d now ids] by simp
next
  case (BulkAddresses ids d n d')
  then show ?case using bulk_inv(3) [of d ids] by simp
next
  case (BulkSubnets ids d n d')
  then show ?case using bulk_inv(5) [of d ids] by simp
next
  case (BulkDevices ids d n d')
  then show ?case using bulk_inv(6) [of d ids] by simp
next
  case (BulkTag tok et ids tag d n d')
  then show ?case using BulkAddTag_frame by blast
next
  case (BulkUntag et ids tag d n d')
  then show ?case using BulkRemoveTag_inv by blast
next
  case (DeleteSubnet key d d')
  then show ?case using DeleteSubnet_frame by blast
qed (erule (1) CreateAddress_inv DeleteAddress_inv bulk_inv(1) bulk_inv(4) CreateDevice_inv UpdateDevice_inv DeleteDevice_inv
    TagDevice_inv DeleteMACAddress_inv LinkDevices_inv UnlinkDevice_inv AutoLinkDeviceBySerial_inv DismissDeviceLinkSuggestion_inv)+

lemma scan_write_store_ok:
  assumes "scan_write jsonb g d d'" "store_ok d"
  shows "store_ok d'"
proof -
  have s: "scans_ok d'" using scan_write_keeps [OF assms(1)] assms(2) by (simp add: store_ok_def)
  have "inventory_ok d' \<and> discoveries_ok d'"
    using assms(1)
  proof cases
    case (EnrollAgent now tok url ai a b)
    then show ?thesis using assms(2) CreateScanAgent_row
      by (cases rule: EnrollDiscoveredAgent_cases) (fastforce simp: store_ok_def)+
  next
    case (Observe now tok di u)
    then show ?thesis using assms(2) UpsertDiscovery_inv UpsertDiscovery_discoveries_ok by (auto simp: store_ok_def)
  next
    case (Import now tokDev tokMac tokAddr key name out)
    then show ?thesis using assms(2) ImportDiscovery_inv ImportDiscovery_discoveries_ok by (auto simp: store_ok_def)
  next
    case (Sync now tokMac key did)
    then show ?thesis using assms(2) SyncImportedDiscovery_inv SyncImportedDiscovery_discoveries_ok by (auto simp: store_ok_def)
  next
    case (JobResult now key jr)
    then show ?thesis using bookkeeping_store_ok(1) [OF assms(2)] by (simp add: store_ok_def)
  next
    case (CreateJob now tok ji j)
    then show ?thesis using bookkeeping_store_ok(4) [OF assms(2)] by (simp add: store_ok_def)
  next
    case (CreateAgent now tok ai a)
    then show ?thesis using assms(2) CreateScanAgent_row by (fastforce simp: store_ok_def)
  next
    case (DeleteAgent key)
    then show ?thesis using assms(2)
      by (auto simp: DeleteScanAgent_def Let_def store_ok_def delete_agents_def discoveries_ok_def comp_def split: if_splits)
  next
    case (CreateSchedule clock now tok ci s)
    then show ?thesis using assms(2)
      by (auto simp: CreateScanSchedule_def Let_def bind_res_eq_Inr store_ok_def split: option.splits if_splits)
  next
    case (UpdateSchedule now key ci s)
    then show ?thesis using assms(2) by (auto simp: UpdateScanSchedule_def Let_def bind_res_eq_Inr store_ok_def split: if_splits)
  qed (insert assms(2), auto simp: UpdateScanAgent_def SetScanAgentStatus_def TouchScanAgent_def DeleteScanSchedule_def
      delete_schedules_def MarkScanScheduleRan_def SetScanScheduleLastRun_def DismissDiscovery_def Let_def bind_res_eq_Inr
      store_ok_def discoveries_ok_def map_update_rows_key split: if_splits)
  with s show ?thesis by (simp add: store_ok_def)
qed

lemma store_step_ok:
  assumes "store_step jsonb g d d'" "pg_documented g" "store_ok d"
  shows "store_ok d'"
  using assms(1)
proof cases
  case inventory
  then show ?thesis
    using inventory_write_inv queue_frame_ok [OF inventory_write_frame] assms(2,3) by (auto simp: store_ok_def)
next
  case scans
  then show ?thesis using scan_write_store_ok assms(3) by blast
qed

section \<open>Properties\<close>

text \<open>Whatever the application, its operators and its agents do to the store, in any order and
  interleaving, starting from the freshly migrated database: no two managed subnets overlap, every
  address, device, hardware address, schedule, job and discovery has a unique key and refers to
  rows that exist, and every checked column is in range.\<close>

theorem reachable_store_ok:
  assumes "pg_documented g" "(store_step jsonb g)\<^sup>*\<^sup>* empty_db d"
  shows "store_ok d \<and> (\<forall>q\<in>set (db_subnets d). \<forall>r\<in>set (db_subnets d). q \<noteq> r \<longrightarrow> \<not> pg_overlaps (sn_cidr q) (sn_cidr r))"
proof -
  have "store_ok empty_db" using empty_db_ok empty_db_scans_ok by (simp add: store_ok_def discoveries_ok_def empty_db_def)
  with assms(2) have "store_ok d" using store_step_ok [OF _ assms(1)] by (induction rule: rtranclp_induct) blast+
  moreover from this have "disjoint_list pg_overlaps (map sn_cidr (db_subnets d))" by (simp add: store_ok_def inventory_defs)
  ultimately show ?thesis by (intro conjI ballI impI) (assumption, rule sn.disjoint_pair)
qed

theorem reachable_store_ok_witness:
  "(store_step Some pg_netip)\<^sup>*\<^sup>* empty_db demo_agents \<and> store_ok demo_agents \<and> length (db_subnets demo_agents) = 1 \<and>
   length (db_agents demo_agents) = 1"
proof -
  have 1: "store_step Some pg_netip empty_db demo_db"
    by (rule store_step.inventory, rule inventory_write.CreateSubnet, unfold demo_db_def, rule prod.collapse [symmetric])
  have n: "is_ok (CreateScanAgent 1 (Some ''a1'') demo_agent_input demo_db) \<and> length (db_subnets demo_agents) = 1 \<and>
      length (db_agents demo_agents) = 1" by code_simp
  then have 2: "store_step Some pg_netip demo_db demo_agents"
    by (auto simp: is_ok_iff demo_agents_def intro!: store_step.scans elim!: scan_write.CreateAgent)
  have reach: "(store_step Some pg_netip)\<^sup>*\<^sup>* empty_db demo_agents" using 1 2 by (rule converse_rtranclp_into_rtranclp [OF _ r_into_rtranclp])
  from reachable_store_ok [OF pg_netip_documented reach] reach n show ?thesis by blast
qed

end
