(* ===== verification/Csv.thy ===== *)
theory Csv
  imports GoStrings
begin

text \<open>
  The part of Go's \<open>encoding/csv\<close> the import and export of \<open>internal/app/portability.go\<close> uses: the
  writer with its default settings, and the reader with \<open>TrimLeadingSpace\<close> and \<open>FieldsPerRecord = -1\<close>.
  The reader works line by line as the source of the package does: the end of a line is normalised to
  a line feed, empty lines are skipped, and a quoted field may span lines.
\<close>

abbreviation LF :: char where "LF \<equiv> CHR 0x0A"
abbreviation CR :: char where "CR \<equiv> CHR 0x0D"
abbreviation DQ :: char where "DQ \<equiv> CHR 0x22"

datatype csv_error = ErrBareQuote | ErrQuote

section \<open>Writer\<close>

definition starts_with_space :: "string \<Rightarrow> bool" where
  "starts_with_space s \<longleftrightarrow> 0 < space_at space_seqs s"

definition fieldNeedsQuotes :: "string \<Rightarrow> bool" where
  "fieldNeedsQuotes field \<longleftrightarrow> field \<noteq> [] \<and>
    (field = [CHR 0x5C, CHR ''.''] \<or> LF \<in> set field \<or> CR \<in> set field \<or> DQ \<in> set field \<or> CHR '','' \<in> set field \<or>
     starts_with_space field)"

definition double_quotes :: "string \<Rightarrow> string" where
  "double_quotes s = concat (map (\<lambda>c. if c = DQ then [DQ, DQ] else [c]) s)"

definition write_field :: "string \<Rightarrow> string" where
  "write_field field = (if fieldNeedsQuotes field then DQ # double_quotes field @ [DQ] else field)"

definition csv_Write :: "string list \<Rightarrow> string" where
  "csv_Write record = Join (map write_field record) '','' @ [LF]"

section \<open>Reader\<close>

text \<open>\<open>readLine\<close>: the next line with its end normalised, and the rest of the input; \<open>None\<close> is the end of
  the file.\<close>

definition readLine :: "string \<Rightarrow> (string \<times> string) option" where
  "readLine inp =
    (if inp = [] then None
     else (case cut_first LF inp of
        Some (l, rest) \<Rightarrow> Some ((if l \<noteq> [] \<and> last l = CR then butlast l else l) @ [LF], rest)
      | None \<Rightarrow> Some (if last inp = CR then butlast inp else inp, [])))"

definition strip_newline :: "string \<Rightarrow> string" where
  "strip_newline line = (if line \<noteq> [] \<and> last line = LF then butlast line else line)"

definition trim_left :: "string \<Rightarrow> string" where
  "trim_left line = trim_left_seqs space_seqs line"

text \<open>The loop over the fields of a record: \<open>None\<close> at the start of a field of the current line, \<open>Some v\<close> inside a
  quoted field whose value so far is \<open>v\<close>.\<close>

lemma cut_first_shorter: "cut_first c s = Some (a, b) \<Longrightarrow> length b < length s"
  by (auto simp: cut_first_Some)

lemma readLine_shorter: "readLine inp = Some (l, r) \<Longrightarrow> length l + length r \<le> length inp \<and> length r < length inp"
  by (auto simp: readLine_def cut_first_Some split: if_splits option.splits)

lemma trim_left_shorter: "length (trim_left l) \<le> length l"
  using trim_left_seqs_suffix [of space_seqs l] by (simp add: trim_left_def suffix_length_le)

function parse_fields :: "string option \<Rightarrow> string list \<Rightarrow> string \<Rightarrow> string \<Rightarrow> csv_error + string list \<times> string" where
  "parse_fields None acc line rest =
    (let l = trim_left line in
     if l = [] \<or> hd l \<noteq> DQ then
       (case cut_first CHR '','' l of
          Some (f, l') \<Rightarrow> if DQ \<in> set f then Inl ErrBareQuote else parse_fields None (acc @ [f]) l' rest
        | None \<Rightarrow> let f = strip_newline l in if DQ \<in> set f then Inl ErrBareQuote else Inr (acc @ [f], rest))
     else parse_fields (Some []) acc (tl l) rest)"
| "parse_fields (Some v) acc line rest =
    (case cut_first DQ line of
       Some (a, l') \<Rightarrow>
         if l' \<noteq> [] \<and> hd l' = DQ then parse_fields (Some (v @ a @ [DQ])) acc (tl l') rest
         else if l' \<noteq> [] \<and> hd l' = CHR '','' then parse_fields None (acc @ [v @ a]) (tl l') rest
         else if strip_newline l' = [] then Inr (acc @ [v @ a], rest)
         else Inl ErrQuote
     | None \<Rightarrow>
         if line \<noteq> [] then
           (case readLine rest of None \<Rightarrow> Inl ErrQuote | Some (l, r) \<Rightarrow> parse_fields (Some (v @ line)) acc l r)
         else Inl ErrQuote)"
  by pat_completeness auto
termination
proof (relation "measure (\<lambda>(q, acc, line, rest). length line + length rest)", goal_cases)
  case (2 acc line rest l x f l')
  then show ?case using cut_first_shorter [of "CHR '',''" l f l'] trim_left_shorter [of line] by simp
next
  case (3 acc line rest l)
  then show ?case using trim_left_shorter [of line] by (cases "trim_left line") auto
next
  case (5 v acc line rest x a l')
  then show ?case using cut_first_shorter [of DQ line a l'] by (cases l') simp_all
next
  case (6 v acc line rest x a l')
  then show ?case using cut_first_shorter [of DQ line a l'] by (cases l') simp_all
next
  case (4 v acc line rest x l r)
  then show ?case using readLine_shorter [of rest l r] by (auto simp: neq_Nil_conv)
qed simp

declare parse_fields.simps [simp del]

lemma parse_fields_rest: "parse_fields q acc line rest = Inr (rec, r) \<Longrightarrow> length r \<le> length rest"
proof (induction q acc line rest rule: parse_fields.induct)
  case (1 acc line rest)
  from 1(3) show ?case
    by (subst (asm) parse_fields.simps) (auto simp: Let_def split: if_splits option.splits prod.splits intro: 1(1,2))
next
  case (2 v acc line rest)
  show ?case
  proof (cases "cut_first DQ line")
    case None
    with 2(4) obtain l r' where "readLine rest = Some (l, r')" "line \<noteq> []" "parse_fields (Some (v @ line)) acc l r' = Inr (rec, r)"
      by (auto simp: parse_fields.simps(2) split: if_splits option.splits)
    with 2(1) [OF None] readLine_shorter [of rest l r'] show ?thesis by force
  next
    case (Some p)
    obtain a l' where p: "p = (a, l')" by fastforce
    consider "l' \<noteq> []" "hd l' = DQ" | "l' \<noteq> []" "hd l' = CHR '',''" "hd l' \<noteq> DQ" | "\<not> (l' \<noteq> [] \<and> hd l' = DQ)" "\<not> (l' \<noteq> [] \<and> hd l' = CHR '','')"
      by blast
    then show ?thesis
    proof cases
      case 1
      with 2(4) Some p have "parse_fields (Some (v @ a @ [DQ])) acc (tl l') rest = Inr (rec, r)"
        by (simp add: parse_fields.simps(2))
      then show ?thesis using 2(2) [OF Some p [symmetric]] 1 by blast
    next
      case 2
      with "2.prems" Some p have "parse_fields None (acc @ [v @ a]) (tl l') rest = Inr (rec, r)"
        by (simp add: parse_fields.simps(2))
      then show ?thesis using "2.IH"(3) [OF Some p [symmetric]] 2 by blast
    next
      case 3
      with 2(4) Some p show ?thesis by (auto simp: parse_fields.simps(2) split: if_splits)
    qed
  qed
qed

text \<open>\<open>ReadAll\<close>.\<close>

function read_all :: "string list list \<Rightarrow> string \<Rightarrow> csv_error + string list list" where
  "read_all acc inp =
    (case readLine inp of None \<Rightarrow> Inr acc
     | Some (line, rest) \<Rightarrow>
        if strip_newline line = [] then read_all acc rest
        else (case parse_fields None [] line rest of
           Inl e \<Rightarrow> Inl e
         | Inr (rec, rest') \<Rightarrow> read_all (acc @ [rec]) rest'))"
  by pat_completeness auto
termination
  by (relation "measure (\<lambda>(acc, inp). length inp)") (auto dest!: readLine_shorter parse_fields_rest)

declare read_all.simps [simp del]

definition csv_ReadAll :: "string \<Rightarrow> csv_error + string list list" where
  "csv_ReadAll inp = read_all [] inp"

section \<open>Reading what was written\<close>

text \<open>The first line of a text with a line feed, and what follows it.\<close>

fun line_of :: "string \<Rightarrow> string" where
  "line_of [] = []"
| "line_of (c # s) = (if c = LF then [LF] else c # line_of s)"

fun rest_of :: "string \<Rightarrow> string" where
  "rest_of [] = []"
| "rest_of (c # s) = (if c = LF then s else rest_of s)"

fun crlf_free :: "string \<Rightarrow> bool" where
  "crlf_free [] = True"
| "crlf_free [c] = True"
| "crlf_free (c # e # s) = (\<not> (c = CR \<and> e = LF) \<and> crlf_free (e # s))"

lemma crlf_free_Cons: "crlf_free (c # s) \<longleftrightarrow> crlf_free s \<and> \<not> (c = CR \<and> s \<noteq> [] \<and> hd s = LF)"
  by (cases s) auto

lemma crlf_free_append: "crlf_free (s @ t) \<longleftrightarrow> crlf_free s \<and> crlf_free t \<and> \<not> (s \<noteq> [] \<and> t \<noteq> [] \<and> last s = CR \<and> hd t = LF)"
  by (induction s) (auto simp: crlf_free_Cons)

lemma readLine_lines:
  assumes "crlf_free s" "LF \<in> set s"
  shows "readLine s = Some (line_of s, rest_of s)"
proof -
  obtain a b where s: "s = a @ LF # b" "LF \<notin> set a" using assms(2) by (metis split_list_first)
  have l: "line_of s = a @ [LF]" "rest_of s = b" using s(2) unfolding s(1) by (induction a) auto
  have "cut_first LF s = Some (a, b)" using s by (simp add: cut_first_Some)
  moreover have "\<not> (a \<noteq> [] \<and> last a = CR)" using assms(1) by (auto simp: s(1) crlf_free_append)
  ultimately show ?thesis using s(1) l by (auto simp: readLine_def)
qed

lemma line_of_nonempty [simp]: "s \<noteq> [] \<Longrightarrow> line_of s \<noteq> []"
  by (cases s) auto

lemma parse_quoted_char:
  assumes "c \<noteq> DQ" "l \<noteq> []"
  shows "parse_fields (Some v) acc (c # l) rest = parse_fields (Some (v @ [c])) acc l rest"
proof (cases "cut_first DQ l")
  case None
  with assms show ?thesis by (cases "readLine rest") (simp_all add: parse_fields.simps(2) split_beta)
next
  case (Some p)
  then show ?thesis using assms by (cases p) (simp add: parse_fields.simps(2))
qed

definition field_end :: "string \<Rightarrow> bool" where
  "field_end X \<longleftrightarrow> X \<noteq> [] \<and> (hd X = CHR '','' \<or> hd X = LF) \<and> LF \<in> set X"

definition after_field :: "string list \<Rightarrow> string \<Rightarrow> csv_error + string list \<times> string" where
  "after_field acc X = (if hd X = LF then Inr (acc, tl X) else parse_fields None acc (line_of (tl X)) (rest_of (tl X)))"

lemma double_quotes_simps [simp]:
  "double_quotes [] = []"
  "double_quotes (c # s) = (if c = DQ then DQ # DQ # double_quotes s else c # double_quotes s)"
  by (simp_all add: double_quotes_def)

lemma parse_quoted:
  assumes "crlf_free (double_quotes f @ DQ # X)" "field_end X"
  shows "parse_fields (Some v) acc (line_of (double_quotes f @ DQ # X)) (rest_of (double_quotes f @ DQ # X)) =
    after_field (acc @ [v @ f]) X"
  using assms
proof (induction f arbitrary: v)
  case Nil
  then obtain x X' where X: "X = x # X'" "x = CHR '','' \<or> x = LF" by (auto simp: field_end_def neq_Nil_conv)
  then show ?case by (auto simp: parse_fields.simps(2) after_field_def strip_newline_def)
next
  case (Cons c f)
  let ?R = "double_quotes f @ DQ # X"
  consider "c = DQ" | "c = LF" | "c \<noteq> DQ" "c \<noteq> LF" by blast
  then show ?case
  proof cases
    case 1
    then have "parse_fields (Some v) acc (line_of (double_quotes (c # f) @ DQ # X)) (rest_of (double_quotes (c # f) @ DQ # X)) =
        parse_fields (Some (v @ [DQ])) acc (line_of ?R) (rest_of ?R)"
      by (simp add: parse_fields.simps(2))
    then show ?thesis using Cons.IH [of "v @ [DQ]"] Cons.prems 1 by (simp add: crlf_free_Cons)
  next
    case 2
    have lf: "LF \<in> set ?R" using Cons.prems(2) by (auto simp: field_end_def)
    have cf: "crlf_free ?R" using Cons.prems(1) 2 by (simp add: crlf_free_Cons)
    have "parse_fields (Some v) acc [LF] ?R = parse_fields (Some (v @ [LF])) acc (line_of ?R) (rest_of ?R)"
      by (subst parse_fields.simps(2)) (simp add: readLine_lines [OF cf lf])
    then show ?thesis using Cons.IH [of "v @ [LF]"] cf Cons.prems(2) 2 by simp
  next
    case 3
    then show ?thesis using Cons.IH [of "v @ [c]"] Cons.prems by (simp add: crlf_free_Cons parse_quoted_char)
  qed
qed

text \<open>A field that needs no quotes is read back as it is: no white-space sequence reaches across its end.\<close>

lemma space_seqs_field: "list_all (\<lambda>w. w \<noteq> [] \<and> (length w = 1 \<or> CHR '','' \<notin> set w \<and> LF \<notin> set w)) space_seqs"
  by code_simp

lemma space_at_0: "space_at space_seqs s = 0 \<longleftrightarrow> (\<forall>w\<in>set space_seqs. \<not> prefix w s)"
proof -
  have "w \<noteq> []" if "w \<in> set space_seqs" for w using space_seqs_field that by (auto simp: list_all_iff)
  then show ?thesis by (auto simp: space_at_def find_None_iff find_Some_iff split: option.splits)
qed

lemma space_at_extend:
  assumes "f \<noteq> []" "space_at space_seqs f = 0" "x = CHR '','' \<or> x = LF"
  shows "space_at space_seqs (f @ x # X) = 0"
  unfolding space_at_0
proof
  fix w assume w: "w \<in> set space_seqs"
  show "\<not> prefix w (f @ x # X)"
  proof
    assume "prefix w (f @ x # X)"
    moreover have "\<not> prefix w f" using assms(2) w by (simp add: space_at_0)
    ultimately obtain t where "w = f @ x # t"
      by (auto simp: prefix_append prefix_Cons)
    then have "length w \<noteq> 1" "x \<in> set w" using assms(1) by auto
    then show False using space_seqs_field w assms(3) by (auto simp: list_all_iff)
  qed
qed

lemma space_at_comma: "space_at space_seqs (CHR '','' # X) = 0"
proof -
  have "visible CHR '',''" by code_simp
  then show ?thesis using space_seqs_not_visible(1) by (auto simp: space_at_0 list_all_iff prefix_Cons)
qed

lemma trim_left_LF: "trim_left [LF] = []"
  by code_simp

lemma line_of_append: "LF \<notin> set f \<Longrightarrow> line_of (f @ X) = f @ line_of X"
  by (induction f) auto

lemma rest_of_append: "LF \<notin> set f \<Longrightarrow> rest_of (f @ X) = rest_of X"
  by (induction f) auto

lemma parse_plain:
  assumes "\<not> fieldNeedsQuotes f" "field_end X"
  shows "parse_fields None acc (line_of (f @ X)) (rest_of (f @ X)) = after_field (acc @ [f]) X"
proof -
  obtain x X' where X: "X = x # X'" "x = CHR '','' \<or> x = LF" using assms(2) by (auto simp: field_end_def neq_Nil_conv)
  have f: "LF \<notin> set f" "DQ \<notin> set f" "CHR '','' \<notin> set f" "f \<noteq> [] \<Longrightarrow> space_at space_seqs f = 0"
    using assms(1) by (auto simp: fieldNeedsQuotes_def starts_with_space_def)
  let ?l = "f @ line_of X"
  have line: "line_of (f @ X) = ?l" "rest_of (f @ X) = rest_of X" using f(1) by (simp_all add: line_of_append rest_of_append)
  show ?thesis
  proof (cases "f = [] \<and> x = LF")
    case True
    then show ?thesis by (simp add: X line parse_fields.simps(1) trim_left_LF after_field_def strip_newline_def)
  next
    case False
    have "space_at space_seqs ?l = 0"
    proof (cases "f = []")
      case True
      then show ?thesis using False X by (simp add: space_at_comma)
    next
      case False
      then show ?thesis using space_at_extend [OF False f(4) [OF False] X(2)] by (auto simp: X)
    qed
    then have t: "trim_left ?l = ?l" by (simp add: trim_left_def trim_left_seqs_stop)
    have h: "?l \<noteq> []" "hd ?l \<noteq> DQ" using f(2) X by (cases f; auto)+
    show ?thesis
    proof (cases "x = LF")
      case True
      have "cut_first CHR '','' (f @ [LF]) = None" using f(3) by (simp add: cut_first_None)
      moreover have "strip_newline (f @ [LF]) = f" by (simp add: strip_newline_def)
      ultimately show ?thesis
        unfolding line using t h f(2) True by (simp add: X parse_fields.simps(1) after_field_def Let_def)
    next
      case False
      then have "cut_first CHR '','' ?l = Some (f, line_of X')" using f(3) X by (simp add: cut_first_Some)
      then show ?thesis
        unfolding line using t h f(2) False X by (subst parse_fields.simps(1)) (simp add: after_field_def Let_def)
    qed
  qed
qed

lemma parse_written_field:
  assumes "crlf_free (write_field f @ X)" "field_end X"
  shows "parse_fields None acc (line_of (write_field f @ X)) (rest_of (write_field f @ X)) = after_field (acc @ [f]) X"
proof (cases "fieldNeedsQuotes f")
  case False
  then show ?thesis using parse_plain [OF False assms(2)] by (simp add: write_field_def)
next
  case True
  let ?R = "double_quotes f @ DQ # X"
  have "visible DQ" by code_simp
  then have "trim_left (DQ # line_of ?R) = DQ # line_of ?R"
    using space_seqs_not_visible(1) by (simp add: trim_left_def trim_left_seqs_visible)
  then have "parse_fields None acc (line_of (write_field f @ X)) (rest_of (write_field f @ X)) =
      parse_fields (Some []) acc (line_of ?R) (rest_of ?R)"
    using True by (simp add: write_field_def parse_fields.simps(1))
  moreover have "crlf_free ?R" using assms(1) True by (simp add: write_field_def crlf_free_Cons)
  ultimately show ?thesis using parse_quoted [of f X "[]"] assms(2) by simp
qed

text \<open>A record of one empty field is an empty line, which the reader skips; no record of the program is.\<close>

definition writable :: "string list \<Rightarrow> bool" where
  "writable record \<longleftrightarrow> record \<noteq> [] \<and> record \<noteq> [[]] \<and> (\<forall>f\<in>set record. crlf_free f)"

lemma double_quotes_hd: "double_quotes s = [] \<longleftrightarrow> s = []" "s \<noteq> [] \<Longrightarrow> hd (double_quotes s) = hd s"
  by (cases s; simp)+

lemma crlf_free_double_quotes: "crlf_free s \<Longrightarrow> crlf_free (double_quotes s)"
  by (induction s) (auto simp: crlf_free_Cons double_quotes_hd)

lemma write_field_crlf_free:
  assumes "crlf_free f"
  shows "crlf_free (write_field f)" "write_field f = [] \<or> last (write_field f) \<noteq> CR" "write_field f = [] \<or> hd (write_field f) \<noteq> LF"
proof -
  show "crlf_free (write_field f)"
    using assms by (simp add: write_field_def crlf_free_Cons crlf_free_append crlf_free_double_quotes)
  have "CR \<notin> set f" "LF \<notin> set f" if "\<not> fieldNeedsQuotes f" using that by (auto simp: fieldNeedsQuotes_def)
  then show "write_field f = [] \<or> last (write_field f) \<noteq> CR" "write_field f = [] \<or> hd (write_field f) \<noteq> LF"
    by (auto simp: write_field_def) (metis last_in_set, metis hd_in_set)
qed

lemma crlf_free_fields:
  assumes "\<forall>f\<in>set fs. crlf_free f" "crlf_free T"
  shows "crlf_free (Join (map write_field fs) '','' @ LF # T)"
  using assms(1)
proof (induction fs rule: induct_list012)
  case (2 f)
  then show ?case using write_field_crlf_free [of f] assms(2) by (auto simp: crlf_free_append crlf_free_Cons)
next
  case (3 f g fs)
  then show ?case using write_field_crlf_free [of f] by (auto simp: crlf_free_append crlf_free_Cons)
qed (simp add: crlf_free_Cons assms(2))

lemma parse_written_fields:
  assumes "fs \<noteq> []" "\<forall>f\<in>set fs. crlf_free f" "crlf_free T"
  defines "R \<equiv> Join (map write_field fs) '','' @ LF # T"
  shows "parse_fields None acc (line_of R) (rest_of R) = Inr (acc @ fs, T)"
  using assms(1,2) unfolding R_def
proof (induction fs arbitrary: acc rule: induct_list012)
  case (2 f)
  have "crlf_free (write_field f @ LF # T)" using crlf_free_fields [of "[f]" T] 2 assms(3) by simp
  then show ?case by (simp add: parse_written_field field_end_def after_field_def)
next
  case (3 f g fs)
  let ?Y = "Join (map write_field (g # fs)) '','' @ LF # T"
  have "crlf_free (write_field f @ CHR '','' # ?Y)" using crlf_free_fields [of "f # g # fs" T] 3 assms(3) by simp
  then have "parse_fields None acc (line_of (write_field f @ CHR '','' # ?Y)) (rest_of (write_field f @ CHR '','' # ?Y)) =
      parse_fields None (acc @ [f]) (line_of ?Y) (rest_of ?Y)"
    by (subst parse_written_field) (simp_all add: field_end_def after_field_def)
  then show ?case using 3 by simp
qed simp

lemma written_head:
  assumes "writable fs"
  shows "\<exists>c s. Join (map write_field fs) '','' = c # s \<and> c \<noteq> LF"
proof -
  obtain f gs where fs: "fs = f # gs" "crlf_free f" using assms by (cases fs) (auto simp: writable_def)
  show ?thesis
  proof (cases "write_field f")
    case Nil
    then have "f = []" by (auto simp: write_field_def split: if_splits)
    then have "gs \<noteq> []" using assms fs by (auto simp: writable_def)
    then show ?thesis using Nil by (cases gs) (simp_all add: fs)
  next
    case (Cons c s)
    then show ?thesis using write_field_crlf_free(3) [OF fs(2)] by (cases gs) (simp_all add: fs)
  qed
qed

lemma read_all_written:
  assumes "\<forall>r\<in>set recs. writable r"
  shows "read_all acc (concat (map csv_Write recs)) = Inr (acc @ recs)"
  using assms
proof (induction recs arbitrary: acc)
  case Nil
  show ?case by (subst read_all.simps) (simp add: readLine_def)
next
  case (Cons r recs)
  let ?T = "concat (map csv_Write recs)" and ?J = "Join (map write_field r) '',''"
  have free: "crlf_free (concat (map csv_Write rs))" if "\<forall>r\<in>set rs. writable r" for rs
    using that by (induction rs) (auto simp: csv_Write_def writable_def crlf_free_fields)
  have r: "r \<noteq> []" "\<forall>f\<in>set r. crlf_free f" using Cons.prems by (auto simp: writable_def)
  have T: "crlf_free ?T" using free Cons.prems by simp
  have R: "crlf_free (?J @ LF # ?T)" using crlf_free_fields [OF r(2) T] .
  obtain c s where "?J = c # s" "c \<noteq> LF" using written_head Cons.prems by fastforce
  then have "strip_newline (line_of (?J @ LF # ?T)) \<noteq> []"
    by (simp add: strip_newline_def)
  moreover have "readLine (?J @ LF # ?T) = Some (line_of (?J @ LF # ?T), rest_of (?J @ LF # ?T))"
    by (rule readLine_lines [OF R]) simp
  moreover have "parse_fields None [] (line_of (?J @ LF # ?T)) (rest_of (?J @ LF # ?T)) = Inr (r, ?T)"
    using parse_written_fields [OF r T, of "[]"] by simp
  ultimately show ?case
    using Cons.IH [of "acc @ [r]"] Cons.prems by (subst read_all.simps) (simp add: csv_Write_def [of r])
qed

text \<open>What the writer writes, the reader reads back: records of two or more fields, without a carriage return
  directly before a line feed (the reader makes these one line feed).\<close>

theorem csv_round_trip: "\<forall>r\<in>set recs. writable r \<Longrightarrow> csv_ReadAll (concat (map csv_Write recs)) = Inr recs"
  using read_all_written [of recs "[]"] by (simp add: csv_ReadAll_def)

end
