(* ===== verification/Portability.thy ===== *)
theory Portability
  imports AccountReach StoreReach Csv
begin

text \<open>
  CSV import and export: \<open>internal/store/portability.go\<close>, \<open>internal/app/portability.go\<close> and
  \<open>internal/app/netbox.go\<close>.  The validators return what a preview shows and what a confirmed import
  writes; the three import transactions run on the database of the store.  The random tokens of an
  import are a function of the number of the row.
\<close>

section \<open>Store: rows and transactions\<close>

record ImportRow =
  ir_Line :: nat
  ir_Cells :: "string list"
  ir_Action :: string
  ir_Error :: string

record ImportResult =
  rs_Type :: string
  rs_Columns :: "string list"
  rs_Rows :: "ImportRow list"
  rs_Created :: nat
  rs_Updated :: nat
  rs_Errors :: nat
  rs_FileError :: string
  rs_CSV :: string
  rs_Format :: string

record AddressExport =
  ae_Address :: string
  ae_Subnet :: string
  ae_State :: string
  ae_Hostname :: string
  ae_Device :: string
  ae_Notes :: string

record SubnetImport =
  sm_SiteID :: string
  sm_CIDR :: string
  sm_Name :: string
  sm_VLAN :: "int option"
  sm_Description :: string

record AddressImport =
  am_Address :: string
  am_SubnetID :: string
  am_DeviceID :: string
  am_State :: string
  am_Hostname :: string
  am_Notes :: string

record DeviceImport =
  dm_Name :: string
  dm_Description :: string

definition subnet_cidr :: "db \<Rightarrow> string option \<Rightarrow> string" where
  "subnet_cidr d sid = (case sid of None \<Rightarrow> []
     | Some k \<Rightarrow> (case find (\<lambda>r. sn_id r = k) (db_subnets d) of None \<Rightarrow> [] | Some r \<Rightarrow> Prefix_String (sn_cidr r)))"

definition ListAddressesForExport :: "db \<Rightarrow> AddressExport list" where
  "ListAddressesForExport d = map (\<lambda>a. \<lparr>ae_Address = pg_host (ad_address a), ae_Subnet = subnet_cidr d (ad_subnet_id a),
     ae_State = ad_state a, ae_Hostname = ad_hostname a, ae_Device = device_name d (ad_device_id a), ae_Notes = ad_notes a\<rparr>)
     (sort_key (\<lambda>a. pg_key (ad_address a)) (db_addresses d))"

definition subnet_columns :: "time \<Rightarrow> SubnetImport \<Rightarrow> subnet_row \<Rightarrow> subnet_row" where
  "subnet_columns now r q = q\<lparr>sn_site_id := emptyToNil (sm_SiteID r), sn_name := sm_Name r,
     sn_vlan := sm_VLAN r, sn_description := sm_Description r, sn_updated_at := now\<rparr>"

definition import_subnet :: "pg \<Rightarrow> time \<Rightarrow> SubnetImport \<times> string option \<Rightarrow> db \<Rightarrow> store_error + db" where
  "import_subnet g now = (\<lambda>(r, tok) d.
    case tok of None \<Rightarrow> Inl ErrRand
    | Some key \<Rightarrow>
       (case pg_cidr g (sm_CIDR r) of None \<Rightarrow> Inl ErrDb
        | Some c \<Rightarrow>
           (case find (\<lambda>q. sn_cidr q = c) (db_subnets d) of
              None \<Rightarrow> insert_subnet \<lparr>sn_id = key, sn_site_id = emptyToNil (sm_SiteID r), sn_cidr = c, sn_name = sm_Name r,
                sn_vlan = sm_VLAN r, sn_description = sm_Description r, sn_created_at = now, sn_updated_at = now\<rparr> d
            | Some q \<Rightarrow> update_subnet (sn_id q) (subnet_columns now r) d)))"

definition import_address :: "pg \<Rightarrow> time \<Rightarrow> AddressImport \<times> string option \<Rightarrow> db \<Rightarrow> store_error + db" where
  "import_address g now = (\<lambda>(r, tok) d.
    case tok of None \<Rightarrow> Inl ErrRand
    | Some key \<Rightarrow>
       (case pg_inet g (am_Address r) of None \<Rightarrow> Inl ErrDb
        | Some i \<Rightarrow> bind_res (upsert_address
            \<lparr>ad_id = key, ad_subnet_id = emptyToNil (am_SubnetID r), ad_device_id = emptyToNil (am_DeviceID r), ad_address = i,
             ad_state = am_State r, ad_hostname = am_Hostname r, ad_notes = am_Notes r, ad_last_seen_at = None,
             ad_created_at = now, ad_updated_at = now\<rparr>
            (\<lambda>a. a\<lparr>ad_subnet_id := emptyToNil (am_SubnetID r), ad_device_id := emptyToNil (am_DeviceID r), ad_state := am_State r,
               ad_hostname := am_Hostname r, ad_notes := am_Notes r, ad_updated_at := now\<rparr>) d) (\<lambda>(_, d'). Inr d')))"

definition import_device :: "time \<Rightarrow> DeviceImport \<times> string option \<Rightarrow> db \<Rightarrow> store_error + db" where
  "import_device now = (\<lambda>(r, tok) d.
    case sort_key dv_created_at (filter (\<lambda>v. dv_name v = dm_Name r) (db_devices d)) of
      v # _ \<Rightarrow> Inr (d\<lparr>db_devices := update_rows (\<lambda>w. dv_id w = dv_id v)
        (\<lambda>w. w\<lparr>dv_description := dm_Description r, dv_updated_at := now\<rparr>) (db_devices d)\<rparr>)
    | [] \<Rightarrow>
       (case tok of None \<Rightarrow> Inl ErrRand
        | Some key \<Rightarrow> insert_device \<lparr>dv_id = key, dv_name = dm_Name r, dv_description = dm_Description r, dv_os_family = [],
            dv_os_detail = [], dv_services = [], dv_discovery_source = [], dv_hw_serial = [], dv_hw_object_id = [],
            dv_hardware_group_id = None, dv_created_at = now, dv_updated_at = now\<rparr> d))"

text \<open>A transaction over the rows: the first error leaves the database as it was.\<close>

fun transact :: "('r \<Rightarrow> db \<Rightarrow> store_error + db) \<Rightarrow> 'r list \<Rightarrow> db \<Rightarrow> store_error + db" where
  "transact f [] d = Inr d"
| "transact f (r # rs) d = bind_res (f r d) (transact f rs)"

definition ImportSubnets :: "pg \<Rightarrow> time \<Rightarrow> (SubnetImport \<times> string option) list \<Rightarrow> db \<Rightarrow> store_error + db" where
  "ImportSubnets g now rows d = transact (import_subnet g now) rows d"

definition ImportAddresses :: "pg \<Rightarrow> time \<Rightarrow> (AddressImport \<times> string option) list \<Rightarrow> db \<Rightarrow> store_error + db" where
  "ImportAddresses g now rows d = transact (import_address g now) rows d"

definition ImportDevices :: "time \<Rightarrow> (DeviceImport \<times> string option) list \<Rightarrow> db \<Rightarrow> store_error + db" where
  "ImportDevices now rows d = transact (import_device now) rows d"

section \<open>What a file is validated against\<close>

definition subnetCSVColumns :: "string list" where
  "subnetCSVColumns = [''name'', ''cidr'', ''vlan'', ''site'', ''description'']"

definition addressCSVColumns :: "string list" where
  "addressCSVColumns = [''address'', ''subnet'', ''state'', ''hostname'', ''device'', ''notes'']"

definition deviceCSVColumns :: "string list" where "deviceCSVColumns = [''name'', ''description'']"

record existingSubnet =
  ex_prefix :: netprefix
  ex_cidr :: string

record importContext =
  ic_subnets :: "existingSubnet list"
  ic_subnetByCIDR :: "string \<rightharpoonup> string"
  ic_addresses :: "string list"
  ic_sitesByName :: "string \<rightharpoonup> string"
  ic_devicesByName :: "string \<Rightarrow> string list"

definition containingSubnet :: "importContext \<Rightarrow> string \<Rightarrow> (string \<times> string) option" where
  "containingSubnet ic ip =
    (case ParseAddr ip of None \<Rightarrow> None
     | Some a \<Rightarrow> map_option snd (foldl (\<lambda>best s.
         if Prefix_Contains (ex_prefix s) a \<and> (case best of None \<Rightarrow> True | Some (b, _) \<Rightarrow> b < Bits (ex_prefix s))
         then Some (Bits (ex_prefix s), (case ic_subnetByCIDR ic (ex_cidr s) of Some k \<Rightarrow> k | None \<Rightarrow> [], ex_cidr s)) else best)
        None (ic_subnets ic)))"

definition buildImportContext :: "db \<Rightarrow> store_error + importContext" where
  "buildImportContext d =
    (case ListSubnets d of Inl e \<Rightarrow> Inl e
     | Inr subnets \<Rightarrow> Inr \<lparr>
         ic_subnets = List.map_filter (\<lambda>s. map_option (\<lambda>p. \<lparr>ex_prefix = p, ex_cidr = su_CIDR s\<rparr>) (ParsePrefix (su_CIDR s))) subnets,
         ic_subnetByCIDR = foldl (\<lambda>m s. m(su_CIDR s \<mapsto> su_ID s)) Map.empty subnets,
         ic_addresses = map ae_Address (ListAddressesForExport d),
         ic_sitesByName = foldl (\<lambda>m s. m(ToLower (TrimSpace (Site_Name s)) \<mapsto> Site_ID s)) Map.empty (ListSites d),
         ic_devicesByName = (\<lambda>k. map de_ID (filter (\<lambda>v. ToLower (TrimSpace (de_Name v)) = k) (ListDevices d)))\<rparr>)"

section \<open>Validation\<close>

definition BOM :: string where "BOM = chars [0xEF, 0xBB, 0xBF]"

definition parseCSV :: "string \<Rightarrow> csv_error + string list \<times> string list list" where
  "parseCSV body =
    (case csv_ReadAll body of
       Inl e \<Rightarrow> Inl e
     | Inr [] \<Rightarrow> Inr ([], [])
     | Inr (h # records) \<Rightarrow> Inr (map (\<lambda>c. ToLower (TrimSpace (TrimPrefix c BOM))) h, records))"

fun header_index :: "nat \<Rightarrow> string list \<Rightarrow> (string \<rightharpoonup> nat) \<Rightarrow> (string \<rightharpoonup> nat)" where
  "header_index i [] idx = idx"
| "header_index i (h # hs) idx = header_index (Suc i) hs (idx(h \<mapsto> i))"

definition columnLookup :: "string list \<Rightarrow> string list \<Rightarrow> string + (string \<rightharpoonup> nat)" where
  "columnLookup header required =
    (let idx = header_index 0 header Map.empty in
     case find (\<lambda>name. idx name = None) required of Some missing \<Rightarrow> Inl missing | None \<Rightarrow> Inr idx)"

definition cell :: "string list \<Rightarrow> (string \<rightharpoonup> nat) \<Rightarrow> string \<Rightarrow> string" where
  "cell row idx name =
    (case idx name of None \<Rightarrow> [] | Some i \<Rightarrow> if length row \<le> i then [] else TrimSpace (row ! i))"

text \<open>The loop of the validators: a row is refused with a message, or accepted as an import with whether it
  updates a record; the state holds what the accepted rows claim.\<close>

fun validate_rows :: "('s \<Rightarrow> nat \<Rightarrow> string list \<Rightarrow> string + 'i \<times> bool \<times> 's) \<Rightarrow> 's \<Rightarrow> nat \<Rightarrow> string list list \<Rightarrow>
    ImportRow list \<times> 'i list" where
  "validate_rows check st line [] = ([], [])"
| "validate_rows check st line (row # records) =
    (case check st line row of
       Inl err \<Rightarrow>
         let (rows, imports) = validate_rows check st (Suc line) records in
         (\<lparr>ir_Line = line, ir_Cells = row, ir_Action = ''error'', ir_Error = err\<rparr> # rows, imports)
     | Inr (imp, isUpdate, st') \<Rightarrow>
         let (rows, imports) = validate_rows check st' (Suc line) records in
         (\<lparr>ir_Line = line, ir_Cells = row, ir_Action = (if isUpdate then ''update'' else ''create''), ir_Error = []\<rparr> # rows,
          imp # imports))"

definition file_result :: "string \<Rightarrow> string list \<Rightarrow> ImportRow list \<Rightarrow> ImportResult" where
  "file_result entity columns rows =
    \<lparr>rs_Type = entity, rs_Columns = columns, rs_Rows = rows,
     rs_Created = length (filter (\<lambda>r. ir_Action r = ''create'') rows), rs_Updated = length (filter (\<lambda>r. ir_Action r = ''update'') rows),
     rs_Errors = length (filter (\<lambda>r. ir_Action r = ''error'') rows), rs_FileError = [], rs_CSV = [], rs_Format = []\<rparr>"

definition missing_column :: "string \<Rightarrow> string list \<Rightarrow> string \<Rightarrow> ImportResult" where
  "missing_column entity columns missing =
    (file_result entity columns [])\<lparr>rs_FileError := ''Missing required column '' @ Quote missing @ ''.''\<rparr>"

text \<open>The first overlapping entry of a list of prefixes; an unreadable prefix overlaps nothing.\<close>

definition overlaps_opt :: "netprefix \<Rightarrow> netprefix option \<Rightarrow> bool" where
  "overlaps_opt p q = (case q of None \<Rightarrow> False | Some q' \<Rightarrow> Overlaps p q')"

type_synonym subnet_claims = "(netprefix option \<times> nat) list \<times> (string \<rightharpoonup> nat)"

definition check_subnet :: "importContext \<Rightarrow> (string \<rightharpoonup> nat) \<Rightarrow> subnet_claims \<Rightarrow> nat \<Rightarrow> string list \<Rightarrow>
    string + SubnetImport \<times> bool \<times> subnet_claims" where
  "check_subnet ic idx = (\<lambda>(pending, seen) line row.
    let name = cell row idx ''name'' in
    if name = [] then Inl ''Name is required.''
    else (case NormalizeCIDR (cell row idx ''cidr'') of
       Inl _ \<Rightarrow> Inl ''Enter a valid IPv4 CIDR such as 192.168.10.0/24.''
     | Inr cidr \<Rightarrow>
        (case ParseVLAN (cell row idx ''vlan'') of
           Inl _ \<Rightarrow> Inl ''VLAN must be between 1 and 4094''
         | Inr vlan \<Rightarrow>
            let site = cell row idx ''site'' in
            (case (if site = [] then Some [] else ic_sitesByName ic (ToLower site)) of
               None \<Rightarrow> Inl (''Unknown site '' @ Quote site @ ''.'')
             | Some siteID \<Rightarrow>
                (case seen cidr of
                   Some prev \<Rightarrow> Inl (''Duplicate CIDR '' @ cidr @ '' (also on line '' @ itoa_nat prev @ '').'')
                 | None \<Rightarrow>
                    let pfx = ParsePrefix cidr; isUpdate = (ic_subnetByCIDR ic cidr \<noteq> None) in
                    (case find (\<lambda>(p, l). case p of None \<Rightarrow> False | Some p' \<Rightarrow> overlaps_opt p' pfx) pending of
                       Some (_, l) \<Rightarrow> Inl (''Overlaps the subnet on line '' @ itoa_nat l @ ''.'')
                     | None \<Rightarrow>
                        if \<not> isUpdate \<and> list_ex (\<lambda>s. overlaps_opt (ex_prefix s) pfx) (ic_subnets ic)
                        then Inl ''Overlaps an existing subnet.''
                        else Inr (\<lparr>sm_SiteID = siteID, sm_CIDR = cidr, sm_Name = name, sm_VLAN = vlan,
                            sm_Description = cell row idx ''description''\<rparr>, isUpdate,
                          (pending @ [(pfx, line)], seen(cidr \<mapsto> line)))))))))"

definition validateSubnets :: "string list list \<Rightarrow> string list \<Rightarrow> importContext \<Rightarrow> ImportResult \<times> SubnetImport list" where
  "validateSubnets records header ic =
    (case columnLookup header [''name'', ''cidr''] of
       Inl missing \<Rightarrow> (missing_column ''subnets'' subnetCSVColumns missing, [])
     | Inr idx \<Rightarrow>
        let (rows, imports) = validate_rows (check_subnet ic idx) ([], Map.empty) 2 records in
        (file_result ''subnets'' subnetCSVColumns rows, imports))"

definition validAddressState :: "string \<Rightarrow> bool" where
  "validAddressState state \<longleftrightarrow> state \<in> set address_states"

definition check_address :: "importContext \<Rightarrow> (string \<rightharpoonup> nat) \<Rightarrow> (string \<rightharpoonup> nat) \<Rightarrow> nat \<Rightarrow> string list \<Rightarrow>
    string + AddressImport \<times> bool \<times> (string \<rightharpoonup> nat)" where
  "check_address ic idx seen line row =
    (let state = ToLower (cell row idx ''state'') in
     case NormalizeIPv4 (cell row idx ''address'') of
       Inl _ \<Rightarrow> Inl ''Enter a valid IPv4 address.''
     | Inr address \<Rightarrow>
        if \<not> validAddressState state then Inl ''State must be available, reserved, assigned, deprecated, or conflict.''
        else (case seen address of
           Some prev \<Rightarrow> Inl (''Duplicate address '' @ address @ '' (also on line '' @ itoa_nat prev @ '').'')
         | None \<Rightarrow>
            (case containingSubnet ic address of
               None \<Rightarrow> Inl (''No existing subnet contains this address '' @ em_dash @ '' import its subnet first.'')
             | Some (subnetID, _) \<Rightarrow>
                let device = cell row idx ''device''; ids = ic_devicesByName ic (ToLower device);
                    imp = (\<lambda>deviceID. Inr (\<lparr>am_Address = address, am_SubnetID = subnetID, am_DeviceID = deviceID, am_State = state,
                      am_Hostname = cell row idx ''hostname'', am_Notes = cell row idx ''notes''\<rparr>,
                      address \<in> set (ic_addresses ic), seen(address \<mapsto> line))) in
                if device = [] then imp []
                else (case ids of
                   [] \<Rightarrow> Inl (''Unknown device '' @ Quote device @ '' '' @ em_dash @ '' import devices first.'')
                 | [k] \<Rightarrow> imp k
                 | _ \<Rightarrow> Inl (''Device name '' @ Quote device @ '' is ambiguous ('' @ itoa_nat (length ids) @ '' devices).'')))))"

definition validateAddresses :: "string list list \<Rightarrow> string list \<Rightarrow> importContext \<Rightarrow> ImportResult \<times> AddressImport list" where
  "validateAddresses records header ic =
    (case columnLookup header [''address'', ''state''] of
       Inl missing \<Rightarrow> (missing_column ''addresses'' addressCSVColumns missing, [])
     | Inr idx \<Rightarrow>
        let (rows, imports) = validate_rows (check_address ic idx) Map.empty 2 records in
        (file_result ''addresses'' addressCSVColumns rows, imports))"

definition check_device :: "importContext \<Rightarrow> (string \<rightharpoonup> nat) \<Rightarrow> string list \<Rightarrow> nat \<Rightarrow> string list \<Rightarrow>
    string + DeviceImport \<times> bool \<times> string list" where
  "check_device ic idx seen line row =
    (let name = cell row idx ''name''; key = ToLower name in
     if name = [] then Inl ''Name is required.''
     else Inr (\<lparr>dm_Name = name, dm_Description = cell row idx ''description''\<rparr>, ic_devicesByName ic key \<noteq> [] \<or> key \<in> set seen, key # seen))"

definition validateDevices :: "string list list \<Rightarrow> string list \<Rightarrow> importContext \<Rightarrow> ImportResult \<times> DeviceImport list" where
  "validateDevices records header ic =
    (case columnLookup header [''name''] of
       Inl missing \<Rightarrow> (missing_column ''devices'' deviceCSVColumns missing, [])
     | Inr idx \<Rightarrow>
        let (rows, imports) = validate_rows (check_device ic idx) [] 2 records in
        (file_result ''devices'' deviceCSVColumns rows, imports))"

section \<open>NetBox files\<close>

definition formatLightIPAM :: string where "formatLightIPAM = ''lightipam''"
definition formatNetBox :: string where "formatNetBox = ''netbox''"

definition normalizeImportFormat :: "string \<Rightarrow> string" where
  "normalizeImportFormat value = (if ToLower (TrimSpace value) = formatNetBox then formatNetBox else formatLightIPAM)"

definition netboxSubnetColumns :: "string list" where
  "netboxSubnetColumns = [''prefix'', ''status'', ''vlan_vid'', ''site'', ''description'']"

definition netboxAddressColumns :: "string list" where
  "netboxAddressColumns = [''address'', ''status'', ''dns_name'', ''description'']"

definition netboxDeviceColumns :: "string list" where
  "netboxDeviceColumns = [''name'', ''status'', ''description'']"

definition mapNetBoxIPStatus :: "string \<Rightarrow> string" where
  "mapNetBoxIPStatus status =
    (let s = ToLower (TrimSpace status) in
     if s = ''reserved'' then ''reserved'' else if s = ''deprecated'' then ''deprecated'' else ''assigned'')"

definition reverseNetBoxIPStatus :: "string \<Rightarrow> string" where
  "reverseNetBoxIPStatus state =
    (if state = ''reserved'' then ''reserved'' else if state = ''deprecated'' then ''deprecated'' else ''active'')"

definition firstNonEmpty :: "string list \<Rightarrow> string" where
  "firstNonEmpty values = (case find (\<lambda>v. TrimSpace v \<noteq> []) values of Some v \<Rightarrow> TrimSpace v | None \<Rightarrow> [])"

definition stripMask :: "string \<Rightarrow> string" where
  "stripMask address = (case cut_first CHR ''/'' address of Some (a, _) \<Rightarrow> TrimSpace a | None \<Rightarrow> TrimSpace address)"

definition netboxAddressString :: "string \<Rightarrow> string \<Rightarrow> string" where
  "netboxAddressString address subnetCIDR =
    (case ParsePrefix subnetCIDR of Some p \<Rightarrow> address @ ''/'' @ itoa_nat (Bits p) | None \<Rightarrow> address @ ''/32'')"

definition translateNetBoxImport :: "string \<Rightarrow> string list \<Rightarrow> string list list \<Rightarrow> string + string list \<times> string list list" where
  "translateNetBoxImport entity header records =
    (let idx = header_index 0 header Map.empty; get = (\<lambda>row. cell row idx) in
     if entity = ''subnets'' then
       if idx ''prefix'' = None then Inl (''NetBox prefix CSV needs a '' @ Quote ''prefix'' @ '' column.'')
       else Inr (subnetCSVColumns, map (\<lambda>row.
         let pfx = get row ''prefix''; desc = get row ''description''; name = (if desc = [] then pfx else desc);
             vlan = firstNonEmpty [get row ''vlan_vid'', get row ''vlan_id'', get row ''vlan''] in
         [name, pfx, vlan, get row ''site'', desc]) records)
     else if entity = ''addresses'' then
       if idx ''address'' = None then Inl (''NetBox IP address CSV needs an '' @ Quote ''address'' @ '' column.'')
       else Inr (addressCSVColumns, map (\<lambda>row.
         [stripMask (get row ''address''), [], mapNetBoxIPStatus (get row ''status''), get row ''dns_name'', [], get row ''description'']) records)
     else if entity = ''devices'' then
       if idx ''name'' = None then Inl (''NetBox device CSV needs a '' @ Quote ''name'' @ '' column.'')
       else Inr (deviceCSVColumns, map (\<lambda>row. [get row ''name'', firstNonEmpty [get row ''description'', get row ''comments'']]) records)
     else Inl ''Unsupported import type.'')"

section \<open>Preview and apply\<close>

datatype payload = Subnets_payload "SubnetImport list" | Addresses_payload "AddressImport list" | Devices_payload "DeviceImport list" | No_payload

definition validImportType :: "string \<Rightarrow> bool" where
  "validImportType entity \<longleftrightarrow> entity \<in> {''subnets'', ''addresses'', ''devices''}"

definition file_error :: "string \<Rightarrow> string \<Rightarrow> string \<Rightarrow> string \<Rightarrow> ImportResult \<times> payload" where
  "file_error entity body fmt msg =
    (\<lparr>rs_Type = entity, rs_Columns = [], rs_Rows = [], rs_Created = 0, rs_Updated = 0, rs_Errors = 0, rs_FileError = msg,
      rs_CSV = body, rs_Format = fmt\<rparr>, No_payload)"

definition validateImport :: "string \<Rightarrow> string \<Rightarrow> string \<Rightarrow> db \<Rightarrow> ImportResult \<times> payload" where
  "validateImport entity body fmt d =
    (case buildImportContext d of
       Inl _ \<Rightarrow> file_error entity body fmt ''Unable to load current records for validation.''
     | Inr ic \<Rightarrow>
        (case parseCSV body of
           Inl _ \<Rightarrow> file_error entity body fmt ''The file is not valid CSV.''
         | Inr (header0, records0) \<Rightarrow>
            if records0 = [] then file_error entity body fmt ''The file has no data rows.''
            else (case (if fmt = formatNetBox then translateNetBoxImport entity header0 records0 else Inr (header0, records0)) of
               Inl err \<Rightarrow> file_error entity body fmt err
             | Inr (header, records) \<Rightarrow>
                let (result, pl) =
                  (if entity = ''subnets'' then map_prod id Subnets_payload (validateSubnets records header ic)
                   else if entity = ''addresses'' then map_prod id Addresses_payload (validateAddresses records header ic)
                   else map_prod id Devices_payload (validateDevices records header ic)) in
                (result\<lparr>rs_CSV := body, rs_Format := fmt\<rparr>, pl))))"

definition importAuditNames :: "string \<Rightarrow> string \<times> string" where
  "importAuditNames entity =
    (if entity = ''subnets'' then (''subnet'', ''subnet'') else if entity = ''addresses'' then (''address'', ''ip_address'')
     else if entity = ''devices'' then (''device'', ''device'') else (entity, entity))"

definition redirectForImport :: "string \<Rightarrow> string" where
  "redirectForImport entity = (if entity = ''devices'' then ''/devices'' else ''/subnets'')"

text \<open>\<open>toks\<close> are the tokens the rows draw, in order.  The path value \<open>type\<close> is \<open>rq_id\<close>.\<close>

definition draws_for :: "(nat \<Rightarrow> string option) \<Rightarrow> 'r list \<Rightarrow> ('r \<times> string option) list" where
  "draws_for toks rows = zip rows (map toks [0..<length rows])"

definition apply_import :: "pg \<Rightarrow> time \<Rightarrow> (nat \<Rightarrow> string option) \<Rightarrow> payload \<Rightarrow> db \<Rightarrow> store_error + db" where
  "apply_import g now toks pl d =
    (case pl of
       Subnets_payload rows \<Rightarrow> ImportSubnets g now (draws_for toks rows) d
     | Addresses_payload rows \<Rightarrow> ImportAddresses g now (draws_for toks rows) d
     | Devices_payload rows \<Rightarrow> ImportDevices now (draws_for toks rows) d
     | No_payload \<Rightarrow> Inr d)"

definition importApply :: "pg \<Rightarrow> (nat \<Rightarrow> string option) \<Rightarrow> env \<Rightarrow> request \<Rightarrow> accounts \<Rightarrow> outcome" where
  "importApply g toks e rq = requireSession e rq (\<lambda>s a.
    if \<not> verifySessionCSRF rq s then respond (Status 403) a
    else
     let entity = rq_id rq in
     if \<not> validImportType entity then respond (Status 404) a
     else if \<not> rq_form_ok rq then respond (Status 400) a
     else
      let body = rq_form rq ''csv'';
          (result, pl) = validateImport entity body (normalizeImportFormat (rq_form rq ''format'')) (ac_db a) in
      if rs_FileError result \<noteq> [] \<or> 0 < rs_Errors result then respond (Page ''import_preview.html'' (rs_FileError result)) a
      else (case apply_import g (ev_dbnow e) toks pl (ac_db a) of
         Inl _ \<Rightarrow> respond (Page ''import_preview.html'' ''The import could not be applied; no changes were made.'') a
       | Inr d \<Rightarrow>
          let (pre, subject) = importAuditNames entity in
          logged (Redirect (redirectForImport entity)) []
            (log_entry (Some (User_ID (Session_User s))) (pre @ ''.csv_imported'') subject []) (a\<lparr>ac_db := d\<rparr>)))"

section \<open>Export\<close>

definition sanitizeCSVCell :: "string \<Rightarrow> string" where
  "sanitizeCSVCell s =
    (if s = [] then s
     else if hd s \<in> {CHR ''='', CHR ''+'', CHR ''-'', CHR ''@'', CHR 0x09, CR} then CHR 0x27 # s else s)"

definition cell_Write :: "string list \<Rightarrow> string" where
  "cell_Write record = csv_Write (map sanitizeCSVCell record)"

definition vlan_text :: "int option \<Rightarrow> string" where
  "vlan_text v = (case v of None \<Rightarrow> [] | Some n \<Rightarrow> itoa n)"

definition exportSubnetsCSV :: "db \<Rightarrow> store_error + string" where
  "exportSubnetsCSV d = bind_res (ListSubnets d) (\<lambda>subnets. Inr (cell_Write subnetCSVColumns @
    concat (map (\<lambda>s. cell_Write [su_Name s, su_CIDR s, vlan_text (su_VLAN s), su_SiteName s, su_Description s]) subnets)))"

definition exportAddressesCSV :: "db \<Rightarrow> string" where
  "exportAddressesCSV d = cell_Write addressCSVColumns @
    concat (map (\<lambda>x. cell_Write [ae_Address x, ae_Subnet x, ae_State x, ae_Hostname x, ae_Device x, ae_Notes x]) (ListAddressesForExport d))"

definition exportDevicesCSV :: "db \<Rightarrow> string" where
  "exportDevicesCSV d = cell_Write deviceCSVColumns @
    concat (map (\<lambda>v. cell_Write [de_Name v, de_Description v]) (ListDevices d))"

definition exportSubnetsNetBox :: "db \<Rightarrow> store_error + string" where
  "exportSubnetsNetBox d = bind_res (ListSubnets d) (\<lambda>subnets. Inr (cell_Write netboxSubnetColumns @
    concat (map (\<lambda>s. cell_Write [su_CIDR s, ''active'', vlan_text (su_VLAN s), su_SiteName s, su_Name s]) subnets)))"

definition exportAddressesNetBox :: "db \<Rightarrow> string" where
  "exportAddressesNetBox d = cell_Write netboxAddressColumns @
    concat (map (\<lambda>x. cell_Write [netboxAddressString (ae_Address x) (ae_Subnet x), reverseNetBoxIPStatus (ae_State x), ae_Hostname x, ae_Notes x])
      (ListAddressesForExport d))"

definition exportDevicesNetBox :: "db \<Rightarrow> string" where
  "exportDevicesNetBox d = cell_Write netboxDeviceColumns @
    concat (map (\<lambda>v. cell_Write [de_Name v, ''active'', de_Description v]) (ListDevices d))"

section \<open>The import transactions\<close>

lemma transact_inv:
  assumes "\<And>r d d'. r \<in> set rs \<Longrightarrow> P d \<Longrightarrow> f r d = Inr d' \<Longrightarrow> P d'" "P d" "transact f rs d = Inr d'"
  shows "P d'"
  using assms by (induction rs arbitrary: d) (auto simp: bind_res_eq_Inr)

definition inventory_step :: "db \<Rightarrow> db \<Rightarrow> bool" where
  "inventory_step d d' \<longleftrightarrow> queue_frame d d' \<and> db_subnets d' = db_subnets d \<and> (inventory_ok d \<longrightarrow> inventory_ok d') \<and> db_users d' = db_users d"

lemma import_address_step:
  assumes "import_address g now r d = Inr d'"
  shows "inventory_step d d'"
proof -
  obtain row f aid where u: "upsert_address row f d = Inr (aid, d')" "\<forall>a. ad_id (f a) = ad_id a"
    using assms by (auto simp: import_address_def bind_res_eq_Inr split: option.splits prod.splits)
  then have "queue_frame d d'" "db_subnets d' = db_subnets d" "db_users d' = db_users d"
    by (auto simp: upsert_address_def bind_res_eq_Inr insert_address_def update_address_def split: option.splits if_splits)
  with u show ?thesis by (auto simp: inventory_step_def intro: upsert_address_inv)
qed

lemma import_device_step:
  assumes "import_device now r d = Inr d'"
  shows "inventory_step d d'"
proof -
  obtain r0 tok where r: "r = (r0, tok)" by fastforce
  show ?thesis
  proof (cases "sort_key dv_created_at (filter (\<lambda>v. dv_name v = dm_Name r0) (db_devices d))")
    case Nil
    with assms r obtain row where row: "insert_device row d = Inr d'" by (auto simp: import_device_def split: option.splits)
    then have "db_subnets d' = db_subnets d" "db_users d' = db_users d" by (auto simp: insert_device_def split: if_splits)
    then show ?thesis using insert_frames(3) [OF row] insert_device_ok [OF _ row] by (simp add: inventory_step_def)
  next
    case (Cons v vs)
    with assms r show ?thesis
      by (auto simp: import_device_def inventory_step_def intro!: update_device_columns_ok)
  qed
qed

lemma inventory_step_refl: "inventory_step d d"
  by (simp add: inventory_step_def)

lemma inventory_step_trans: "inventory_step d d1 \<Longrightarrow> inventory_step d1 d2 \<Longrightarrow> inventory_step d d2"
  by (auto simp: inventory_step_def intro: queue_frame_trans)

lemma transact_step:
  assumes "\<And>r d d'. f r d = Inr d' \<Longrightarrow> inventory_step d d'" "transact f rs d = Inr d'"
  shows "inventory_step d d'"
  using transact_inv [of rs "inventory_step d" f d d'] assms inventory_step_trans inventory_step_refl by blast

section \<open>Subnet imports keep subnets disjoint\<close>

text \<open>Prefixes that may be written to the subnets of a database, as new rows or over existing ones.\<close>

definition compatible :: "db \<Rightarrow> netprefix list \<Rightarrow> bool" where
  "compatible d ps \<longleftrightarrow> disjoint_list pg_overlaps ps \<and>
    (\<forall>p\<in>set ps. p \<in> sn_cidr ` set (db_subnets d) \<or> (\<forall>q\<in>set (db_subnets d). \<not> pg_overlaps (sn_cidr q) p))"

definition subnets_step :: "db \<Rightarrow> db \<Rightarrow> bool" where
  "subnets_step d d' \<longleftrightarrow> queue_frame d d' \<and> inventory_ok d' \<and> ipv4_db d' \<and> db_users d' = db_users d"

lemma same_cidr: "sn_cidr r = c \<Longrightarrow> r\<lparr>sn_cidr := c\<rparr> = r"
  by (cases r) simp

lemma update_subnet_same_cidr:
  assumes "inventory_ok d" "q \<in> set (db_subnets d)" "update_subnet (sn_id q) f d = Inr d'"
    "\<forall>r. sn_id (f r) = sn_id r \<and> sn_cidr (f r) = sn_cidr r"
  shows "inventory_ok d'" "map sn_cidr (db_subnets d') = map sn_cidr (db_subnets d)"
proof -
  let ?f = "\<lambda>r. (f r)\<lparr>sn_cidr := sn_cidr q\<rparr>"
  have uq: "r = q" if "r \<in> set (db_subnets d)" "sn_id r = sn_id q" for r
    using that assms(1,2) distinct_key_unique [of sn_id "db_subnets d"] by (auto simp: inventory_defs)
  have f: "?f q = f q" using same_cidr [of "f q" "sn_cidr q"] assms(4) by simp
  have rows: "update_rows (\<lambda>r. sn_id r = sn_id q) ?f (db_subnets d) = update_rows (\<lambda>r. sn_id r = sn_id q) f (db_subnets d)"
    unfolding update_rows_def by (intro map_cong refl) (auto simp: f dest!: uq)
  have "filter (\<lambda>r. sn_id r = sn_id q) (db_subnets d) = [q]"
    using filter_key_singleton [of sn_id "db_subnets d" q] assms(1,2) by (simp add: inventory_defs)
  then have "update_subnet (sn_id q) ?f d = Inr d'"
    using assms(3) by (simp only: update_subnet_def rows list.set ball_simps f)
  moreover have "\<forall>r\<in>set (db_subnets d). sn_id r \<noteq> sn_id q \<longrightarrow> \<not> pg_overlaps (sn_cidr r) (sn_cidr q)"
    using assms(1,2) sn.disjoint_pair [of sn_cidr "db_subnets d"] by (auto simp: inventory_defs)
  ultimately show "inventory_ok d'"
    using assms(1,2,4) by (intro update_subnet_ok [of d "sn_id q" ?f d' "sn_cidr q"]) (auto simp: inventory_defs)
  show "map sn_cidr (db_subnets d') = map sn_cidr (db_subnets d)"
    using assms(3,4) by (auto simp: update_subnet_def update_rows_def split: if_splits)
qed

lemma subnet_columns_keys: "\<forall>q. sn_id (subnet_columns now r q) = sn_id q \<and> sn_cidr (subnet_columns now r q) = sn_cidr q"
  by (simp add: subnet_columns_def)

lemma import_subnet_cases:
  assumes "import_subnet g now (r, tok) d = Inr d'"
  obtains (new) c row where "pg_cidr g (sm_CIDR r) = Some c" "c \<notin> sn_cidr ` set (db_subnets d)" "sn_cidr row = c" "insert_subnet row d = Inr d'"
    | (old) q f where "q \<in> set (db_subnets d)" "pg_cidr g (sm_CIDR r) = Some (sn_cidr q)" "update_subnet (sn_id q) f d = Inr d'"
      "\<forall>r. sn_id (f r) = sn_id r \<and> sn_cidr (f r) = sn_cidr r"
proof -
  obtain key c where c: "tok = Some key" "pg_cidr g (sm_CIDR r) = Some c"
    using assms by (auto simp: import_subnet_def split: option.splits)
  show thesis
  proof (cases "find (\<lambda>q. sn_cidr q = c) (db_subnets d)")
    case None
    then have "c \<notin> sn_cidr ` set (db_subnets d)" by (auto simp: find_None_iff)
    moreover from assms c None have "insert_subnet \<lparr>sn_id = key, sn_site_id = emptyToNil (sm_SiteID r), sn_cidr = c,
        sn_name = sm_Name r, sn_vlan = sm_VLAN r, sn_description = sm_Description r, sn_created_at = now, sn_updated_at = now\<rparr> d = Inr d'"
      by (simp add: import_subnet_def)
    ultimately show thesis using c(2) by (intro new [OF c(2)]) simp_all
  next
    case (Some q)
    then have "q \<in> set (db_subnets d)" "sn_cidr q = c" by (auto simp: find_Some_iff)
    moreover from assms c Some have "update_subnet (sn_id q) (subnet_columns now r) d = Inr d'" by (simp add: import_subnet_def)
    ultimately show thesis using c(2) subnet_columns_keys [of now r] by (intro old [of q "subnet_columns now r"]) simp_all
  qed
qed

lemma import_subnet_step:
  assumes "import_subnet g now (r, tok) d = Inr d'" "inventory_ok d" "ipv4_db d" "pg_cidr g (sm_CIDR r) = Some p" "valid4 p" "Masked p = p"
    "compatible d (p # ps)"
  shows "subnets_step d d'" "compatible d' ps"
proof -
  have "subnets_step d d' \<and> compatible d' ps"
    using assms(1)
  proof (cases rule: import_subnet_cases)
    case (new c row)
    have c: "c = p" using new(1) assms(4) by simp
    then have free: "\<forall>q\<in>set (db_subnets d). \<not> pg_overlaps (sn_cidr q) p" using new(2) assms(7) by (auto simp: compatible_def)
    have ok: "inventory_ok d'"
      by (rule insert_subnet_ok [OF assms(2) new(4)]) (use free c new(3) assms(5,6) in \<open>auto simp: valid4_def\<close>)
    have d': "d' = d\<lparr>db_subnets := db_subnets d @ [row]\<rparr>" using new(4) by (auto simp: insert_subnet_def split: if_splits)
    have "compatible d' ps" using assms(7) new(3) c by (auto simp: d' compatible_def)
    moreover have "ipv4_db d'" using assms(3,5) new(3) c by (auto simp: d' ipv4_db_def)
    ultimately show ?thesis using ok insert_frames(1) [OF new(4)] by (simp add: subnets_step_def) (simp add: d')
  next
    case (old q f)
    note u = update_subnet_same_cidr [OF assms(2) old(1,3,4)]
    have cidrs: "sn_cidr ` set (db_subnets d') = sn_cidr ` set (db_subnets d)" using u(2) by (metis list.set_map)
    have "db_users d' = db_users d" using old(3) by (auto simp: update_subnet_def split: if_splits)
    moreover have "(\<forall>x\<in>set (db_subnets d'). P (sn_cidr x)) \<longleftrightarrow> (\<forall>x\<in>set (db_subnets d). P (sn_cidr x))" for P
      by (rule ball_image_cong [OF cidrs])
    note all = this
    have "(\<forall>x\<in>set (db_subnets d'). \<not> pg_overlaps (sn_cidr x) y) \<longleftrightarrow> (\<forall>x\<in>set (db_subnets d). \<not> pg_overlaps (sn_cidr x) y)" for y
      by (rule all)
    then have "compatible d' ps" using assms(7) by (simp add: compatible_def cidrs)
    moreover have "ipv4_db d'" using assms(3) all [of valid4] by (simp add: ipv4_db_def)
    ultimately show ?thesis using u(1) insert_frames(5) [OF old(3)] by (simp add: subnets_step_def)
  qed
  then show "subnets_step d d'" "compatible d' ps" by simp_all
qed

lemma import_subnets_ok:
  assumes "transact (import_subnet g now) rows d = Inr d'" "inventory_ok d" "ipv4_db d"
    "\<forall>r\<in>set (map fst rows). \<exists>p. pg_cidr g (sm_CIDR r) = Some p \<and> valid4 p \<and> Masked p = p"
    "compatible d (map (\<lambda>r. the (pg_cidr g (sm_CIDR (fst r)))) rows)"
  shows "subnets_step d d'"
  using assms
proof (induction rows arbitrary: d)
  case (Cons r rows)
  obtain r0 tok where r: "r = (r0, tok)" by fastforce
  obtain d1 where d1: "import_subnet g now (r0, tok) d = Inr d1" "transact (import_subnet g now) rows d1 = Inr d'"
    using Cons.prems(1) by (auto simp: r bind_res_eq_Inr)
  obtain p where p: "pg_cidr g (sm_CIDR r0) = Some p" "valid4 p" "Masked p = p" using Cons.prems(4) by (auto simp: r)
  have s: "subnets_step d d1" "compatible d1 (map (\<lambda>r. the (pg_cidr g (sm_CIDR (fst r)))) rows)"
    using import_subnet_step [OF d1(1) Cons.prems(2,3) p] Cons.prems(5) p by (simp_all add: r)
  then have "subnets_step d1 d'" using Cons.IH [OF d1(2)] Cons.prems(4) by (simp add: subnets_step_def)
  with s(1) show ?case by (auto simp: subnets_step_def intro: queue_frame_trans)
qed (simp add: subnets_step_def)

section \<open>What a validated file of subnets is\<close>

abbreviation import_prefix :: "SubnetImport \<Rightarrow> netprefix" where
  "import_prefix i \<equiv> the (ParsePrefix (sm_CIDR i))"

lemma canon_parses: "canon_cidr s \<Longrightarrow> ParsePrefix s = Some (the (ParsePrefix s)) \<and> valid4 (the (ParsePrefix s)) \<and> Masked (the (ParsePrefix s)) = the (ParsePrefix s)"
  using ParsePrefix_wf by (auto simp: canon_cidr_iff valid4_def)

definition fits :: "importContext \<Rightarrow> SubnetImport \<Rightarrow> bool" where
  "fits ic i \<longleftrightarrow> canon_cidr (sm_CIDR i) \<and>
    (ic_subnetByCIDR ic (sm_CIDR i) \<noteq> None \<or> (\<forall>s\<in>set (ic_subnets ic). \<not> Overlaps (ex_prefix s) (import_prefix i)))"

lemma check_subnet_accepts:
  assumes "check_subnet ic idx (pending, seen) line row = Inr (i, upd, st)"
  shows "fits ic i" "st = (pending @ [(Some (import_prefix i), line)], seen(sm_CIDR i \<mapsto> line))"
    "\<forall>p. Some p \<in> fst ` set pending \<longrightarrow> \<not> Overlaps p (import_prefix i)"
proof -
  obtain cidr where c: "NormalizeCIDR (cell row idx ''cidr'') = Inr cidr" "sm_CIDR i = cidr"
    "st = (pending @ [(ParsePrefix cidr, line)], seen(cidr \<mapsto> line))"
    and pend: "find (\<lambda>(p, l). case p of None \<Rightarrow> False | Some p' \<Rightarrow> overlaps_opt p' (ParsePrefix cidr)) pending = None"
    and free: "ic_subnetByCIDR ic cidr \<noteq> None \<or> \<not> list_ex (\<lambda>s. overlaps_opt (ex_prefix s) (ParsePrefix cidr)) (ic_subnets ic)"
    using assms by (auto simp: check_subnet_def Let_def split: if_splits sum.splits option.splits)
  have canon: "canon_cidr cidr" using NormalizeCIDR_canon c(1) .
  obtain q where q: "ParsePrefix cidr = Some q" using canon_parses [OF canon] by blast
  show "fits ic i" using free canon by (auto simp: fits_def c(2) q overlaps_opt_def list_ex_iff)
  show "st = (pending @ [(Some (import_prefix i), line)], seen(sm_CIDR i \<mapsto> line))" by (simp add: c(2,3) q)
  show "\<forall>p. Some p \<in> fst ` set pending \<longrightarrow> \<not> Overlaps p (import_prefix i)"
    using pend by (force simp: find_None_iff c(2) q overlaps_opt_def)
qed

lemma validate_subnet_rows:
  assumes "validate_rows (check_subnet ic idx) (pending, seen) line records = (rows, ims)"
  shows "(\<forall>i\<in>set ims. fits ic i \<and> (\<forall>p. Some p \<in> fst ` set pending \<longrightarrow> \<not> Overlaps p (import_prefix i))) \<and>
    disjoint_list Overlaps (map import_prefix ims)"
  using assms
proof (induction records arbitrary: pending seen line rows ims)
  case (Cons row records)
  show ?case
  proof (cases "check_subnet ic idx (pending, seen) line row")
    case (Inl err)
    then show ?thesis using Cons by (auto simp: Let_def split: prod.splits)
  next
    case (Inr x)
    obtain i upd st where x: "x = (i, upd, st)" by (cases x) auto
    note acc = check_subnet_accepts [OF Inr [unfolded x]]
    obtain rows' ims' where v: "validate_rows (check_subnet ic idx) st (Suc line) records = (rows', ims')" by fastforce
    have im: "ims = i # ims'" using Cons.prems Inr x v by auto
    note IH = Cons.IH [OF v [unfolded acc(2)]]
    have "\<not> Overlaps (import_prefix i) (import_prefix j)" if "j \<in> set ims'" for j using IH that by auto
    moreover have "\<not> Overlaps p (import_prefix j)" if "j \<in> set ims'" "Some p \<in> fst ` set pending" for p j using IH that by auto
    ultimately show ?thesis using acc(1,3) IH unfolding im by simp
  qed
qed simp

lemma validateSubnets_facts:
  assumes "validateSubnets records header ic = (result, ims)"
  shows "(\<forall>i\<in>set ims. fits ic i) \<and> disjoint_list Overlaps (map import_prefix ims)"
proof (cases "columnLookup header [''name'', ''cidr'']")
  case (Inr idx)
  then obtain rows where "validate_rows (check_subnet ic idx) ([], Map.empty) 2 records = (rows, ims)"
    using assms by (auto simp: validateSubnets_def Let_def split: prod.splits)
  from validate_subnet_rows [OF this] show ?thesis by simp
qed (use assms in \<open>auto simp: validateSubnets_def\<close>)

text \<open>The context holds exactly the subnets of an IPv4 database.\<close>

lemma ListSubnets_columns:
  assumes "ListSubnets d = Inr subnets"
  shows "map (\<lambda>s. (su_CIDR s, su_ID s)) subnets = map (\<lambda>r. (Prefix_String (sn_cidr r), sn_id r)) (sort_key (\<lambda>r. pg_key (sn_cidr r)) (db_subnets d))"
proof -
  have "list_all2 (\<lambda>r s. scanSubnet d r = Inr s) (sort_key (\<lambda>r. pg_key (sn_cidr r)) (db_subnets d)) subnets"
    using assms by (simp add: ListSubnets_def map_res_Inr_iff)
  then show ?thesis by (induction rule: list_all2_induct) (auto dest: scanSubnet_CIDR)
qed

lemma ListSubnets_pairs:
  assumes "ListSubnets d = Inr subnets"
  shows "(\<lambda>s. (su_CIDR s, su_ID s)) ` set subnets = (\<lambda>r. (Prefix_String (sn_cidr r), sn_id r)) ` set (db_subnets d)"
  using arg_cong [OF ListSubnets_columns [OF assms], of set] by (simp only: list.set_map set_sort)

lemma dom_foldl_upd: "dom (foldl (\<lambda>m s. m(f s \<mapsto> g s)) m0 xs) = dom m0 \<union> f ` set xs"
  by (induction xs arbitrary: m0) auto

lemma context_cidrs:
  assumes "buildImportContext d = Inr ic"
  shows "dom (ic_subnetByCIDR ic) = (\<lambda>r. Prefix_String (sn_cidr r)) ` set (db_subnets d)"
proof -
  obtain subnets where l: "ListSubnets d = Inr subnets" using assms by (auto simp: buildImportContext_def split: sum.splits)
  then have ic: "ic_subnetByCIDR ic = foldl (\<lambda>m s. m(su_CIDR s \<mapsto> su_ID s)) Map.empty subnets"
    using assms by (auto simp: buildImportContext_def)
  have "dom (ic_subnetByCIDR ic) = fst ` (\<lambda>s. (su_CIDR s, su_ID s)) ` set subnets"
    unfolding ic dom_foldl_upd by (simp add: image_image)
  then show ?thesis by (simp add: ListSubnets_pairs [OF l] image_comp comp_def)
qed

lemma buildImportContext_subnets:
  assumes "buildImportContext d = Inr ic" "ipv4_db d"
  shows "ex_prefix ` set (ic_subnets ic) = sn_cidr ` set (db_subnets d)"
    "ic_subnetByCIDR ic c \<noteq> None \<Longrightarrow> \<exists>r\<in>set (db_subnets d). ParsePrefix c = Some (sn_cidr r)"
proof -
  obtain subnets where l: "ListSubnets d = Inr subnets" using assms(1) by (auto simp: buildImportContext_def split: sum.splits)
  have cs: "su_CIDR ` set subnets = (\<lambda>r. Prefix_String (sn_cidr r)) ` set (db_subnets d)"
    using arg_cong [OF ListSubnets_pairs [OF l], of "image fst"] by (simp add: image_comp comp_def)
  have parse: "ParsePrefix (Prefix_String (sn_cidr r)) = Some (sn_cidr r)" if "r \<in> set (db_subnets d)" for r
    using that assms(2) by (auto simp: ipv4_db_def valid4_def intro: ParsePrefix_Prefix_String)
  have "ex_prefix ` set (ic_subnets ic) = {p. \<exists>c\<in>su_CIDR ` set subnets. ParsePrefix c = Some p}"
    using assms(1) l by (force simp: buildImportContext_def List.map_filter_def)
  also have "\<dots> = sn_cidr ` set (db_subnets d)" unfolding cs using parse by auto
  finally show "ex_prefix ` set (ic_subnets ic) = sn_cidr ` set (db_subnets d)" .
  assume "ic_subnetByCIDR ic c \<noteq> None"
  then have "c \<in> dom (ic_subnetByCIDR ic)" by blast
  then show "\<exists>r\<in>set (db_subnets d). ParsePrefix c = Some (sn_cidr r)" unfolding context_cidrs [OF assms(1)] using parse by auto
qed

lemma pg_cidr_canon: "pg_documented g \<Longrightarrow> canon_cidr s \<Longrightarrow> pg_cidr g s = Some (the (ParsePrefix s))"
  using canon_parses by (auto simp: pg_documented_def)

lemma validated_compatible:
  assumes "pg_documented g" "buildImportContext d = Inr ic" "ipv4_db d" "validateSubnets records header ic = (result, ims)"
  shows "\<forall>i\<in>set ims. \<exists>p. pg_cidr g (sm_CIDR i) = Some p \<and> valid4 p \<and> Masked p = p"
    "compatible d (map (\<lambda>i. the (pg_cidr g (sm_CIDR i))) ims)"
proof -
  have v: "\<forall>i\<in>set ims. fits ic i" "disjoint_list Overlaps (map import_prefix ims)" using validateSubnets_facts [OF assms(4)] by auto
  have p: "pg_cidr g (sm_CIDR i) = Some (import_prefix i)" "valid4 (import_prefix i)" "Masked (import_prefix i) = import_prefix i"
    if "i \<in> set ims" for i
    using that v(1) canon_parses pg_cidr_canon [OF assms(1)] by (auto simp: fits_def)
  then show "\<forall>i\<in>set ims. \<exists>p. pg_cidr g (sm_CIDR i) = Some p \<and> valid4 p \<and> Masked p = p" by blast
  have m: "map (\<lambda>i. the (pg_cidr g (sm_CIDR i))) ims = map import_prefix ims" by (simp add: p)
  have "import_prefix i \<in> sn_cidr ` set (db_subnets d) \<or> (\<forall>q\<in>set (db_subnets d). \<not> pg_overlaps (sn_cidr q) (import_prefix i))"
    if i: "i \<in> set ims" for i
  proof (cases "ic_subnetByCIDR ic (sm_CIDR i) = None")
    case True
    then have "\<forall>s\<in>set (ic_subnets ic). \<not> Overlaps (ex_prefix s) (import_prefix i)"
      using bspec [OF v(1) i] unfolding fits_def by simp
    then have "\<forall>q\<in>set (db_subnets d). \<not> Overlaps (sn_cidr q) (import_prefix i)"
      using ball_image_cong [OF buildImportContext_subnets(1) [OF assms(2,3)], of "\<lambda>q. \<not> Overlaps q (import_prefix i)"] by (rule iffD1 [rotated])
    then show ?thesis unfolding pg_overlaps_def by (rule disjI2)
  next
    case False
    then obtain r where "r \<in> set (db_subnets d)" "ParsePrefix (sm_CIDR i) = Some (sn_cidr r)"
      using buildImportContext_subnets(2) [OF assms(2,3)] by blast
    then show ?thesis by simp
  qed
  with v(2) show "compatible d (map (\<lambda>i. the (pg_cidr g (sm_CIDR i))) ims)"
    unfolding m compatible_def by (simp add: pg_overlaps_def [abs_def])
qed

lemma draws_for_fst: "map fst (draws_for toks rows) = rows"
  by (simp add: draws_for_def)

lemma validateImport_payload:
  assumes "validateImport entity body fmt d = (result, pl)"
  obtains (none) "pl = No_payload"
    | (subnets) ic records header res ims where "pl = Subnets_payload ims" "buildImportContext d = Inr ic"
        "validateSubnets records header ic = (res, ims)"
    | (addresses) ic records header res ims where "pl = Addresses_payload ims" "buildImportContext d = Inr ic"
        "validateAddresses records header ic = (res, ims)"
    | (devices) ic records header res ims where "pl = Devices_payload ims" "buildImportContext d = Inr ic"
        "validateDevices records header ic = (res, ims)"
proof (cases "pl = No_payload")
  case False
  then obtain ic records header result' where ic: "buildImportContext d = Inr ic"
    and v: "(if entity = ''subnets'' then map_prod id Subnets_payload (validateSubnets records header ic)
       else if entity = ''addresses'' then map_prod id Addresses_payload (validateAddresses records header ic)
       else map_prod id Devices_payload (validateDevices records header ic)) = (result', pl)"
    using assms unfolding validateImport_def file_error_def Let_def by (auto split: sum.splits prod.splits if_split_asm)
  from v show thesis
    using subnets [OF _ ic] addresses [OF _ ic] devices [OF _ ic]
    by (cases "validateSubnets records header ic"; cases "validateAddresses records header ic"; cases "validateDevices records header ic")
      (auto split: if_split_asm)
qed (rule none)

section \<open>A confirmed import\<close>

lemma apply_import_step:
  assumes "pg_documented g" "ipv4_db d" "inventory_ok d" "validateImport entity body fmt d = (result, pl)" "apply_import g now toks pl d = Inr d'"
  shows "subnets_step d d'"
proof (cases pl)
  case (Subnets_payload ims)
  obtain ic records header res where v: "buildImportContext d = Inr ic" "validateSubnets records header ic = (res, ims)"
    using assms(4) Subnets_payload by (auto elim: validateImport_payload)
  note c = validated_compatible [OF assms(1) v(1) assms(2) v(2)]
  have "compatible d (map (\<lambda>r. the (pg_cidr g (sm_CIDR (fst r)))) (draws_for toks ims))"
    using c(2) draws_for_fst [of toks ims] by (metis (no_types, lifting) list.map_comp comp_def map_eq_conv)
  with c(1) show ?thesis
    using assms(2,3,5) by (intro import_subnets_ok) (simp_all add: Subnets_payload apply_import_def ImportSubnets_def draws_for_fst del: set_map)
next
  case (Addresses_payload ims)
  then have "inventory_step d d'" using assms(5) import_address_step transact_step by (fastforce simp: apply_import_def ImportAddresses_def)
  with assms(2,3) show ?thesis by (simp add: inventory_step_def subnets_step_def ipv4_db_def)
next
  case (Devices_payload ims)
  then have "inventory_step d d'" using assms(5) import_device_step transact_step by (fastforce simp: apply_import_def ImportDevices_def)
  with assms(2,3) show ?thesis by (simp add: inventory_step_def subnets_step_def ipv4_db_def)
next
  case No_payload
  then show ?thesis using assms(2,3,5) by (simp add: apply_import_def subnets_step_def)
qed

lemma subnets_step_accounts:
  assumes "subnets_step (ac_db a) d" "accounts_ok a"
  shows "accounts_ok (a\<lparr>ac_db := d\<rparr>)"
  using assms queue_frame_ok [of "ac_db a" d] by (auto simp: accounts_ok_def store_ok_def subnets_step_def)

lemma currentSession_db: "currentSession e rq a = (s, a') \<Longrightarrow> ac_db a' = ac_db a"
  by (drule currentSession_frame) (metis accounts.select_convs(1) accounts.surjective accounts.update_convs(2))

text \<open>A confirmed import either leaves the inventory as it was or has applied a file without a refused row,
  all of it, and then redirects.\<close>

lemma importApply_cases:
  fixes e :: env and rq :: request
  defines "oc \<equiv> \<lambda>g toks a. importApply g toks e rq a"
  obtains (unchanged) a' s where "currentSession e rq a = (s, a')" "oc_accounts (oc g toks a) = a'"
    | (applied) a' s result pl d where "currentSession e rq a = (Some s, a')"
        "validateImport (rq_id rq) (rq_form rq ''csv'') (normalizeImportFormat (rq_form rq ''format'')) (ac_db a') = (result, pl)"
        "rs_FileError result = []" "rs_Errors result = 0" "apply_import g (ev_dbnow e) toks pl (ac_db a') = Inr d"
        "oc_accounts (oc g toks a) = a'\<lparr>ac_db := d\<rparr>" "oc_reply (oc g toks a) = Redirect (redirectForImport (rq_id rq))"
proof (cases "currentSession e rq a")
  case (Pair s a')
  show thesis
  proof (cases "oc_accounts (oc g toks a) = a'")
    case False
    then obtain s' result pl d where "s = Some s'"
        "validateImport (rq_id rq) (rq_form rq ''csv'') (normalizeImportFormat (rq_form rq ''format'')) (ac_db a') = (result, pl)"
        "rs_FileError result = []" "rs_Errors result = 0" "apply_import g (ev_dbnow e) toks pl (ac_db a') = Inr d"
        "oc_accounts (oc g toks a) = a'\<lparr>ac_db := d\<rparr>" "oc_reply (oc g toks a) = Redirect (redirectForImport (rq_id rq))"
      using Pair unfolding oc_def importApply_def requireSession_def Let_def
      by (auto simp: respond_def logged_def split: option.splits if_split_asm prod.splits sum.splits)
    then show thesis using applied Pair by blast
  qed (rule unchanged [OF Pair])
qed

text \<open>A confirmed CSV import, whatever the file and the outcome of its transaction, keeps every invariant of
  the store and of the accounts, and the subnets stay pairwise disjoint IPv4 networks; it changes the inventory only
  if no row of the file was refused, and then every row has been written.\<close>

theorem importApply_keeps_store:
  fixes e :: env and rq :: request and toks :: "nat \<Rightarrow> string option"
  assumes "pg_documented g" "accounts_ok a" "ipv4_db (ac_db a)"
  defines "b \<equiv> oc_accounts (importApply g toks e rq a)"
  shows "accounts_ok b \<and> ipv4_db (ac_db b) \<and>
    (ac_db b = ac_db a \<or>
     (\<exists>result pl. validateImport (rq_id rq) (rq_form rq ''csv'') (normalizeImportFormat (rq_form rq ''format'')) (ac_db a) = (result, pl) \<and>
       rs_FileError result = [] \<and> rs_Errors result = 0 \<and> apply_import g (ev_dbnow e) toks pl (ac_db a) = Inr (ac_db b)))"
proof (cases rule: importApply_cases [of e rq a g toks])
  case (unchanged a' s)
  have "accounts_ok a'" "ac_db a' = ac_db a" by (rule ok.currentSession [OF assms(2) unchanged(1)], rule currentSession_db [OF unchanged(1)])
  then show ?thesis using unchanged(2) assms(3) by (simp add: b_def)
next
  case (applied a' s result pl d)
  note db = currentSession_db [OF applied(1)]
  have ok: "accounts_ok a'" using ok.currentSession [OF assms(2) applied(1)] .
  have step: "subnets_step (ac_db a') d"
    using apply_import_step [OF assms(1) _ _ applied(2,5)] assms(3) ok by (simp add: db accounts_ok_def store_ok_def)
  have "accounts_ok b \<and> ipv4_db (ac_db b)"
    using subnets_step_accounts [OF step ok] step by (simp add: b_def applied(6) subnets_step_def)
  then show ?thesis using applied(2-6) by (auto simp: b_def db)
qed

section \<open>Where imported addresses go\<close>

lemma containingSubnet_Some:
  assumes "containingSubnet ic (v4_string w) = Some (k, c)"
  shows "\<exists>s\<in>set (ic_subnets ic). Prefix_Contains (ex_prefix s) (A4 w) \<and> c = ex_cidr s \<and> k = (case ic_subnetByCIDR ic c of Some k \<Rightarrow> k | None \<Rightarrow> [])"
proof -
  define f where "f = (\<lambda>best (s :: existingSubnet). if Prefix_Contains (ex_prefix s) (A4 w) \<and> (case best of None \<Rightarrow> True | Some (b, _) \<Rightarrow> b < Bits (ex_prefix s))
         then Some (Bits (ex_prefix s), (case ic_subnetByCIDR ic (ex_cidr s) of Some k \<Rightarrow> k | None \<Rightarrow> [], ex_cidr s)) else best)"
  have "\<exists>b. foldl f None (ic_subnets ic) = Some (b, k, c)"
    using assms by (auto simp: containingSubnet_def f_def)
  moreover have "foldl f best ss = Some (b, k, c) \<Longrightarrow> best = Some (b, k, c) \<or> (\<exists>s\<in>set ss. Prefix_Contains (ex_prefix s) (A4 w) \<and> c = ex_cidr s \<and>
      k = (case ic_subnetByCIDR ic c of Some k \<Rightarrow> k | None \<Rightarrow> []))" for best ss b
  proof (induction ss arbitrary: best)
    case (Cons s ss)
    then have "foldl f (f best s) ss = Some (b, k, c)" by simp
    from Cons.IH [OF this] show ?case by (auto simp: f_def split: if_splits)
  qed simp
  ultimately show ?thesis by blast
qed

lemma disjoint_distinct: "disjoint_list pg_overlaps ps \<Longrightarrow> \<forall>p\<in>set ps. valid4 p \<Longrightarrow> distinct ps"
proof (induction ps)
  case (Cons p ps)
  then obtain w b where "p = PrefixFrom (A4 w) b" by (auto simp: valid4_iff)
  then have "A4 w \<in> prefix_addrs p" by (simp add: prefix_addrs_def)
  then have "pg_overlaps p p" using Cons.prems(2) pg_overlaps_iff [of p p] by auto
  with Cons show ?case by auto
qed simp

text \<open>The context maps the text of each network to its subnet.\<close>

lemma foldl_upd_distinct:
  assumes "distinct (map f xs)" "x \<in> set xs"
  shows "foldl (\<lambda>m x. m(f x \<mapsto> g x)) m0 xs (f x) = Some (g x)"
proof -
  have "foldl (\<lambda>m x. m(f x \<mapsto> g x)) m0 xs y = m0 y" if "y \<notin> f ` set xs" for y m0 xs
    using that by (induction xs arbitrary: m0) auto
  note same = this
  show ?thesis using assms by (induction xs arbitrary: m0) (auto simp: same)
qed

lemma buildImportContext_ids:
  assumes "buildImportContext d = Inr ic" "ipv4_db d" "inventory_ok d" "s \<in> set (ic_subnets ic)"
  shows "\<exists>r\<in>set (db_subnets d). ex_prefix s = sn_cidr r \<and> ic_subnetByCIDR ic (ex_cidr s) = Some (sn_id r)"
proof -
  obtain subnets where l: "ListSubnets d = Inr subnets" using assms(1) by (auto simp: buildImportContext_def split: sum.splits)
  let ?rows = "sort_key (\<lambda>r. pg_key (sn_cidr r)) (db_subnets d)"
  have m: "map su_CIDR subnets = map (\<lambda>r. Prefix_String (sn_cidr r)) ?rows"
    using arg_cong [OF ListSubnets_columns [OF l], of "map fst"] by (simp add: comp_def)
  have parse: "ParsePrefix (Prefix_String (sn_cidr r)) = Some (sn_cidr r)" if "r \<in> set (db_subnets d)" for r
    using that assms(2) by (auto simp: ipv4_db_def valid4_def intro: ParsePrefix_Prefix_String)
  have "distinct (map sn_cidr (db_subnets d))"
    using assms(2,3) by (intro disjoint_distinct) (auto simp: inventory_defs ipv4_db_def)
  then have "distinct (map sn_cidr ?rows)" by (simp add: distinct_map)
  then have dist: "distinct (map su_CIDR subnets)"
    unfolding m using parse by (auto simp: distinct_map inj_on_def) (metis option.inject)
  obtain u where u: "u \<in> set subnets" "ex_cidr s = su_CIDR u" "ParsePrefix (su_CIDR u) = Some (ex_prefix s)"
    using assms(1,4) l by (auto simp: buildImportContext_def List.map_filter_def)
  have "(su_CIDR u, su_ID u) \<in> (\<lambda>r. (Prefix_String (sn_cidr r), sn_id r)) ` set (db_subnets d)"
    unfolding ListSubnets_pairs [OF l, symmetric] using u(1) by blast
  then obtain r where "r \<in> set (db_subnets d)" "su_CIDR u = Prefix_String (sn_cidr r)" "su_ID u = sn_id r" by auto
  moreover have "ic_subnetByCIDR ic (su_CIDR u) = Some (su_ID u)"
    using assms(1) l foldl_upd_distinct [OF dist u(1), of su_ID] by (auto simp: buildImportContext_def)
  ultimately show ?thesis using u parse by (intro bexI [of _ r]) auto
qed

definition placed :: "db \<Rightarrow> AddressImport \<Rightarrow> bool" where
  "placed d i \<longleftrightarrow> (\<exists>w. am_Address i = v4_string w \<and> am_State i \<in> set address_states \<and>
    (\<exists>r\<in>set (db_subnets d). sn_id r = am_SubnetID i \<and> Prefix_Contains (sn_cidr r) (A4 w)))"

lemma check_address_accepts:
  assumes "check_address ic idx seen line row = Inr (i, upd, st)" "buildImportContext d = Inr ic" "ipv4_db d" "inventory_ok d"
  shows "placed d i" "seen (am_Address i) = None" "st = seen(am_Address i \<mapsto> line)"
proof -
  obtain address k c where a: "NormalizeIPv4 (cell row idx ''address'') = Inr address" "containingSubnet ic address = Some (k, c)"
      "am_Address i = address" "am_SubnetID i = k" "validAddressState (am_State i)" "seen address = None" "st = seen(address \<mapsto> line)"
    using assms(1) unfolding check_address_def Let_def by (auto split: sum.splits if_splits option.splits prod.splits list.splits)
  then show "seen (am_Address i) = None" "st = seen(am_Address i \<mapsto> line)" by simp_all
  obtain w where w: "address = v4_string w" using a(1) by (auto simp: NormalizeIPv4_Inr)
  obtain s where s: "s \<in> set (ic_subnets ic)" "Prefix_Contains (ex_prefix s) (A4 w)" "c = ex_cidr s"
      "k = (case ic_subnetByCIDR ic c of Some k \<Rightarrow> k | None \<Rightarrow> [])"
    using containingSubnet_Some [of ic w k c] a(2) w by auto
  obtain r where "r \<in> set (db_subnets d)" "ex_prefix s = sn_cidr r" "ic_subnetByCIDR ic (ex_cidr s) = Some (sn_id r)"
    using buildImportContext_ids [OF assms(2-4) s(1)] by blast
  with s a(3-5) w show "placed d i" by (auto simp: placed_def validAddressState_def)
qed

lemma validateAddresses_facts:
  assumes "validateAddresses records header ic = (result, ims)" "buildImportContext d = Inr ic" "ipv4_db d" "inventory_ok d"
  shows "(\<forall>i\<in>set ims. placed d i) \<and> distinct (map am_Address ims)"
proof (cases "columnLookup header [''address'', ''state'']")
  case (Inr idx)
  have "validate_rows (check_address ic idx) seen line records = (rows, ims) \<Longrightarrow>
      (\<forall>i\<in>set ims. placed d i \<and> seen (am_Address i) = None) \<and> distinct (map am_Address ims)" for seen line rows
  proof (induction records arbitrary: seen line rows ims)
    case (Cons row records)
    show ?case
    proof (cases "check_address ic idx seen line row")
      case (Inl err)
      then show ?thesis using Cons by (auto simp: Let_def split: prod.splits)
    next
      case (Inr x)
      obtain i upd st where x: "x = (i, upd, st)" by (cases x) auto
      note acc = check_address_accepts [OF Inr [unfolded x] assms(2-4)]
      obtain rows' ims' where v: "validate_rows (check_address ic idx) st (Suc line) records = (rows', ims')" by fastforce
      have "ims = i # ims'" using Cons.prems Inr x v by auto
      moreover have "(\<forall>j\<in>set ims'. placed d j \<and> (seen(am_Address i \<mapsto> line)) (am_Address j) = None) \<and> distinct (map am_Address ims')"
        using Cons.IH [OF v] unfolding acc(3) .
      ultimately show ?thesis using acc(1,2) by (auto split: if_splits)
    qed
  qed simp
  then show ?thesis using assms(1) Inr by (auto simp: validateAddresses_def Let_def split: prod.splits)
qed (use assms(1) in \<open>auto simp: validateAddresses_def\<close>)

text \<open>The row an address import leaves, and that later rows of the file with other addresses keep it.\<close>

definition has_columns :: "AddressImport \<Rightarrow> address_row \<Rightarrow> bool" where
  "has_columns i r \<longleftrightarrow> ad_subnet_id r = emptyToNil (am_SubnetID i) \<and> ad_device_id r = emptyToNil (am_DeviceID i) \<and>
    ad_state r = am_State i \<and> ad_hostname r = am_Hostname i \<and> ad_notes r = am_Notes i"

definition written :: "db \<Rightarrow> AddressImport \<Rightarrow> netprefix \<Rightarrow> bool" where
  "written d i p \<longleftrightarrow> (\<exists>r\<in>set (db_addresses d). ad_address r = p \<and> has_columns i r)"

lemma import_address_writes:
  assumes "import_address g now (i, tok) d = Inr d'" "addresses_ok d" "pg_inet g (am_Address i) = Some p"
  shows "written d' i p" "q \<noteq> p \<Longrightarrow> written d j q \<Longrightarrow> written d' j q"
proof -
  define f where "f = (\<lambda>a :: address_row. a\<lparr>ad_subnet_id := emptyToNil (am_SubnetID i), ad_device_id := emptyToNil (am_DeviceID i),
    ad_state := am_State i, ad_hostname := am_Hostname i, ad_notes := am_Notes i, ad_updated_at := now\<rparr>)"
  obtain row aid where u: "upsert_address row f d = Inr (aid, d')" and row: "ad_address row = p" "has_columns i row"
    using assms(1,3) by (auto simp: import_address_def bind_res_eq_Inr f_def has_columns_def split: option.splits prod.splits)
  have f: "\<forall>a. ad_id (f a) = ad_id a \<and> ad_address (f a) = ad_address a" "has_columns i (f b)" for b
    by (simp_all add: f_def has_columns_def)
  show "written d' i p" using upsert_address_row [OF u f(1)] row f(2) by (auto simp: written_def)
  assume q: "q \<noteq> p" "written d j q"
  show "written d' j q"
  proof (cases "find (\<lambda>a. ad_address a = ad_address row) (db_addresses d)")
    case None
    then have "d' = d\<lparr>db_addresses := db_addresses d @ [row]\<rparr>"
      using u by (auto simp: upsert_address_def bind_res_eq_Inr insert_address_def split: if_splits)
    then show ?thesis using q(2) by (auto simp: written_def)
  next
    case (Some b)
    then have b: "b \<in> set (db_addresses d)" "ad_address b = p" using row(1) by (auto simp: find_Some_iff)
    have d': "db_addresses d' = update_rows (\<lambda>r. ad_id r = ad_id b) f (db_addresses d)"
      using u Some by (auto simp: upsert_address_def bind_res_eq_Inr update_address_def split: if_splits)
    have "r \<in> set (db_addresses d')" if "r \<in> set (db_addresses d)" "ad_address r = q" for r
    proof -
      have "ad_id r \<noteq> ad_id b" using that b q(1) assms(2) distinct_key_unique [of ad_id "db_addresses d"] by (auto simp: addresses_ok_def)
      with that show ?thesis by (auto simp: d' set_update_rows)
    qed
    then show ?thesis using q(2) unfolding written_def by blast
  qed
qed

lemma import_addresses_write:
  assumes "transact (import_address g now) rows d = Inr d'" "inventory_ok d" "distinct (map (am_Address \<circ> fst) rows)"
    "\<forall>r\<in>set rows. pg_inet g (am_Address (fst r)) = Some (h (am_Address (fst r)))" "inj_on h ((am_Address \<circ> fst) ` set rows)"
  shows "(\<forall>r\<in>set rows. written d' (fst r) (h (am_Address (fst r)))) \<and>
    (\<forall>j q. q \<notin> h ` (am_Address \<circ> fst) ` set rows \<longrightarrow> written d j q \<longrightarrow> written d' j q)"
  using assms
proof (induction rows arbitrary: d)
  case (Cons x rows)
  obtain i tok where x: "x = (i, tok)" by fastforce
  obtain d1 where d1: "import_address g now (i, tok) d = Inr d1" "transact (import_address g now) rows d1 = Inr d'"
    using Cons.prems(1) by (auto simp: x bind_res_eq_Inr)
  have ok: "inventory_ok d1" using import_address_step [OF d1(1)] Cons.prems(2) by (simp add: inventory_step_def)
  have "addresses_ok d" using Cons.prems(2) by (simp add: inventory_ok_def)
  note w = import_address_writes [OF d1(1) this]
  have p: "pg_inet g (am_Address i) = Some (h (am_Address i))" using Cons.prems(4) by (simp add: x)
  have IH: "(\<forall>r\<in>set rows. written d' (fst r) (h (am_Address (fst r)))) \<and>
      (\<forall>j q. q \<notin> h ` (am_Address \<circ> fst) ` set rows \<longrightarrow> written d1 j q \<longrightarrow> written d' j q)"
    using Cons.IH [OF d1(2) ok] Cons.prems(3-5) by simp
  have "h (am_Address i) \<notin> h ` (am_Address \<circ> fst) ` set rows"
    using Cons.prems(3,5) by (auto simp: x inj_on_def)
  then have "written d' i (h (am_Address i))" using IH w(1) [OF p] by blast
  with IH w(2) [OF p] show ?case by (auto simp: x)
qed simp

text \<open>C14: An accepted file of addresses that applies leaves, for every row of it, the address with the row's state,
  device, hostname and notes, in the one subnet of the inventory that contains it.\<close>

theorem import_places_addresses:
  assumes "pg_documented g" "inventory_ok d" "ipv4_db d" "validateImport entity body fmt d = (result, Addresses_payload ims)"
    "apply_import g now toks (Addresses_payload ims) d = Inr d'" "i \<in> set ims"
  shows "\<exists>w. am_Address i = v4_string w \<and> (\<exists>r\<in>set (db_addresses d'). ad_address r = PrefixFrom (A4 w) 32 \<and> has_columns i r) \<and>
    (\<exists>!s. s \<in> set (db_subnets d') \<and> A4 w \<in> prefix_addrs (sn_cidr s)) \<and>
    (\<exists>s\<in>set (db_subnets d'). sn_id s = am_SubnetID i \<and> A4 w \<in> prefix_addrs (sn_cidr s))"
proof -
  obtain ic records header res where v: "buildImportContext d = Inr ic" "validateAddresses records header ic = (res, ims)"
    using assms(4) by (auto elim: validateImport_payload)
  note facts = validateAddresses_facts [OF v(2,1) assms(3,2)]
  define h where "h = (\<lambda>a. PrefixFrom (the (ParseAddr a)) 32)"
  have t: "transact (import_address g now) (draws_for toks ims) d = Inr d'" using assms(5) by (simp add: apply_import_def ImportAddresses_def)
  have ws: "\<exists>w. am_Address j = v4_string w" if "j \<in> set ims" for j using that facts by (auto simp: placed_def)
  have rows: "fst ` set (draws_for toks ims) = set ims" using draws_for_fst [of toks ims] by (metis list.set_map)
  then have img: "(am_Address \<circ> fst) ` set (draws_for toks ims) = am_Address ` set ims" by (simp only: image_comp [symmetric])
  have dist: "map (am_Address \<circ> fst) (draws_for toks ims) = map am_Address ims"
    using draws_for_fst [of toks ims] by (simp only: map_map [symmetric])
  have "\<forall>r\<in>set (draws_for toks ims). pg_inet g (am_Address (fst r)) = Some (h (am_Address (fst r)))"
  proof
    fix r assume "r \<in> set (draws_for toks ims)"
    then have "fst r \<in> set ims" using rows by blast
    then obtain w where "am_Address (fst r) = v4_string w" using ws by blast
    then show "pg_inet g (am_Address (fst r)) = Some (h (am_Address (fst r)))" using assms(1) by (simp add: h_def pg_documented_def)
  qed
  moreover have "inj_on h (am_Address ` set ims)"
  proof (rule inj_onI)
    fix x y assume "x \<in> am_Address ` set ims" "y \<in> am_Address ` set ims" "h x = h y"
    moreover from this obtain u v where "x = v4_string u" "y = v4_string v" using ws by blast
    ultimately show "x = y" by (simp add: h_def)
  qed
  ultimately have "\<forall>r\<in>set (draws_for toks ims). written d' (fst r) (h (am_Address (fst r)))"
    using import_addresses_write [OF t assms(2), of h] facts unfolding dist img by (auto simp only:)
  moreover obtain r where "r \<in> set (draws_for toks ims)" "i = fst r" using assms(6) rows by blast
  ultimately have w': "written d' i (h (am_Address i))" by simp
  obtain w s where w: "am_Address i = v4_string w" "s \<in> set (db_subnets d)" "sn_id s = am_SubnetID i" "A4 w \<in> prefix_addrs (sn_cidr s)"
    using facts assms(6) by (auto simp: placed_def prefix_addrs_def)
  have "db_subnets d' = db_subnets d" using transact_step [OF import_address_step t] by (simp add: inventory_step_def)
  moreover have "s' = s" if "s' \<in> set (db_subnets d)" "A4 w \<in> prefix_addrs (sn_cidr s')" for s'
    using ipv4_partition [OF assms(2,3) that(1) w(2) that(2) w(4)] .
  moreover have "written d' i (PrefixFrom (A4 w) 32)" using w' w(1) by (simp add: h_def)
  ultimately show ?thesis using w unfolding written_def by (intro exI [of _ w]) metis
qed

section \<open>Examples\<close>

definition demo_import :: request where
  "demo_import = demo_request\<lparr>rq_id := ''subnets'', rq_form := demo_form(''csv'' := ''name,cidr,vlan'' @ LF # ''lan,10.0.0.0/24,7'' @ [LF])\<rparr>"

definition demo_address_file :: string where
  "demo_address_file = ''address,state,hostname'' @ LF # ''10.0.0.9,Assigned,printer'' @ [LF]"

theorem importApply_keeps_store_witness:
  "accounts_ok (oc_accounts (importApply pg_netip (\<lambda>_. Some ''k1'') demo_account_env demo_import demo_accounts)) \<and>
   map (\<lambda>r. (sn_name r, sn_vlan r)) (db_subnets (ac_db (oc_accounts (importApply pg_netip (\<lambda>_. Some ''k1'') demo_account_env demo_import demo_accounts)))) =
     [(''lan'', Some 7)]"
proof -
  have "ipv4_db (ac_db demo_accounts)" by (simp add: ipv4_db_def demo_accounts_def empty_db_def)
  moreover have "map (\<lambda>r. (sn_name r, sn_vlan r)) (db_subnets (ac_db (oc_accounts (importApply pg_netip (\<lambda>_. Some ''k1'') demo_account_env demo_import demo_accounts)))) =
     [(''lan'', Some 7)]" by code_simp
  ultimately show ?thesis
    using importApply_keeps_store [OF pg_netip_documented demo_accounts_ok, of "\<lambda>_. Some ''k1''" demo_account_env demo_import] by blast
qed

theorem import_places_addresses_witness:
  "\<exists>d'. apply_import pg_netip 5 (\<lambda>_. Some ''a1'') (snd (validateImport ''addresses'' demo_address_file formatLightIPAM demo_db)) demo_db = Inr d' \<and>
    (\<exists>r\<in>set (db_addresses d'). ad_address r = PrefixFrom (A4 0x0A000009) 32)"
proof -
  let ?v = "validateImport ''addresses'' demo_address_file formatLightIPAM demo_db"
  let ?i = "\<lparr>am_Address = ''10.0.0.9'', am_SubnetID = ''s1'', am_DeviceID = [], am_State = ''assigned'', am_Hostname = ''printer'', am_Notes = []\<rparr>"
  have v: "snd ?v = Addresses_payload [?i]" by code_simp
  have ok: "is_ok (apply_import pg_netip 5 (\<lambda>_. Some ''a1'') (Addresses_payload [?i]) demo_db)" by code_simp
  then obtain d' where d': "apply_import pg_netip 5 (\<lambda>_. Some ''a1'') (Addresses_payload [?i]) demo_db = Inr d'" by (auto simp: is_ok_iff)
  have "?v = (fst ?v, Addresses_payload [?i])" using v by (metis prod.collapse)
  from import_places_addresses [OF pg_netip_documented demo_db_ok this d', of ?i]
  obtain w where "''10.0.0.9'' = v4_string w" "\<exists>r\<in>set (db_addresses d'). ad_address r = PrefixFrom (A4 w) 32" by auto
  moreover have "''10.0.0.9'' = v4_string 0x0A000009" by code_simp
  then have "w = 0x0A000009" using calculation(1) by simp
  ultimately show ?thesis using v d' by auto
qed

end
