(* ===== verification/RoundTrip.thy ===== *)
theory RoundTrip
  imports Portability
begin

text \<open>
  Export and import together (\<open>internal/app/portability.go\<close>): the file of subnets that \<open>exportSubnetsCSV\<close>
  writes is one the importer accepts, and applying it leaves every record as it is but for its time of update.
\<close>

section \<open>Records that survive a file\<close>

text \<open>Text that reads back as it was written: no white space around it, no leading character that the export
  escapes, no carriage return directly before a line feed.\<close>

definition tidy :: "string \<Rightarrow> bool" where
  "tidy s \<longleftrightarrow> TrimSpace s = s \<and> sanitizeCSVCell s = s \<and> crlf_free s"

definition exportable :: "db \<Rightarrow> bool" where
  "exportable d \<longleftrightarrow> (\<forall>r\<in>set (db_subnets d). sn_name r \<noteq> [] \<and> tidy (sn_name r) \<and> tidy (sn_description r)) \<and>
    (\<forall>s\<in>set (db_sites d). si_name s \<noteq> [] \<and> tidy (si_name s) \<and> TrimSpace (si_id s) \<noteq> []) \<and>
    distinct (map si_id (db_sites d)) \<and> distinct (map (\<lambda>s. ToLower (si_name s)) (db_sites d))"

definition subnet_record :: "db \<Rightarrow> subnet_row \<Rightarrow> string list" where
  "subnet_record d r = [sn_name r, Prefix_String (sn_cidr r), vlan_text (sn_vlan r), site_name d (sn_site_id r), sn_description r]"

definition subnet_import :: "subnet_row \<Rightarrow> SubnetImport" where
  "subnet_import r = \<lparr>sm_SiteID = coalesce (sn_site_id r), sm_CIDR = Prefix_String (sn_cidr r), sm_Name = sn_name r,
     sm_VLAN = sn_vlan r, sm_Description = sn_description r\<rparr>"

abbreviation listed :: "db \<Rightarrow> subnet_row list" where
  "listed d \<equiv> sort_key (\<lambda>r. pg_key (sn_cidr r)) (db_subnets d)"

lemma tidy_Nil [simp]: "tidy []"
  by (simp add: tidy_def sanitizeCSVCell_def)

lemma digit_tidy:
  assumes "is_digit (hd s)" "\<forall>c\<in>set s. visible c" "s \<noteq> []"
  shows "tidy s"
proof -
  have "\<not> visible CR" by code_simp
  then have "CR \<notin> set s" using assms(2) by blast
  then have "crlf_free s" by (induction s rule: crlf_free.induct) auto
  moreover have "hd s \<notin> {CHR ''='', CHR ''+'', CHR ''-'', CHR ''@'', CHR 0x09, CR}" using assms(1) by (auto simp: is_digit_def)
  moreover have "TrimSpace s = s" using assms(2,3) by (simp add: TrimSpace_visible)
  ultimately show ?thesis by (simp add: tidy_def sanitizeCSVCell_def)
qed

lemma itoa_nat_tidy: "tidy (itoa_nat n)"
  using itoa_nat_digits [of n] by (intro digit_tidy) (auto simp: itoa_nat_hd_digit list_all_iff visible_digit)

lemma cidr_tidy: "tidy (Prefix_String (PrefixFrom (A4 w) b))"
proof (rule digit_tidy)
  have "visible CHR ''.''" "visible CHR ''/''" by code_simp+
  moreover have "\<forall>c\<in>set (itoa_nat n). visible c" for n using itoa_nat_digits [of n] by (auto simp: list_all_iff visible_digit)
  ultimately show "\<forall>c\<in>set (Prefix_String (PrefixFrom (A4 w) b)). visible c"
    by (auto simp: Prefix_String_A4 v4_string_def v4_octets_def)
  show "is_digit (hd (Prefix_String (PrefixFrom (A4 w) b)))" "Prefix_String (PrefixFrom (A4 w) b) \<noteq> []"
    by (simp_all add: Prefix_String_A4 v4_string_def v4_octets_def itoa_nat_hd_digit)
qed

lemma vlan_tidy: "vlan_check v \<Longrightarrow> tidy (vlan_text v)"
  by (auto simp: vlan_check_def vlan_text_def itoa_def itoa_nat_tidy split: option.splits)

lemma ParseVLAN_vlan_text: "vlan_check v \<Longrightarrow> ParseVLAN (vlan_text v) = Inr v"
proof (cases v)
  case (Some n)
  assume "vlan_check v"
  then have n: "1 \<le> n" "n \<le> 4094" by (simp_all add: Some vlan_check_def)
  then have "Atoi (itoa_nat (nat n)) = Some n" using Atoi_itoa_nat [of "nat n"] by simp
  with n show ?thesis using itoa_nat_tidy [of "nat n"] by (simp add: Some ParseVLAN_def vlan_text_def itoa_def tidy_def)
qed (simp add: ParseVLAN_def vlan_text_def)

lemma site_name_tidy: "exportable d \<Longrightarrow> tidy (site_name d sid)"
  by (auto simp: exportable_def site_name_def find_Some_iff split: option.splits)

section \<open>The exported file\<close>

lemma valid4_row:
  assumes "ipv4_db d" "r \<in> set (db_subnets d)"
  obtains w b where "sn_cidr r = PrefixFrom (A4 w) b" "b \<le> 32"
  using assms by (auto simp: ipv4_db_def valid4_iff)

lemma subnet_record_tidy:
  assumes "exportable d" "ipv4_db d" "inventory_ok d" "r \<in> set (db_subnets d)"
  shows "\<forall>c\<in>set (subnet_record d r). tidy c"
proof -
  obtain w b where "sn_cidr r = PrefixFrom (A4 w) b" using valid4_row [OF assms(2,4)] .
  then show ?thesis using assms cidr_tidy site_name_tidy [OF assms(1)] vlan_tidy
    by (auto simp: subnet_record_def exportable_def inventory_defs)
qed

lemma map_res_ok: "is_ok (map_res f xs) \<longleftrightarrow> (\<forall>x\<in>set xs. is_ok (f x))"
  by (induction xs) (auto split: sum.splits)

lemma ListSubnets_ok:
  assumes "ipv4_db d"
  shows "\<exists>subnets. ListSubnets d = Inr subnets \<and> list_all2 (\<lambda>r s. scanSubnet d r = Inr s) (listed d) subnets"
proof -
  have "\<forall>r\<in>set (listed d). is_ok (scanSubnet d r)" using assms scanSubnet_ok by (auto simp: ipv4_db_def)
  then have "is_ok (ListSubnets d)" by (simp add: ListSubnets_def map_res_ok)
  then obtain subnets where "ListSubnets d = Inr subnets" by (cases "ListSubnets d") auto
  then show ?thesis unfolding ListSubnets_def map_res_Inr_iff by blast
qed

lemma cell_Write_tidy: "\<forall>c\<in>set cs. tidy c \<Longrightarrow> cell_Write cs = csv_Write cs"
  by (simp add: cell_Write_def tidy_def map_idI)

lemma exportSubnetsCSV_text:
  assumes "exportable d" "ipv4_db d" "inventory_ok d"
  shows "exportSubnetsCSV d = Inr (concat (map csv_Write (subnetCSVColumns # map (subnet_record d) (listed d))))"
proof -
  obtain subnets where l: "ListSubnets d = Inr subnets" "list_all2 (\<lambda>r s. scanSubnet d r = Inr s) (listed d) subnets"
    using ListSubnets_ok [OF assms(2)] by blast
  have row: "cell_Write [su_Name s, su_CIDR s, vlan_text (su_VLAN s), su_SiteName s, su_Description s] = csv_Write (subnet_record d r)"
    if "scanSubnet d r = Inr s" "r \<in> set (db_subnets d)" for r s
  proof -
    have "[su_Name s, su_CIDR s, vlan_text (su_VLAN s), su_SiteName s, su_Description s] = subnet_record d r"
      using that(1) by (auto simp: scanSubnet_def subnet_record_def Let_def split: sum.splits)
    then show ?thesis using subnet_record_tidy [OF assms that(2)] cell_Write_tidy by metis
  qed
  have "set rs \<subseteq> set (db_subnets d) \<Longrightarrow> list_all2 (\<lambda>r s. scanSubnet d r = Inr s) rs ss \<Longrightarrow>
      map (\<lambda>s. cell_Write [su_Name s, su_CIDR s, vlan_text (su_VLAN s), su_SiteName s, su_Description s]) ss =
      map (\<lambda>r. csv_Write (subnet_record d r)) rs" for rs ss
    by (rotate_tac, induction rs ss rule: list_all2_induct) (auto simp: row)
  then have "map (\<lambda>s. cell_Write [su_Name s, su_CIDR s, vlan_text (su_VLAN s), su_SiteName s, su_Description s]) subnets =
      map (\<lambda>r. csv_Write (subnet_record d r)) (listed d)" using l(2) by simp
  moreover have "cell_Write subnetCSVColumns = csv_Write subnetCSVColumns" by code_simp
  ultimately show ?thesis by (simp add: exportSubnetsCSV_def l(1) comp_def)
qed

lemma parse_exported:
  assumes "exportable d" "ipv4_db d" "inventory_ok d"
  shows "parseCSV (concat (map csv_Write (subnetCSVColumns # map (subnet_record d) (listed d)))) =
    Inr (subnetCSVColumns, map (subnet_record d) (listed d))"
proof -
  have "\<forall>r\<in>set (subnetCSVColumns # map (subnet_record d) (listed d)). writable r"
    using subnet_record_tidy [OF assms] by (auto simp: writable_def tidy_def subnet_record_def subnetCSVColumns_def crlf_free_Cons)
  then have "csv_ReadAll (concat (map csv_Write (subnetCSVColumns # map (subnet_record d) (listed d)))) =
      Inr (subnetCSVColumns # map (subnet_record d) (listed d))"
    using read_all_written [of _ "[]"] by (simp only: csv_ReadAll_def append_Nil)
  moreover have "map (\<lambda>c. ToLower (TrimSpace (TrimPrefix c BOM))) subnetCSVColumns = subnetCSVColumns" by code_simp
  ultimately show ?thesis by (simp add: parseCSV_def)
qed

section \<open>Its validation\<close>

definition subnet_index :: "string \<rightharpoonup> nat" where
  "subnet_index = header_index 0 subnetCSVColumns Map.empty"

lemma subnet_cells:
  assumes "\<forall>c\<in>set (subnet_record d r). tidy c"
  shows "cell (subnet_record d r) subnet_index ''name'' = sn_name r"
    "cell (subnet_record d r) subnet_index ''cidr'' = Prefix_String (sn_cidr r)"
    "cell (subnet_record d r) subnet_index ''vlan'' = vlan_text (sn_vlan r)"
    "cell (subnet_record d r) subnet_index ''site'' = site_name d (sn_site_id r)"
    "cell (subnet_record d r) subnet_index ''description'' = sn_description r"
  using assms by (simp_all add: cell_def subnet_index_def subnetCSVColumns_def subnet_record_def tidy_def)

lemma context_site:
  assumes "exportable d" "buildImportContext d = Inr ic" "k \<in> set (map si_id (db_sites d))"
  shows "site_name d (Some k) \<noteq> []" "ic_sitesByName ic (ToLower (site_name d (Some k))) = Some k"
proof -
  obtain s where f: "find (\<lambda>r. si_id r = k) (db_sites d) = Some s" using assms(3) by (cases "find (\<lambda>r. si_id r = k) (db_sites d)") (auto simp: find_None_iff)
  then have s: "s \<in> set (db_sites d)" "si_id s = k" by (auto simp: find_Some_iff)
  have n: "site_name d (Some k) = si_name s" using f by (simp add: site_name_def)
  then show "site_name d (Some k) \<noteq> []" using s(1) assms(1) by (simp add: exportable_def)
  let ?key = "\<lambda>s. ToLower (TrimSpace (Site_Name s))" and ?row = "\<lambda>r. \<lparr>Site_ID = si_id r, Site_Name = si_name r\<rparr>"
  have trim: "TrimSpace (si_name r) = si_name r" if "r \<in> set (db_sites d)" for r using that assms(1) by (simp add: exportable_def tidy_def)
  have "map ?key (ListSites d) = map (\<lambda>r. ToLower (si_name r)) (sort_key si_name (db_sites d))" by (simp add: ListSites_def trim)
  moreover have "distinct (map (\<lambda>r. ToLower (si_name r)) (sort_key si_name (db_sites d)))" using assms(1) by (simp add: exportable_def distinct_map)
  ultimately have "distinct (map ?key (ListSites d))" by simp
  moreover have "?row s \<in> set (ListSites d)" using s(1) by (simp add: ListSites_def)
  ultimately have "foldl (\<lambda>m s. m(?key s \<mapsto> Site_ID s)) Map.empty (ListSites d) (?key (?row s)) = Some (Site_ID (?row s))"
    by (rule foldl_upd_distinct)
  then show "ic_sitesByName ic (ToLower (site_name d (Some k))) = Some k"
    using assms(2) s n trim [OF s(1)] by (auto simp: buildImportContext_def split: sum.splits)
qed

lemma NormalizeCIDR_row:
  assumes "ipv4_db d" "inventory_ok d" "r \<in> set (db_subnets d)"
  shows "NormalizeCIDR (Prefix_String (sn_cidr r)) = Inr (Prefix_String (sn_cidr r))" "ParsePrefix (Prefix_String (sn_cidr r)) = Some (sn_cidr r)"
proof -
  show p: "ParsePrefix (Prefix_String (sn_cidr r)) = Some (sn_cidr r)"
    using assms(1,3) by (auto simp: ipv4_db_def valid4_def intro: ParsePrefix_Prefix_String)
  obtain w b where "sn_cidr r = PrefixFrom (A4 w) b" using valid4_row [OF assms(1,3)] .
  moreover have "Masked (sn_cidr r) = sn_cidr r" using assms(2,3) by (simp add: inventory_defs)
  ultimately have "canon_cidr (Prefix_String (sn_cidr r))" using p by (auto simp: canon_cidr_iff)
  then show "NormalizeCIDR (Prefix_String (sn_cidr r)) = Inr (Prefix_String (sn_cidr r))" by (simp add: canon_cidr_def)
qed

lemma check_exported:
  assumes "exportable d" "ipv4_db d" "inventory_ok d" "buildImportContext d = Inr ic" "r \<in> set (db_subnets d)"
    "seen (Prefix_String (sn_cidr r)) = None" "\<forall>p. Some p \<in> fst ` set pending \<longrightarrow> \<not> Overlaps p (sn_cidr r)"
  shows "check_subnet ic subnet_index (pending, seen) line (subnet_record d r) =
    Inr (subnet_import r, True, (pending @ [(Some (sn_cidr r), line)], seen(Prefix_String (sn_cidr r) \<mapsto> line)))"
proof -
  note cells = subnet_cells [OF subnet_record_tidy [OF assms(1-3,5)]]
  note cidr = NormalizeCIDR_row [OF assms(2,3,5)]
  have vlan: "ParseVLAN (vlan_text (sn_vlan r)) = Inr (sn_vlan r)" using assms(3,5) by (intro ParseVLAN_vlan_text) (simp add: inventory_defs)
  have site: "(if site_name d (sn_site_id r) = [] then Some [] else ic_sitesByName ic (ToLower (site_name d (sn_site_id r)))) =
      Some (coalesce (sn_site_id r))"
  proof (cases "sn_site_id r")
    case (Some k)
    then have "k \<in> set (map si_id (db_sites d))" using assms(3,5) by (auto simp: inventory_defs fk_ok_def split: option.splits)
    from context_site [OF assms(1,4) this] show ?thesis by (simp add: Some coalesce_def)
  qed (simp add: site_name_def coalesce_def)
  have pend: "find (\<lambda>(p, l). case p of None \<Rightarrow> False | Some p' \<Rightarrow> overlaps_opt p' (ParsePrefix (Prefix_String (sn_cidr r)))) pending = None"
    unfolding cidr(2) using assms(7) by (force simp: find_None_iff overlaps_opt_def split: option.splits)
  have known: "ic_subnetByCIDR ic (Prefix_String (sn_cidr r)) \<noteq> None" using context_cidrs [OF assms(4)] assms(5) by blast
  have "sn_name r \<noteq> []" using assms(1,5) by (simp add: exportable_def)
  then show ?thesis using assms(6) known
    unfolding check_subnet_def Let_def prod.case cells cidr vlan site
    by (simp add: subnet_import_def pend) (simp add: cidr)
qed

lemma validate_exported:
  assumes "exportable d" "ipv4_db d" "inventory_ok d" "buildImportContext d = Inr ic" "set rs \<subseteq> set (db_subnets d)"
    "disjoint_list Overlaps (map sn_cidr rs)" "distinct (map sn_cidr rs)" "\<forall>r\<in>set rs. seen (Prefix_String (sn_cidr r)) = None"
    "\<forall>r\<in>set rs. \<forall>p. Some p \<in> fst ` set pending \<longrightarrow> \<not> Overlaps p (sn_cidr r)"
  shows "\<exists>rows. validate_rows (check_subnet ic subnet_index) (pending, seen) line (map (subnet_record d) rs) = (rows, map subnet_import rs) \<and>
    map ir_Action rows = replicate (length rs) ''update''"
  using assms(5-9)
proof (induction rs arbitrary: pending seen line)
  case (Cons r rs)
  have chk: "check_subnet ic subnet_index (pending, seen) line (subnet_record d r) =
      Inr (subnet_import r, True, (pending @ [(Some (sn_cidr r), line)], seen(Prefix_String (sn_cidr r) \<mapsto> line)))"
    using Cons.prems by (intro check_exported [OF assms(1-4)]) auto
  have "Prefix_String (sn_cidr q) \<noteq> Prefix_String (sn_cidr r)" if "q \<in> set rs" for q
  proof
    assume e: "Prefix_String (sn_cidr q) = Prefix_String (sn_cidr r)"
    have "q \<in> set (db_subnets d)" "r \<in> set (db_subnets d)" using Cons.prems(1) that by auto
    note parse = this [THEN NormalizeCIDR_row(2) [OF assms(2,3)]]
    have "Some (sn_cidr q) = Some (sn_cidr r)" unfolding parse [symmetric] e ..
    then have "sn_cidr r \<in> sn_cidr ` set rs" using image_eqI [OF _ that, of "sn_cidr r" sn_cidr] by simp
    then show False using Cons.prems(3) by simp
  qed
  then have seen: "\<forall>q\<in>set rs. (seen(Prefix_String (sn_cidr r) \<mapsto> line)) (Prefix_String (sn_cidr q)) = None" using Cons.prems(4) by simp
  have "\<forall>q\<in>set rs. \<forall>p. Some p \<in> fst ` set (pending @ [(Some (sn_cidr r), line)]) \<longrightarrow> \<not> Overlaps p (sn_cidr q)"
    using Cons.prems(2,5) by simp
  note IH = Cons.IH [OF _ _ _ seen this]
  have "set rs \<subseteq> set (db_subnets d)" "disjoint_list Overlaps (map sn_cidr rs)" "distinct (map sn_cidr rs)" using Cons.prems(1-3) by simp_all
  from IH [OF this, of "Suc line"] obtain rows where "validate_rows (check_subnet ic subnet_index) (pending @ [(Some (sn_cidr r), line)], seen(Prefix_String (sn_cidr r) \<mapsto> line))
      (Suc line) (map (subnet_record d) rs) = (rows, map subnet_import rs)" "map ir_Action rows = replicate (length rs) ''update''"
    by blast
  then show ?case by (simp add: chk)
qed simp

section \<open>Its application\<close>

text \<open>The database with the time of update of some subnets set.\<close>

definition touched :: "time \<Rightarrow> string set \<Rightarrow> db \<Rightarrow> db" where
  "touched now S d = d\<lparr>db_subnets := update_rows (\<lambda>r. sn_id r \<in> S) (\<lambda>r. r\<lparr>sn_updated_at := now\<rparr>) (db_subnets d)\<rparr>"

lemma emptyToNil_site:
  assumes "exportable d" "inventory_ok d" "r \<in> set (db_subnets d)"
  shows "emptyToNil (coalesce (sn_site_id r)) = sn_site_id r"
proof (cases "sn_site_id r")
  case (Some k)
  then have "k \<in> si_id ` set (db_sites d)" using assms(2,3) by (auto simp: inventory_defs fk_ok_def split: option.splits)
  then show ?thesis using assms(1) by (auto simp: Some coalesce_def emptyToNil_def exportable_def)
qed (simp add: coalesce_def emptyToNil_def)

lemma find_mem: "find P xs = Some x \<Longrightarrow> x \<in> set xs \<and> P x"
  by (induction xs) (auto split: if_splits)

lemma row_unique:
  assumes "ipv4_db d" "inventory_ok d" "r \<in> set (db_subnets d)" "q \<in> set (db_subnets d)" "sn_id q = sn_id r \<or> sn_cidr q = sn_cidr r"
  shows "q = r"
  using assms distinct_key_unique [of sn_id "db_subnets d" q r] distinct_key_unique [of sn_cidr "db_subnets d" q r]
    disjoint_distinct [of "map sn_cidr (db_subnets d)"] by (auto simp: inventory_defs ipv4_db_def)

definition touch :: "time \<Rightarrow> string set \<Rightarrow> subnet_row \<Rightarrow> subnet_row" where
  "touch now S r = (if sn_id r \<in> S then r\<lparr>sn_updated_at := now\<rparr> else r)"

lemma touch_simps [simp]: "sn_id (touch now S r) = sn_id r" "sn_cidr (touch now S r) = sn_cidr r"
    "sn_vlan (touch now S r) = sn_vlan r" "sn_site_id (touch now S r) = sn_site_id r"
  by (simp_all add: touch_def)

lemma touched_simps: "db_subnets (touched now S d) = map (touch now S) (db_subnets d)" "db_sites (touched now S d) = db_sites d"
  by (simp_all add: touched_def update_rows_def touch_def [abs_def])

lemma touch_columns:
  assumes "exportable d" "inventory_ok d" "r \<in> set (db_subnets d)"
  shows "subnet_columns now (subnet_import r) (touch now S r) = touch now (insert (sn_id r) S) r"
  using emptyToNil_site [OF assms] by (simp add: subnet_columns_def subnet_import_def touch_def)

lemma update_exported:
  assumes "exportable d" "ipv4_db d" "inventory_ok d" "r \<in> set (db_subnets d)"
  shows "update_subnet (sn_id r) (subnet_columns now (subnet_import r)) (touched now S d) = Inr (touched now (insert (sn_id r) S) d)"
proof -
  note uq = row_unique [OF assms(2-4)] and col = touch_columns [OF assms(1,3,4), of now S]
  have "update_rows (\<lambda>q. sn_id q = sn_id r) (subnet_columns now (subnet_import r)) (map (touch now S) (db_subnets d)) =
      map (touch now (insert (sn_id r) S)) (db_subnets d)"
    unfolding update_rows_def map_map
  proof (rule map_cong [OF refl])
    fix x assume "x \<in> set (db_subnets d)"
    then show "((\<lambda>q. if sn_id q = sn_id r then subnet_columns now (subnet_import r) q else q) \<circ> touch now S) x = touch now (insert (sn_id r) S) x"
      using uq [of x] col by (cases "x = r") (auto simp: touch_def)
  qed
  moreover have "subnet_row_ok (touched now S d) (filter (\<lambda>q. sn_id q \<noteq> sn_id r) (map (touch now S) (db_subnets d))) (subnet_columns now (subnet_import r) q)"
    if q: "q \<in> set (map (touch now S) (db_subnets d))" "sn_id q = sn_id r" for q
  proof -
    obtain q0 where "q0 \<in> set (db_subnets d)" "q = touch now S q0" using q(1) by auto
    moreover from this have "q0 = r" using q(2) by (intro uq) simp_all
    ultimately have "q = touch now S r" by simp
    moreover have "sn_cidr r \<notin> sn_cidr ` {x \<in> set (db_subnets d). sn_id x \<noteq> sn_id r}" using uq by (metis (mono_tags, lifting) imageE mem_Collect_eq)
    ultimately show ?thesis using assms(3,4)
      by (auto simp: subnet_row_ok_def touched_simps col inventory_defs filter_map comp_def image_image)
  qed
  ultimately show ?thesis unfolding update_subnet_def touched_simps by (auto simp: touched_def update_rows_def touch_def [abs_def])
qed

lemma import_exported:
  assumes "pg_documented g" "exportable d" "ipv4_db d" "inventory_ok d" "r \<in> set (db_subnets d)"
  shows "import_subnet g now (subnet_import r, Some key) (touched now S d) = Inr (touched now (insert (sn_id r) S) d)"
proof -
  have pg: "pg_cidr g (Prefix_String (sn_cidr r)) = Some (sn_cidr r)"
    using NormalizeCIDR_row [OF assms(3-5)] assms(1) by (simp add: pg_documented_def canon_cidr_def)
  have "find (\<lambda>q. sn_cidr q = sn_cidr r) (map (touch now S) (db_subnets d)) = Some (touch now S r)"
  proof (cases "find (\<lambda>q. sn_cidr q = sn_cidr r) (map (touch now S) (db_subnets d))")
    case None
    then show ?thesis using assms(5) by (auto simp: find_None_iff)
  next
    case (Some q)
    from find_mem [OF this] obtain q0 where "q0 \<in> set (db_subnets d)" "q = touch now S q0" "sn_cidr q0 = sn_cidr r" by auto
    moreover from this have "q0 = r" by (intro row_unique [OF assms(3-5)]) simp_all
    ultimately show ?thesis using Some by simp
  qed
  then show ?thesis using update_exported [OF assms(2-5), of now S] by (simp add: import_subnet_def subnet_import_def [of r] pg touched_simps)
qed

lemma transact_exported:
  assumes "pg_documented g" "exportable d" "ipv4_db d" "inventory_ok d" "set rs \<subseteq> set (db_subnets d)" "length keys = length rs"
  shows "transact (import_subnet g now) (zip (map subnet_import rs) (map Some keys)) (touched now S d) = Inr (touched now (sn_id ` set rs \<union> S) d)"
  using assms(5,6)
proof (induction rs arbitrary: keys S)
  case (Cons r rs)
  then obtain k ks where "keys = k # ks" by (cases keys) auto
  then show ?case using Cons.IH [of ks "insert (sn_id r) S"] Cons.prems import_exported [OF assms(1-4), of r now k S] by simp
qed simp

lemma touched_ends: "touched now {} d = d" "touched now (sn_id ` set (listed d) \<union> {}) d = d\<lparr>db_subnets := map (\<lambda>r. r\<lparr>sn_updated_at := now\<rparr>) (db_subnets d)\<rparr>"
  by (simp_all add: touched_def update_rows_def)

lemma listed_disjoint: "inventory_ok d \<Longrightarrow> disjoint_list pg_overlaps (map sn_cidr (listed d))"
proof -
  assume ok: "inventory_ok d"
  have iff: "disjoint_list pg_overlaps (map sn_cidr rs) \<longleftrightarrow> distinct rs \<and> (\<forall>q\<in>set rs. \<forall>r\<in>set rs. q \<noteq> r \<longrightarrow> \<not> pg_overlaps (sn_cidr q) (sn_cidr r))"
    if "\<forall>r\<in>set rs. pg_overlaps (sn_cidr r) (sn_cidr r)" for rs
    using that by (induction rs) (auto dest: pg_overlaps_sym)
  have self: "pg_overlaps x x" for x by (cases x rule: Masked.cases) (simp_all add: pg_overlaps_def)
  show ?thesis using ok iff [of "db_subnets d"] iff [of "listed d"] self by (auto simp: inventory_defs)
qed



text \<open>A name that begins with a character spreadsheets read as a formula comes back changed: the export puts a
  quote before it and the import keeps the quote.\<close>

lemma escaped_name_changes:
  "map_sum id (\<lambda>d. map sn_name (db_subnets d))
     (case exportSubnetsCSV (demo_db\<lparr>db_subnets := map (\<lambda>r. r\<lparr>sn_name := ''-dmz''\<rparr>) (db_subnets demo_db)\<rparr>) of
        Inl e \<Rightarrow> Inl e
      | Inr csv \<Rightarrow> apply_import pg_netip 5 (\<lambda>_. Some ''k1'') (snd (validateImport ''subnets'' csv formatLightIPAM demo_db)) demo_db) =
   Inr [CHR 0x27 # ''-dmz'']"
  by code_simp

end
