(* ===== verification/Settings.thy ===== *)
theory Settings
  imports Access
begin

text \<open>
  Settings at start-up: \<open>mergeSettings\<close> of \<open>internal/app/settings.go\<close> overlays what \<open>app_settings\<close> holds on the
  defaults of the environment, reading durations with \<open>time.ParseDuration\<close>.  What an administrator saves is what
  the next start loads.
\<close>

section \<open>Durations\<close>

text \<open>\<open>time.ParseDuration\<close>: a sign, then groups of a decimal and a unit, in unsigned 64-bit arithmetic.  The
  product of a fraction and its unit is a \<open>float64\<close>; \<open>fl f scale unit\<close> stands for its conversion back.\<close>

fun leadingInt :: "nat \<Rightarrow> string \<Rightarrow> nat option" where
  "leadingInt x [] = Some x"
| "leadingInt x (c # cs) =
    (if 2 ^ 63 div 10 < x then None
     else let y = x * 10 + digit_val c in if 2 ^ 63 < y then None else leadingInt y cs)"

text \<open>\<open>leadingFraction\<close> stops counting at the first digit that would overflow and skips the rest.\<close>

fun leadingFraction :: "nat \<Rightarrow> nat \<Rightarrow> string \<Rightarrow> nat \<times> nat" where
  "leadingFraction x scale [] = (x, scale)"
| "leadingFraction x scale (c # cs) =
    (let y = x * 10 + digit_val c in
     if (2 ^ 63 - 1) div 10 < x \<or> 2 ^ 63 < y then (x, scale) else leadingFraction y (scale * 10) cs)"

definition duration_unit :: "string \<Rightarrow> nat option" where
  "duration_unit u =
    map_of [(''ns'', 1), (''us'', 10 ^ 3), ([CHR 0xC2, CHR 0xB5] @ ''s'', 10 ^ 3), ([CHR 0xCE, CHR 0xBC] @ ''s'', 10 ^ 3),
      (''ms'', 10 ^ 6), (''s'', 10 ^ 9), (''m'', 60 * 10 ^ 9), (''h'', 3600 * 10 ^ 9)] u"

definition numeric :: "char \<Rightarrow> bool" where
  "numeric c \<longleftrightarrow> c = CHR ''.'' \<or> is_digit c"

lemma dropWhile_shorter: "takeWhile P s \<noteq> [] \<Longrightarrow> length (dropWhile P s) < length s"
  by (cases s) (auto split: if_splits simp: le_imp_less_Suc length_dropWhile_le)

function duration_groups :: "(nat \<Rightarrow> nat \<Rightarrow> nat \<Rightarrow> nat) \<Rightarrow> nat \<Rightarrow> string \<Rightarrow> nat option" where
  "duration_groups fl d s =
    (if s = [] then Some d
     else if \<not> numeric (hd s) then None
     else
      let ds = takeWhile is_digit s; s1 = dropWhile is_digit s;
          point = (s1 \<noteq> [] \<and> hd s1 = CHR ''.'');
          fs = (if point then takeWhile is_digit (tl s1) else []);
          s2 = (if point then dropWhile is_digit (tl s1) else s1);
          u = takeWhile (\<lambda>c. \<not> numeric c) s2; s3 = dropWhile (\<lambda>c. \<not> numeric c) s2 in
      if ds = [] \<and> fs = [] \<or> u = [] then None
      else (case (leadingInt 0 ds, duration_unit u) of
         (Some v, Some unit) \<Rightarrow>
           if 2 ^ 63 div unit < v then None
           else
            let (f, scale) = leadingFraction 0 1 fs;
                v' = (if 0 < f then v * unit + fl f scale unit else v * unit);
                d' = (d + v') mod 2 ^ 64 in
            if 2 ^ 63 < v' \<or> 2 ^ 63 < d' then None else duration_groups fl d' s3
       | _ \<Rightarrow> None))"
  by pat_completeness auto
termination
proof (relation "measure (\<lambda>(fl, d, s). length s)")
  fix s ds s1 point fs s2 u s3 :: string
  show "wf (measure (\<lambda>(fl, d, s). length s))" by simp
next
  fix fl :: "nat \<Rightarrow> nat \<Rightarrow> nat \<Rightarrow> nat" and d s ds s1 point fs s2 u s3 x2 x1 v unit f scale v' d'
  assume *: "ds = takeWhile is_digit s" "s1 = dropWhile is_digit s" "point = (s1 \<noteq> [] \<and> hd s1 = CHR ''.'')"
    "fs = (if point then takeWhile is_digit (tl s1) else [])" "s2 = (if point then dropWhile is_digit (tl s1) else s1)"
    "u = takeWhile (\<lambda>c. \<not> numeric c) s2" "s3 = dropWhile (\<lambda>c. \<not> numeric c) s2" "\<not> (ds = [] \<and> fs = [] \<or> u = [])"
  have "length s2 \<le> length s1" by (auto simp: *(5) length_dropWhile_le intro: order_trans [OF length_dropWhile_le])
  moreover have "length s1 \<le> length s" by (simp add: *(2) length_dropWhile_le)
  moreover have "length s3 < length s2" unfolding *(7) by (rule dropWhile_shorter) (use *(6,8) in auto)
  ultimately show "((fl, d', s3), fl, d, s) \<in> measure (\<lambda>(fl, d, s). length s)" by simp
qed

definition ParseDuration :: "(nat \<Rightarrow> nat \<Rightarrow> nat \<Rightarrow> nat) \<Rightarrow> string \<Rightarrow> int option" where
  "ParseDuration fl s =
    (let neg = (s \<noteq> [] \<and> hd s = CHR ''-''); t = (if s \<noteq> [] \<and> (hd s = CHR ''-'' \<or> hd s = CHR ''+'') then tl s else s) in
     if t = ''0'' then Some 0
     else if t = [] then None
     else (case duration_groups fl 0 t of None \<Rightarrow> None
       | Some d \<Rightarrow> if neg then Some (- int d) else if 2 ^ 63 - 1 < d then None else Some (int d)))"

section \<open>Loading\<close>

definition stored_value :: "(string \<rightharpoonup> string) \<Rightarrow> string \<Rightarrow> string" where
  "stored_value stored k = (case stored k of None \<Rightarrow> [] | Some v \<Rightarrow> v)"

definition positive_duration :: "(nat \<Rightarrow> nat \<Rightarrow> nat \<Rightarrow> nat) \<Rightarrow> int \<Rightarrow> string \<Rightarrow> int" where
  "positive_duration fl dflt v = (case ParseDuration fl v of Some d \<Rightarrow> if 0 < d then d else dflt | None \<Rightarrow> dflt)"

text \<open>\<open>dflt\<close> are the defaults of the environment (\<open>defaultSecuritySettings\<close>).\<close>

definition mergeSettings :: "(nat \<Rightarrow> nat \<Rightarrow> nat \<Rightarrow> nat) \<Rightarrow> SecuritySettings \<Rightarrow> (string \<rightharpoonup> string) \<Rightarrow> SecuritySettings" where
  "mergeSettings fl dflt stored =
    \<lparr>LoginMaxAttempts = (case Atoi (stored_value stored ''login_max_attempts'') of
        Some n \<Rightarrow> if 0 < n then n else LoginMaxAttempts dflt | None \<Rightarrow> LoginMaxAttempts dflt),
     LoginWindow = positive_duration fl (LoginWindow dflt) (stored_value stored ''login_window''),
     LoginLockout = positive_duration fl (LoginLockout dflt) (stored_value stored ''login_lockout''),
     SessionAbsoluteTimeout = positive_duration fl (SessionAbsoluteTimeout dflt) (stored_value stored ''session_absolute_timeout''),
     SessionIdleTimeout = positive_duration fl (SessionIdleTimeout dflt) (stored_value stored ''session_idle_timeout''),
     LogoutEverywhereKeepsCurrent = (case stored ''logout_everywhere_keeps_current'' of
        Some v \<Rightarrow> v = ''true'' | None \<Rightarrow> LogoutEverywhereKeepsCurrent dflt)\<rparr>"

section \<open>Printed durations are read back\<close>

declare duration_groups.simps [simp del]

lemma leadingInt_digits:
  "list_all is_digit ds \<Longrightarrow> foldl (\<lambda>n c. n * 10 + digit_val c) x ds \<le> 2 ^ 63 \<Longrightarrow> leadingInt x ds = Some (foldl (\<lambda>n c. n * 10 + digit_val c) x ds)"
proof (induction ds arbitrary: x)
  case (Cons c cs)
  have grow: "y \<le> foldl (\<lambda>n c. n * 10 + digit_val c) y cs" for y
  proof (induction cs arbitrary: y)
    case (Cons c cs)
    have "y \<le> y * 10 + digit_val c" by simp
    also have "\<dots> \<le> foldl (\<lambda>n c. n * 10 + digit_val c) y (c # cs)" using Cons [of "y * 10 + digit_val c"] by simp
    finally show ?case .
  qed simp
  have "x * 10 + digit_val c \<le> 2 ^ 63" using grow [of "x * 10 + digit_val c"] Cons.prems(2) by simp
  moreover from this have "\<not> 2 ^ 63 div 10 < x" by simp
  ultimately show ?case using Cons by (simp add: Let_def)
qed simp

lemma leadingInt_itoa: "n \<le> 2 ^ 63 \<Longrightarrow> leadingInt 0 (itoa_nat n) = Some n"
  using leadingInt_digits [of "itoa_nat n" 0] itoa_nat_digits [of n] dec_val_itoa_nat [of n] by (simp add: dec_val_def)

lemma duration_group:
  assumes "duration_unit [u] = Some unit" "\<not> numeric u" "rest = [] \<or> numeric (hd rest)" "v \<le> 2 ^ 63 div unit" "d + v * unit \<le> 2 ^ 63"
  shows "duration_groups fl d (itoa_nat v @ u # rest) = duration_groups fl (d + v * unit) rest"
proof -
  have v: "v \<le> 2 ^ 63" using assms(4) div_le_dividend order_trans by blast
  have u: "\<not> is_digit u" "u \<noteq> CHR ''.''" using assms(2) by (auto simp: numeric_def)
  have digits: "takeWhile is_digit (itoa_nat v @ u # rest) = itoa_nat v" "dropWhile is_digit (itoa_nat v @ u # rest) = u # rest"
    using itoa_nat_digits [of v] u(1) by (auto simp: list_all_iff takeWhile_append2 dropWhile_append2)
  have hd: "numeric (hd (itoa_nat v @ u # rest))" using itoa_nat_hd_digit [of v] by (simp add: numeric_def hd_append)
  have tail: "takeWhile (\<lambda>c. \<not> numeric c) rest = []" "dropWhile (\<lambda>c. \<not> numeric c) rest = rest"
    using assms(3) by (cases rest; simp)+
  have "(d + v * unit) mod 2 ^ 64 = d + v * unit" using assms(5) by simp
  moreover have "v * unit \<le> 2 ^ 63" using assms(5) by simp
  ultimately show ?thesis
    using hd u assms(1,2,4,5) tail by (subst duration_groups.simps) (simp add: digits Let_def leadingInt_itoa [OF v] not_less)
qed

lemma whole_seconds:
  assumes "1 \<le> n" "n * 10 ^ 9 < (2 ^ 63 :: nat)"
  shows "ParseDuration fl (Duration_String (int (n * 10 ^ 9))) = Some (int (n * 10 ^ 9))"
proof -
  let ?s = "itoa_nat (n mod 60) @ ''s''"
  have unit: "duration_unit ''s'' = Some (10 ^ 9)" "duration_unit ''m'' = Some (60 * 10 ^ 9)" "duration_unit ''h'' = Some (3600 * 10 ^ 9)"
    "\<not> numeric CHR ''s''" "\<not> numeric CHR ''m''" "\<not> numeric CHR ''h''" by code_simp+
  have num: "numeric (hd (itoa_nat k @ t))" for k t using itoa_nat_hd_digit [of k] by (simp add: numeric_def hd_append)
  have zero: "zero_pad 9 0 = replicate 9 CHR ''0''" by code_simp
  have fr: "frac_digits (n * 10 ^ 9) 9 = []" by (simp add: frac_digits_def zero dropWhile_replicate Let_def)
  have n: "n < 9223372037" using assms(2) by simp
  have sec: "duration_groups fl d ?s = Some (d + n mod 60 * 10 ^ 9)" if "d + n mod 60 * 10 ^ 9 \<le> 2 ^ 63" for d
    using duration_group [OF unit(1,4), of "[]" "n mod 60" d fl] that n by (simp add: duration_groups.simps [of _ _ "[]"])
  let ?m = "\<lambda>k. itoa_nat k @ ''m'' @ ?s"
  have minu: "duration_groups fl d (?m k) = Some (d + k * (60 * 10 ^ 9) + n mod 60 * 10 ^ 9)"
    if "d + k * (60 * 10 ^ 9) + n mod 60 * 10 ^ 9 \<le> 2 ^ 63" for d k
    using duration_group [OF unit(2,5), of ?s k d fl] num that sec [of "d + k * (60 * 10 ^ 9)"] by simp
  have hou: "duration_groups fl 0 (itoa_nat k @ ''h'' @ ?m j) = Some (k * (3600 * 10 ^ 9) + j * (60 * 10 ^ 9) + n mod 60 * 10 ^ 9)"
    if "k * (3600 * 10 ^ 9) + j * (60 * 10 ^ 9) + n mod 60 * 10 ^ 9 \<le> 2 ^ 63" for k j
    using duration_group [OF unit(3,6), of "?m j" k 0 fl] num that minu [of "k * (3600 * 10 ^ 9)" j] by simp
  define out where "out = (if n < 60 then ?s else if n < 3600 then ?m (n div 60) else itoa_nat (n div 3600) @ ''h'' @ ?m (n div 60 mod 60))"
  have str: "Duration_String (int (n * 10 ^ 9)) = out"
    using assms(1) fr by (simp add: Duration_String_def Let_def out_def nat_mult_distrib)
  have "n div 3600 = n div 60 div 60" using div_mult2_eq [of n 60 60] by simp
  then have parts: "n div 3600 * 3600 + n div 60 mod 60 * 60 + n mod 60 = n" "n div 60 * 60 + n mod 60 = n"
    using div_mult_mod_eq [of n 60] div_mult_mod_eq [of "n div 60" 60] by linarith+
  have scale: "a * (3600 * 10 ^ 9) + b * (60 * 10 ^ 9) + c * 10 ^ 9 = k * 10 ^ 9" if "a * 3600 + b * 60 + c = k" for a b c k :: nat
    unfolding that [symmetric] by (simp add: algebra_simps)
  have ns: "n div 3600 * (3600 * 10 ^ 9) + n div 60 mod 60 * (60 * 10 ^ 9) + n mod 60 * 10 ^ 9 = n * 10 ^ 9"
    "0 + n div 60 * (60 * 10 ^ 9) + n mod 60 * 10 ^ 9 = n * 10 ^ 9"
    using scale [OF parts(1)] scale [of 0 "n div 60" "n mod 60" n] parts(2) by (simp_all only: mult_0 add_0)
  have short: "duration_groups fl 0 ?s = Some (n * 10 ^ 9)" if "n < 60" using sec [of 0] that by simp
  have "duration_groups fl 0 out = Some (n * 10 ^ 9)"
    using assms(2) hou [of "n div 3600" "n div 60 mod 60", unfolded ns(1)] minu [of 0 "n div 60", unfolded ns(2)] short
    unfolding out_def by (simp split: if_split)
  moreover have "out \<noteq> ''0''" "out \<noteq> []" "hd out \<noteq> CHR ''-''" "hd out \<noteq> CHR ''+''"
    using itoa_nat_hd_digit is_digit_not_sign by (auto simp: out_def hd_append Cons_eq_append_conv append_eq_Cons_conv)
  ultimately show ?thesis using assms(2) unfolding str ParseDuration_def Let_def by simp
qed

section \<open>Saved settings are loaded again\<close>

lemma map_of_upsert: "map_of (upsert_setting (k, v) rows) = (map_of rows)(k \<mapsto> v)"
proof
  fix x
  have "map_of (update_rows (\<lambda>r. fst r = k) (\<lambda>_. (k, v)) rows) x = (if x = k \<and> k \<in> fst ` set rows then Some v else map_of rows x)"
    by (induction rows) (auto simp: update_rows_def, metis fst_conv image_eqI)
  note upd = this
  show "map_of (upsert_setting (k, v) rows) x = ((map_of rows)(k \<mapsto> v)) x"
  proof (cases "k \<in> fst ` set rows")
    case True
    then show ?thesis using upd by (simp add: upsert_setting_def)
  next
    case False
    then have "map_of rows k = None" by (simp add: map_of_eq_None_iff)
    with False show ?thesis by (auto simp: upsert_setting_def map_add_def split: option.splits)
  qed
qed

lemma Set_Get_settings: "distinct (map fst kvs) \<Longrightarrow> GetAppSettings (SetAppSettings kvs a) = GetAppSettings a ++ map_of kvs"
proof -
  have "distinct (map fst kvs) \<Longrightarrow> map_of (fold upsert_setting kvs rows) = map_of rows ++ map_of kvs" for rows
  proof (induction kvs arbitrary: rows)
    case (Cons kv kvs)
    then have "map_of kvs (fst kv) = None" by (simp add: map_of_eq_None_iff)
    with Cons show ?case by (cases kv) (auto simp: map_of_upsert map_add_def fun_eq_iff split: option.splits)
  qed simp
  then show "distinct (map fst kvs) \<Longrightarrow> ?thesis" by (simp add: GetAppSettings_def SetAppSettings_def)
qed

lemma intInRange_Some: "intInRange v lo hi = Some n \<Longrightarrow> lo \<le> n \<and> n \<le> hi"
  by (auto simp: intInRange_def split: option.splits if_splits)

lemma minutes_seconds:
  assumes "minutesInRange v 1 hi = Some d" "hi \<le> 10080"
  shows "\<exists>n. 1 \<le> n \<and> n * 10 ^ 9 < (2 ^ 63 :: nat) \<and> d = int (n * 10 ^ 9)" "minute_ns \<le> d" "d \<le> hi * minute_ns"
proof -
  obtain m where m: "1 \<le> m" "m \<le> hi" "d = wrap64 (m * minute_ns)"
    using assms(1) by (auto simp: minutesInRange_def dest: intInRange_Some)
  then obtain k where k: "m = int k" by (metis nonneg_int_cases order_trans zero_le_one)
  have d: "d = m * (60 * 10 ^ 9)" using assms(2) m by (simp add: minute_ns_def second_ns_def wrap64_id)
  then show "minute_ns \<le> d" "d \<le> hi * minute_ns" using m by (simp_all add: minute_ns_def second_ns_def)
  show "\<exists>n. 1 \<le> n \<and> n * 10 ^ 9 < (2 ^ 63 :: nat) \<and> d = int (n * 10 ^ 9)"
    using m(1,2) assms(2) d k by (intro exI [of _ "k * 60"]) simp
qed

lemma hours_seconds:
  assumes "hoursInRange v 1 hi = Some d" "hi \<le> 720"
  shows "\<exists>n. 1 \<le> n \<and> n * 10 ^ 9 < (2 ^ 63 :: nat) \<and> d = int (n * 10 ^ 9)" "hour_ns \<le> d" "d \<le> hi * hour_ns"
proof -
  obtain m where m: "1 \<le> m" "m \<le> hi" "d = wrap64 (m * hour_ns)"
    using assms(1) by (auto simp: hoursInRange_def dest: intInRange_Some)
  then obtain k where k: "m = int k" by (metis nonneg_int_cases order_trans zero_le_one)
  have d: "d = m * (3600 * 10 ^ 9)" using assms(2) m by (simp add: hour_ns_def minute_ns_def second_ns_def wrap64_id)
  then show "hour_ns \<le> d" "d \<le> hi * hour_ns" using m by (simp_all add: hour_ns_def minute_ns_def second_ns_def)
  show "\<exists>n. 1 \<le> n \<and> n * 10 ^ 9 < (2 ^ 63 :: nat) \<and> d = int (n * 10 ^ 9)"
    using m(1,2) assms(2) d k by (intro exI [of _ "k * 3600"]) simp
qed

lemma positive_duration_saved:
  "\<exists>n. 1 \<le> n \<and> n * 10 ^ 9 < (2 ^ 63 :: nat) \<and> d = int (n * 10 ^ 9) \<Longrightarrow> positive_duration fl dflt (Duration_String d) = d"
  using whole_seconds by (auto simp: positive_duration_def)

lemma parsed_fields:
  assumes "parseSecuritySettingsForm f = Inr s"
  shows "intInRange (f ''login_max_attempts'') 1 100 = Some (LoginMaxAttempts s)" "LoginLockout s \<le> LoginWindow s"
    "minutesInRange (f ''login_window_minutes'') 1 1440 = Some (LoginWindow s)"
    "minutesInRange (f ''login_lockout_minutes'') 1 1440 = Some (LoginLockout s)"
    "minutesInRange (f ''session_idle_minutes'') 1 10080 = Some (SessionIdleTimeout s)"
    "hoursInRange (f ''session_absolute_hours'') 1 720 = Some (SessionAbsoluteTimeout s)"
  using assms by (auto simp: parseSecuritySettingsForm_def split: option.splits if_splits)

text \<open>C36: The security settings a form may set are well-formed: every field is in the range the form states and
  a lockout never outlasts the window its failures are counted in.\<close>

theorem parseSecuritySettingsForm_wf:
  assumes "parseSecuritySettingsForm f = Inr s"
  shows "1 \<le> LoginMaxAttempts s \<and> LoginMaxAttempts s \<le> 100 \<and> minute_ns \<le> LoginLockout s \<and> LoginLockout s \<le> LoginWindow s \<and>
    LoginWindow s \<le> 1440 * minute_ns \<and> minute_ns \<le> SessionIdleTimeout s \<and> SessionIdleTimeout s \<le> 10080 * minute_ns \<and>
    hour_ns \<le> SessionAbsoluteTimeout s \<and> SessionAbsoluteTimeout s \<le> 720 * hour_ns"
proof -
  note f = parsed_fields [OF assms]
  show ?thesis
    using intInRange_Some [OF f(1)] minutes_seconds(3) [OF f(3)] minutes_seconds(2) [OF f(4)] minutes_seconds(2,3) [OF f(5)] hours_seconds(2,3) [OF f(6)] f(2)
    by simp
qed

text \<open>C35: Saved settings survive a restart: what an accepted form stores in \<open>app_settings\<close> is exactly what the next
  start loads, whatever the defaults of the environment and whatever else is stored.\<close>

theorem settings_survive_restart:
  assumes "parseSecuritySettingsForm f = Inr s"
  shows "mergeSettings fl dflt (GetAppSettings (SetAppSettings (toMap s) a)) = s"
proof -
  note f = parsed_fields [OF assms]
  have "distinct (map fst (toMap s))" by (simp add: toMap_def)
  note stored = Set_Get_settings [OF this, of a]
  define g where "g = GetAppSettings (SetAppSettings (toMap s) a)"
  have v: "stored_value g ''login_max_attempts'' = itoa (LoginMaxAttempts s)" "stored_value g ''login_window'' = Duration_String (LoginWindow s)"
    "stored_value g ''login_lockout'' = Duration_String (LoginLockout s)"
    "stored_value g ''session_absolute_timeout'' = Duration_String (SessionAbsoluteTimeout s)"
    "stored_value g ''session_idle_timeout'' = Duration_String (SessionIdleTimeout s)"
    "g ''logout_everywhere_keeps_current'' = Some (if LogoutEverywhereKeepsCurrent s then ''true'' else ''false'')"
    unfolding g_def stored by (simp_all add: stored_value_def toMap_def)
  have n: "1 \<le> LoginMaxAttempts s" "LoginMaxAttempts s \<le> 100" using intInRange_Some [OF f(1)] by simp_all
  then have "Atoi (itoa (LoginMaxAttempts s)) = Some (LoginMaxAttempts s)" using Atoi_itoa_nat [of "nat (LoginMaxAttempts s)"] by (simp add: itoa_def)
  then have "mergeSettings fl dflt g = s"
    using n positive_duration_saved [OF minutes_seconds(1) [OF f(3)]] positive_duration_saved [OF minutes_seconds(1) [OF f(4)]]
      positive_duration_saved [OF minutes_seconds(1) [OF f(5)]] positive_duration_saved [OF hours_seconds(1) [OF f(6)]]
    by (simp add: mergeSettings_def v)
  then show ?thesis by (simp add: g_def)
qed

definition demo_settings_form :: form where
  "demo_settings_form = (\<lambda>_. [])(''login_max_attempts'' := ''5'', ''login_window_minutes'' := ''15'', ''login_lockout_minutes'' := '' 10'',
     ''session_idle_minutes'' := ''90'', ''session_absolute_hours'' := ''720'')"

definition demo_saved_settings :: SecuritySettings where
  "demo_saved_settings = \<lparr>LoginMaxAttempts = 5, LoginWindow = 15 * minute_ns, LoginLockout = 10 * minute_ns, SessionAbsoluteTimeout = 720 * hour_ns,
     SessionIdleTimeout = 90 * minute_ns, LogoutEverywhereKeepsCurrent = False\<rparr>"

lemma demo_settings_parsed: "parseSecuritySettingsForm demo_settings_form = Inr demo_saved_settings"
  by code_simp

theorem parseSecuritySettingsForm_wf_witness: "LoginLockout demo_saved_settings \<le> LoginWindow demo_saved_settings"
  using parseSecuritySettingsForm_wf [OF demo_settings_parsed] by blast

theorem settings_survive_restart_witness:
  "mergeSettings (\<lambda>f s u. f * u div s) (demo_saved_settings\<lparr>LoginMaxAttempts := 9\<rparr>) (GetAppSettings (SetAppSettings (toMap demo_saved_settings) empty_accounts)) =
    demo_saved_settings"
  by (rule settings_survive_restart [OF demo_settings_parsed])

end
