(* ===== verification/AgentScan.thy ===== *)
theory AgentScan
  imports Protocol "HOL-Library.AList" "HOL-Library.Multiset"
begin

text \<open>
  The scan agent: \<open>internal/scanner/agent/agent.go\<close> (receiving and answering jobs), \<open>router.go\<close>
  (choosing a backend by scan type) and \<open>combined.go\<close> (the combined scan and the merging of
  observations).  A backend (\<open>Discoverer\<close>) is a function of the time limit of its context and of the
  job; a job reaches a backend at most once, so nothing is lost by taking it as a function.  The
  goroutines of a combined scan share only the notice collector: a run is given by the order in which
  their calls reach it.
\<close>

section \<open>Backends and the router\<close>

type_synonym context_limit = "int option"
type_synonym discoverer = "context_limit \<Rightarrow> ScanJob \<Rightarrow> string + Observation list \<times> ScanError list"

record DiscoveryRouter =
  byType :: "(ScanType \<times> discoverer) list"
  fallback :: "discoverer option"

definition NewDiscoveryRouter :: "discoverer option \<Rightarrow> DiscoveryRouter" where
  "NewDiscoveryRouter d = \<lparr>byType = [], fallback = d\<rparr>"

definition Register :: "ScanType \<Rightarrow> discoverer \<Rightarrow> DiscoveryRouter \<Rightarrow> DiscoveryRouter" where
  "Register t d r = r\<lparr>byType := AList.update t d (byType r)\<rparr>"

definition Router_Discover :: "DiscoveryRouter \<Rightarrow> discoverer" where
  "Router_Discover r ctx job =
    (case map_of (byType r) (job_Type job) of
       Some d \<Rightarrow> d ctx job
     | None \<Rightarrow> (case fallback r of Some d \<Rightarrow> d ctx job | None \<Rightarrow> Inr ([], [])))"

section \<open>Merging observations\<close>

definition service_key :: "ServiceObservation \<Rightarrow> string" where
  "service_key s = sv_Protocol s @ ''/'' @ itoa (sv_Port s)"

fun add_services :: "ServiceObservation list \<Rightarrow> ServiceObservation list \<Rightarrow> ServiceObservation list" where
  "add_services a [] = a"
| "add_services a (s # b) = add_services (if service_key s \<in> service_key ` set a then a else a @ [s]) b"

definition mergeServices :: "ServiceObservation list \<Rightarrow> ServiceObservation list \<Rightarrow> ServiceObservation list" where
  "mergeServices a b = (if b = [] then a else add_services a b)"

definition mergeInto :: "Observation \<Rightarrow> Observation \<Rightarrow> Observation" where
  "mergeInto base add =
    base\<lparr>ob_MAC := (if ob_MAC base = [] then ob_MAC add else ob_MAC base),
      ob_Vendor := (if ob_Vendor base = [] then ob_Vendor add else ob_Vendor base),
      ob_Hostname := (if ob_Hostname base = [] then ob_Hostname add else ob_Hostname base),
      ob_OSFamily := (if ob_OSFamily base = [] then ob_OSFamily add else ob_OSFamily base),
      ob_OSDetail := (if ob_OSDetail base = [] then ob_OSDetail add else ob_OSDetail base),
      ob_VLAN := (if ob_VLAN base = 0 then ob_VLAN add else ob_VLAN base),
      ob_HWSerial := (if ob_HWSerial base = [] then ob_HWSerial add else ob_HWSerial base),
      ob_HWObjectID := (if ob_HWObjectID base = [] then ob_HWObjectID add else ob_HWObjectID base),
      ob_Services := mergeServices (ob_Services base) (ob_Services add),
      ob_Evidence := ob_Evidence base @ ob_Evidence add,
      ob_ObservedAt := (if ob_ObservedAt base = None then ob_ObservedAt add else ob_ObservedAt base)\<rparr>"

text \<open>The records so far, in the order their addresses were first seen: the slice \<open>order\<close> and the map
  \<open>byIP\<close> in one list.\<close>

definition merge_step :: "Observation list \<Rightarrow> Observation \<Rightarrow> Observation list" where
  "merge_step out obs =
    (if ob_IP obs = [] then out
     else if ob_IP obs \<in> ob_IP ` set out
     then map (\<lambda>base. if ob_IP base = ob_IP obs then mergeInto base obs else base) out
     else out @ [obs])"

definition mergeObservations :: "Observation list \<Rightarrow> Observation list" where
  "mergeObservations obs = foldl merge_step [] obs"

definition hostTargets :: "string list \<Rightarrow> string list" where
  "hostTargets targets = filter (\<lambda>t. ParseAddr t \<noteq> None) targets"

fun add_hosts :: "string list \<Rightarrow> string list \<Rightarrow> string list" where
  "add_hosts out [] = out"
| "add_hosts out (h # hs) = add_hosts (if h = [] \<or> h \<in> set out then out else out @ [h]) hs"

definition unionHosts :: "string list \<Rightarrow> string list \<Rightarrow> string list" where
  "unionHosts a b = add_hosts [] (a @ b)"

definition observedIPs :: "Observation list \<Rightarrow> string list" where
  "observedIPs observations = filter (\<lambda>ip. ip \<noteq> []) (map ob_IP observations)"

section \<open>Notices\<close>

record noticeCollector =
  perTarget :: "(string \<times> nat) list"
  wholePass :: "(string \<times> string) list"

definition no_notices :: noticeCollector where "no_notices = \<lparr>perTarget = [], wholePass = []\<rparr>"

definition NUL :: char where "NUL = char_of (0 :: nat)"

definition noteTarget :: "string \<Rightarrow> noticeCollector \<Rightarrow> noticeCollector" where
  "noteTarget label n =
    n\<lparr>perTarget := AList.update label (Suc (case map_of (perTarget n) label of Some k \<Rightarrow> k | None \<Rightarrow> 0)) (perTarget n)\<rparr>"

definition noteWhole :: "string \<Rightarrow> string \<Rightarrow> noticeCollector \<Rightarrow> noticeCollector" where
  "noteWhole label message n = n\<lparr>wholePass := AList.update (label @ NUL # message) label (wholePass n)\<rparr>"

definition ignored :: "string \<Rightarrow> ScanError" where
  "ignored msg = \<lparr>se_Code = CodeScanIgnored, se_Message = msg, se_Target = []\<rparr>"

definition after_NUL :: "string \<Rightarrow> string" where
  "after_NUL k = (case cut_first NUL k of Some (_, m) \<Rightarrow> m | None \<Rightarrow> [])"

definition whole_notice :: "noticeCollector \<Rightarrow> string \<Rightarrow> ScanError" where
  "whole_notice n k = ignored ((case map_of (wholePass n) k of Some label \<Rightarrow> label | None \<Rightarrow> []) @ '' skipped: '' @ after_NUL k)"

definition target_notice :: "noticeCollector \<Rightarrow> string \<Rightarrow> ScanError" where
  "target_notice n label =
    (let count = (case map_of (perTarget n) label of Some c \<Rightarrow> c | None \<Rightarrow> 0) in
     ignored (label @ '' skipped: '' @ itoa_nat count @ '' '' @ (if count \<noteq> 1 then ''hosts'' else ''host'') @ '' did not respond''))"

definition notices :: "noticeCollector \<Rightarrow> ScanError list" where
  "notices n = map (whole_notice n) (sort (map fst (wholePass n))) @ map (target_notice n) (sort (map fst (perTarget n)))"

text \<open>A call of the collector.\<close>

datatype collector_call = Target_note string | Whole_note string string

definition apply_note :: "collector_call \<Rightarrow> noticeCollector \<Rightarrow> noticeCollector" where
  "apply_note c n = (case c of Target_note l \<Rightarrow> noteTarget l n | Whole_note l m \<Rightarrow> noteWhole l m n)"

section \<open>The combined scan\<close>

record CombinedDiscoverer =
  cd_nmap :: discoverer
  cd_snmp :: discoverer
  cd_names :: discoverer
  cd_dns :: discoverer
  cd_dhcp :: discoverer

definition pass_note :: "string \<Rightarrow> ScanError \<Rightarrow> collector_call" where
  "pass_note label e = (if TrimSpace (se_Target e) \<noteq> [] then Target_note label else Whole_note label (se_Message e))"

definition sub_job :: "ScanJob \<Rightarrow> string list \<Rightarrow> ScanType \<Rightarrow> ScanJob" where
  "sub_job job targets scanType = job\<lparr>job_Type := scanType, job_Mode := ModeDeepActive, job_Targets := targets\<rparr>"

definition runPass :: "context_limit \<Rightarrow> discoverer \<Rightarrow> ScanJob \<Rightarrow> string list \<Rightarrow> ScanType \<Rightarrow> string \<Rightarrow> Observation list \<times> collector_call list" where
  "runPass ctx d job targets scanType label =
    (if targets = [] then ([], [])
     else (case d ctx (sub_job job targets scanType) of
        Inl err \<Rightarrow> ([], [Whole_note label err])
      | Inr (obs, errs) \<Rightarrow> (obs, map (pass_note label) errs)))"

definition enrichHost :: "CombinedDiscoverer \<Rightarrow> context_limit \<Rightarrow> ScanJob \<Rightarrow> string \<Rightarrow> Observation list \<times> collector_call list" where
  "enrichHost c ctx job host =
    (let (inv, n1) = runPass ctx (cd_snmp c) job [host] ScanSNMPInventory ''SNMP inventory'';
         (arp, n2) = (if inv \<noteq> [] then runPass ctx (cd_snmp c) job [host] ScanARPTable ''ARP harvest'' else ([], []));
         (nbr, n3) = (if inv \<noteq> [] then runPass ctx (cd_snmp c) job [host] ScanLLDPCDP ''LLDP/CDP neighbors'' else ([], []));
         (nam, n4) = runPass ctx (cd_names c) job [host] ScanNameLookup ''name lookup'';
         (dns, n5) = runPass ctx (cd_dns c) job [host] ScanDNSLookup ''DNS lookup'' in
     (inv @ arp @ nbr @ nam @ dns, n1 @ n2 @ n3 @ n4 @ n5))"

text \<open>\<open>reached\<close> is the number of hosts the loop starts before its context ends (any number from
  \<open>length hosts\<close> on is a scan that is not cut short), and \<open>sched\<close> the order in which the calls of the
  goroutines reach the collector.\<close>

definition enrich :: "CombinedDiscoverer \<Rightarrow> (collector_call list \<Rightarrow> collector_call list) \<Rightarrow> nat \<Rightarrow> context_limit \<Rightarrow> ScanJob \<Rightarrow> string list \<Rightarrow>
    Observation list \<times> ScanError list" where
  "enrich c sched reached ctx job hosts =
    (let (dhcpObs, dn) = runPass ctx (cd_dhcp c) job (job_Targets job) ScanDHCPLeases ''DHCP leases'';
         perHost = map (enrichHost c ctx job) (take reached hosts);
         hn = (if hosts = [] then [Whole_note ''Per-host enrichment'' ''no live hosts discovered to query (SNMP, names, DNS)'']
               else concat (map snd perHost)) in
     (concat (map fst perHost) @ dhcpObs, notices (fold apply_note (sched (hn @ dn)) no_notices)))"

definition Combined_Discover :: "CombinedDiscoverer \<Rightarrow> (collector_call list \<Rightarrow> collector_call list) \<Rightarrow> nat \<Rightarrow> discoverer" where
  "Combined_Discover c sched reached ctx job =
    (case cd_nmap c ctx (job\<lparr>job_Type := ScanCombined, job_Mode := ModeDeepActive\<rparr>) of
       Inl err \<Rightarrow> Inl err
     | Inr (observations, ns) \<Rightarrow>
        let perHostTargets = unionHosts (observedIPs observations) (hostTargets (job_Targets job));
            (enrichObs, enrichNotices) = enrich c sched reached ctx job perHostTargets in
        Inr (mergeObservations (observations @ enrichObs), ns @ enrichNotices))"

section \<open>The agent\<close>

text \<open>The text of the validation errors; \<open>netip_text\<close> is the text of the error of \<open>netip.ParsePrefix\<close>.\<close>

fun job_error_text :: "(string \<Rightarrow> string) \<Rightarrow> ScanJob \<Rightarrow> AgentRegistration \<Rightarrow> job_error \<Rightarrow> string" where
  "job_error_text t j a MissingID = ''scan job requires an id''"
| "job_error_text t j a MissingAgentID = ''scan job requires an agent_id''"
| "job_error_text t j a (UnknownScanType v) = ''scan job has unknown scan_type '' @ Quote v"
| "job_error_text t j a (UnknownMode v) = ''scan job has unknown mode '' @ Quote v"
| "job_error_text t j a NonPositiveTimeout = ''scan job requires a positive timeout_seconds''"
| "job_error_text t j a NoAllowedCIDR = ''scan job requires at least one allowed CIDR''"
| "job_error_text t j a NoTarget = ''scan job requires at least one target''"
| "job_error_text t j a (BadAllowedCIDR v) = ''parse allowed CIDR '' @ Quote v @ '': '' @ t v"
| "job_error_text t j a (AllowedNotIPv4 v) = ''allowed CIDR '' @ Quote v @ '' is not IPv4''"
| "job_error_text t j a (TargetNotIPv4 v) = ''target '' @ Quote v @ '' is not IPv4''"
| "job_error_text t j a (TargetOutside v) = ''target '' @ Quote v @ '' is outside allowed CIDRs''"
| "job_error_text t j a (TargetUnparsable v) = ''target '' @ Quote v @ '' is not an IPv4 address or CIDR''"
| "job_error_text t j a AgentNotActive = ''agent '' @ Quote (ag_ID a) @ '' is not active (status '' @ Quote (ag_Status a) @ '')''"
| "job_error_text t j a AgentMismatch =
    ''scan job agent_id '' @ Quote (job_AgentID j) @ '' does not match agent '' @ Quote (ag_ID a)"
| "job_error_text t j a AgentNoAllowedCIDR = ''agent has no allowed CIDRs''"
| "job_error_text t j a (AgentAllowlist e) = ''agent allowlist: '' @ job_error_text t j a e"
| "job_error_text t j a (JobAllowlist e) = ''job allowlist: '' @ job_error_text t j a e"
| "job_error_text t j a (JobCIDROutside v) = ''job allowed CIDR '' @ Quote v @ '' is outside the agent allowlist''"

record agent_config =
  Registration :: AgentRegistration
  ExpectedClientCN :: string
  Discoverer :: "discoverer option"
  netip_text :: "string \<Rightarrow> string"

text \<open>\<open>started\<close> and \<open>finished\<close> are the clock readings; \<open>None\<close> is the panic of the budget's division, which the
  HTTP server turns into a closed connection.\<close>

definition processJob :: "agent_config \<Rightarrow> time \<Rightarrow> time \<Rightarrow> ScanJob \<Rightarrow> ScanResult option" where
  "processJob cfg started finished job =
    (let result = \<lparr>res_ProtocolVersion = ProtocolVersion, res_JobID = job_ID job, res_AgentID = ag_ID (Registration cfg),
           res_Status = JobSucceeded, res_StartedAt = Some started, res_FinishedAt = Some finished,
           res_Observations = [], res_Errors = []\<rparr> in
     case ValidateAgentScope job (ag_AllowedCIDRs (Registration cfg)) of
       Some e \<Rightarrow> Some (result\<lparr>res_Status := JobRejected,
         res_Errors := [\<lparr>se_Code = ''job_rejected'', se_Message = job_error_text (netip_text cfg) job (Registration cfg) e, se_Target = []\<rparr>]\<rparr>)
     | None \<Rightarrow>
        (case Discoverer cfg of
           None \<Rightarrow> Some result
         | Some d \<Rightarrow>
            if job_Mode job = ModePassive then Some result
            else (case ScanBudget (job_TimeoutSeconds job) (job_Targets job) of
               None \<Rightarrow> None
             | Some budget \<Rightarrow>
                (case d (if 0 < budget then Some budget else None) job of
                   Inl err \<Rightarrow> Some (result\<lparr>res_Status := JobFailed,
                     res_Errors := [\<lparr>se_Code = ''scan_failed'', se_Message = err, se_Target = []\<rparr>]\<rparr>)
                 | Inr (observations, scanErrs) \<Rightarrow> Some (result\<lparr>res_Observations := observations, res_Errors := scanErrs\<rparr>)))))"

text \<open>The common name of the client certificate, when the connection has one.\<close>

definition verifyClient :: "agent_config \<Rightarrow> string option \<Rightarrow> string option" where
  "verifyClient cfg cn =
    (if ExpectedClientCN cfg = [] then None
     else (case cn of
        None \<Rightarrow> Some ''client certificate required''
      | Some c \<Rightarrow> if c \<noteq> ExpectedClientCN cfg then Some (''client identity '' @ Quote c @ '' is not authorized'') else None))"

datatype agent_reply = Http_Error nat string | Registered AgentRegistration | Reported nat ScanResult | Broken

definition register :: "agent_config \<Rightarrow> string option \<Rightarrow> agent_reply" where
  "register cfg cn =
    (case verifyClient cfg cn of
       Some err \<Rightarrow> Http_Error 403 err
     | None \<Rightarrow> Registered ((Registration cfg)\<lparr>ag_Version := ProtocolVersion\<rparr>))"

text \<open>\<open>body\<close> is what \<open>encoding/json\<close> makes of the request: the job, or the text of its error.\<close>

definition submitJob :: "agent_config \<Rightarrow> time \<Rightarrow> time \<Rightarrow> string option \<Rightarrow> string + ScanJob \<Rightarrow> agent_reply" where
  "submitJob cfg started finished cn body =
    (case verifyClient cfg cn of
       Some err \<Rightarrow> Http_Error 403 err
     | None \<Rightarrow>
        (case body of
           Inl err \<Rightarrow> Http_Error 400 (''invalid scan job: '' @ err)
         | Inr job \<Rightarrow>
            (case processJob cfg started finished job of
               None \<Rightarrow> Broken
             | Some result \<Rightarrow> Reported (if res_Status result = JobRejected then 422 else 200) result)))"

section \<open>What merging does\<close>

text \<open>The specification: one record per address, in the order of first appearance, each field the first known
  value of that address, all its evidence, and its services without repeating a port.\<close>

definition first_known :: "'a \<Rightarrow> 'a list \<Rightarrow> 'a" where
  "first_known unknown xs = (case find (\<lambda>x. x \<noteq> unknown) xs of Some x \<Rightarrow> x | None \<Rightarrow> unknown)"

definition first_seen :: "'a list \<Rightarrow> 'a list" where
  "first_seen xs = rev (remdups (rev xs))"

definition merged :: "Observation list \<Rightarrow> Observation" where
  "merged os =
    \<lparr>ob_IP = ob_IP (hd os), ob_MAC = first_known [] (map ob_MAC os), ob_Vendor = first_known [] (map ob_Vendor os),
     ob_Hostname = first_known [] (map ob_Hostname os), ob_OSFamily = first_known [] (map ob_OSFamily os),
     ob_OSDetail = first_known [] (map ob_OSDetail os), ob_VLAN = first_known 0 (map ob_VLAN os),
     ob_HWSerial = first_known [] (map ob_HWSerial os), ob_HWObjectID = first_known [] (map ob_HWObjectID os),
     ob_Services = add_services (ob_Services (hd os)) (concat (map ob_Services (tl os))),
     ob_Evidence = concat (map ob_Evidence os), ob_ObservedAt = first_known None (map ob_ObservedAt os)\<rparr>"

lemma first_known_single [simp]: "first_known u [x] = x"
  by (simp add: first_known_def)

lemma first_known_snoc: "first_known u (xs @ [x]) = (if first_known u xs = u then x else first_known u xs)"
  by (induction xs) (simp_all add: first_known_def)

lemma first_seen_snoc: "first_seen (xs @ [x]) = (if x \<in> set xs then first_seen xs else first_seen xs @ [x])"
  by (simp add: first_seen_def)

lemma set_first_seen [simp]: "set (first_seen xs) = set xs"
  by (simp add: first_seen_def)

lemma distinct_first_seen [simp]: "distinct (first_seen xs)"
  by (simp add: first_seen_def)

lemma add_services_append: "add_services a (b @ c) = add_services (add_services a b) c"
  by (induction b arbitrary: a) simp_all

lemma mergeServices_eq: "mergeServices a b = add_services a b"
  by (simp add: mergeServices_def)

lemma merged_single [simp]: "merged [x] = x"
  by (simp add: merged_def)

lemma mergeInto_merged: "os \<noteq> [] \<Longrightarrow> mergeInto (merged os) x = merged (os @ [x])"
  by (simp add: mergeInto_def merged_def first_known_snoc mergeServices_eq add_services_append)

lemma mergeObservations_snoc: "mergeObservations (xs @ [x]) = merge_step (mergeObservations xs) x"
  by (simp add: mergeObservations_def)

lemma merged_IP: "os \<noteq> [] \<Longrightarrow> \<forall>x\<in>set os. ob_IP x = ip \<Longrightarrow> ob_IP (merged os) = ip"
  by (simp add: merged_def)

abbreviation seen_ips :: "Observation list \<Rightarrow> string list" where
  "seen_ips xs \<equiv> first_seen (filter (\<lambda>ip. ip \<noteq> []) (map ob_IP xs))"

abbreviation at_ip :: "string \<Rightarrow> Observation list \<Rightarrow> Observation list" where
  "at_ip ip xs \<equiv> filter (\<lambda>x. ob_IP x = ip) xs"

lemma mergeObservations_spec: "mergeObservations xs = map (\<lambda>ip. merged (at_ip ip xs)) (seen_ips xs)"
proof (induction xs rule: rev_induct)
  case Nil
  show ?case by (simp add: mergeObservations_def first_seen_def)
next
  case (snoc x xs)
  have ne: "at_ip ip xs \<noteq> []" if "ip \<in> set (seen_ips xs)" for ip
    using that by (auto simp: filter_empty_conv)
  have ip: "ob_IP (merged (at_ip ip xs)) = ip" if "ip \<in> set (seen_ips xs)" for ip
    using ne [OF that] by (rule merged_IP) simp
  have ips: "ob_IP ` set (mergeObservations xs) = set (seen_ips xs)"
    unfolding snoc.IH set_map image_image using ip by simp
  consider "ob_IP x = []" | "ob_IP x \<noteq> []" "ob_IP x \<in> set (seen_ips xs)" | "ob_IP x \<noteq> []" "ob_IP x \<notin> set (seen_ips xs)"
    by blast
  then show ?case
  proof cases
    case 1
    then show ?thesis
      unfolding mergeObservations_snoc merge_step_def by (simp add: snoc.IH)
  next
    case 2
    have "merge_step (mergeObservations xs) x =
        map (\<lambda>base. if ob_IP base = ob_IP x then mergeInto base x else base) (mergeObservations xs)"
      using 2 ips by (simp only: merge_step_def if_True if_False)
    also have "\<dots> = map (\<lambda>ip. merged (at_ip ip (xs @ [x]))) (seen_ips xs)"
      unfolding snoc.IH map_map using ip ne by (auto simp: mergeInto_merged)
    finally show ?thesis
      using 2 by (simp add: mergeObservations_snoc first_seen_snoc)
  next
    case 3
    have "merge_step (mergeObservations xs) x = mergeObservations xs @ [x]"
      using 3 ips by (simp only: merge_step_def if_False)
    moreover have "at_ip (ob_IP x) xs = []" using 3 by (auto simp: filter_empty_conv) (metis imageI)
    ultimately show ?thesis
      using 3 by (auto simp: mergeObservations_snoc first_seen_snoc snoc.IH)
  qed
qed

section \<open>Notices do not depend on the schedule\<close>

definition collected :: "noticeCollector \<Rightarrow> (string \<rightharpoonup> nat) \<times> (string \<rightharpoonup> string)" where
  "collected n = (map_of (perTarget n), map_of (wholePass n))"

definition collect :: "collector_call \<Rightarrow> (string \<rightharpoonup> nat) \<times> (string \<rightharpoonup> string) \<Rightarrow> (string \<rightharpoonup> nat) \<times> (string \<rightharpoonup> string)" where
  "collect c = (\<lambda>(t, w). case c of
     Target_note l \<Rightarrow> (t(l \<mapsto> Suc (case t l of Some k \<Rightarrow> k | None \<Rightarrow> 0)), w)
   | Whole_note l m \<Rightarrow> (t, w(l @ NUL # m \<mapsto> l)))"

definition collector_ok :: "noticeCollector \<Rightarrow> bool" where
  "collector_ok n \<longleftrightarrow> distinct (map fst (perTarget n)) \<and> distinct (map fst (wholePass n))"

fun label_of :: "collector_call \<Rightarrow> string" where
  "label_of (Target_note l) = l"
| "label_of (Whole_note l m) = l"

lemma collected_apply: "collected (apply_note c n) = collect c (collected n)"
  by (cases c) (simp_all add: collected_def collect_def apply_note_def noteTarget_def noteWhole_def update_conv')

lemma collector_ok_apply: "collector_ok n \<Longrightarrow> collector_ok (apply_note c n)"
  by (cases c) (simp_all add: collector_ok_def apply_note_def noteTarget_def noteWhole_def distinct_update)

lemma collected_fold: "collected (fold apply_note cs n) = fold collect cs (collected n)"
  by (induction cs arbitrary: n) (simp_all add: collected_apply)

lemma collector_ok_fold: "collector_ok n \<Longrightarrow> collector_ok (fold apply_note cs n)"
  by (induction cs arbitrary: n) (simp_all add: collector_ok_apply)

lemma sorted_keys_cong:
  fixes xs ys :: "('k::linorder \<times> 'v) list"
  assumes "distinct (map fst xs)" "distinct (map fst ys)" "map_of xs = map_of ys"
  shows "sort (map fst xs) = sort (map fst ys)"
proof -
  have "set (map fst xs) = set (map fst ys)"
    using assms(3) by (metis dom_map_of_conv_image_fst list.set_map)
  then show ?thesis
    using assms(1,2) by (intro sorted_distinct_set_unique) simp_all
qed

lemma notices_cong:
  assumes "collector_ok m" "collector_ok n" "collected m = collected n"
  shows "notices m = notices n"
proof -
  have "sort (map fst (perTarget m)) = sort (map fst (perTarget n))" "sort (map fst (wholePass m)) = sort (map fst (wholePass n))"
    using assms by (auto intro!: sorted_keys_cong simp: collector_ok_def collected_def)
  moreover have "whole_notice m = whole_notice n" "target_notice m = target_notice n"
    using assms(3) by (auto simp: whole_notice_def target_notice_def collected_def)
  ultimately show ?thesis by (simp add: notices_def)
qed

lemma note_key_label:
  assumes "l @ NUL # m = l' @ NUL # m'" "NUL \<notin> set l" "NUL \<notin> set l'"
  shows "l = l'"
  using assms cut_first_Some [of NUL "l @ NUL # m" l m] cut_first_Some [of NUL "l' @ NUL # m'" l' m'] by auto

lemma collect_commute:
  assumes "NUL \<notin> set (label_of c)" "NUL \<notin> set (label_of d)"
  shows "collect c \<circ> collect d = collect d \<circ> collect c"
proof -
  have "collect c (collect d (t, w)) = collect d (collect c (t, w))" for t w
  proof (cases c; cases d)
    fix l l' assume "c = Target_note l" "d = Target_note l'"
    then show ?thesis by (cases "l = l'") (simp_all add: collect_def fun_upd_twist)
  next
    fix l l' m m' assume *: "c = Whole_note l m" "d = Whole_note l' m'"
    show ?thesis
    proof (cases "l @ NUL # m = l' @ NUL # m'")
      case True
      moreover have "l = l'" using note_key_label [OF True] assms * by simp
      ultimately show ?thesis by (simp add: * collect_def)
    next
      case False
      then show ?thesis by (simp only: * collect_def prod.case collector_call.case fun_upd_twist [OF False])
    qed
  qed (simp_all add: collect_def)
  then show ?thesis by (auto simp: fun_eq_iff)
qed

lemma notices_schedule:
  assumes "mset cs = mset ds" "\<forall>c\<in>set cs. NUL \<notin> set (label_of c)"
  shows "notices (fold apply_note cs no_notices) = notices (fold apply_note ds no_notices)"
proof (rule notices_cong)
  have "collector_ok no_notices" by (simp add: collector_ok_def no_notices_def)
  then show "collector_ok (fold apply_note cs no_notices)" "collector_ok (fold apply_note ds no_notices)"
    by (simp_all add: collector_ok_fold)
  have "fold collect cs = fold collect ds"
    using assms by (intro fold_multiset_equiv collect_commute) auto
  then show "collected (fold apply_note cs no_notices) = collected (fold apply_note ds no_notices)"
    by (simp add: collected_fold)
qed

lemma runPass_labels: "c \<in> set (snd (runPass ctx d job ts ty l)) \<Longrightarrow> label_of c = l"
  by (auto simp: runPass_def pass_note_def split: if_splits sum.splits)

lemma enrichHost_labels: "c \<in> set (snd (enrichHost cd ctx job h)) \<Longrightarrow> NUL \<notin> set (label_of c)"
  unfolding enrichHost_def Let_def split_beta
  by (auto dest!: runPass_labels simp: NUL_def char_of_def split: if_splits)

lemma enrich_schedule:
  assumes "\<And>cs. mset (sched cs) = mset cs"
  shows "enrich c sched reached ctx job hosts = enrich c id reached ctx job hosts"
proof -
  define hn where "hn = (if hosts = [] then [Whole_note ''Per-host enrichment'' ''no live hosts discovered to query (SNMP, names, DNS)'']
      else concat (map snd (map (enrichHost c ctx job) (take reached hosts))))"
  define dn where "dn = snd (runPass ctx (cd_dhcp c) job (job_Targets job) ScanDHCPLeases ''DHCP leases'')"
  have "\<forall>x\<in>set (hn @ dn). NUL \<notin> set (label_of x)"
    by (auto simp: hn_def dn_def dest!: runPass_labels enrichHost_labels split: if_splits) (simp_all add: NUL_def char_of_def)
  then have "notices (fold apply_note (sched (hn @ dn)) no_notices) = notices (fold apply_note (hn @ dn) no_notices)"
    using mset_eq_setD [OF assms] by (intro notices_schedule assms) auto
  then show ?thesis
    by (simp add: enrich_def hn_def [symmetric] dn_def [symmetric] split_beta Let_def)
qed

section \<open>Scope\<close>

text \<open>A host a backend may be pointed at: one of the addresses the job's targets denote.\<close>

definition named_by :: "string list \<Rightarrow> string \<Rightarrow> bool" where
  "named_by targets h \<longleftrightarrow> h \<in> set targets \<or> (\<exists>w. h = v4_string w \<and> (\<exists>t\<in>set targets. A4 w \<in> target_addrs t))"

abbreviation host_in_targets :: "ScanJob \<Rightarrow> string \<Rightarrow> bool" where
  "host_in_targets job h \<equiv> named_by (job_Targets job) h"

lemma sub_job_in_scope:
  assumes "ValidateAgentScope job allowed = None" "ScanType_Valid ty" "ts \<noteq> []" "\<forall>h\<in>set ts. host_in_targets job h"
  shows "ValidateAgentScope (sub_job job ts ty) allowed = None"
proof -
  have job: "well_formed_job job" "targets_in_allowlist job"
    using assms(1) by (simp_all add: ValidateAgentScope_None)
  have "ipv4_target h \<and> (\<exists>c\<in>set (job_AllowedCIDRs job). target_addrs h \<subseteq> cidr_addrs c)" if h: "h \<in> set ts" for h
  proof -
    consider "h \<in> set (job_Targets job)" | w t where "h = v4_string w" "t \<in> set (job_Targets job)" "A4 w \<in> target_addrs t"
      using assms(4) h unfolding named_by_def by blast
    then show ?thesis
    proof cases
      case 1
      then show ?thesis using job(2) by (simp add: targets_in_allowlist_def)
    next
      case 2
      then obtain c where c: "c \<in> set (job_AllowedCIDRs job)" "target_addrs t \<subseteq> cidr_addrs c"
        using job(2) by (auto simp: targets_in_allowlist_def)
      have "ipv4_target h" using 2(1) unfolding ipv4_target_def by blast
      moreover have "target_addrs h = {A4 w}"
        by (simp only: 2(1) target_addrs_def ParsePrefix_v4_string ParseAddr_v4_string option.case)
      with 2(3) c(2) have "target_addrs h \<subseteq> cidr_addrs c" by (simp add: subsetD)
      ultimately show ?thesis using c(1) by (intro conjI bexI [of _ c])
    qed
  qed
  then have "targets_in_allowlist (sub_job job ts ty)"
    using job(2) assms(3) by (simp add: targets_in_allowlist_def sub_job_def)
  moreover have "well_formed_job (sub_job job ts ty)"
    using job(1) assms(2) by (simp add: well_formed_job_def sub_job_def ScanMode_Valid_def)
  ultimately show ?thesis
    using assms(1) by (simp add: ValidateAgentScope_None) (simp add: sub_job_def)
qed

lemma set_add_hosts: "set (add_hosts out hs) = set out \<union> {h \<in> set hs. h \<noteq> []}"
  by (induction hs arbitrary: out) auto

lemma set_unionHosts: "set (unionHosts a b) = {h \<in> set a \<union> set b. h \<noteq> []}"
  by (simp add: unionHosts_def set_add_hosts)

definition same_in_scope :: "string list \<Rightarrow> discoverer \<Rightarrow> discoverer \<Rightarrow> bool" where
  "same_in_scope allowed d d' \<longleftrightarrow> (\<forall>ctx job. ValidateAgentScope job allowed = None \<longrightarrow> d ctx job = d' ctx job)"

lemma runPass_cong:
  assumes "same_in_scope allowed d d'" "ValidateAgentScope job allowed = None" "ScanType_Valid ty"
    "\<forall>h\<in>set ts. host_in_targets job h"
  shows "runPass ctx d job ts ty l = runPass ctx d' job ts ty l"
  using sub_job_in_scope [OF assms(2,3) _ assms(4)] assms(1) by (simp add: runPass_def same_in_scope_def)

definition backends_agree :: "string list \<Rightarrow> CombinedDiscoverer \<Rightarrow> CombinedDiscoverer \<Rightarrow> bool" where
  "backends_agree allowed c c' \<longleftrightarrow> same_in_scope allowed (cd_nmap c) (cd_nmap c') \<and> same_in_scope allowed (cd_snmp c) (cd_snmp c') \<and>
    same_in_scope allowed (cd_names c) (cd_names c') \<and> same_in_scope allowed (cd_dns c) (cd_dns c') \<and>
    same_in_scope allowed (cd_dhcp c) (cd_dhcp c')"

lemma enrichHost_cong:
  assumes "backends_agree allowed c c'" "ValidateAgentScope job allowed = None" "host_in_targets job h"
  shows "enrichHost c ctx job h = enrichHost c' ctx job h"
proof -
  have r: "runPass ctx d job [h] ty l = runPass ctx d' job [h] ty l"
    if "same_in_scope allowed d d'" "ScanType_Valid ty" for d d' ty l
    using that assms(2,3) by (intro runPass_cong) simp_all
  have "ScanType_Valid ScanSNMPInventory" "ScanType_Valid ScanARPTable" "ScanType_Valid ScanLLDPCDP"
    "ScanType_Valid ScanNameLookup" "ScanType_Valid ScanDNSLookup" by (simp_all add: ScanType_Valid_def)
  with assms(1) show ?thesis
    unfolding enrichHost_def backends_agree_def using r [of "cd_snmp c" "cd_snmp c'"] r [of "cd_names c" "cd_names c'"]
      r [of "cd_dns c" "cd_dns c'"] by (simp only:)
qed

lemma enrich_cong:
  assumes "backends_agree allowed c c'" "ValidateAgentScope job allowed = None" "\<forall>h\<in>set hosts. host_in_targets job h"
  shows "enrich c sched reached ctx job hosts = enrich c' sched reached ctx job hosts"
proof -
  have "map (enrichHost c ctx job) (take reached hosts) = map (enrichHost c' ctx job) (take reached hosts)"
    using enrichHost_cong [OF assms(1,2)] assms(3) by (auto dest: in_set_takeD)
  moreover have "runPass ctx (cd_dhcp c) job (job_Targets job) ScanDHCPLeases l = runPass ctx (cd_dhcp c') job (job_Targets job) ScanDHCPLeases l" for l
    using assms(1,2) by (intro runPass_cong) (auto simp: backends_agree_def ScanType_Valid_def named_by_def)
  ultimately show ?thesis by (simp only: enrich_def)
qed

text \<open>What a combined scan asks of its first stage: nmap reports hosts among those it was told to scan.\<close>

definition reports_targets :: "discoverer \<Rightarrow> bool" where
  "reports_targets d \<longleftrightarrow> (\<forall>ctx job obs ns. d ctx job = Inr (obs, ns) \<longrightarrow> (\<forall>x\<in>set obs. ob_IP x = [] \<or> host_in_targets job (ob_IP x)))"

lemma Combined_Discover_cong:
  assumes "backends_agree allowed c c'" "ValidateAgentScope job allowed = None" "reports_targets (cd_nmap c)"
  shows "Combined_Discover c sched reached ctx job = Combined_Discover c' sched reached ctx job"
proof -
  let ?j = "job\<lparr>job_Type := ScanCombined, job_Mode := ModeDeepActive\<rparr>"
  have "?j = sub_job job (job_Targets job) ScanCombined" by (simp add: sub_job_def)
  moreover have "job_Targets job \<noteq> []" using assms(2) by (simp add: ValidateAgentScope_None targets_in_allowlist_def)
  ultimately have "ValidateAgentScope ?j allowed = None"
    using sub_job_in_scope [OF assms(2), of ScanCombined "job_Targets job"] by (simp add: ScanType_Valid_def named_by_def)
  then have n: "cd_nmap c ctx ?j = cd_nmap c' ctx ?j" using assms(1) by (simp add: backends_agree_def same_in_scope_def)
  show ?thesis
  proof (cases "cd_nmap c ctx ?j")
    case (Inl e)
    then show ?thesis using n by (simp add: Combined_Discover_def)
  next
    case (Inr r)
    then obtain obs ns where r: "cd_nmap c ctx ?j = Inr (obs, ns)" by (cases r) auto
    have "ob_IP x = [] \<or> host_in_targets job (ob_IP x)" if x: "x \<in> set obs" for x
      using assms(3) r x unfolding reports_targets_def by (fastforce simp: named_by_def)
    then have "host_in_targets job h" if h: "h \<in> set (unionHosts (observedIPs obs) (hostTargets (job_Targets job)))" for h
      using h by (auto simp: set_unionHosts observedIPs_def hostTargets_def) (auto simp: named_by_def)
    then show ?thesis
      using r n enrich_cong [OF assms(1,2)] by (simp add: Combined_Discover_def)
  qed
qed

lemma verifyClient_Discoverer: "verifyClient (cfg\<lparr>Discoverer := d\<rparr>) cn = verifyClient cfg cn"
  by (cases cn) (simp_all add: verifyClient_def)

section \<open>Properties\<close>

text \<open>C12: merging refines its specification: a combined scan has one record for each address that any backend
  reported, in the order of first appearance, and in each record every field is the first known value among the
  observations of that address (so nmap, which runs first, wins), the services are those of all of them without
  repeating a port, and all evidence is kept.\<close>

theorem mergeObservations_refines:
  "mergeObservations xs = map (\<lambda>ip. merged (filter (\<lambda>x. ob_IP x = ip) xs)) (first_seen (filter (\<lambda>ip. ip \<noteq> []) (map ob_IP xs)))"
  by (rule mergeObservations_spec)

text \<open>C32: the result of a combined scan does not depend on how its goroutines are scheduled: whatever the order
  in which their calls reach the notice collector, the observations and the notices are those of the sequential
  run.\<close>

theorem Combined_Discover_deterministic:
  assumes "\<forall>cs. mset (sched cs) = mset cs"
  shows "Combined_Discover c sched reached ctx job = Combined_Discover c id reached ctx job"
  using enrich_schedule [of sched] assms by (simp add: Combined_Discover_def split: sum.splits)

text \<open>An agent never probes outside its allowlist.  Two agents with the same registration whose backends agree
  on the jobs within the allowlist answer every job alike, however the backends behave on others: no request that
  reaches a backend, the passes of a combined scan over discovered hosts included, leaves the allowlist, provided
  nmap reports only hosts it was told to scan.\<close>

lemma agent_stays_in_scope:
  assumes "backends_agree (ag_AllowedCIDRs (Registration cfg)) c c'" "reports_targets (cd_nmap c)"
  shows "submitJob (cfg\<lparr>Discoverer := Some (Combined_Discover c sched reached)\<rparr>) started finished cn body =
    submitJob (cfg\<lparr>Discoverer := Some (Combined_Discover c' sched reached)\<rparr>) started finished cn body"
proof -
  have "processJob (cfg\<lparr>Discoverer := Some (Combined_Discover c sched reached)\<rparr>) started finished job =
      processJob (cfg\<lparr>Discoverer := Some (Combined_Discover c' sched reached)\<rparr>) started finished job" for job
  proof (cases "ValidateAgentScope job (ag_AllowedCIDRs (Registration cfg))")
    case None
    then show ?thesis
      using Combined_Discover_cong [OF assms(1) None assms(2)] by (simp add: processJob_def Let_def split: option.splits)
  qed (simp add: processJob_def)
  then show ?thesis by (simp add: submitJob_def verifyClient_Discoverer split: option.splits sum.splits)
qed

section \<open>Examples\<close>

text \<open>Backends that find every host they are pointed at, and know of it what their kind knows.\<close>

definition blank_observation :: Observation where
  "blank_observation = \<lparr>ob_IP = [], ob_MAC = [], ob_Vendor = [], ob_Hostname = [], ob_OSFamily = [], ob_OSDetail = [], ob_VLAN = 0,
    ob_HWSerial = [], ob_HWObjectID = [], ob_Services = [], ob_Evidence = [], ob_ObservedAt = None\<rparr>"

definition finds :: "(Observation \<Rightarrow> Observation) \<Rightarrow> discoverer" where
  "finds f ctx job = Inr (map (\<lambda>t. f (blank_observation\<lparr>ob_IP := t\<rparr>)) (hostTargets (job_Targets job)), [])"

definition silent :: discoverer where
  "silent ctx job = Inr ([], map (\<lambda>t. \<lparr>se_Code = ''no_response'', se_Message = ''timeout'', se_Target = t\<rparr>) (job_Targets job))"

definition demo_backends :: CombinedDiscoverer where
  "demo_backends = \<lparr>cd_nmap = finds (ob_OSFamily_update (\<lambda>_. ''Linux'')), cd_snmp = silent,
    cd_names = finds (ob_Hostname_update (\<lambda>_. ''nas'')), cd_dns = finds (ob_Hostname_update (\<lambda>_. ''nas.lan'')),
    cd_dhcp = (\<lambda>ctx job. Inl ''no lease file configured'')\<rparr>"

definition demo_scan_job :: ScanJob where
  "demo_scan_job = \<lparr>job_ID = ''j1'', job_AgentID = ''a1'', job_RequestedBy = ''u1'', job_Type = ScanCombined, job_Mode = ModeDeepActive,
    job_AllowedCIDRs = [''10.0.0.0/24''], job_Targets = [''10.0.0.7'', ''10.0.0.8''], job_Ports = [],
    job_RateLimit = \<lparr>rl_ProbesPerSecond = 0, rl_Concurrency = 0\<rparr>, job_TimeoutSeconds = 60, job_CreatedAt = 0\<rparr>"

definition demo_agent_config :: agent_config where
  "demo_agent_config = \<lparr>Registration = \<lparr>ag_ID = ''a1'', ag_Name = ''lab'', ag_SiteID = [], ag_Version = [], ag_CertificateSubject = [],
     ag_AllowedCIDRs = [''10.0.0.0/16''], ag_Status = AgentActive, ag_CreatedAt = 0, ag_LastSeenAt = None\<rparr>,
    ExpectedClientCN = ''app'', Discoverer = None, netip_text = (\<lambda>_. [])\<rparr>"

theorem Combined_Discover_deterministic_witness:
  "Combined_Discover demo_backends rev 9 None demo_scan_job = Inr
    ([blank_observation\<lparr>ob_IP := ''10.0.0.7'', ob_OSFamily := ''Linux'', ob_Hostname := ''nas''\<rparr>,
      blank_observation\<lparr>ob_IP := ''10.0.0.8'', ob_OSFamily := ''Linux'', ob_Hostname := ''nas''\<rparr>],
     [ignored ''DHCP leases skipped: no lease file configured'', ignored ''SNMP inventory skipped: 2 hosts did not respond''])"
proof -
  have "Combined_Discover demo_backends id 9 None demo_scan_job = Inr
    ([blank_observation\<lparr>ob_IP := ''10.0.0.7'', ob_OSFamily := ''Linux'', ob_Hostname := ''nas''\<rparr>,
      blank_observation\<lparr>ob_IP := ''10.0.0.8'', ob_OSFamily := ''Linux'', ob_Hostname := ''nas''\<rparr>],
     [ignored ''DHCP leases skipped: no lease file configured'', ignored ''SNMP inventory skipped: 2 hosts did not respond''])"
    by code_simp
  with Combined_Discover_deterministic [of rev demo_backends 9 None demo_scan_job] show ?thesis by simp
qed

end
