(* ===== verification/NmapScan.thy ===== *)
theory NmapScan
  imports AgentScan
begin

text \<open>
  \<open>internal/scanner/agent/nmap.go\<close>: the backend that drives nmap.  The plan of source pinning, the
  command lines of the two stages, the conversion of nmap's report and the staged discovery are
  modelled; the run of the binary and \<open>xml.Unmarshal\<close> are parameters.  \<open>net.IP\<close> and \<open>net.IPNet\<close> are
  addresses and prefixes with IPv4-mapped addresses read as IPv4, as \<open>To4\<close> and \<open>IPNet.Contains\<close> do.
\<close>

section \<open>Package net\<close>

fun To4 :: "addr \<Rightarrow> addr" where
  "To4 (A4 w) = A4 w"
| "To4 (A6 w z) = (if drop_bit 32 w = 0xFFFF then A4 (ucast w) else A6 w z)"

definition net_ParseIP :: "string \<Rightarrow> addr option" where
  "net_ParseIP s = (case ParseAddr s of None \<Rightarrow> None | Some a \<Rightarrow> if Zone a \<noteq> [] then None else Some (To4 a))"

definition net_ParseCIDR :: "string \<Rightarrow> netprefix option" where
  "net_ParseCIDR s =
    (case cut_first CHR ''/'' s of None \<Rightarrow> None
     | Some (a, m) \<Rightarrow>
       (case ParseAddr a of None \<Rightarrow> None
        | Some ip \<Rightarrow>
           if Zone ip \<noteq> [] then None
           else if m = [] \<or> \<not> list_all is_digit m \<or> BitLen ip < dec_val m then None
           else Some (Masked (PrefixFrom ip (dec_val m)))))"

definition networkNumberAndMask :: "netprefix \<Rightarrow> netprefix" where
  "networkNumberAndMask n =
    (case Prefix_Addr n of A6 w z \<Rightarrow> if drop_bit 32 w = 0xFFFF then PrefixFrom (A4 (ucast w)) (Bits n - 96) else n
     | A4 w \<Rightarrow> n)"

definition IPNet_Contains :: "netprefix \<Rightarrow> addr \<Rightarrow> bool" where
  "IPNet_Contains n ip = Prefix_Contains (networkNumberAndMask n) (To4 ip)"

section \<open>Egress pinning\<close>

type_synonym PinMode = string

abbreviation PinAuto :: PinMode where "PinAuto \<equiv> ''auto''"
abbreviation PinAlways :: PinMode where "PinAlways \<equiv> ''always''"
abbreviation PinOff :: PinMode where "PinOff \<equiv> ''off''"

definition ParsePinMode :: "string \<Rightarrow> PinMode" where
  "ParsePinMode s =
    (let m = ToLower (TrimSpace s) in if m = PinAlways then PinAlways else if m = PinOff then PinOff else PinAuto)"

record EgressOptions =
  eg_Interface :: string
  eg_SourceIP :: string
  eg_PinMode :: PinMode
  eg_SourceNet :: "netprefix option"

definition egress_args :: "EgressOptions \<Rightarrow> string list" where
  "egress_args e =
    (if TrimSpace (eg_Interface e) \<noteq> [] then [''-e'', eg_Interface e] else []) @
    (if TrimSpace (eg_SourceIP e) \<noteq> [] then [''-S'', eg_SourceIP e] else [])"

definition effectivePinMode :: "EgressOptions \<Rightarrow> PinMode" where
  "effectivePinMode e = (if eg_PinMode e = [] then PinAuto else eg_PinMode e)"

definition withoutPin :: "EgressOptions \<Rightarrow> EgressOptions" where
  "withoutPin e = e\<lparr>eg_Interface := [], eg_SourceIP := []\<rparr>"

definition pinConfigured :: "EgressOptions \<Rightarrow> bool" where
  "pinConfigured e \<longleftrightarrow> TrimSpace (eg_Interface e) \<noteq> [] \<or> TrimSpace (eg_SourceIP e) \<noteq> []"

datatype targetAdjacency = adjacencyLocal | adjacencyRouted | adjacencyStraddle

definition classifyNets :: "netprefix \<Rightarrow> netprefix \<Rightarrow> targetAdjacency" where
  "classifyNets srcNet tnet =
    (if IPNet_Contains srcNet (Prefix_Addr tnet) \<and> Bits srcNet \<le> Bits tnet then adjacencyLocal
     else if IPNet_Contains tnet (Prefix_Addr srcNet) \<and> Bits tnet < Bits srcNet then adjacencyStraddle
     else adjacencyRouted)"

definition classifyAdjacency :: "string \<Rightarrow> netprefix option \<Rightarrow> targetAdjacency" where
  "classifyAdjacency token srcNet =
    (case srcNet of None \<Rightarrow> adjacencyRouted
     | Some src \<Rightarrow>
       (case net_ParseIP token of
          Some ip \<Rightarrow> if IPNet_Contains src ip then adjacencyLocal else adjacencyRouted
        | None \<Rightarrow> (case net_ParseCIDR token of Some tnet \<Rightarrow> classifyNets src tnet | None \<Rightarrow> adjacencyRouted)))"

definition ipNetString :: "netprefix option \<Rightarrow> string" where
  "ipNetString n = (case n of None \<Rightarrow> ''(unknown)'' | Some p \<Rightarrow> Prefix_String (networkNumberAndMask p))"

record egressSet =
  set_targets :: "string list"
  set_egress :: EgressOptions
  set_pinned :: bool

record egressPlan =
  plan_sets :: "egressSet list"
  plan_notices :: "ScanError list"

definition straddle_notice :: "EgressOptions \<Rightarrow> string \<Rightarrow> ScanError" where
  "straddle_notice egress t =
    \<lparr>se_Code = CodeScanIgnored,
     se_Message = ''Target '' @ t @ '' straddles the scan source subnet '' @ ipNetString (eg_SourceNet egress) @
       ''; scanning it over the default route (unpinned). Split the in-subnet portion into its own target to pin it.'',
     se_Target = t\<rparr>"

definition planEgress :: "EgressOptions \<Rightarrow> string list \<Rightarrow> egressPlan" where
  "planEgress egress targets =
    (let mode = effectivePinMode egress in
     if \<not> pinConfigured egress \<or> mode = PinOff then
       \<lparr>plan_sets = [\<lparr>set_targets = targets, set_egress = withoutPin egress, set_pinned = False\<rparr>], plan_notices = []\<rparr>
     else if mode = PinAlways then
       \<lparr>plan_sets = [\<lparr>set_targets = targets, set_egress = egress, set_pinned = True\<rparr>], plan_notices = []\<rparr>
     else
      let pinned = filter (\<lambda>t. classifyAdjacency t (eg_SourceNet egress) = adjacencyLocal) targets;
          unpinned = filter (\<lambda>t. classifyAdjacency t (eg_SourceNet egress) \<noteq> adjacencyLocal) targets;
          straddling = filter (\<lambda>t. classifyAdjacency t (eg_SourceNet egress) = adjacencyStraddle) targets in
      \<lparr>plan_sets =
         (if pinned \<noteq> [] then [\<lparr>set_targets = pinned, set_egress = egress, set_pinned = True\<rparr>] else []) @
         (if unpinned \<noteq> [] then [\<lparr>set_targets = unpinned, set_egress = withoutPin egress, set_pinned = False\<rparr>] else []),
       plan_notices = map (straddle_notice egress) straddling\<rparr>)"

definition setHasRouted :: "string list \<Rightarrow> netprefix option \<Rightarrow> bool" where
  "setHasRouted targets srcNet \<longleftrightarrow> list_ex (\<lambda>t. classifyAdjacency t srcNet \<noteq> adjacencyLocal) targets"

definition pinSourceLabel :: "EgressOptions \<Rightarrow> string" where
  "pinSourceLabel e =
    (if eg_SourceIP e \<noteq> [] \<and> eg_Interface e \<noteq> [] then eg_SourceIP e @ '' on '' @ eg_Interface e
     else if eg_SourceIP e \<noteq> [] then eg_SourceIP e else eg_Interface e)"

definition zeroHostNotice :: "EgressOptions \<Rightarrow> egressSet \<Rightarrow> ScanError option" where
  "zeroHostNotice egress s =
    (if \<not> pinConfigured egress then None
     else
      let targets = Join (set_targets s) '', '';
          msg = (if set_pinned s \<and> setHasRouted (set_targets s) (eg_SourceNet egress) then
              ''No live hosts discovered for '' @ targets @ ''. The scanner pins egress to '' @ pinSourceLabel egress @
              '' (AGENT_SCAN_PIN_MODE=always), but the target is routed (outside the source subnet '' @
              ipNetString (eg_SourceNet egress) @
              ''), so probes leave the wrong interface and replies are lost. Set AGENT_SCAN_PIN_MODE=auto, use bridge mode for '' @
              ''routed scans, or place a scanner on the target VLAN.''
            else if \<not> set_pinned s then
              ''No live hosts discovered for '' @ targets @ '' over the default route (unpinned). MAC discovery needs '' @
              ''layer-2 adjacency, so a routed subnet yields no MACs this way '' @ em_dash @
              '' scan its gateway with arp_table/snmp_inventory, or place a scanner on that VLAN.''
            else
              ''No live hosts discovered for '' @ targets @ '' on the pinned source segment '' @
              ipNetString (eg_SourceNet egress) @ ''.'') in
      Some (ignored msg))"

section \<open>Command lines\<close>

definition hostDiscoveryTimeoutSeconds :: int where "hostDiscoveryTimeoutSeconds = 60"

definition portArgsForMode :: "ScanMode \<Rightarrow> string list" where
  "portArgsForMode mode = (if mode = ModeDeepActive then [''-p-''] else [''--top-ports'', ''1000''])"

definition versionAllForMode :: "ScanMode \<Rightarrow> bool" where
  "versionAllForMode mode \<longleftrightarrow> mode = ModeStandardActive"

definition timingArgs :: "ScanMode \<Rightarrow> bool \<Rightarrow> string list" where
  "timingArgs mode rateCapped =
    (if mode \<noteq> ModeDeepActive then []
     else [''-T4'', ''--max-retries'', ''2''] @ (if \<not> rateCapped then [''--min-rate'', ''1000''] else []))"

definition hostDiscoveryArgs :: "ScanJob \<Rightarrow> EgressOptions \<Rightarrow> string list" where
  "hostDiscoveryArgs job egress =
    [''-oX'', ''-'', ''--privileged'', ''-sn'', ''-T4''] @ egress_args egress @
    [''--host-timeout'', itoa hostDiscoveryTimeoutSeconds @ ''s''] @ [''--''] @ job_Targets job"

definition version_args :: "ScanMode \<Rightarrow> string list" where
  "version_args mode = portArgsForMode mode @ (if versionAllForMode mode then [''--version-all''] else [])"

definition type_args :: "ScanJob \<Rightarrow> string list option" where
  "type_args job =
    (if job_Type job = ScanServiceDetect then Some (''-sV'' # version_args (job_Mode job))
     else if job_Type job = ScanOSProbe then
       Some (''-O'' # (if job_Mode job \<noteq> ModeLightActive then ''-sV'' # version_args (job_Mode job) else []))
     else if job_Type job = ScanCombined then Some ([''-sV'', ''-O''] @ version_args (job_Mode job))
     else None)"

definition serviceScanArgs :: "ScanJob \<Rightarrow> EgressOptions \<Rightarrow> string list \<Rightarrow> string + string list" where
  "serviceScanArgs job egress hosts =
    (if hosts = [] then Inl ''service scan has no live hosts''
     else
      let rate0 = rl_ProbesPerSecond (job_RateLimit job);
          rate = (if rate0 \<le> 0 \<and> job_Mode job \<noteq> ModeDeepActive then 100 else rate0);
          args = [''-oX'', ''-'', ''--privileged'', ''-Pn''] @ egress_args egress @
            (if 0 < rate then [''--max-rate'', itoa rate] else []) @
            (if 0 < rl_Concurrency (job_RateLimit job) then [''--max-parallelism'', itoa (rl_Concurrency (job_RateLimit job))] else []) @
            timingArgs (job_Mode job) (0 < rate) @
            (if 0 < job_TimeoutSeconds job then [''--host-timeout'', itoa (job_TimeoutSeconds job) @ ''s''] else []) in
      case type_args job of
        None \<Rightarrow> Inl (''unsupported scan type '' @ Quote (job_Type job))
      | Some ta \<Rightarrow> Inr (args @ ta @ [''--''] @ hosts))"

section \<open>The report\<close>

record nmapAddress =
  na_Addr :: string
  na_Type :: string
  na_Vendor :: string

record nmapService =
  ns_Name :: string
  ns_Product :: string
  ns_Version :: string

record nmapPort =
  np_Protocol :: string
  np_PortID :: int
  np_State :: string
  np_Service :: nmapService

record nmapOSMatch =
  nm_Name :: string
  nm_Classes :: "string list"

record nmapHost =
  nh_Status :: string
  nh_Addresses :: "nmapAddress list"
  nh_Hostnames :: "string list"
  nh_Ports :: "nmapPort list"
  nh_OSMatches :: "nmapOSMatch list"

definition empty_observation :: "time \<Rightarrow> Observation" where
  "empty_observation now = \<lparr>ob_IP = [], ob_MAC = [], ob_Vendor = [], ob_Hostname = [], ob_OSFamily = [], ob_OSDetail = [],
    ob_VLAN = 0, ob_HWSerial = [], ob_HWObjectID = [], ob_Services = [], ob_Evidence = [], ob_ObservedAt = Some now\<rparr>"

definition read_address :: "Observation \<Rightarrow> nmapAddress \<Rightarrow> Observation" where
  "read_address obs addr =
    (if na_Type addr = ''ipv4'' then obs\<lparr>ob_IP := na_Addr addr\<rparr>
     else if na_Type addr = ''mac'' then obs\<lparr>ob_MAC := na_Addr addr, ob_Vendor := na_Vendor addr\<rparr>
     else obs)"

definition port_service :: "nmapPort \<Rightarrow> ServiceObservation" where
  "port_service p = \<lparr>sv_Protocol = np_Protocol p, sv_Port = np_PortID p, sv_State = np_State p,
    sv_ServiceName = ns_Name (np_Service p), sv_Product = ns_Product (np_Service p), sv_Version = ns_Version (np_Service p)\<rparr>"

definition observe_host :: "time \<Rightarrow> nmapHost \<Rightarrow> Observation option" where
  "observe_host now host =
    (if nh_Status host \<noteq> [] \<and> nh_Status host \<noteq> ''up'' then None
     else
      let obs = foldl read_address (empty_observation now) (nh_Addresses host) in
      if ob_IP obs = [] then None
      else Some (obs\<lparr>ob_Hostname := (case nh_Hostnames host of [] \<Rightarrow> [] | n # _ \<Rightarrow> n),
        ob_Services := map port_service (filter (\<lambda>p. np_State p = ''open'') (nh_Ports host)),
        ob_OSDetail := (case nh_OSMatches host of [] \<Rightarrow> [] | best # _ \<Rightarrow> nm_Name best),
        ob_OSFamily := (case nh_OSMatches host of [] \<Rightarrow> []
          | best # _ \<Rightarrow> (case nm_Classes best of [] \<Rightarrow> [] | f # _ \<Rightarrow> f)),
        ob_Evidence := (if ob_Vendor obs \<noteq> []
          then [\<lparr>ev_Source = ''nmap'', ev_Summary = ''MAC vendor: '' @ ob_Vendor obs, ev_Raw = []\<rparr>] else [])\<rparr>))"

text \<open>\<open>unmarshal\<close> is \<open>xml.Unmarshal\<close> into \<open>nmapRun\<close>: the hosts, or the text of its error.\<close>

definition parseNmapXML :: "(string \<Rightarrow> string + nmapHost list) \<Rightarrow> time \<Rightarrow> string \<Rightarrow> string + Observation list" where
  "parseNmapXML unmarshal now data =
    (if data = [] then Inr []
     else (case unmarshal data of
        Inl err \<Rightarrow> Inl (''parse nmap xml: '' @ err)
      | Inr hosts \<Rightarrow> Inr (List.map_filter (observe_host now) hosts)))"

section \<open>Discovery\<close>

text \<open>\<open>nd_run\<close> runs the binary: its output and the text of its error, if it has one.\<close>

record NmapDiscoverer =
  nd_egress :: EgressOptions
  nd_run :: "context_limit \<Rightarrow> string list \<Rightarrow> string \<times> string option"
  nd_unmarshal :: "string \<Rightarrow> string + nmapHost list"
  nd_now :: time

definition runNmap :: "NmapDiscoverer \<Rightarrow> context_limit \<Rightarrow> string list \<Rightarrow> string + Observation list \<times> ScanError list" where
  "runNmap n ctx args =
    (let (out, runErr) = nd_run n ctx args; parsed = parseNmapXML (nd_unmarshal n) (nd_now n) out in
     case runErr of
       Some err \<Rightarrow>
         (case parsed of
            Inr observations \<Rightarrow>
              if observations \<noteq> [] then Inr (observations, [\<lparr>se_Code = ''nmap_partial'', se_Message = err, se_Target = []\<rparr>]) else Inl err
          | Inl _ \<Rightarrow> Inl err)
     | None \<Rightarrow> (case parsed of Inl err \<Rightarrow> Inl err | Inr observations \<Rightarrow> Inr (observations, [])))"

definition discoverSet :: "NmapDiscoverer \<Rightarrow> context_limit \<Rightarrow> ScanJob \<Rightarrow> string list \<Rightarrow> EgressOptions \<Rightarrow>
    string + Observation list \<times> ScanError list" where
  "discoverSet n ctx job targets egress =
    (let setJob = job\<lparr>job_Targets := targets\<rparr> in
     case runNmap n ctx (hostDiscoveryArgs setJob egress) of
       Inl err \<Rightarrow> Inl err
     | Inr (alive, errs) \<Rightarrow>
        if job_Type job = ScanHostDiscovery then Inr (alive, errs)
        else if alive = [] then Inr ([], errs)
        else (case serviceScanArgs setJob egress (observedIPs alive) of
           Inl err \<Rightarrow> Inl err
         | Inr scanArgs \<Rightarrow>
            (case runNmap n ctx scanArgs of
               Inl err \<Rightarrow> Inl err
             | Inr (scanned, scanErrs) \<Rightarrow> Inr (alive @ scanned, errs @ scanErrs))))"

fun discover_sets :: "NmapDiscoverer \<Rightarrow> context_limit \<Rightarrow> ScanJob \<Rightarrow> Observation list \<Rightarrow> ScanError list \<Rightarrow> egressSet list \<Rightarrow>
    string + Observation list \<times> ScanError list" where
  "discover_sets n ctx job allObs errs [] = Inr (mergeObservations allObs, errs)"
| "discover_sets n ctx job allObs errs (s # ss) =
    (case discoverSet n ctx job (set_targets s) (set_egress s) of
       Inl err \<Rightarrow> Inl err
     | Inr (obs, setErrs) \<Rightarrow>
        let notice = (if obs = [] then (case zeroHostNotice (nd_egress n) s of Some x \<Rightarrow> [x] | None \<Rightarrow> []) else []) in
        discover_sets n ctx job (allObs @ obs) (errs @ notice @ setErrs) ss)"

definition Nmap_Discover :: "NmapDiscoverer \<Rightarrow> discoverer" where
  "Nmap_Discover n ctx job =
    (if job_Mode job = ModePassive then Inr ([], [])
     else if job_Targets job = [] then Inl ''scan job has no targets''
     else let plan = planEgress (nd_egress n) (job_Targets job) in
       discover_sets n ctx job [] (plan_notices plan) (plan_sets plan))"

section \<open>Adjacency\<close>

lemma IPNet_Contains_A4 [simp]: "IPNet_Contains (PrefixFrom (A4 s) b) (A4 w) = Prefix_Contains (PrefixFrom (A4 s) b) (A4 w)"
  by (simp add: IPNet_Contains_def networkNumberAndMask_def)

lemma ParseAddr_cidr: "ParseAddr (v4_string w @ CHR ''/'' # m) = None"
proof -
  let ?s = "v4_string w @ CHR ''/'' # m"
  have f: "find (\<lambda>c. c = CHR ''.'' \<or> c = CHR '':'' \<or> c = CHR ''%'') ?s = Some CHR ''.''"
    by (simp add: v4_string_def v4_octets_def find_sep_v4)
  have "parseIPv4Fields ?s = None"
  proof (rule ccontr)
    assume "parseIPv4Fields ?s \<noteq> None"
    then obtain v where "ParseAddr ?s = Some (A4 v)" using f by (auto simp: ParseAddr_def)
    then have "?s = v4_string v" by (simp add: ParseAddr_A4_iff)
    then show False using slash_notin_v4_string [of v] by (metis in_set_conv_decomp)
  qed
  with f show ?thesis by (simp add: ParseAddr_def)
qed

lemma net_parse_cidr:
  assumes "ParsePrefix s = Some p" "Is4 (Prefix_Addr p)"
  shows "net_ParseIP s = None" "net_ParseCIDR s = Some (Masked p)"
proof -
  obtain w b where p: "p = PrefixFrom (A4 w) b" using assms(2) by (cases p) (auto simp: Is4_iff)
  then have b: "b \<le> 32" and s: "s = v4_string w @ CHR ''/'' # itoa_nat b"
    using assms(1) by (simp_all add: ParsePrefix_A4_iff)
  show "net_ParseIP s = None" by (simp add: net_ParseIP_def s ParseAddr_cidr)
  have "cut_first CHR ''/'' s = Some (v4_string w, itoa_nat b)"
    by (simp add: cut_first_Some s slash_notin_v4_string)
  then show "net_ParseCIDR s = Some (Masked p)"
    using b itoa_nat_digits [of b] by (simp add: net_ParseCIDR_def p)
qed

text \<open>Two IPv4 prefixes are nested or disjoint.\<close>

lemma prefixes_nested:
  assumes "valid4 p" "valid4 q" "prefix_addrs p \<inter> prefix_addrs q \<noteq> {}"
  shows "prefixWithin p q \<or> prefixWithin q p"
proof -
  obtain v b w c where p: "p = PrefixFrom (A4 v) b" "b \<le> 32" and q: "q = PrefixFrom (A4 w) c" "c \<le> 32"
    using assms(1,2) by (auto simp: valid4_iff)
  then have "drop_bit (32 - min b c) v = drop_bit (32 - min b c) w"
    using assms(3) by (simp add: Overlaps_A4_iff [symmetric])
  then show ?thesis
    by (cases "b \<le> c") (simp_all add: prefixWithin_def p q Prefix_Contains_A4 min_def)
qed

lemma classifyNets_spec:
  assumes "valid4 src" "valid4 t"
  shows "classifyNets src t =
    (if prefix_addrs t \<subseteq> prefix_addrs src then adjacencyLocal
     else if prefix_addrs src \<subseteq> prefix_addrs t then adjacencyStraddle else adjacencyRouted)"
proof -
  obtain v b w c where t: "t = PrefixFrom (A4 v) b" "b \<le> 32" and src: "src = PrefixFrom (A4 w) c" "c \<le> 32"
    using assms by (auto simp: valid4_iff)
  have "classifyNets src t = (if prefixWithin t src then adjacencyLocal
      else if prefixWithin src t then adjacencyStraddle else adjacencyRouted)"
    by (auto simp: classifyNets_def prefixWithin_def t src Prefix_Contains_A4)
  then show ?thesis using assms by (simp add: prefixWithin_iff)
qed

lemma classifyAdjacency_iff:
  assumes "valid4 src" "ipv4_target t"
  shows "classifyAdjacency t (Some src) =
    (if target_addrs t \<subseteq> prefix_addrs src then adjacencyLocal
     else if prefix_addrs src \<subseteq> target_addrs t then adjacencyStraddle else adjacencyRouted)"
proof -
  consider w where "t = v4_string w" | p where "ParsePrefix t = Some p" "Is4 (Prefix_Addr p)"
    using assms(2) by (auto simp: ipv4_target_def ipv4_cidr_def)
  then show ?thesis
  proof cases
    case 1
    obtain v b where src: "src = PrefixFrom (A4 v) b" "b \<le> 32" using assms(1) by (auto simp: valid4_iff)
    have a: "target_addrs t = {A4 w}" by (simp add: 1 target_addrs_def)
    have "classifyAdjacency t (Some src) = (if A4 w \<in> prefix_addrs src then adjacencyLocal else adjacencyRouted)"
      by (simp add: classifyAdjacency_def net_ParseIP_def 1 src prefix_addrs_def)
    moreover have "A4 v \<in> prefix_addrs src" by (simp add: src prefix_addrs_def)
    ultimately show ?thesis by (auto simp: a)
  next
    case 2
    then have "valid4 (Masked p)" using ParsePrefix_wf by (simp add: valid4_def)
    with 2 classifyNets_spec [OF assms(1)] show ?thesis
      by (simp add: classifyAdjacency_def net_parse_cidr target_addrs_def)
  qed
qed

lemma classifyAdjacency_disjoint:
  assumes "valid4 src" "ipv4_target t" "classifyAdjacency t (Some src) = adjacencyRouted"
  shows "target_addrs t \<inter> prefix_addrs src = {}"
proof -
  have n: "\<not> target_addrs t \<subseteq> prefix_addrs src" "\<not> prefix_addrs src \<subseteq> target_addrs t"
    using assms by (auto simp: classifyAdjacency_iff split: if_splits)
  consider w where "t = v4_string w" | p where "ParsePrefix t = Some p" "Is4 (Prefix_Addr p)"
    using assms(2) by (auto simp: ipv4_target_def ipv4_cidr_def)
  then show ?thesis
  proof cases
    case 1
    then show ?thesis using n(1) by (simp add: target_addrs_def)
  next
    case 2
    then have v: "valid4 p" "target_addrs t = prefix_addrs p" using ParsePrefix_wf by (simp_all add: valid4_def target_addrs_def)
    then show ?thesis using prefixes_nested [OF v(1) assms(1)] n assms(1) by (auto simp: prefixWithin_iff)
  qed
qed

section \<open>Command lines name their targets\<close>

text \<open>What nmap takes as targets: the words after \<open>--\<close>.\<close>

definition scanned_targets :: "string list \<Rightarrow> string list" where
  "scanned_targets args = drop 1 (dropWhile (\<lambda>x. x \<noteq> ''--'') args)"

definition plain_egress :: "EgressOptions \<Rightarrow> bool" where
  "plain_egress e \<longleftrightarrow> eg_Interface e \<noteq> ''--'' \<and> eg_SourceIP e \<noteq> ''--''"

lemma scanned_targets_append: "''--'' \<notin> set opts \<Longrightarrow> scanned_targets (opts @ ''--'' # ts) = ts"
  by (induction opts) (auto simp: scanned_targets_def)

lemma itoa_not_dashes: "itoa i \<noteq> ''--''" "itoa i @ ''s'' \<noteq> ''--''"
proof -
  have d: "hd (itoa_nat n) \<noteq> CHR ''-''" for n using is_digit_not_sign [OF itoa_nat_hd_digit] by blast
  then have "itoa_nat n \<noteq> CHR ''-'' # x" for n x by (metis list.sel(1))
  then have 1: "itoa i \<noteq> CHR ''-'' # CHR ''-'' # x" for x by (auto simp: itoa_def)
  then show "itoa i \<noteq> ''--''" by blast
  show "itoa i @ ''s'' \<noteq> ''--''"
  proof
    assume "itoa i @ ''s'' = ''--''"
    then have "last (itoa i @ ''s'') = last ''--''" by (rule arg_cong)
    then show False by simp
  qed
qed

lemma egress_args_plain: "plain_egress e \<Longrightarrow> ''--'' \<notin> set (egress_args e)"
  by (auto simp: plain_egress_def egress_args_def)

lemma plain_egress_withoutPin [simp]: "plain_egress (withoutPin e)"
  by (simp add: plain_egress_def withoutPin_def)

lemma mode_args_plain: "''--'' \<notin> set (timingArgs m r)" "''--'' \<notin> set (version_args m)"
  by (auto simp: timingArgs_def version_args_def portArgsForMode_def)

lemma type_args_plain: "type_args job = Some ta \<Longrightarrow> ''--'' \<notin> set ta"
  using mode_args_plain(2) by (auto simp: type_args_def split: if_splits)

lemma hostDiscoveryArgs_targets:
  assumes "plain_egress e"
  shows "scanned_targets (hostDiscoveryArgs job e) = job_Targets job"
proof -
  let ?o = "[''-oX'', ''-'', ''--privileged'', ''-sn'', ''-T4''] @ egress_args e @ [''--host-timeout'', itoa hostDiscoveryTimeoutSeconds @ ''s'']"
  have "''--'' \<notin> set ?o" using egress_args_plain [OF assms] itoa_not_dashes(2) [of hostDiscoveryTimeoutSeconds] by simp
  from scanned_targets_append [OF this, of "job_Targets job"] show ?thesis by (simp add: hostDiscoveryArgs_def)
qed

lemma serviceScanArgs_targets:
  assumes "plain_egress e" "serviceScanArgs job e hosts = Inr args"
  shows "scanned_targets args = hosts"
proof -
  obtain opts where "args = opts @ ''--'' # hosts" "''--'' \<notin> set opts"
  proof -
    let ?rate = "if rl_ProbesPerSecond (job_RateLimit job) \<le> 0 \<and> job_Mode job \<noteq> ModeDeepActive then 100
      else rl_ProbesPerSecond (job_RateLimit job)"
    obtain ta where ta: "type_args job = Some ta" "hosts \<noteq> []"
      using assms(2) by (auto simp: serviceScanArgs_def Let_def split: if_splits option.splits)
    let ?opts = "[''-oX'', ''-'', ''--privileged'', ''-Pn''] @ egress_args e @
            (if 0 < ?rate then [''--max-rate'', itoa ?rate] else []) @
            (if 0 < rl_Concurrency (job_RateLimit job) then [''--max-parallelism'', itoa (rl_Concurrency (job_RateLimit job))] else []) @
            timingArgs (job_Mode job) (0 < ?rate) @
            (if 0 < job_TimeoutSeconds job then [''--host-timeout'', itoa (job_TimeoutSeconds job) @ ''s''] else []) @ ta"
    have "args = ?opts @ ''--'' # hosts" using assms(2) ta unfolding serviceScanArgs_def Let_def by simp
    moreover have "''--'' \<notin> set ?opts"
      using egress_args_plain [OF assms(1)] type_args_plain [OF ta(1)] mode_args_plain(1) itoa_not_dashes itoa_not_dashes [symmetric] by simp
    ultimately show thesis by (rule that)
  qed
  then show ?thesis by (simp add: scanned_targets_append)
qed

section \<open>Discovery stays within its targets\<close>

text \<open>What is asked of nmap: the hosts of its report are among those its command line names.\<close>

definition nmap_reports_named :: "NmapDiscoverer \<Rightarrow> bool" where
  "nmap_reports_named n \<longleftrightarrow> (\<forall>ctx args hosts. nd_unmarshal n (fst (nd_run n ctx args)) = Inr hosts \<longrightarrow>
     (\<forall>h\<in>set hosts. \<forall>a\<in>set (nh_Addresses h). na_Type a = ''ipv4'' \<and> na_Addr a \<noteq> [] \<longrightarrow> named_by (scanned_targets args) (na_Addr a)))"

definition all_named :: "string list \<Rightarrow> Observation list \<Rightarrow> bool" where
  "all_named ts obs \<longleftrightarrow> (\<forall>x\<in>set obs. ob_IP x = [] \<or> named_by ts (ob_IP x))"

lemma all_named_append [simp]: "all_named ts (xs @ ys) \<longleftrightarrow> all_named ts xs \<and> all_named ts ys"
  by (auto simp: all_named_def)

lemma all_named_mono: "all_named us obs \<Longrightarrow> set us \<subseteq> set ts \<Longrightarrow> all_named ts obs"
  by (auto simp: all_named_def named_by_def)

lemma named_by_trans:
  assumes "named_by hosts h" "\<forall>g\<in>set hosts. named_by ts g"
  shows "named_by ts h"
proof -
  consider "h \<in> set hosts" | w g where "h = v4_string w" "g \<in> set hosts" "A4 w \<in> target_addrs g"
    using assms(1) by (auto simp: named_by_def)
  then show ?thesis
  proof cases
    case 1
    then show ?thesis using assms(2) by blast
  next
    case 2
    then have "named_by ts g" using assms(2) by blast
    then consider "g \<in> set ts" | v where "g = v4_string v" by (auto simp: named_by_def)
    then show ?thesis
    proof cases
      case 1
      then show ?thesis using 2 by (auto simp: named_by_def)
    next
      case (2 v)
      then have "h = g" using \<open>A4 w \<in> target_addrs g\<close> \<open>h = v4_string w\<close> by (simp add: target_addrs_def)
      then show ?thesis using \<open>named_by ts g\<close> by simp
    qed
  qed
qed

lemma read_address_IP:
  "ob_IP (foldl read_address obs as) = ob_IP obs \<or> (\<exists>a\<in>set as. na_Type a = ''ipv4'' \<and> ob_IP (foldl read_address obs as) = na_Addr a)"
proof (induction as arbitrary: obs)
  case (Cons a as)
  from Cons [of "read_address obs a"] show ?case by (auto simp: read_address_def split: if_splits)
qed simp

lemma observe_host_IP:
  assumes "observe_host now host = Some obs"
  shows "\<exists>a\<in>set (nh_Addresses host). na_Type a = ''ipv4'' \<and> ob_IP obs = na_Addr a"
proof -
  let ?o = "foldl read_address (empty_observation now) (nh_Addresses host)"
  have "ob_IP obs = ob_IP ?o" "ob_IP ?o \<noteq> []"
    using assms by (auto simp: observe_host_def Let_def split: if_splits)
  then show ?thesis using read_address_IP [of "empty_observation now" "nh_Addresses host"] by (simp add: empty_observation_def)
qed

lemma runNmap_named:
  assumes "nmap_reports_named n" "runNmap n ctx args = Inr (obs, errs)"
  shows "all_named (scanned_targets args) obs"
proof -
  have "parseNmapXML (nd_unmarshal n) (nd_now n) (fst (nd_run n ctx args)) = Inr obs"
    using assms(2) by (auto simp: runNmap_def Let_def split_beta split: option.splits sum.splits if_splits)
  then consider "obs = []" | hosts where "nd_unmarshal n (fst (nd_run n ctx args)) = Inr hosts" "obs = List.map_filter (observe_host (nd_now n)) hosts"
    by (auto simp: parseNmapXML_def split: if_splits sum.splits)
  then show ?thesis
  proof cases
    case 2
    show ?thesis
      unfolding all_named_def
    proof
      fix x assume "x \<in> set obs"
      then obtain h where h: "h \<in> set hosts" "observe_host (nd_now n) h = Some x"
        by (auto simp: 2(2) List.map_filter_def)
      from observe_host_IP [OF h(2)] show "ob_IP x = [] \<or> named_by (scanned_targets args) (ob_IP x)"
        using assms(1) 2(1) h(1) unfolding nmap_reports_named_def by metis
    qed
  qed (simp add: all_named_def)
qed

lemma all_named_hosts: "all_named ts obs \<Longrightarrow> \<forall>g\<in>set (observedIPs obs). named_by ts g"
  by (auto simp: all_named_def observedIPs_def)

lemma discoverSet_named:
  assumes "nmap_reports_named n" "plain_egress e" "discoverSet n ctx job ts e = Inr (obs, errs)"
  shows "all_named ts obs"
proof -
  obtain alive e1 where a: "runNmap n ctx (hostDiscoveryArgs (job\<lparr>job_Targets := ts\<rparr>) e) = Inr (alive, e1)"
    and c: "obs = alive \<or> obs = [] \<or> (\<exists>args scanned e2. serviceScanArgs (job\<lparr>job_Targets := ts\<rparr>) e (observedIPs alive) = Inr args \<and>
        runNmap n ctx args = Inr (scanned, e2) \<and> obs = alive @ scanned)"
    using assms(3) by (auto simp: discoverSet_def Let_def split: sum.splits prod.splits if_splits)
  have alive: "all_named ts alive"
    using runNmap_named [OF assms(1) a] by (simp add: hostDiscoveryArgs_targets [OF assms(2)])
  have "all_named ts scanned"
    if s: "serviceScanArgs (job\<lparr>job_Targets := ts\<rparr>) e (observedIPs alive) = Inr args" "runNmap n ctx args = Inr (scanned, e2)" for args scanned e2
    using runNmap_named [OF assms(1) s(2)] named_by_trans all_named_hosts [OF alive]
    unfolding serviceScanArgs_targets [OF assms(2) s(1)] all_named_def by blast
  note scanned = this
  from c show ?thesis
  proof (elim disjE exE conjE)
    fix args scanned e2
    assume "serviceScanArgs (job\<lparr>job_Targets := ts\<rparr>) e (observedIPs alive) = Inr args" "runNmap n ctx args = Inr (scanned, e2)"
      "obs = alive @ scanned"
    then show ?thesis using alive scanned by simp
  next
    assume "obs = []"
    then show ?thesis by (simp add: all_named_def)
  qed (simp add: alive)
qed

lemma mergeObservations_named: "all_named ts obs \<Longrightarrow> all_named ts (mergeObservations obs)"
proof -
  have "ob_IP x \<in> ob_IP ` set obs" if x: "x \<in> set (mergeObservations obs)" for x
  proof -
    obtain ip where ip: "ip \<in> ob_IP ` set obs" "x = merged (at_ip ip obs)"
      using x by (auto simp: mergeObservations_spec)
    then have "at_ip ip obs \<noteq> []" by (auto simp: filter_empty_conv)
    then have "ob_IP x = ip" unfolding ip(2) by (rule merged_IP) simp
    then show ?thesis using ip(1) by simp
  qed
  then show "all_named ts obs \<Longrightarrow> all_named ts (mergeObservations obs)" by (fastforce simp: all_named_def)
qed

lemma discover_sets_named:
  assumes "nmap_reports_named n" "\<forall>s\<in>set ss. plain_egress (set_egress s) \<and> set (set_targets s) \<subseteq> set ts" "all_named ts allObs"
    "discover_sets n ctx job allObs errs ss = Inr (obs, errs')"
  shows "all_named ts obs"
  using assms(2-4)
proof (induction ss arbitrary: allObs errs)
  case Nil
  then show ?case by (auto simp: mergeObservations_named)
next
  case (Cons s ss)
  from Cons.prems(3) obtain o1 e1 where d: "discoverSet n ctx job (set_targets s) (set_egress s) = Inr (o1, e1)"
    by (auto split: sum.splits)
  have "all_named (set_targets s) o1" using discoverSet_named [OF assms(1) _ d] Cons.prems(1) by simp
  then have "all_named ts o1" using Cons.prems(1) by (auto intro: all_named_mono)
  then show ?case using Cons.IH [of "allObs @ o1"] Cons.prems d by (auto simp: Let_def)
qed

lemma planEgress_sets:
  assumes "s \<in> set (plan_sets (planEgress e ts))"
  shows "set (set_targets s) \<subseteq> set ts" "set_egress s = (if set_pinned s then e else withoutPin e)"
  using assms by (auto simp: planEgress_def Let_def split: if_splits)

lemma Nmap_reports_targets:
  assumes "nmap_reports_named n" "plain_egress (nd_egress n)"
  shows "reports_targets (Nmap_Discover n)"
proof -
  have "all_named (job_Targets job) obs" if d: "Nmap_Discover n ctx job = Inr (obs, ns)" for ctx job obs ns
  proof -
    let ?p = "planEgress (nd_egress n) (job_Targets job)"
    consider "obs = []" | "discover_sets n ctx job [] (plan_notices ?p) (plan_sets ?p) = Inr (obs, ns)"
      using d by (auto simp: Nmap_Discover_def Let_def split: if_splits)
    then show ?thesis
    proof cases
      case 2
      have "\<forall>s\<in>set (plan_sets ?p). plain_egress (set_egress s) \<and> set (set_targets s) \<subseteq> set (job_Targets job)"
        using planEgress_sets assms(2) by simp
      from discover_sets_named [OF assms(1) this _ 2] show ?thesis by (simp add: all_named_def)
    qed (simp add: all_named_def)
  qed
  then show ?thesis by (auto simp: reports_targets_def all_named_def)
qed

section \<open>Properties\<close>

text \<open>C11: an agent never probes outside its allowlist.  Take an agent that runs combined scans with nmap, and another
  whose backends (the nmap binary included) behave differently on jobs outside the allowlist of their common
  registration: they answer every request alike.  So no request that reaches a backend, the passes over the hosts
  nmap discovered included, ever leaves the allowlist; all that is asked of nmap is to report hosts its command line
  names.\<close>

theorem agent_never_leaves_allowlist:
  assumes "cd_nmap c = Nmap_Discover n" "nmap_reports_named n" "plain_egress (nd_egress n)"
    "backends_agree (ag_AllowedCIDRs (Registration cfg)) c c'"
  shows "submitJob (cfg\<lparr>Discoverer := Some (Combined_Discover c sched reached)\<rparr>) started finished cn body =
    submitJob (cfg\<lparr>Discoverer := Some (Combined_Discover c' sched reached)\<rparr>) started finished cn body"
  using agent_stays_in_scope [OF assms(4)] Nmap_reports_targets [OF assms(2,3)] assms(1) by simp


text \<open>Nmap reads no target as an option: in both command lines the words after the first \<open>--\<close> are exactly the
  targets of the set, respectively the hosts the first stage found.\<close>

theorem nmap_command_lines:
  assumes "plain_egress e"
  shows "scanned_targets (hostDiscoveryArgs job e) = job_Targets job \<and>
    (serviceScanArgs job e hosts = Inr args \<longrightarrow> scanned_targets args = hosts)"
  using assms by (simp add: hostDiscoveryArgs_targets serviceScanArgs_targets)

section \<open>Examples\<close>

text \<open>A tool that finds the first target up, with an open port.\<close>

definition demo_host :: "string \<Rightarrow> nmapHost" where
  "demo_host ip = \<lparr>nh_Status = ''up'', nh_Addresses = [\<lparr>na_Addr = ip, na_Type = ''ipv4'', na_Vendor = []\<rparr>], nh_Hostnames = [],
    nh_Ports = [\<lparr>np_Protocol = ''tcp'', np_PortID = 22, np_State = ''open'', np_Service = \<lparr>ns_Name = ''ssh'', ns_Product = [], ns_Version = []\<rparr>\<rparr>],
    nh_OSMatches = []\<rparr>"

definition demo_nmap :: NmapDiscoverer where
  "demo_nmap = \<lparr>nd_egress = \<lparr>eg_Interface = ''eth0'', eg_SourceIP = ''10.0.0.2'', eg_PinMode = PinAuto,
      eg_SourceNet = Some (PrefixFrom (A4 0x0A000002) 24)\<rparr>,
    nd_run = (\<lambda>ctx args. (case scanned_targets args of [] \<Rightarrow> [] | t # _ \<Rightarrow> t, None)),
    nd_unmarshal = (\<lambda>s. Inr [demo_host s]), nd_now = 5\<rparr>"

definition nmap_backends :: CombinedDiscoverer where
  "nmap_backends = demo_backends\<lparr>cd_nmap := Nmap_Discover demo_nmap\<rparr>"

text \<open>Backends that break down on a job outside the allowlist make no difference.\<close>

definition fragile :: "string list \<Rightarrow> discoverer \<Rightarrow> discoverer" where
  "fragile allowed d ctx job = (if ValidateAgentScope job allowed = None then d ctx job else Inl ''outside'')"

definition fragile_backends :: CombinedDiscoverer where
  "fragile_backends = (let f = fragile [''10.0.0.0/16''] in
    \<lparr>cd_nmap = f (cd_nmap nmap_backends), cd_snmp = f (cd_snmp nmap_backends), cd_names = f (cd_names nmap_backends),
     cd_dns = f (cd_dns nmap_backends), cd_dhcp = f (cd_dhcp nmap_backends)\<rparr>)"

theorem agent_never_leaves_allowlist_witness:
  "submitJob (demo_agent_config\<lparr>Discoverer := Some (Combined_Discover nmap_backends id 9)\<rparr>) 0 1 (Some ''app'') (Inr demo_scan_job) =
   submitJob (demo_agent_config\<lparr>Discoverer := Some (Combined_Discover fragile_backends id 9)\<rparr>) 0 1 (Some ''app'') (Inr demo_scan_job)"
proof (rule agent_never_leaves_allowlist)
  show "cd_nmap nmap_backends = Nmap_Discover demo_nmap" by (simp add: nmap_backends_def)
  show "nmap_reports_named demo_nmap"
    by (auto simp: nmap_reports_named_def demo_nmap_def demo_host_def named_by_def split: list.splits)
  show "plain_egress (nd_egress demo_nmap)" by (simp add: plain_egress_def demo_nmap_def)
  show "backends_agree (ag_AllowedCIDRs (Registration demo_agent_config)) nmap_backends fragile_backends"
    by (simp add: backends_agree_def same_in_scope_def fragile_backends_def fragile_def demo_agent_config_def Let_def)
qed


theorem nmap_command_lines_witness:
  "scanned_targets (hostDiscoveryArgs demo_scan_job (nd_egress demo_nmap)) = [''10.0.0.7'', ''10.0.0.8''] \<and>
   (\<forall>args. serviceScanArgs demo_scan_job (nd_egress demo_nmap) [''10.0.0.8''] = Inr args \<longrightarrow> scanned_targets args = [''10.0.0.8''])"
proof -
  have "plain_egress (nd_egress demo_nmap)" by (simp add: plain_egress_def demo_nmap_def)
  from nmap_command_lines [OF this, of demo_scan_job "[''10.0.0.8'']"] show ?thesis by (simp add: demo_scan_job_def)
qed

end
