(* ===== verification/Policy.thy ===== *)
theory Policy
  imports Settings NmapScan Accounts
begin

text \<open>
  Policy and health checks: \<open>internal/store/policy.go\<close> and \<open>internal/app/policy.go\<close>.  The snapshots are queries on
  the database; the checks are functions of the snapshots.  \<open>Time.Format\<close> of a date depends on the zone of the
  process and is a parameter.
\<close>

section \<open>Snapshots\<close>

definition SeverityCritical :: string where "SeverityCritical = ''critical''"
definition SeverityWarning :: string where "SeverityWarning = ''warning''"
definition SeverityInfo :: string where "SeverityInfo = ''info''"

record PolicyFinding =
  pf_Check :: string
  pf_Severity :: string
  pf_Title :: string
  pf_Detail :: string
  pf_Link :: string

record PolicyFindingGroup =
  pg_Check :: string
  pg_Label :: string
  pg_Findings :: "PolicyFinding list"

record PolicySummary =
  ps_Critical :: nat
  ps_Warning :: nat
  ps_Info :: nat

definition PolicySummary_Total :: "PolicySummary \<Rightarrow> nat" where
  "PolicySummary_Total s = ps_Critical s + ps_Warning s + ps_Info s"

record PolicySubnet =
  pn_ID :: string
  pn_Name :: string
  pn_CIDR :: string

record PolicyRecord =
  pr_Kind :: string
  pr_Label :: string
  pr_Context :: string
  pr_State :: string
  pr_LastSeen :: "time option"
  pr_Link :: string

record PolicyDiscoveryRecord =
  pd_IP :: string
  pd_Hostname :: string
  pd_ReconcileStatus :: string
  pd_Conflict :: string
  pd_ServiceCount :: nat
  pd_Link :: string

definition PolicySubnets :: "db \<Rightarrow> PolicySubnet list" where
  "PolicySubnets d = map (\<lambda>r. \<lparr>pn_ID = sn_id r, pn_Name = sn_name r, pn_CIDR = Prefix_String (sn_cidr r)\<rparr>)
    (sort_key (\<lambda>r. pg_key (sn_cidr r)) (db_subnets d))"

definition subnet_name :: "db \<Rightarrow> string option \<Rightarrow> string" where
  "subnet_name d sid = (case sid of None \<Rightarrow> []
     | Some k \<Rightarrow> (case find (\<lambda>r. sn_id r = k) (db_subnets d) of None \<Rightarrow> [] | Some r \<Rightarrow> sn_name r))"

definition PolicyAddressRecords :: "db \<Rightarrow> PolicyRecord list" where
  "PolicyAddressRecords d = map (\<lambda>a. \<lparr>pr_Kind = ''ip_address'', pr_Label = pg_host (ad_address a), pr_Context = subnet_name d (ad_subnet_id a),
      pr_State = ad_state a, pr_LastSeen = ad_last_seen_at a,
      pr_Link = (if coalesce (ad_subnet_id a) \<noteq> [] then ''/subnets/'' @ coalesce (ad_subnet_id a) else [])\<rparr>)
    (sort_key (\<lambda>a. pg_key (ad_address a)) (filter (\<lambda>a. ad_state a = ''assigned'' \<or> ad_state a = ''reserved'') (db_addresses d)))"

text \<open>The aggregate \<open>max\<close> of a nullable column.\<close>

fun sql_max :: "time option list \<Rightarrow> time option" where
  "sql_max [] = None"
| "sql_max (None # ts) = sql_max ts"
| "sql_max (Some t # ts) = (case sql_max ts of None \<Rightarrow> Some t | Some u \<Rightarrow> Some (max t u))"

definition device_addresses :: "db \<Rightarrow> device_row \<Rightarrow> address_row list" where
  "device_addresses d v = filter (\<lambda>a. ad_device_id a = Some (dv_id v)) (db_addresses d)"

definition PolicyDeviceRecords :: "db \<Rightarrow> PolicyRecord list" where
  "PolicyDeviceRecords d = map (\<lambda>v. \<lparr>pr_Kind = ''device'', pr_Label = dv_name v, pr_Context = [], pr_State = [],
      pr_LastSeen = sql_max (map ad_last_seen_at (device_addresses d v)), pr_Link = ''/devices/'' @ dv_id v\<rparr>)
    (sort_key dv_name (filter (\<lambda>v. device_addresses d v \<noteq> []) (db_devices d)))"

definition PolicyDiscoveryRecords :: "db \<Rightarrow> PolicyDiscoveryRecord list" where
  "PolicyDiscoveryRecords d = map (\<lambda>x. \<lparr>pd_IP = pg_host (di_ip x), pd_Hostname = di_hostname x, pd_ReconcileStatus = di_reconcile_status x,
      pd_Conflict = di_conflict x, pd_ServiceCount = length (di_services x), pd_Link = ''/discoveries''\<rparr>)
    (sort_key (\<lambda>x. pg_key (di_ip x)) (filter (\<lambda>x. di_status x = ''pending'' \<and> (di_reconcile_status x = ''conflict'' \<or> di_services x \<noteq> [])) (db_discoveries d)))"

section \<open>Settings\<close>

record PolicySettings =
  CheckOverlaps :: bool
  CheckStale :: bool
  CheckServices :: bool
  StaleAfter :: int
  StaleIncludeNeverSeen :: bool

definition day_ns :: int where "day_ns = 24 * hour_ns"

definition defaultPolicySettings :: "int \<Rightarrow> PolicySettings" where
  "defaultPolicySettings stale = \<lparr>CheckOverlaps = True, CheckStale = True, CheckServices = True, StaleAfter = stale, StaleIncludeNeverSeen = False\<rparr>"

definition stored_flag :: "(string \<rightharpoonup> string) \<Rightarrow> string \<Rightarrow> bool \<Rightarrow> bool" where
  "stored_flag stored k dflt = (case stored k of Some v \<Rightarrow> v = ''true'' | None \<Rightarrow> dflt)"

definition mergePolicySettings :: "(nat \<Rightarrow> nat \<Rightarrow> nat \<Rightarrow> nat) \<Rightarrow> int \<Rightarrow> (string \<rightharpoonup> string) \<Rightarrow> PolicySettings" where
  "mergePolicySettings fl stale stored =
    (let s = defaultPolicySettings stale in
     \<lparr>CheckOverlaps = stored_flag stored ''policy_check_overlaps'' (CheckOverlaps s),
      CheckStale = stored_flag stored ''policy_check_stale'' (CheckStale s),
      CheckServices = stored_flag stored ''policy_check_services'' (CheckServices s),
      StaleAfter = positive_duration fl (StaleAfter s) (stored_value stored ''policy_stale_after''),
      StaleIncludeNeverSeen = stored_flag stored ''policy_stale_include_never_seen'' (StaleIncludeNeverSeen s)\<rparr>)"

definition FormatBool :: "bool \<Rightarrow> string" where
  "FormatBool b = (if b then ''true'' else ''false'')"

definition PolicySettings_toMap :: "PolicySettings \<Rightarrow> (string \<times> string) list" where
  "PolicySettings_toMap s =
    [(''policy_check_overlaps'', FormatBool (CheckOverlaps s)), (''policy_check_stale'', FormatBool (CheckStale s)),
     (''policy_check_services'', FormatBool (CheckServices s)), (''policy_stale_after'', Duration_String (StaleAfter s)),
     (''policy_stale_include_never_seen'', FormatBool (StaleIncludeNeverSeen s))]"

definition durationDays :: "int \<Rightarrow> int" where
  "durationDays d = (let n = d sdiv day_ns in if 1 \<le> n then n else 1)"

definition PolicySettings_formValues :: "PolicySettings \<Rightarrow> form" where
  "PolicySettings_formValues s = ((\<lambda>_. [])
    (''policy_stale_days'' := itoa (durationDays (StaleAfter s)),
     ''policy_check_overlaps'' := (if CheckOverlaps s then ''on'' else []),
     ''policy_check_stale'' := (if CheckStale s then ''on'' else []),
     ''policy_check_services'' := (if CheckServices s then ''on'' else []),
     ''policy_stale_never_seen'' := (if StaleIncludeNeverSeen s then ''on'' else [])))"

definition submittedPolicyForm :: "form \<Rightarrow> form" where
  "submittedPolicyForm f = (\<lambda>k. if k = ''policy_stale_days'' then f k
     else if k \<in> {''policy_check_overlaps'', ''policy_check_stale'', ''policy_check_services'', ''policy_stale_never_seen''} \<and> f k \<noteq> [] then ''on'' else [])"

definition parsePolicySettingsForm :: "form \<Rightarrow> string + PolicySettings" where
  "parsePolicySettingsForm f =
    (case intInRange (f ''policy_stale_days'') 1 3650 of
       None \<Rightarrow> Inl ''Stale threshold must be a whole number of days between 1 and 3650.''
     | Some n \<Rightarrow> Inr \<lparr>CheckOverlaps = (f ''policy_check_overlaps'' \<noteq> []), CheckStale = (f ''policy_check_stale'' \<noteq> []),
         CheckServices = (f ''policy_check_services'' \<noteq> []), StaleAfter = wrap64 (wrap64 (n * 24) * hour_ns),
         StaleIncludeNeverSeen = (f ''policy_stale_never_seen'' \<noteq> [])\<rparr>)"

section \<open>Checks\<close>

definition cidrsOverlap :: "netprefix \<Rightarrow> netprefix \<Rightarrow> bool" where
  "cidrsOverlap a b \<longleftrightarrow> IPNet_Contains a (Prefix_Addr b) \<or> IPNet_Contains b (Prefix_Addr a)"

definition overlap_finding :: "PolicySubnet \<Rightarrow> PolicySubnet \<Rightarrow> PolicyFinding" where
  "overlap_finding a b = \<lparr>pf_Check = ''overlapping_subnets'', pf_Severity = SeverityCritical,
     pf_Title = pn_CIDR a @ '' overlaps '' @ pn_CIDR b,
     pf_Detail = Quote (pn_Name a) @ '' ('' @ pn_CIDR a @ '') and '' @ Quote (pn_Name b) @ '' ('' @ pn_CIDR b @
       '') cover overlapping address space, so ownership of the shared addresses is ambiguous.'',
     pf_Link = ''/subnets/'' @ pn_ID a\<rparr>"

fun overlap_pairs :: "(PolicySubnet \<times> netprefix) list \<Rightarrow> PolicyFinding list" where
  "overlap_pairs [] = []"
| "overlap_pairs ((a, p) # ps) = map (\<lambda>(b, q). overlap_finding a b) (filter (\<lambda>(b, q). cidrsOverlap p q) ps) @ overlap_pairs ps"

definition evaluateOverlaps :: "PolicySubnet list \<Rightarrow> PolicyFinding list" where
  "evaluateOverlaps subnets = overlap_pairs (List.map_filter (\<lambda>sn. map_option (Pair sn) (net_ParseCIDR (pn_CIDR sn))) subnets)"

definition staleTitle :: "PolicyRecord \<Rightarrow> string \<Rightarrow> string" where
  "staleTitle rec phrase = (if pr_Kind rec = ''device'' then ''Device '' else ''Address '') @ pr_Label rec @ '' '' @ phrase"

definition staleDetail :: "PolicyRecord \<Rightarrow> string \<Rightarrow> string" where
  "staleDetail rec phrase =
    (if pr_Kind rec = ''device'' then ''Device '' @ Quote (pr_Label rec) @ '' '' @ phrase @ ''. It may have been retired.''
     else ''Address '' @ pr_Label rec @ (if pr_Context rec \<noteq> [] then '' in '' @ pr_Context rec else []) @ '' ('' @ pr_State rec @ '') '' @
       phrase @ ''. It may be safe to release.'')"

definition stale_finding :: "(time \<Rightarrow> string) \<Rightarrow> PolicySettings \<Rightarrow> time \<Rightarrow> PolicyRecord \<Rightarrow> PolicyFinding option" where
  "stale_finding fmt settings now rec =
    (case pr_LastSeen rec of
       None \<Rightarrow> if \<not> StaleIncludeNeverSeen settings then None
         else Some \<lparr>pf_Check = ''stale_records'', pf_Severity = SeverityInfo, pf_Title = staleTitle rec ''has never been seen by a scan'',
           pf_Detail = staleDetail rec ''has no recorded discovery sighting'', pf_Link = pr_Link rec\<rparr>
     | Some t \<Rightarrow> if t < now - StaleAfter settings
         then Some \<lparr>pf_Check = ''stale_records'', pf_Severity = SeverityWarning, pf_Title = staleTitle rec (''last seen '' @ fmt t),
           pf_Detail = staleDetail rec (''has not been seen since '' @ fmt t), pf_Link = pr_Link rec\<rparr>
         else None)"

definition evaluateStaleRecords :: "(time \<Rightarrow> string) \<Rightarrow> PolicyRecord list \<Rightarrow> PolicySettings \<Rightarrow> time \<Rightarrow> PolicyFinding list" where
  "evaluateStaleRecords fmt records settings now = List.map_filter (stale_finding fmt settings now) records"

definition discoveryLabel :: "PolicyDiscoveryRecord \<Rightarrow> string" where
  "discoveryLabel x = (if pd_Hostname x \<noteq> [] then pd_Hostname x @ '' ('' @ pd_IP x @ '')'' else pd_IP x)"

definition service_finding :: "PolicyDiscoveryRecord \<Rightarrow> PolicyFinding option" where
  "service_finding x =
    (if pd_ReconcileStatus x = ''conflict'' then
       Some \<lparr>pf_Check = ''unmanaged_services'', pf_Severity = SeverityCritical, pf_Title = ''Conflict on '' @ discoveryLabel x,
         pf_Detail = (if pd_Conflict x = [] then ''The observation disagrees with a managed record.'' else pd_Conflict x) @
           '' Resolve it in the review queue.'', pf_Link = pd_Link x\<rparr>
     else if pd_ReconcileStatus x = ''new'' \<and> 0 < pd_ServiceCount x then
       Some \<lparr>pf_Check = ''unmanaged_services'', pf_Severity = SeverityWarning,
         pf_Title = ''Unmanaged host '' @ discoveryLabel x @ '' with '' @ itoa_nat (pd_ServiceCount x) @ '' open service(s)'',
         pf_Detail = ''This host is running services but is not in IPAM. Import or dismiss it in the review queue.'', pf_Link = pd_Link x\<rparr>
     else None)"

definition evaluateUnmanagedServices :: "PolicyDiscoveryRecord list \<Rightarrow> PolicyFinding list" where
  "evaluateUnmanagedServices discoveries = List.map_filter service_finding discoveries"

fun summarizeFindings :: "PolicyFinding list \<Rightarrow> PolicySummary" where
  "summarizeFindings [] = \<lparr>ps_Critical = 0, ps_Warning = 0, ps_Info = 0\<rparr>"
| "summarizeFindings (f # fs) =
    (let s = summarizeFindings fs in
     if pf_Severity f = SeverityCritical then s\<lparr>ps_Critical := Suc (ps_Critical s)\<rparr>
     else if pf_Severity f = SeverityWarning then s\<lparr>ps_Warning := Suc (ps_Warning s)\<rparr>
     else if pf_Severity f = SeverityInfo then s\<lparr>ps_Info := Suc (ps_Info s)\<rparr> else s)"

definition computePolicy :: "(time \<Rightarrow> string) \<Rightarrow> PolicySettings \<Rightarrow> time \<Rightarrow> db \<Rightarrow> PolicyFindingGroup list \<times> PolicySummary" where
  "computePolicy fmt settings now d =
    (let overlaps = (if CheckOverlaps settings then
           [\<lparr>pg_Check = ''overlapping_subnets'', pg_Label = ''Overlapping subnets'', pg_Findings = evaluateOverlaps (PolicySubnets d)\<rparr>] else []);
         stale = (if CheckStale settings then
           [\<lparr>pg_Check = ''stale_records'', pg_Label = ''Stale records (not seen in '' @ itoa (durationDays (StaleAfter settings)) @ '' days)'',
             pg_Findings = evaluateStaleRecords fmt (PolicyAddressRecords d) settings now @ evaluateStaleRecords fmt (PolicyDeviceRecords d) settings now\<rparr>] else []);
         services = (if CheckServices settings then
           [\<lparr>pg_Check = ''unmanaged_services'', pg_Label = ''Unmanaged & conflicting services'',
             pg_Findings = evaluateUnmanagedServices (PolicyDiscoveryRecords d)\<rparr>] else []);
         groups = overlaps @ stale @ services in
     (groups, summarizeFindings (concat (map pg_Findings groups))))"

text \<open>The update of the settings also replaces the cached copy, the second component, where there is one.\<close>

definition settingsPolicyUpdate :: "env \<Rightarrow> request \<Rightarrow> accounts \<Rightarrow> outcome \<times> PolicySettings option" where
  "settingsPolicyUpdate e rq a =
    (case currentSession e rq a of
       (None, a') \<Rightarrow> (respond (Redirect ''/login'') a', None)
     | (Some s, a') \<Rightarrow>
        if \<not> User_IsAdmin (Session_User s) then (respond (Status 403) a', None)
        else if \<not> verifySessionCSRF rq s then (respond (Status 403) a', None)
        else if \<not> rq_form_ok rq then (respond (Status 400) a', None)
        else (case parsePolicySettingsForm (rq_form rq) of
            Inl msg \<Rightarrow> (respond (Page ''settings.html'' msg) a', None)
          | Inr settings \<Rightarrow> (logged (Redirect ''/settings/policy?notice=saved'') []
              (log_entry (Some (User_ID (Session_User s))) ''settings.policy.updated'' ''settings'' ''policy'')
              (SetAppSettings (PolicySettings_toMap settings) a'), Some settings)))"

section \<open>What the checks find\<close>

lemma base_in_wider:
  assumes "a \<in> prefix_addrs (PrefixFrom (A4 v) b)" "a \<in> prefix_addrs (PrefixFrom (A4 w) c)" "b \<le> c"
  shows "A4 w \<in> prefix_addrs (PrefixFrom (A4 v) b)"
proof -
  obtain x where x: "a = A4 x" "drop_bit (32 - b) x = drop_bit (32 - b) v" "drop_bit (32 - c) x = drop_bit (32 - c) w"
    using assms(1,2) unfolding prefix_addrs_def mem_Collect_eq Prefix_Contains_A4 by blast
  have "drop_bit (32 - b) x = drop_bit (32 - b) w" using assms(3) by (intro drop_bit_eq_mono [OF x(3)]) simp
  with x(2) show ?thesis unfolding prefix_addrs_def mem_Collect_eq Prefix_Contains_A4 by auto
qed

lemma cidrsOverlap_iff:
  assumes "valid4 p" "valid4 q"
  shows "cidrsOverlap p q \<longleftrightarrow> prefix_addrs p \<inter> prefix_addrs q \<noteq> {}"
proof -
  obtain v b where p: "p = PrefixFrom (A4 v) b" using assms(1) by (auto simp: valid4_iff)
  obtain w c where q: "q = PrefixFrom (A4 w) c" using assms(2) by (auto simp: valid4_iff)
  have self: "A4 v \<in> prefix_addrs p" "A4 w \<in> prefix_addrs q" using p q by (simp_all add: prefix_addrs_def)
  have "cidrsOverlap p q \<longleftrightarrow> A4 w \<in> prefix_addrs p \<or> A4 v \<in> prefix_addrs q"
    by (simp only: cidrsOverlap_def p q prefix_addrs_def mem_Collect_eq IPNet_Contains_A4 netprefix.sel)
  moreover have "A4 w \<in> prefix_addrs p \<or> A4 v \<in> prefix_addrs q" if "a \<in> prefix_addrs p" "a \<in> prefix_addrs q" for a
    using that base_in_wider [of a v b w c] base_in_wider [of a w c v b] by (cases "b \<le> c") (auto simp: p q)
  ultimately show ?thesis using self by blast
qed

interpretation po: range_table cidrsOverlap prefix_addrs valid4
proof
  show "cidrsOverlap b a" if "cidrsOverlap a b" for a b using that by (auto simp: cidrsOverlap_def)
  show "cidrsOverlap a b \<longleftrightarrow> prefix_addrs a \<inter> prefix_addrs b \<noteq> {}" if "valid4 a" "valid4 b" for a b
    using cidrsOverlap_iff [OF that] .
qed

lemma parsed_subnets:
  assumes "ipv4_db d"
  shows "List.map_filter (\<lambda>sn. map_option (Pair sn) (net_ParseCIDR (pn_CIDR sn))) (PolicySubnets d) =
    map (\<lambda>r. (\<lparr>pn_ID = sn_id r, pn_Name = sn_name r, pn_CIDR = Prefix_String (sn_cidr r)\<rparr>, Masked (sn_cidr r)))
      (sort_key (\<lambda>r. pg_key (sn_cidr r)) (db_subnets d))"
proof -
  have parse: "net_ParseCIDR (Prefix_String (sn_cidr r)) = Some (Masked (sn_cidr r))" if "r \<in> set (db_subnets d)" for r
    using that assms net_parse_cidr(2) [OF ParsePrefix_Prefix_String] by (auto simp: ipv4_db_def valid4_def)
  have "set rs \<subseteq> set (db_subnets d) \<Longrightarrow> List.map_filter (\<lambda>sn. map_option (Pair sn) (net_ParseCIDR (pn_CIDR sn)))
      (map (\<lambda>r. \<lparr>pn_ID = sn_id r, pn_Name = sn_name r, pn_CIDR = Prefix_String (sn_cidr r)\<rparr>) rs) =
      map (\<lambda>r. (\<lparr>pn_ID = sn_id r, pn_Name = sn_name r, pn_CIDR = Prefix_String (sn_cidr r)\<rparr>, Masked (sn_cidr r))) rs" for rs
    by (induction rs) (simp_all add: List.map_filter_simps parse)
  then show ?thesis by (simp add: PolicySubnets_def)
qed

text \<open>The two loops over the subnets visit every unordered pair once.\<close>

lemma pairs_Cons:
  assumes "\<And>y. y \<in> S \<Longrightarrow> k z \<noteq> k y" "\<And>x y. ov x y \<Longrightarrow> ov y x"
  shows "{{k x, k y} | x y. x \<in> insert z S \<and> y \<in> insert z S \<and> k x \<noteq> k y \<and> ov x y} =
    (\<lambda>y. {k z, k y}) ` {y \<in> S. ov z y} \<union> {{k x, k y} | x y. x \<in> S \<and> y \<in> S \<and> k x \<noteq> k y \<and> ov x y}" (is "?L = ?new \<union> ?old")
proof (intro equalityI subsetI)
  fix s assume "s \<in> ?L"
  then obtain x y where xy: "s = {k x, k y}" "x \<in> insert z S" "y \<in> insert z S" "k x \<noteq> k y" "ov x y" by blast
  consider "x = z" "y \<in> S" | "y = z" "x \<in> S" | "x \<in> S" "y \<in> S" using xy by auto
  then show "s \<in> ?new \<union> ?old"
  proof cases
    case 1
    with xy show ?thesis by (intro UnI1 image_eqI [of _ _ y]) auto
  next
    case 2
    with xy assms(2) show ?thesis by (intro UnI1 image_eqI [of _ _ x]) auto
  next
    case 3
    with xy show ?thesis by blast
  qed
next
  fix s assume "s \<in> ?new \<union> ?old"
  then show "s \<in> ?L"
  proof
    assume "s \<in> ?new"
    then obtain y where "y \<in> S" "ov z y" "s = {k z, k y}" by blast
    with assms(1) show ?thesis by blast
  qed blast
qed

lemma overlap_pairs_count:
  assumes "distinct (map (\<lambda>x. pn_ID (fst x)) ps)"
  shows "length (overlap_pairs ps) =
    card {{pn_ID (fst x), pn_ID (fst y)} | x y. x \<in> set ps \<and> y \<in> set ps \<and> pn_ID (fst x) \<noteq> pn_ID (fst y) \<and> cidrsOverlap (snd x) (snd y)}"
  using assms
proof (induction ps)
  case (Cons z ps)
  let ?pair = "\<lambda>y. {pn_ID (fst z), pn_ID (fst y)}" and ?hit = "filter (\<lambda>y. cidrsOverlap (snd z) (snd y)) ps"
  let ?old = "{{pn_ID (fst x), pn_ID (fst y)} | x y. x \<in> set ps \<and> y \<in> set ps \<and> pn_ID (fst x) \<noteq> pn_ID (fst y) \<and> cidrsOverlap (snd x) (snd y)}"
  have other: "pn_ID (fst z) \<noteq> pn_ID (fst y)" if "y \<in> set ps" for y using Cons.prems that by force
  have "inj_on ?pair (set ?hit)"
    using Cons.prems by (auto simp: doubleton_eq_iff distinct_map inj_on_def)
  moreover have "distinct ?hit" using Cons.prems by (simp add: distinct_map)
  ultimately have "card (?pair ` set ?hit) = length ?hit" by (simp add: card_image distinct_card del: set_filter)
  moreover have "?pair ` set ?hit \<inter> ?old = {}" using other by (auto simp: doubleton_eq_iff)
  moreover have "finite ?old"
    by (rule finite_subset [of _ "Pow ((\<lambda>x. pn_ID (fst x)) ` set ps)"]) (auto intro: rev_image_eqI)
  moreover have "length (overlap_pairs (z # ps)) = length ?hit + length (overlap_pairs ps)" by (cases z) (simp add: case_prod_unfold)
  ultimately show ?case
    using Cons pairs_Cons [of "set ps" "\<lambda>x. pn_ID (fst x)" z "\<lambda>x y. cidrsOverlap (snd x) (snd y)", OF other po.ov_sym]
    by (simp add: card_Un_disjoint)
qed simp


text \<open>The stale check: an address is reported as stale exactly when it is in use, has been seen, and was last seen
  before the threshold; a device by the latest sighting of its addresses.\<close>

lemma stale_finding_warns:
  "(\<exists>f. stale_finding fmt settings now r = Some f \<and> pf_Severity f = SeverityWarning) \<longleftrightarrow>
    (\<exists>t. pr_LastSeen r = Some t \<and> t < now - StaleAfter settings)"
  by (auto simp: stale_finding_def SeverityWarning_def SeverityInfo_def split: option.splits if_splits)

lemma sql_max_None: "sql_max ts = None \<longleftrightarrow> (\<forall>t. Some t \<notin> set ts)"
  by (induction ts rule: sql_max.induct) (auto split: option.splits)

lemma sql_max_before:
  "(\<exists>t. sql_max ts = Some t \<and> t < c) \<longleftrightarrow> (\<exists>t. Some t \<in> set ts) \<and> (\<forall>t. Some t \<in> set ts \<longrightarrow> t < c)"
proof (induction ts rule: sql_max.induct)
  case (3 u ts)
  then show ?case using sql_max_None [of ts] by (cases "sql_max ts") auto
qed auto

lemma map_filter_count: "length (filter Q (List.map_filter f xs)) = length (filter (\<lambda>x. \<exists>y. f x = Some y \<and> Q y) xs)"
  by (induction xs) (auto simp: List.map_filter_simps split: option.splits)

lemma map_filter_mem: "x \<in> set (List.map_filter f xs) \<longleftrightarrow> (\<exists>y\<in>set xs. f y = Some x)"
  by (force simp: List.map_filter_def)

text \<open>C37: The stale check raises a warning exactly for the addresses in use that were last seen before the threshold
  and for the devices whose addresses have been seen, but none of them since the threshold.\<close>

theorem stale_warnings_exact:
  "length (filter (\<lambda>f. pf_Severity f = SeverityWarning) (evaluateStaleRecords fmt (PolicyAddressRecords d) settings now)) =
    length (filter (\<lambda>a. (ad_state a = ''assigned'' \<or> ad_state a = ''reserved'') \<and>
      (\<exists>t. ad_last_seen_at a = Some t \<and> t < now - StaleAfter settings)) (db_addresses d)) \<and>
   length (filter (\<lambda>f. pf_Severity f = SeverityWarning) (evaluateStaleRecords fmt (PolicyDeviceRecords d) settings now)) =
    length (filter (\<lambda>v. (\<exists>a\<in>set (device_addresses d v). ad_last_seen_at a \<noteq> None) \<and>
      (\<forall>a\<in>set (device_addresses d v). \<forall>t. ad_last_seen_at a = Some t \<longrightarrow> t < now - StaleAfter settings)) (db_devices d))"
proof
  note warn = evaluateStaleRecords_def map_filter_count stale_finding_warns filter_map length_map comp_def filter_sort length_sort filter_filter
  show "length (filter (\<lambda>f. pf_Severity f = SeverityWarning) (evaluateStaleRecords fmt (PolicyAddressRecords d) settings now)) =
    length (filter (\<lambda>a. (ad_state a = ''assigned'' \<or> ad_state a = ''reserved'') \<and>
      (\<exists>t. ad_last_seen_at a = Some t \<and> t < now - StaleAfter settings)) (db_addresses d))"
    unfolding warn PolicyAddressRecords_def by simp
  have seen: "(\<exists>t. sql_max (map ad_last_seen_at xs) = Some t \<and> t < c) \<longleftrightarrow>
      (\<exists>a\<in>set xs. ad_last_seen_at a \<noteq> None) \<and> (\<forall>a\<in>set xs. \<forall>t. ad_last_seen_at a = Some t \<longrightarrow> t < c)" for xs c
    unfolding sql_max_before by (auto simp: image_iff) metis+
  have drop: "xs \<noteq> [] \<and> (\<exists>a\<in>set xs. P a) \<and> Q \<longleftrightarrow> (\<exists>a\<in>set xs. P a) \<and> Q" for xs :: "address_row list" and P Q by auto
  show "length (filter (\<lambda>f. pf_Severity f = SeverityWarning) (evaluateStaleRecords fmt (PolicyDeviceRecords d) settings now)) =
    length (filter (\<lambda>v. (\<exists>a\<in>set (device_addresses d v). ad_last_seen_at a \<noteq> None) \<and>
      (\<forall>a\<in>set (device_addresses d v). \<forall>t. ad_last_seen_at a = Some t \<longrightarrow> t < now - StaleAfter settings)) (db_devices d))"
    unfolding warn PolicyDeviceRecords_def PolicyRecord.select_convs seen drop ..
qed

text \<open>Every finding has one of the three severities, so the summary counts them all.\<close>

definition graded :: "PolicyFinding \<Rightarrow> bool" where
  "graded f \<longleftrightarrow> pf_Severity f = SeverityCritical \<or> pf_Severity f = SeverityWarning \<or> pf_Severity f = SeverityInfo"

lemma summary_total: "\<forall>f\<in>set fs. graded f \<Longrightarrow> PolicySummary_Total (summarizeFindings fs) = length fs"
  by (induction fs) (auto simp: PolicySummary_Total_def Let_def graded_def)

lemma overlaps_graded: "f \<in> set (overlap_pairs ps) \<Longrightarrow> graded f"
  by (induction ps rule: overlap_pairs.induct) (auto simp: overlap_finding_def graded_def)

lemma stale_graded: "stale_finding fmt settings now r = Some f \<Longrightarrow> graded f"
  by (cases "pr_LastSeen r") (auto simp: stale_finding_def graded_def split: if_splits)

lemma service_graded: "service_finding r = Some f \<Longrightarrow> graded f"
  by (auto simp: service_finding_def graded_def split: if_splits)

lemma computePolicy_counts:
  "PolicySummary_Total (snd (computePolicy fmt settings now d)) = length (concat (map pg_Findings (fst (computePolicy fmt settings now d))))"
proof -
  have "\<forall>f\<in>set (concat (map pg_Findings (fst (computePolicy fmt settings now d)))). graded f"
    by (auto simp: computePolicy_def Let_def evaluateOverlaps_def evaluateStaleRecords_def evaluateUnmanagedServices_def map_filter_mem
        dest: overlaps_graded stale_graded service_graded)
  from summary_total [OF this] show ?thesis by (simp add: computePolicy_def Let_def)
qed

text \<open>Saved policy settings survive a restart like the security settings.\<close>

lemma policy_settings_survive_restart:
  assumes "parsePolicySettingsForm f = Inr s"
  shows "mergePolicySettings fl dflt (GetAppSettings (SetAppSettings (PolicySettings_toMap s) a)) = s"
proof -
  obtain n where n: "1 \<le> n" "n \<le> 3650" "StaleAfter s = wrap64 (wrap64 (n * 24) * hour_ns)"
    using assms by (auto simp: parsePolicySettingsForm_def split: option.splits dest!: intInRange_Some)
  then obtain k where k: "n = int k" by (metis nonneg_int_cases order_trans zero_le_one)
  have "StaleAfter s = n * (86400 * 10 ^ 9)" using n by (simp add: hour_ns_def minute_ns_def second_ns_def wrap64_id)
  then have "\<exists>m. 1 \<le> m \<and> m * 10 ^ 9 < (2 ^ 63 :: nat) \<and> StaleAfter s = int (m * 10 ^ 9)"
    using n(1,2) k by (intro exI [of _ "k * 86400"]) simp
  note d = positive_duration_saved [OF this]
  have "distinct (map fst (PolicySettings_toMap s))" by (simp add: PolicySettings_toMap_def)
  note stored = Set_Get_settings [OF this, of a]
  show ?thesis unfolding stored
    by (simp add: mergePolicySettings_def PolicySettings_toMap_def stored_flag_def stored_value_def FormatBool_def d Let_def)
qed

section \<open>Examples\<close>

definition demo_overlap :: db where
  "demo_overlap = demo_db\<lparr>db_subnets := db_subnets demo_db @ map (\<lambda>r. r\<lparr>sn_id := ''s2'', sn_cidr := PrefixFrom (A4 0x0A000080) 25\<rparr>) (db_subnets demo_db)\<rparr>"


definition demo_stale :: db where
  "demo_stale = demo_db2\<lparr>db_addresses := map (\<lambda>a. a\<lparr>ad_last_seen_at := Some 0\<rparr>) (db_addresses demo_db2)\<rparr>"

theorem stale_warnings_exact_witness:
  "length (filter (\<lambda>v. (\<exists>a\<in>set (device_addresses demo_stale v). ad_last_seen_at a \<noteq> None) \<and>
      (\<forall>a\<in>set (device_addresses demo_stale v). \<forall>t. ad_last_seen_at a = Some t \<longrightarrow> t < 2 * day_ns - StaleAfter (defaultPolicySettings day_ns)))
      (db_devices demo_stale)) = 1"
proof -
  have "length (filter (\<lambda>f. pf_Severity f = SeverityWarning)
      (evaluateStaleRecords (\<lambda>_. ''1970-01-01'') (PolicyDeviceRecords demo_stale) (defaultPolicySettings day_ns) (2 * day_ns))) = 1"
    by code_simp
  then show ?thesis
    using stale_warnings_exact [of "\<lambda>_. ''1970-01-01''" demo_stale "defaultPolicySettings day_ns" "2 * day_ns"] by simp
qed

end
