(* ===== verification/CustomFields.thy ===== *)
theory CustomFields
  imports Accounts
begin

text \<open>
  Operator-defined fields (\<open>internal/store/custom_fields.go\<close>, \<open>internal/app/custom_fields.go\<close>): the tables
  \<open>custom_fields\<close> and \<open>custom_field_values\<close> with their keys and cascade, the operations of the store and the
  handlers of the settings page.  A value belongs to a definition and to the identifier of a record; no foreign
  key ties it to the record.  \<open>lower\<close> of PostgreSQL is exact on ASCII, like \<open>ToLower\<close>.
\<close>

section \<open>Tables\<close>

definition CustomFieldSubnet :: string where "CustomFieldSubnet = ''subnet''"
definition CustomFieldAddress :: string where "CustomFieldAddress = ''ip_address''"
definition CustomFieldDevice :: string where "CustomFieldDevice = ''device''"

definition ValidCustomFieldEntityType :: "string \<Rightarrow> bool" where
  "ValidCustomFieldEntityType entityType \<longleftrightarrow> entityType \<in> {CustomFieldSubnet, CustomFieldAddress, CustomFieldDevice}"

record CustomFieldDef =
  cf_ID :: string
  cf_EntityType :: string
  cf_Name :: string
  cf_FieldType :: string
  cf_CreatedAt :: time

record CustomFieldValue =
  cv_Def :: CustomFieldDef
  cv_Value :: string

record value_row =
  vr_field :: string
  vr_entity :: string
  vr_value :: string
  vr_updated_at :: time

record fields =
  fd_defs :: "CustomFieldDef list"
  fd_values :: "value_row list"

section \<open>Store\<close>

definition ListAllCustomFieldDefs :: "fields \<Rightarrow> CustomFieldDef list" where
  "ListAllCustomFieldDefs fs = sort_key cf_EntityType (sort_key (\<lambda>d. ToLower (cf_Name d)) (fd_defs fs))"

definition ListCustomFieldDefs :: "string \<Rightarrow> fields \<Rightarrow> CustomFieldDef list" where
  "ListCustomFieldDefs entityType fs = sort_key (\<lambda>d. ToLower (cf_Name d)) (filter (\<lambda>d. cf_EntityType d = entityType) (fd_defs fs))"

definition GetCustomFieldDef :: "string \<Rightarrow> fields \<Rightarrow> store_error + CustomFieldDef" where
  "GetCustomFieldDef key fs = (case find (\<lambda>d. cf_ID d = key) (fd_defs fs) of None \<Rightarrow> Inl ErrNotFound | Some d \<Rightarrow> Inr d)"

definition CreateCustomFieldDef :: "time \<Rightarrow> string option \<Rightarrow> string \<Rightarrow> string \<Rightarrow> fields \<Rightarrow> store_error + (CustomFieldDef \<times> fields)" where
  "CreateCustomFieldDef now tok entityType rawName fs =
    (let name = TrimSpace rawName in
     if \<not> ValidCustomFieldEntityType entityType then Inl ErrArgs
     else if name = [] then Inl ErrArgs
     else if \<exists>d\<in>set (fd_defs fs). cf_EntityType d = entityType \<and> ToLower (cf_Name d) = ToLower name then Inl ErrDuplicate
     else (case tok of None \<Rightarrow> Inl ErrRand
      | Some key \<Rightarrow>
         if key \<in> set (map cf_ID (fd_defs fs)) then Inl ErrDb
         else let d = \<lparr>cf_ID = key, cf_EntityType = entityType, cf_Name = name, cf_FieldType = ''text'', cf_CreatedAt = now\<rparr> in
           Inr (d, fs\<lparr>fd_defs := fd_defs fs @ [d]\<rparr>)))"

definition DeleteCustomFieldDef :: "string \<Rightarrow> fields \<Rightarrow> store_error + fields" where
  "DeleteCustomFieldDef key fs =
    (if affected (\<lambda>d. cf_ID d = key) (fd_defs fs) = 0 then Inl ErrNotFound
     else Inr (fs\<lparr>fd_defs := filter (\<lambda>d. cf_ID d \<noteq> key) (fd_defs fs), fd_values := filter (\<lambda>v. vr_field v \<noteq> key) (fd_values fs)\<rparr>))"

definition stored_field :: "value_row list \<Rightarrow> string \<Rightarrow> string \<Rightarrow> string" where
  "stored_field rows key eid = (case find (\<lambda>v. vr_field v = key \<and> vr_entity v = eid) rows of None \<Rightarrow> [] | Some v \<Rightarrow> vr_value v)"

definition CustomFieldValues :: "string \<Rightarrow> string \<Rightarrow> fields \<Rightarrow> CustomFieldValue list" where
  "CustomFieldValues entityType entityID fs =
    map (\<lambda>d. \<lparr>cv_Def = d, cv_Value = stored_field (fd_values fs) (cf_ID d) entityID\<rparr>) (ListCustomFieldDefs entityType fs)"

definition upsert_value :: "time \<Rightarrow> string \<Rightarrow> string \<Rightarrow> string \<Rightarrow> value_row list \<Rightarrow> value_row list" where
  "upsert_value now key eid v rows =
    (if \<exists>r\<in>set rows. vr_field r = key \<and> vr_entity r = eid
     then update_rows (\<lambda>r. vr_field r = key \<and> vr_entity r = eid) (\<lambda>r. r\<lparr>vr_value := v, vr_updated_at := now\<rparr>) rows
     else rows @ [\<lparr>vr_field = key, vr_entity = eid, vr_value = v, vr_updated_at = now\<rparr>])"

fun set_values :: "time \<Rightarrow> string \<Rightarrow> (string \<rightharpoonup> string) \<Rightarrow> CustomFieldDef list \<Rightarrow> value_row list \<Rightarrow> value_row list" where
  "set_values now eid vals [] rows = rows"
| "set_values now eid vals (d # ds) rows =
    set_values now eid vals ds
      (case vals (cf_ID d) of None \<Rightarrow> rows
       | Some raw \<Rightarrow> let v = TrimSpace raw in
          if v = [] then filter (\<lambda>r. \<not> (vr_field r = cf_ID d \<and> vr_entity r = eid)) rows
          else upsert_value now (cf_ID d) eid v rows)"

definition SetCustomFieldValues :: "time \<Rightarrow> string \<Rightarrow> string \<Rightarrow> (string \<rightharpoonup> string) \<Rightarrow> fields \<Rightarrow> store_error + fields" where
  "SetCustomFieldValues now entityType entityID vals fs =
    (if entityID = [] then Inl ErrArgs
     else let defs = ListCustomFieldDefs entityType fs in
       if defs = [] then Inr fs else Inr (fs\<lparr>fd_values := set_values now entityID vals defs (fd_values fs)\<rparr>))"

section \<open>Handlers\<close>

text \<open>\<open>post\<close> is \<open>r.PostForm\<close>.\<close>

type_synonym post = "string \<rightharpoonup> string list"

definition parseCustomFieldValues :: "post \<Rightarrow> string \<rightharpoonup> string" where
  "parseCustomFieldValues pf key = (if key = [] then None else (case pf (''cf_'' @ key) of Some (v # vs) \<Rightarrow> Some v | _ \<Rightarrow> None))"

definition saveCustomFieldValues :: "env \<Rightarrow> post \<Rightarrow> string \<Rightarrow> string \<Rightarrow> fields \<Rightarrow> fields" where
  "saveCustomFieldValues e pf entityType entityID fs =
    (case SetCustomFieldValues (ev_dbnow e) entityType entityID (parseCustomFieldValues pf) fs of Inl _ \<Rightarrow> fs | Inr fs' \<Rightarrow> fs')"

definition loadCustomFields :: "string \<Rightarrow> string \<Rightarrow> fields \<Rightarrow> CustomFieldValue list" where
  "loadCustomFields entityType entityID fs = CustomFieldValues entityType entityID fs"

text \<open>The session guards for handlers that also work on the tables of the fields.\<close>

definition sessionFields :: "env \<Rightarrow> request \<Rightarrow> (Session \<Rightarrow> accounts \<Rightarrow> outcome \<times> fields) \<Rightarrow> accounts \<Rightarrow> fields \<Rightarrow> outcome \<times> fields" where
  "sessionFields e rq handler a fs =
    (case currentSession e rq a of (None, a') \<Rightarrow> (respond (Redirect ''/login'') a', fs) | (Some s, a') \<Rightarrow> handler s a')"

definition adminFields :: "env \<Rightarrow> request \<Rightarrow> (Session \<Rightarrow> accounts \<Rightarrow> outcome \<times> fields) \<Rightarrow> accounts \<Rightarrow> fields \<Rightarrow> outcome \<times> fields" where
  "adminFields e rq handler a fs = sessionFields e rq (\<lambda>s a'.
     if \<not> User_IsAdmin (Session_User s) then (respond (Status 403) a', fs) else handler s a') a fs"

definition customFieldCreate :: "env \<Rightarrow> request \<Rightarrow> accounts \<Rightarrow> fields \<Rightarrow> outcome \<times> fields" where
  "customFieldCreate e rq a fs = adminFields e rq (\<lambda>s a.
     if \<not> verifySessionCSRF rq s then (respond (Status 403) a, fs)
     else if \<not> rq_form_ok rq then (respond (Status 400) a, fs)
     else let entityType = TrimSpace (rq_form rq ''entity_type''); name = TrimSpace (rq_form rq ''name'') in
       if \<not> ValidCustomFieldEntityType entityType then (respond (Page ''settings.html'' ''Choose what the field applies to.'') a, fs)
       else if name = [] then (respond (Page ''settings.html'' ''Enter a field name.'') a, fs)
       else (case CreateCustomFieldDef (ev_dbnow e) (ev_id e) entityType name fs of
          Inl err \<Rightarrow> (respond (Page ''settings.html''
            (if err = ErrDuplicate then ''A field with that name already exists for that type.'' else ''Unable to create the field.'')) a, fs)
        | Inr (d, fs') \<Rightarrow>
           (logged (Redirect ''/settings/custom-fields?notice=created'') []
             (log_entry (Some (User_ID (Session_User s))) ''custom_field.created'' ''custom_field'' (cf_ID d)) a, fs'))) a fs"

definition loadCustomFieldDef :: "env \<Rightarrow> request \<Rightarrow> (Session \<Rightarrow> CustomFieldDef \<Rightarrow> accounts \<Rightarrow> outcome \<times> fields) \<Rightarrow> accounts \<Rightarrow> fields \<Rightarrow> outcome \<times> fields" where
  "loadCustomFieldDef e rq handler a fs = adminFields e rq (\<lambda>s a.
     case GetCustomFieldDef (rq_id rq) fs of
       Inl err \<Rightarrow> (respond (Status (if err = ErrNotFound then 404 else 500)) a, fs)
     | Inr d \<Rightarrow> handler s d a) a fs"

definition customFieldDelete :: "env \<Rightarrow> request \<Rightarrow> accounts \<Rightarrow> fields \<Rightarrow> outcome \<times> fields" where
  "customFieldDelete e rq a fs = loadCustomFieldDef e rq (\<lambda>s d a.
     if \<not> verifySessionCSRF rq s then (respond (Status 403) a, fs)
     else (case DeleteCustomFieldDef (cf_ID d) fs of
        Inl _ \<Rightarrow> (respond (Status 500) a, fs)
      | Inr fs' \<Rightarrow>
         (logged (Redirect ''/settings/custom-fields?notice=deleted'') []
           (log_entry (Some (User_ID (Session_User s))) ''custom_field.deleted'' ''custom_field'' (cf_ID d)) a, fs'))) a fs"

section \<open>Invariant\<close>

text \<open>Identifiers and, per kind of record, names in lower case are unique; every value belongs to a definition, is
  the only one of its record and field, and is neither blank nor padded.\<close>

definition fields_ok :: "fields \<Rightarrow> bool" where
  "fields_ok fs \<longleftrightarrow> distinct (map cf_ID (fd_defs fs)) \<and>
    distinct (map (\<lambda>d. (cf_EntityType d, ToLower (cf_Name d))) (fd_defs fs)) \<and>
    (\<forall>d\<in>set (fd_defs fs). ValidCustomFieldEntityType (cf_EntityType d) \<and> cf_Name d \<noteq> []) \<and>
    distinct (map (\<lambda>v. (vr_field v, vr_entity v)) (fd_values fs)) \<and>
    (\<forall>v\<in>set (fd_values fs). vr_field v \<in> set (map cf_ID (fd_defs fs)) \<and> vr_value v \<noteq> [] \<and> TrimSpace (vr_value v) = vr_value v)"

definition no_fields :: fields where "no_fields = \<lparr>fd_defs = [], fd_values = []\<rparr>"

lemma no_fields_ok [simp]: "fields_ok no_fields"
  by (simp add: fields_ok_def no_fields_def)

definition values_ok :: "string set \<Rightarrow> value_row list \<Rightarrow> bool" where
  "values_ok keys rows \<longleftrightarrow> distinct (map (\<lambda>v. (vr_field v, vr_entity v)) rows) \<and>
    (\<forall>v\<in>set rows. vr_field v \<in> keys \<and> vr_value v \<noteq> [] \<and> TrimSpace (vr_value v) = vr_value v)"

lemma fields_ok_values:
  "fields_ok fs \<longleftrightarrow> distinct (map cf_ID (fd_defs fs)) \<and> distinct (map (\<lambda>d. (cf_EntityType d, ToLower (cf_Name d))) (fd_defs fs)) \<and>
    (\<forall>d\<in>set (fd_defs fs). ValidCustomFieldEntityType (cf_EntityType d) \<and> cf_Name d \<noteq> []) \<and> values_ok (set (map cf_ID (fd_defs fs))) (fd_values fs)"
  by (simp add: fields_ok_def values_ok_def)

lemma CreateCustomFieldDef_ok:
  assumes "CreateCustomFieldDef now tok et name fs = Inr (d, fs')" "fields_ok fs"
  shows "fields_ok fs'"
  using assms by (fastforce simp: CreateCustomFieldDef_def fields_ok_def Let_def split: if_splits option.splits)

lemma DeleteCustomFieldDef_ok:
  assumes "DeleteCustomFieldDef key fs = Inr fs'" "fields_ok fs"
  shows "fields_ok fs'"
  using assms by (fastforce simp: DeleteCustomFieldDef_def fields_ok_def distinct_map_filter split: if_splits)

lemma values_ok_upsert:
  assumes "values_ok keys rows" "key \<in> keys" "v \<noteq> []" "TrimSpace v = v"
  shows "values_ok keys (upsert_value now key eid v rows)"
  using assms by (auto simp: values_ok_def upsert_value_def set_update_rows map_update_rows_key split: if_splits)

lemma values_ok_set:
  assumes "values_ok keys rows" "cf_ID ` set ds \<subseteq> keys"
  shows "values_ok keys (set_values now eid vals ds rows)"
  using assms
proof (induction ds arbitrary: rows)
  case (Cons d ds)
  have "values_ok keys (filter P rows)" for P using Cons.prems(1) by (auto simp: values_ok_def distinct_map_filter)
  with Cons show ?case by (auto simp: Let_def values_ok_upsert split: option.split)
qed simp

lemma SetCustomFieldValues_ok:
  assumes "SetCustomFieldValues now et eid vals fs = Inr fs'" "fields_ok fs"
  shows "fields_ok fs'"
proof -
  have "cf_ID ` set (ListCustomFieldDefs et fs) \<subseteq> set (map cf_ID (fd_defs fs))" by (auto simp: ListCustomFieldDefs_def)
  from values_ok_set [OF _ this] assms show ?thesis
    by (auto simp: SetCustomFieldValues_def fields_ok_values Let_def split: if_splits)
qed

section \<open>What is read after a write\<close>

lemma stored_update:
  "stored_field (update_rows (\<lambda>r. vr_field r = key \<and> vr_entity r = eid) (\<lambda>r. r\<lparr>vr_value := v, vr_updated_at := now\<rparr>) rows) key' eid' =
    (if key' = key \<and> eid' = eid \<and> (\<exists>r\<in>set rows. vr_field r = key \<and> vr_entity r = eid) then v else stored_field rows key' eid')"
  by (induction rows) (auto simp: stored_field_def update_rows_def)

lemma stored_append:
  "stored_field (rows @ [r]) key eid =
    (if \<exists>x\<in>set rows. vr_field x = key \<and> vr_entity x = eid then stored_field rows key eid
     else if vr_field r = key \<and> vr_entity r = eid then vr_value r else [])"
  by (induction rows) (auto simp: stored_field_def)

lemma stored_none: "\<not> (\<exists>r\<in>set rows. vr_field r = key \<and> vr_entity r = eid) \<Longrightarrow> stored_field rows key eid = []"
  by (auto simp: stored_field_def find_None_iff split: option.split dest: find_SomeD)

lemma stored_upsert:
  "stored_field (upsert_value now key eid v rows) key' eid' = (if key' = key \<and> eid' = eid then v else stored_field rows key' eid')"
  using stored_none [of rows key' eid'] by (auto simp: upsert_value_def stored_update stored_append)

lemma stored_filter:
  "stored_field (filter (\<lambda>r. vr_field r = key \<longrightarrow> vr_entity r \<noteq> eid) rows) key' eid' =
    (if key' = key \<and> eid' = eid then [] else stored_field rows key' eid')"
  by (induction rows) (auto simp: stored_field_def split: option.splits)

lemma stored_set_values:
  assumes "distinct (map cf_ID ds)"
  shows "stored_field (set_values now eid vals ds rows) key eid' =
    (if eid' = eid \<and> key \<in> cf_ID ` set ds then (case vals key of None \<Rightarrow> stored_field rows key eid | Some v \<Rightarrow> TrimSpace v)
     else stored_field rows key eid')"
  using assms
proof (induction ds arbitrary: rows)
  case (Cons d ds)
  then have "cf_ID d \<notin> cf_ID ` set ds" by auto
  with Cons show ?case by (auto simp: Let_def stored_upsert stored_filter split: option.splits)
qed simp

text \<open>C20: What the custom fields of a record show after its form was saved: every field of its kind the form
  mentioned has the value sent, without surrounding space (a blank one reads as unset), every other field of the
  record and all fields of all other records are as before, and the tables keep their invariant.\<close>

theorem SetCustomFieldValues_read:
  assumes "fields_ok fs" "entityID \<noteq> []"
  shows "\<exists>fs'. SetCustomFieldValues now entityType entityID vals fs = Inr fs' \<and> fields_ok fs' \<and>
    (\<forall>kind eid. CustomFieldValues kind eid fs' =
      map (\<lambda>x. if kind = entityType \<and> eid = entityID
          then (case vals (cf_ID (cv_Def x)) of None \<Rightarrow> x | Some v \<Rightarrow> x\<lparr>cv_Value := TrimSpace v\<rparr>) else x)
        (CustomFieldValues kind eid fs))"
proof -
  let ?defs = "\<lambda>kind. ListCustomFieldDefs kind fs"
  have dist: "distinct (map cf_ID (fd_defs fs))" using assms(1) by (simp add: fields_ok_def)
  then have ids: "distinct (map cf_ID (?defs kind))" for kind
    unfolding ListCustomFieldDefs_def by (simp add: distinct_map inj_on_def)
  have mine: "cf_ID x \<in> cf_ID ` set (?defs entityType) \<longleftrightarrow> kind = entityType" if "x \<in> set (?defs kind)" for x kind
    using that dist by (fastforce simp: ListCustomFieldDefs_def distinct_map inj_on_def)
  define rows where "rows = (if ?defs entityType = [] then fd_values fs else set_values now entityID vals (?defs entityType) (fd_values fs))"
  have set: "SetCustomFieldValues now entityType entityID vals fs = Inr (fs\<lparr>fd_values := rows\<rparr>)"
    using assms(2) by (simp add: SetCustomFieldValues_def rows_def Let_def)
  have "stored_field rows (cf_ID x) eid = (if kind = entityType \<and> eid = entityID
      then (case vals (cf_ID x) of None \<Rightarrow> stored_field (fd_values fs) (cf_ID x) eid | Some v \<Rightarrow> TrimSpace v)
      else stored_field (fd_values fs) (cf_ID x) eid)" if "x \<in> set (?defs kind)" for x kind eid
    using mine [OF that] that by (auto simp: rows_def stored_set_values [OF ids])
  moreover have "ListCustomFieldDefs kind (fs\<lparr>fd_values := rows\<rparr>) = ?defs kind" for kind by (simp add: ListCustomFieldDefs_def)
  ultimately have "CustomFieldValues kind eid (fs\<lparr>fd_values := rows\<rparr>) =
      map (\<lambda>x. if kind = entityType \<and> eid = entityID
          then (case vals (cf_ID (cv_Def x)) of None \<Rightarrow> x | Some v \<Rightarrow> x\<lparr>cv_Value := TrimSpace v\<rparr>) else x)
        (CustomFieldValues kind eid fs)" for kind eid
    by (auto simp: CustomFieldValues_def split: option.split)
  with set SetCustomFieldValues_ok [OF set assms(1)] show ?thesis by blast
qed

definition demo_fields :: fields where
  "demo_fields = no_fields\<lparr>fd_defs := [\<lparr>cf_ID = ''f1'', cf_EntityType = CustomFieldSubnet, cf_Name = ''Rack'', cf_FieldType = ''text'', cf_CreatedAt = 0\<rparr>]\<rparr>"

theorem SetCustomFieldValues_read_witness:
  "\<exists>fs'. SetCustomFieldValues 7 CustomFieldSubnet ''s1'' [''f1'' \<mapsto> '' r12 ''] demo_fields = Inr fs' \<and>
    map cv_Value (CustomFieldValues CustomFieldSubnet ''s1'' fs') = [''r12'']"
proof -
  have ok: "fields_ok demo_fields" by code_simp
  obtain x where x: "CustomFieldValues CustomFieldSubnet ''s1'' demo_fields = [x]" "cf_ID (cv_Def x) = ''f1''"
  proof
    show "CustomFieldValues CustomFieldSubnet ''s1'' demo_fields = [\<lparr>cv_Def = hd (fd_defs demo_fields), cv_Value = []\<rparr>]"
      "cf_ID (cv_Def \<lparr>cv_Def = hd (fd_defs demo_fields), cv_Value = []\<rparr>) = ''f1''" by code_simp+
  qed
  have trimmed: "TrimSpace '' r12 '' = ''r12''" by code_simp
  obtain fs' where fs': "SetCustomFieldValues 7 CustomFieldSubnet ''s1'' [''f1'' \<mapsto> '' r12 ''] demo_fields = Inr fs'"
    "CustomFieldValues CustomFieldSubnet ''s1'' fs' = map (\<lambda>x. if CustomFieldSubnet = CustomFieldSubnet \<and> ''s1'' = ''s1''
      then (case [''f1'' \<mapsto> '' r12 ''] (cf_ID (cv_Def x)) of None \<Rightarrow> x | Some v \<Rightarrow> x\<lparr>cv_Value := TrimSpace v\<rparr>) else x)
      (CustomFieldValues CustomFieldSubnet ''s1'' demo_fields)"
    using SetCustomFieldValues_read [OF ok, of "''s1''" 7 CustomFieldSubnet "[''f1'' \<mapsto> '' r12 '']"] by blast
  then show ?thesis using x trimmed by simp
qed

end
