(* ===== verification/InventoryWeb.thy ===== *)
theory InventoryWeb
  imports Portability CustomFields
begin

text \<open>
  The forms that edit the inventory: the handlers of \<open>internal/app/app.go\<close> for subnets, addresses, devices, hardware
  addresses and links between devices, and the bulk actions of \<open>internal/app/bulk.go\<close>, from the request to the
  reply, the audit entry and the state they leave.  The pages themselves are not modelled: a rendered page is its
  template and its error message.
\<close>

section \<open>Requests\<close>

text \<open>What these handlers use beyond a \<open>request\<close>: the database's casts, \<open>r.PostForm\<close>, \<open>r.Form["ids"]\<close> and the text of
  the error of \<open>ParseForm\<close>, where it fails.\<close>

record form_env =
  fe_pg :: pg
  fe_post :: post
  fe_ids :: "string list"
  fe_parse_error :: string

definition subnetInputFromRequest :: "form_env \<Rightarrow> request \<Rightarrow> string + SubnetInput" where
  "subnetInputFromRequest w rq =
    (if \<not> rq_form_ok rq then Inl (fe_parse_error w)
     else let name = TrimSpace (rq_form rq ''name'') in
       if name = [] then Inl ''Subnet name is required.''
       else (case NormalizeCIDR (TrimSpace (rq_form rq ''cidr'')) of
          Inl _ \<Rightarrow> Inl ''Enter a valid IPv4 CIDR such as 192.168.10.0/24.''
        | Inr cidr \<Rightarrow>
          (case ParseVLAN (TrimSpace (rq_form rq ''vlan'')) of
             Inl _ \<Rightarrow> Inl ''VLAN must be between 1 and 4094''
           | Inr vlan \<Rightarrow> Inr \<lparr>si_SiteID = TrimSpace (rq_form rq ''site_id''), si_CIDR = cidr, si_Name = name, si_VLAN = vlan,
               si_Description = TrimSpace (rq_form rq ''description'')\<rparr>)))"

definition addressInputFromRequest :: "form_env \<Rightarrow> request \<Rightarrow> string + AddressInput" where
  "addressInputFromRequest w rq =
    (if \<not> rq_form_ok rq then Inl (fe_parse_error w)
     else (case NormalizeIPv4 (TrimSpace (rq_form rq ''address'')) of
        Inl _ \<Rightarrow> Inl ''Enter a valid IPv4 address.''
      | Inr address \<Rightarrow>
        let state = TrimSpace (rq_form rq ''state'') in
        if \<not> validAddressState state then Inl ''Choose a valid address state.''
        else Inr \<lparr>ai_Address = address, ai_State = state, ai_DeviceID = TrimSpace (rq_form rq ''device_id''),
          ai_Hostname = TrimSpace (rq_form rq ''hostname''), ai_Notes = TrimSpace (rq_form rq ''notes'')\<rparr>))"

definition deviceInputFromRequest :: "form_env \<Rightarrow> request \<Rightarrow> string + DeviceInput" where
  "deviceInputFromRequest w rq =
    (if \<not> rq_form_ok rq then Inl (fe_parse_error w)
     else let name = TrimSpace (rq_form rq ''name'') in
       if name = [] then Inl ''Device name is required.''
       else Inr \<lparr>dvi_Name = name, dvi_Description = TrimSpace (rq_form rq ''description'')\<rparr>)"

definition subnetError :: "store_error \<Rightarrow> string" where
  "subnetError err =
    (if err = ErrOverlap then ''That subnet overlaps an existing subnet. Overlapping subnets are globally blocked.''
     else if err = ErrNotFound then ''That subnet could not be found.'' else ''Unable to save subnet.'')"

definition addressError :: "store_error \<Rightarrow> string" where
  "addressError err =
    (if err = ErrAddressOutOfCIDR then ''That address is outside this subnet.''
     else ''Unable to save address. Check for duplicates and try again.'')"

section \<open>Pages\<close>

definition load_error :: "store_error \<Rightarrow> reply" where
  "load_error err = Status (if err = ErrNotFound then 404 else 500)"

definition loadSubnetPage :: "env \<Rightarrow> request \<Rightarrow> (Session \<Rightarrow> Subnet \<Rightarrow> accounts \<Rightarrow> outcome \<times> fields) \<Rightarrow> accounts \<Rightarrow> fields \<Rightarrow> outcome \<times> fields" where
  "loadSubnetPage e rq handler a fs = sessionFields e rq (\<lambda>s a.
     case GetSubnet (rq_id rq) (ac_db a) of Inl err \<Rightarrow> (respond (load_error err) a, fs) | Inr subnet \<Rightarrow> handler s subnet a) a fs"

definition loadAddressPage :: "env \<Rightarrow> request \<Rightarrow> (Session \<Rightarrow> IPAddress \<Rightarrow> Subnet \<Rightarrow> accounts \<Rightarrow> outcome \<times> fields) \<Rightarrow> accounts \<Rightarrow> fields \<Rightarrow> outcome \<times> fields" where
  "loadAddressPage e rq handler a fs = sessionFields e rq (\<lambda>s a.
     case GetAddress (rq_id rq) (ac_db a) of Inl err \<Rightarrow> (respond (load_error err) a, fs)
     | Inr address \<Rightarrow>
       (case GetSubnet (ip_SubnetID address) (ac_db a) of Inl _ \<Rightarrow> (respond (Status 500) a, fs)
        | Inr subnet \<Rightarrow> handler s address subnet a)) a fs"

definition loadDevicePage :: "env \<Rightarrow> request \<Rightarrow> (Session \<Rightarrow> Device \<Rightarrow> accounts \<Rightarrow> outcome \<times> fields) \<Rightarrow> accounts \<Rightarrow> fields \<Rightarrow> outcome \<times> fields" where
  "loadDevicePage e rq handler a fs = sessionFields e rq (\<lambda>s a.
     case GetDevice (rq_id rq) (ac_db a) of Inl err \<Rightarrow> (respond (load_error err) a, fs) | Inr device \<Rightarrow> handler s device a) a fs"

definition renderSubnetDetailError :: "Subnet \<Rightarrow> string \<Rightarrow> db \<Rightarrow> reply" where
  "renderSubnetDetailError subnet message d =
    (case ListAddresses (su_ID subnet) d of Inl _ \<Rightarrow> Status 500 | Inr _ \<Rightarrow> Page ''subnet_detail.html'' message)"

definition renderDeviceDetailError :: "Device \<Rightarrow> string \<Rightarrow> db \<Rightarrow> reply" where
  "renderDeviceDetailError device message d =
    (case bind_res (ListMACAddresses (de_ID device) d) (\<lambda>_. bind_res (ListDeviceIPAddresses (de_ID device) d) (\<lambda>_.
       bind_res (ListLinkedDevices (de_ID device) d) (\<lambda>_. ListDeviceLinkSuggestions (de_ID device) d))) of
       Inl _ \<Rightarrow> Status 500 | Inr _ \<Rightarrow> Page ''device_detail.html'' message)"

text \<open>A successful change: the new database, one audit entry of the session's user, and a redirect.\<close>

definition changed :: "string \<Rightarrow> Session \<Rightarrow> string \<Rightarrow> string \<Rightarrow> string \<Rightarrow> db \<Rightarrow> accounts \<Rightarrow> outcome" where
  "changed url s action subjectType subjectID d a =
    logged (Redirect url) [] (log_entry (Some (User_ID (Session_User s))) action subjectType subjectID) (a\<lparr>ac_db := d\<rparr>)"

section \<open>Subnets\<close>

definition subnetCreate :: "form_env \<Rightarrow> env \<Rightarrow> request \<Rightarrow> accounts \<Rightarrow> fields \<Rightarrow> outcome \<times> fields" where
  "subnetCreate w e rq a fs = sessionFields e rq (\<lambda>s a.
     if \<not> verifySessionCSRF rq s then (respond (Status 403) a, fs)
     else (case subnetInputFromRequest w rq of Inl msg \<Rightarrow> (respond (Page ''subnet_form.html'' msg) a, fs)
      | Inr inp \<Rightarrow>
        (case CreateSubnet (fe_pg w) (ev_dbnow e) (ev_id e) inp (ac_db a) of
           (Inl err, d) \<Rightarrow> (respond (Page ''subnet_form.html'' (subnetError err)) (a\<lparr>ac_db := d\<rparr>), fs)
         | (Inr subnet, d) \<Rightarrow>
            (changed (''/subnets/'' @ su_ID subnet) s ''subnet.created'' ''subnet'' (su_ID subnet) d a,
             saveCustomFieldValues e (fe_post w) CustomFieldSubnet (su_ID subnet) fs)))) a fs"

definition subnetUpdate :: "form_env \<Rightarrow> env \<Rightarrow> request \<Rightarrow> accounts \<Rightarrow> fields \<Rightarrow> outcome \<times> fields" where
  "subnetUpdate w e rq a fs = loadSubnetPage e rq (\<lambda>s subnet a.
     if \<not> verifySessionCSRF rq s then (respond (Status 403) a, fs)
     else (case subnetInputFromRequest w rq of Inl msg \<Rightarrow> (respond (Page ''subnet_form.html'' msg) a, fs)
      | Inr inp \<Rightarrow>
        (case UpdateSubnet (fe_pg w) (ev_dbnow e) (su_ID subnet) inp (ac_db a) of
           (Inl err, d) \<Rightarrow> (respond (Page ''subnet_form.html'' (subnetError err)) (a\<lparr>ac_db := d\<rparr>), fs)
         | (Inr updated, d) \<Rightarrow>
            (changed (''/subnets/'' @ su_ID updated) s ''subnet.updated'' ''subnet'' (su_ID updated) d a,
             saveCustomFieldValues e (fe_post w) CustomFieldSubnet (su_ID updated) fs)))) a fs"

definition subnetDelete :: "env \<Rightarrow> request \<Rightarrow> accounts \<Rightarrow> fields \<Rightarrow> outcome \<times> fields" where
  "subnetDelete e rq a fs = loadSubnetPage e rq (\<lambda>s subnet a.
     if \<not> verifySessionCSRF rq s then (respond (Status 403) a, fs)
     else (case DeleteSubnet (su_ID subnet) (ac_db a) of Inl _ \<Rightarrow> (respond (Status 500) a, fs)
      | Inr d \<Rightarrow> (changed ''/subnets'' s ''subnet.deleted'' ''subnet'' (su_ID subnet) d a, fs))) a fs"

section \<open>Addresses\<close>

definition addressCreate :: "form_env \<Rightarrow> env \<Rightarrow> request \<Rightarrow> accounts \<Rightarrow> fields \<Rightarrow> outcome \<times> fields" where
  "addressCreate w e rq a fs = loadSubnetPage e rq (\<lambda>s subnet a.
     if \<not> verifySessionCSRF rq s then (respond (Status 403) a, fs)
     else (case addressInputFromRequest w rq of Inl msg \<Rightarrow> (respond (renderSubnetDetailError subnet msg (ac_db a)) a, fs)
      | Inr inp \<Rightarrow>
        (case CreateAddress (fe_pg w) (ev_dbnow e) (ev_id e) subnet inp (ac_db a) of
           Inl err \<Rightarrow> (respond (renderSubnetDetailError subnet (addressError err) (ac_db a)) a, fs)
         | Inr (address, d) \<Rightarrow>
            (changed (''/subnets/'' @ su_ID subnet) s ''address.created'' ''ip_address'' (ip_ID address) d a, fs)))) a fs"

definition addressUpdate :: "form_env \<Rightarrow> env \<Rightarrow> request \<Rightarrow> accounts \<Rightarrow> fields \<Rightarrow> outcome \<times> fields" where
  "addressUpdate w e rq a fs = loadAddressPage e rq (\<lambda>s address subnet a.
     if \<not> verifySessionCSRF rq s then (respond (Status 403) a, fs)
     else (case addressInputFromRequest w rq of Inl msg \<Rightarrow> (respond (Page ''address_form.html'' msg) a, fs)
      | Inr inp \<Rightarrow>
        (case UpdateAddress (fe_pg w) (ev_dbnow e) (ip_ID address) subnet inp (ac_db a) of
           (Inl err, d) \<Rightarrow> (respond (Page ''address_form.html'' (addressError err)) (a\<lparr>ac_db := d\<rparr>), fs)
         | (Inr updated, d) \<Rightarrow>
            (changed (''/subnets/'' @ su_ID subnet) s ''address.updated'' ''ip_address'' (ip_ID updated) d a,
             saveCustomFieldValues e (fe_post w) CustomFieldAddress (ip_ID updated) fs)))) a fs"

definition addressDelete :: "env \<Rightarrow> request \<Rightarrow> accounts \<Rightarrow> fields \<Rightarrow> outcome \<times> fields" where
  "addressDelete e rq a fs = sessionFields e rq (\<lambda>s a.
     if \<not> verifySessionCSRF rq s then (respond (Status 403) a, fs)
     else (case DeleteAddress (rq_id rq) (ac_db a) of Inl _ \<Rightarrow> (respond (Status 500) a, fs)
      | Inr d \<Rightarrow>
         let subnetID = TrimSpace (rq_form rq ''subnet_id'') in
         (changed (if subnetID = [] then ''/subnets'' else ''/subnets/'' @ subnetID) s ''address.deleted'' ''ip_address'' (rq_id rq) d a, fs))) a fs"

section \<open>Devices\<close>

definition deviceCreate :: "form_env \<Rightarrow> env \<Rightarrow> request \<Rightarrow> accounts \<Rightarrow> fields \<Rightarrow> outcome \<times> fields" where
  "deviceCreate w e rq a fs = sessionFields e rq (\<lambda>s a.
     if \<not> verifySessionCSRF rq s then (respond (Status 403) a, fs)
     else (case deviceInputFromRequest w rq of Inl msg \<Rightarrow> (respond (Page ''device_form.html'' msg) a, fs)
      | Inr inp \<Rightarrow>
        (case CreateDevice (ev_dbnow e) (ev_id e) inp (ac_db a) of
           Inl _ \<Rightarrow> (respond (Page ''device_form.html'' ''Unable to create device.'') a, fs)
         | Inr (device, d) \<Rightarrow>
            (changed (''/devices/'' @ de_ID device) s ''device.created'' ''device'' (de_ID device) d a,
             saveCustomFieldValues e (fe_post w) CustomFieldDevice (de_ID device) fs)))) a fs"

definition deviceUpdate :: "form_env \<Rightarrow> env \<Rightarrow> request \<Rightarrow> accounts \<Rightarrow> fields \<Rightarrow> outcome \<times> fields" where
  "deviceUpdate w e rq a fs = loadDevicePage e rq (\<lambda>s device a.
     if \<not> verifySessionCSRF rq s then (respond (Status 403) a, fs)
     else (case deviceInputFromRequest w rq of Inl msg \<Rightarrow> (respond (Page ''device_form.html'' msg) a, fs)
      | Inr inp \<Rightarrow>
        (case UpdateDevice (ev_dbnow e) (de_ID device) inp (ac_db a) of
           Inl _ \<Rightarrow> (respond (Page ''device_form.html'' ''Unable to update device.'') a, fs)
         | Inr (updated, d) \<Rightarrow>
            (changed (''/devices/'' @ de_ID updated) s ''device.updated'' ''device'' (de_ID updated) d a,
             saveCustomFieldValues e (fe_post w) CustomFieldDevice (de_ID updated) fs)))) a fs"

definition deviceDelete :: "env \<Rightarrow> request \<Rightarrow> accounts \<Rightarrow> fields \<Rightarrow> outcome \<times> fields" where
  "deviceDelete e rq a fs = loadDevicePage e rq (\<lambda>s device a.
     if \<not> verifySessionCSRF rq s then (respond (Status 403) a, fs)
     else (case DeleteDevice (de_ID device) (ac_db a) of Inl _ \<Rightarrow> (respond (Status 500) a, fs)
      | Inr d \<Rightarrow> (changed ''/devices'' s ''device.deleted'' ''device'' (de_ID device) d a, fs))) a fs"

definition macCreate :: "form_env \<Rightarrow> env \<Rightarrow> request \<Rightarrow> accounts \<Rightarrow> fields \<Rightarrow> outcome \<times> fields" where
  "macCreate w e rq a fs = loadDevicePage e rq (\<lambda>s device a.
     if \<not> verifySessionCSRF rq s then (respond (Status 403) a, fs)
     else if \<not> rq_form_ok rq then (respond (Status 400) a, fs)
     else (case CreateMACAddress (fe_pg w) (ev_dbnow e) (ev_id e) (de_ID device) (TrimSpace (rq_form rq ''address'')) (ac_db a) of
        (Inl _, d) \<Rightarrow> (respond (renderDeviceDetailError device ''Enter a valid, unique MAC address.'' d) (a\<lparr>ac_db := d\<rparr>), fs)
      | (Inr mac, d) \<Rightarrow> (changed (''/devices/'' @ de_ID device) s ''mac.created'' ''mac_address'' (ma_ID mac) d a, fs))) a fs"

definition macDelete :: "env \<Rightarrow> request \<Rightarrow> accounts \<Rightarrow> fields \<Rightarrow> outcome \<times> fields" where
  "macDelete e rq a fs = sessionFields e rq (\<lambda>s a.
     if \<not> verifySessionCSRF rq s then (respond (Status 403) a, fs)
     else (case DeleteMACAddress (rq_id rq) (ac_db a) of Inl _ \<Rightarrow> (respond (Status 500) a, fs)
      | Inr d \<Rightarrow>
         let deviceID = TrimSpace (rq_form rq ''device_id'') in
         (changed (if deviceID = [] then ''/devices'' else ''/devices/'' @ deviceID) s ''mac.deleted'' ''mac_address'' (rq_id rq) d a, fs))) a fs"

definition deviceLink :: "env \<Rightarrow> request \<Rightarrow> accounts \<Rightarrow> fields \<Rightarrow> outcome \<times> fields" where
  "deviceLink e rq a fs = loadDevicePage e rq (\<lambda>s device a.
     if \<not> verifySessionCSRF rq s then (respond (Status 403) a, fs)
     else let siblingID = TrimSpace (rq_form rq ''sibling_id'') in
       if siblingID = [] \<or> siblingID = de_ID device then (respond (Status 400) a, fs)
       else (case LinkDevices (ev_dbnow e) (ev_id e) [de_ID device, siblingID] (ac_db a) of
          Inl err \<Rightarrow> (respond (load_error err) a, fs)
        | Inr d \<Rightarrow> (changed (''/devices/'' @ de_ID device) s ''device.link.confirmed'' ''device'' (de_ID device) d a, fs))) a fs"

definition deviceUnlink :: "env \<Rightarrow> request \<Rightarrow> accounts \<Rightarrow> fields \<Rightarrow> outcome \<times> fields" where
  "deviceUnlink e rq a fs = loadDevicePage e rq (\<lambda>s device a.
     if \<not> verifySessionCSRF rq s then (respond (Status 403) a, fs)
     else let posted = TrimSpace (rq_form rq ''sibling_id''); unlinkID = (if posted = [] then de_ID device else posted) in
       (case UnlinkDevice (ev_dbnow e) unlinkID (ac_db a) of
          Inl err \<Rightarrow> (respond (load_error err) a, fs)
        | Inr d \<Rightarrow> (changed (''/devices/'' @ de_ID device) s ''device.link.removed'' ''device'' unlinkID d a, fs))) a fs"

definition deviceLinkDismiss :: "env \<Rightarrow> request \<Rightarrow> accounts \<Rightarrow> fields \<Rightarrow> outcome \<times> fields" where
  "deviceLinkDismiss e rq a fs = loadDevicePage e rq (\<lambda>s device a.
     if \<not> verifySessionCSRF rq s then (respond (Status 403) a, fs)
     else let siblingID = TrimSpace (rq_form rq ''sibling_id'') in
       if siblingID = [] \<or> siblingID = de_ID device then (respond (Status 400) a, fs)
       else (case DismissDeviceLinkSuggestion (de_ID device) siblingID (ac_db a) of
          Inl _ \<Rightarrow> (respond (Status 500) a, fs)
        | Inr d \<Rightarrow> (changed (''/devices/'' @ de_ID device) s ''device.link.dismissed'' ''device'' (de_ID device) d a, fs))) a fs"

section \<open>Bulk actions\<close>

record bulkRequest =
  br_Action :: string
  br_IDs :: "string list"
  br_State :: string
  br_Tag :: string
  br_VLAN :: "int option"
  br_Confirmed :: bool
  br_SubnetID :: string

definition bulkActions :: "string \<Rightarrow> string list option" where
  "bulkActions entity =
    (if entity = ''subnets'' then Some [''set_vlan'', ''tag_add'', ''tag_remove'', ''delete'']
     else if entity = ''addresses'' then Some [''set_state'', ''tag_add'', ''tag_remove'', ''clear_device'', ''delete'']
     else if entity = ''devices'' then Some [''tag_add'', ''tag_remove'', ''delete'']
     else None)"

definition parseBulkRequest :: "string list \<Rightarrow> form \<Rightarrow> string \<Rightarrow> string + bulkRequest" where
  "parseBulkRequest posted frm entity =
    (case bulkActions entity of None \<Rightarrow> Inl ''unknown bulk entity''
     | Some allowed \<Rightarrow>
       let ids = filter (\<lambda>i. i \<noteq> []) (map TrimSpace posted); action = TrimSpace (frm ''action'') in
       if ids = [] then Inl ''Select at least one row first.''
       else if action = [] then Inl ''Choose a bulk action.''
       else if action \<notin> set allowed then Inl ''That action is not available here.''
       else
        let req = \<lparr>br_Action = action, br_IDs = ids, br_State = [], br_Tag = [], br_VLAN = None,
              br_Confirmed = (frm ''confirmed'' = ''1''), br_SubnetID = TrimSpace (frm ''subnet_id'')\<rparr> in
        if action = ''set_state'' then
          let state = TrimSpace (frm ''state'') in
          if \<not> validAddressState state then Inl ''Choose a valid address state.'' else Inr (req\<lparr>br_State := state\<rparr>)
        else if action = ''set_vlan'' then
          (case ParseVLAN (frm ''vlan'') of Inl _ \<Rightarrow> Inl ''VLAN must be between 1 and 4094'' | Inr vlan \<Rightarrow> Inr (req\<lparr>br_VLAN := vlan\<rparr>))
        else if action = ''tag_add'' \<or> action = ''tag_remove'' then
          let tag = TrimSpace (frm ''tag'') in
          if tag = [] then Inl ''Enter a tag name.''
          else if 60 < length tag then Inl ''Tag names are limited to 60 characters.''
          else Inr (req\<lparr>br_Tag := tag\<rparr>)
        else Inr req)"

text \<open>The switch of each handler: the audit action and what the store answers.  An action outside the switch, which
  \<open>parseBulkRequest\<close> excludes, would change nothing.\<close>

definition bulk_subnets :: "env \<Rightarrow> bulkRequest \<Rightarrow> db \<Rightarrow> string \<times> (store_error + (nat \<times> db))" where
  "bulk_subnets e req d =
    (if br_Action req = ''set_vlan'' then (''subnet.bulk_vlan_set'', BulkSetSubnetVLAN (ev_dbnow e) (br_IDs req) (br_VLAN req) d)
     else if br_Action req = ''tag_add'' then (''subnet.bulk_tag_added'', BulkAddTag (ev_id e) ''subnet'' (br_IDs req) (br_Tag req) d)
     else if br_Action req = ''tag_remove'' then (''subnet.bulk_tag_removed'', BulkRemoveTag ''subnet'' (br_IDs req) (br_Tag req) d)
     else if br_Action req = ''delete'' then (''subnet.bulk_deleted'', Inr (BulkDeleteSubnets (br_IDs req) d))
     else ([], Inr (0, d)))"

definition bulk_addresses :: "env \<Rightarrow> bulkRequest \<Rightarrow> db \<Rightarrow> string \<times> (store_error + (nat \<times> db))" where
  "bulk_addresses e req d =
    (if br_Action req = ''set_state'' then (''address.bulk_state_set'', BulkSetAddressState (ev_dbnow e) (br_IDs req) (br_State req) d)
     else if br_Action req = ''clear_device'' then (''address.bulk_device_cleared'', Inr (BulkClearAddressDevice (ev_dbnow e) (br_IDs req) d))
     else if br_Action req = ''tag_add'' then (''address.bulk_tag_added'', BulkAddTag (ev_id e) ''ip_address'' (br_IDs req) (br_Tag req) d)
     else if br_Action req = ''tag_remove'' then (''address.bulk_tag_removed'', BulkRemoveTag ''ip_address'' (br_IDs req) (br_Tag req) d)
     else if br_Action req = ''delete'' then (''address.bulk_deleted'', Inr (BulkDeleteAddresses (br_IDs req) d))
     else ([], Inr (0, d)))"

definition bulk_devices :: "env \<Rightarrow> bulkRequest \<Rightarrow> db \<Rightarrow> string \<times> (store_error + (nat \<times> db))" where
  "bulk_devices e req d =
    (if br_Action req = ''tag_add'' then (''device.bulk_tag_added'', BulkAddTag (ev_id e) ''device'' (br_IDs req) (br_Tag req) d)
     else if br_Action req = ''tag_remove'' then (''device.bulk_tag_removed'', BulkRemoveTag ''device'' (br_IDs req) (br_Tag req) d)
     else if br_Action req = ''delete'' then (''device.bulk_deleted'', Inr (BulkDeleteDevices (br_IDs req) d))
     else ([], Inr (0, d)))"

definition renderSubnetsError :: "string \<Rightarrow> db \<Rightarrow> reply" where
  "renderSubnetsError message d = (case ListSubnets d of Inl _ \<Rightarrow> Status 500 | Inr _ \<Rightarrow> Page ''subnets.html'' message)"

definition renderAddressesBulkError :: "string \<Rightarrow> string \<Rightarrow> db \<Rightarrow> reply" where
  "renderAddressesBulkError subnetID message d =
    (if subnetID = [] then Status 400
     else (case GetSubnet subnetID d of Inl _ \<Rightarrow> Status 400 | Inr subnet \<Rightarrow> renderSubnetDetailError subnet message d))"

definition subnetsBulk :: "form_env \<Rightarrow> env \<Rightarrow> request \<Rightarrow> accounts \<Rightarrow> fields \<Rightarrow> outcome \<times> fields" where
  "subnetsBulk w e rq a fs = sessionFields e rq (\<lambda>s a.
     if \<not> verifySessionCSRF rq s then (respond (Status 403) a, fs)
     else if \<not> rq_form_ok rq then (respond (Status 400) a, fs)
     else (case parseBulkRequest (fe_ids w) (rq_form rq) ''subnets'' of
        Inl msg \<Rightarrow> (respond (renderSubnetsError msg (ac_db a)) a, fs)
      | Inr req \<Rightarrow>
        if br_Action req = ''delete'' \<and> \<not> br_Confirmed req then (respond (Page ''confirm.html'' []) a, fs)
        else (case bulk_subnets e req (ac_db a) of
           (action, Inl _) \<Rightarrow> (respond (renderSubnetsError ''Unable to apply that bulk action.'' (ac_db a)) a, fs)
         | (action, Inr (count, d)) \<Rightarrow> (changed ''/subnets'' s action ''subnet'' [] d a, fs)))) a fs"

definition addressesBulk :: "form_env \<Rightarrow> env \<Rightarrow> request \<Rightarrow> accounts \<Rightarrow> fields \<Rightarrow> outcome \<times> fields" where
  "addressesBulk w e rq a fs = sessionFields e rq (\<lambda>s a.
     if \<not> verifySessionCSRF rq s then (respond (Status 403) a, fs)
     else if \<not> rq_form_ok rq then (respond (Status 400) a, fs)
     else (case parseBulkRequest (fe_ids w) (rq_form rq) ''addresses'' of
        Inl msg \<Rightarrow> (respond (renderAddressesBulkError (TrimSpace (rq_form rq ''subnet_id'')) msg (ac_db a)) a, fs)
      | Inr req \<Rightarrow>
        if br_Action req = ''delete'' \<and> \<not> br_Confirmed req then (respond (Page ''confirm.html'' []) a, fs)
        else (case bulk_addresses e req (ac_db a) of
           (action, Inl _) \<Rightarrow> (respond (renderAddressesBulkError (br_SubnetID req) ''Unable to apply that bulk action.'' (ac_db a)) a, fs)
         | (action, Inr (count, d)) \<Rightarrow>
            (changed (if br_SubnetID req = [] then ''/subnets'' else ''/subnets/'' @ br_SubnetID req) s action ''ip_address'' [] d a, fs)))) a fs"

definition devicesBulk :: "form_env \<Rightarrow> env \<Rightarrow> request \<Rightarrow> accounts \<Rightarrow> fields \<Rightarrow> outcome \<times> fields" where
  "devicesBulk w e rq a fs = sessionFields e rq (\<lambda>s a.
     if \<not> verifySessionCSRF rq s then (respond (Status 403) a, fs)
     else if \<not> rq_form_ok rq then (respond (Status 400) a, fs)
     else (case parseBulkRequest (fe_ids w) (rq_form rq) ''devices'' of
        Inl msg \<Rightarrow> (respond (Page ''devices.html'' msg) a, fs)
      | Inr req \<Rightarrow>
        if br_Action req = ''delete'' \<and> \<not> br_Confirmed req then (respond (Page ''confirm.html'' []) a, fs)
        else (case bulk_devices e req (ac_db a) of
           (action, Inl _) \<Rightarrow> (respond (Page ''devices.html'' ''Unable to apply that bulk action.'') a, fs)
         | (action, Inr (count, d)) \<Rightarrow> (changed ''/devices'' s action ''device'' [] d a, fs)))) a fs"

section \<open>All of them\<close>

datatype inventory_form =
    Subnet_create | Subnet_update | Subnet_delete | Address_create | Address_update | Address_delete
  | Device_create | Device_update | Device_delete | Mac_create | Mac_delete | Device_link | Device_unlink | Device_link_dismiss
  | Subnets_bulk | Addresses_bulk | Devices_bulk | Custom_field_create | Custom_field_delete

fun submit :: "inventory_form \<Rightarrow> form_env \<Rightarrow> env \<Rightarrow> request \<Rightarrow> accounts \<Rightarrow> fields \<Rightarrow> outcome \<times> fields" where
  "submit Subnet_create w = subnetCreate w"
| "submit Subnet_update w = subnetUpdate w"
| "submit Subnet_delete w = subnetDelete"
| "submit Address_create w = addressCreate w"
| "submit Address_update w = addressUpdate w"
| "submit Address_delete w = addressDelete"
| "submit Device_create w = deviceCreate w"
| "submit Device_update w = deviceUpdate w"
| "submit Device_delete w = deviceDelete"
| "submit Mac_create w = macCreate w"
| "submit Mac_delete w = macDelete"
| "submit Device_link w = deviceLink"
| "submit Device_unlink w = deviceUnlink"
| "submit Device_link_dismiss w = deviceLinkDismiss"
| "submit Subnets_bulk w = subnetsBulk w"
| "submit Addresses_bulk w = addressesBulk w"
| "submit Devices_bulk w = devicesBulk w"
| "submit Custom_field_create w = customFieldCreate"
| "submit Custom_field_delete w = customFieldDelete"

end
