(* ===== verification/InventoryReach.thy ===== *)
theory InventoryReach
  imports InventoryWeb
begin

text \<open>
  What the forms of the inventory guarantee.  A form changes the inventory only for a session with the right token
  and then leaves exactly one audit entry; every form keeps the invariants of the store, the accounts and the custom
  fields, and the subnets stay IPv4 networks, which \<open>CreateSubnet\<close> and \<open>UpdateSubnet\<close> alone do not ensure.
\<close>

section \<open>What inventory writes leave alone\<close>

definition side_frame :: "db \<Rightarrow> db \<Rightarrow> bool" where
  "side_frame d d' \<longleftrightarrow> db_users d' = db_users d \<and> tg_id ` set (db_tags d) \<subseteq> tg_id ` set (db_tags d')"

definition cidr_frame :: "db \<Rightarrow> db \<Rightarrow> bool" where
  "cidr_frame d d' \<longleftrightarrow> side_frame d d' \<and> sn_cidr ` set (db_subnets d') \<subseteq> sn_cidr ` set (db_subnets d)"

lemma side_frame_refl [simp]: "side_frame d d"
  by (simp add: side_frame_def)

lemma side_frame_trans: "side_frame d d1 \<Longrightarrow> side_frame d1 d2 \<Longrightarrow> side_frame d d2"
  by (auto simp: side_frame_def)

lemma side_frame_updates [simp]:
  "side_frame d (d1\<lparr>db_subnets := x1\<rparr>) = side_frame d d1" "side_frame d (d1\<lparr>db_addresses := x2\<rparr>) = side_frame d d1"
  "side_frame d (d1\<lparr>db_devices := x3\<rparr>) = side_frame d d1" "side_frame d (d1\<lparr>db_macs := x4\<rparr>) = side_frame d d1"
  "side_frame d (d1\<lparr>db_taggings := x5\<rparr>) = side_frame d d1" "side_frame d (d1\<lparr>db_rejections := x6\<rparr>) = side_frame d d1"
  "side_frame d (d1\<lparr>db_discoveries := x7\<rparr>) = side_frame d d1"
  by (simp_all add: side_frame_def)

lemma cidr_frame_refl [simp]: "cidr_frame d d"
  by (simp add: cidr_frame_def)

lemma cidr_frame_trans: "cidr_frame d d1 \<Longrightarrow> cidr_frame d1 d2 \<Longrightarrow> cidr_frame d d2"
  unfolding cidr_frame_def by (blast intro: side_frame_trans)

lemma cidr_frame_updates [simp]:
  "cidr_frame d (d1\<lparr>db_addresses := x2\<rparr>) = cidr_frame d d1"
  "cidr_frame d (d1\<lparr>db_devices := x3\<rparr>) = cidr_frame d d1" "cidr_frame d (d1\<lparr>db_macs := x4\<rparr>) = cidr_frame d d1"
  "cidr_frame d (d1\<lparr>db_taggings := x5\<rparr>) = cidr_frame d d1" "cidr_frame d (d1\<lparr>db_rejections := x6\<rparr>) = cidr_frame d d1"
  "cidr_frame d (d1\<lparr>db_discoveries := x7\<rparr>) = cidr_frame d d1" "cidr_frame d (d\<lparr>db_tags := db_tags d @ ts\<rparr>)"
  by (auto simp: cidr_frame_def side_frame_def)

lemma cidr_frame_deletes [simp]:
  "cidr_frame d (delete_addresses Q d1) = cidr_frame d d1" "cidr_frame d (delete_devices R d1) = cidr_frame d d1"
  "cidr_frame d (delete_macs S d1) = cidr_frame d d1" "cidr_frame d (delete_orphan_devices ids d1) = cidr_frame d d1"
  "cidr_frame d (delete_subnets P d)"
  by (auto simp: delete_subnets_def delete_addresses_def delete_devices_def delete_macs_def delete_orphan_devices_def Let_def)
    (auto simp: cidr_frame_def side_frame_def)

lemma insert_cidr_frames:
  "insert_address a d = Inr d' \<Longrightarrow> cidr_frame d d'" "insert_device v d = Inr d' \<Longrightarrow> cidr_frame d d'"
  "insert_mac m d = Inr d' \<Longrightarrow> cidr_frame d d'" "update_address key h d = Inr d' \<Longrightarrow> cidr_frame d d'"
  by (auto simp: insert_address_def insert_device_def insert_mac_def update_address_def split: if_splits)

lemma subnet_side_frames:
  "CreateSubnet g now tok si d = (r, d') \<Longrightarrow> side_frame d d'"
  "UpdateSubnet g now key si d = (s, d') \<Longrightarrow> side_frame d d'"
  by (auto simp: CreateSubnet_def UpdateSubnet_def insert_subnet_def update_subnet_def Let_def
      split: sum.splits option.splits if_splits)

lemma address_cidr_frames:
  "CreateAddress g now tok s ai d = Inr (a, d') \<Longrightarrow> cidr_frame d d'"
  "UpdateAddress g now key s ai d = (r, d') \<Longrightarrow> cidr_frame d d'"
  "DeleteAddress key d = Inr d' \<Longrightarrow> cidr_frame d d'"
  by (auto simp: CreateAddress_def UpdateAddress_def DeleteAddress_def Let_def bind_res_eq_Inr
      split: sum.splits option.splits if_splits dest: insert_cidr_frames)

lemma ensure_tag_cidr_frame: "ensure_tag key tag d = Inr (t, d') \<Longrightarrow> cidr_frame d d'"
  by (auto simp: ensure_tag_def split: option.splits if_splits)

lemma bulk_cidr_frames:
  "BulkSetAddressState now ids state d = Inr (n, d') \<Longrightarrow> cidr_frame d d'"
  "BulkClearAddressDevice now ids d = (n, d') \<Longrightarrow> cidr_frame d d'"
  "BulkDeleteAddresses ids d = (n, d') \<Longrightarrow> cidr_frame d d'"
  "BulkDeleteSubnets ids d = (n, d') \<Longrightarrow> cidr_frame d d'"
  "BulkDeleteDevices ids d = (n, d') \<Longrightarrow> cidr_frame d d'"
  "BulkRemoveTag et ids tag d = Inr (n, d') \<Longrightarrow> cidr_frame d d'"
  "BulkAddTag tok et ids tag d = Inr (n, d') \<Longrightarrow> cidr_frame d d'"
  by (auto simp: BulkSetAddressState_def BulkClearAddressDevice_def BulkDeleteAddresses_def BulkAddTag_def bind_res_eq_Inr
      BulkDeleteSubnets_def BulkDeleteDevices_def BulkRemoveTag_def Let_def split: if_splits option.splits dest: ensure_tag_cidr_frame)

lemma BulkSetSubnetVLAN_cidr_frame: "BulkSetSubnetVLAN now ids vlan d = Inr (n, d') \<Longrightarrow> cidr_frame d d'"
  by (auto simp: BulkSetSubnetVLAN_def cidr_frame_def set_update_rows split: if_splits)

lemma device_cidr_frames:
  "CreateDevice now tok di d = Inr (v, d') \<Longrightarrow> cidr_frame d d'"
  "UpdateDevice now key di d = Inr (v, d') \<Longrightarrow> cidr_frame d d'"
  "DeleteDevice key d = Inr d' \<Longrightarrow> cidr_frame d d'"
  "DeleteMACAddress key d = Inr d' \<Longrightarrow> cidr_frame d d'"
  "UnlinkDevice now key d = Inr d' \<Longrightarrow> cidr_frame d d'"
  "DismissDeviceLinkSuggestion a b d = Inr d' \<Longrightarrow> cidr_frame d d'"
  "TagDevice did t n c d = Inr d' \<Longrightarrow> cidr_frame d d'"
  "LinkDevices now tok ids d = Inr d' \<Longrightarrow> cidr_frame d d'"
  by (auto simp: CreateDevice_def UpdateDevice_def DeleteDevice_def DeleteMACAddress_def UnlinkDevice_def TagDevice_def LinkDevices_def
      DismissDeviceLinkSuggestion_def Let_def bind_res_eq_Inr split: option.splits if_splits dest: insert_cidr_frames)

lemma CreateMACAddress_cidr_frame: "CreateMACAddress g now tok did value d = (r, d') \<Longrightarrow> cidr_frame d d'"
  by (auto simp: CreateMACAddress_def Let_def split: sum.splits option.splits if_splits prod.splits
      dest!: insert_cidr_frames device_cidr_frames intro: cidr_frame_trans)

lemmas cidr_frames = address_cidr_frames bulk_cidr_frames BulkSetSubnetVLAN_cidr_frame device_cidr_frames CreateMACAddress_cidr_frame

lemma DeleteSubnet_cidr_frame: "DeleteSubnet key d = Inr d' \<Longrightarrow> cidr_frame d d'"
  by (auto simp: DeleteSubnet_def split: if_splits)

section \<open>What a form may do\<close>

text \<open>The invariant of an instance.  \<open>seeded\<close>: the tag the migrations insert for private hardware addresses is there.\<close>

definition seeded :: "db \<Rightarrow> bool" where
  "seeded d \<longleftrightarrow> ''private-mac'' \<in> tg_id ` set (db_tags d)"

definition site_ok :: "accounts \<Rightarrow> fields \<Rightarrow> bool" where
  "site_ok a fs \<longleftrightarrow> accounts_ok a \<and> ipv4_db (ac_db a) \<and> seeded (ac_db a) \<and> fields_ok fs"

definition web_write :: "pg \<Rightarrow> db \<Rightarrow> db \<Rightarrow> bool" where
  "web_write g d d' \<longleftrightarrow> inventory_write g d d' \<and> side_frame d d' \<and> (ipv4_db d \<longrightarrow> ipv4_db d')"

text \<open>A handler that got past the session guard did nothing, or had the right token, wrote to the inventory or the
  fields, and audited that in the name of the session's user.\<close>

definition acted :: "pg \<Rightarrow> request \<Rightarrow> fields \<Rightarrow> Session \<Rightarrow> accounts \<Rightarrow> outcome \<times> fields \<Rightarrow> bool" where
  "acted g rq fs s a out \<longleftrightarrow> (oc_accounts (fst out) = a \<and> snd out = fs \<and> oc_audit (fst out) = []) \<or>
    (verifySessionCSRF rq s \<and> (fields_ok fs \<longrightarrow> fields_ok (snd out)) \<and>
     (\<exists>x. oc_audit (fst out) = [x] \<and> en_actor x = Some (User_ID (Session_User s))) \<and>
     (\<exists>d. (d = ac_db a \<or> web_write g (ac_db a) d) \<and> oc_accounts (fst out) = a\<lparr>ac_db := d\<rparr>))"

definition handled :: "pg \<Rightarrow> env \<Rightarrow> request \<Rightarrow> accounts \<Rightarrow> fields \<Rightarrow> outcome \<times> fields \<Rightarrow> bool" where
  "handled g e rq a fs out \<longleftrightarrow>
    (case currentSession e rq a of
       (None, a') \<Rightarrow> oc_accounts (fst out) = a' \<and> snd out = fs \<and> oc_audit (fst out) = []
     | (Some s, a') \<Rightarrow> acted g rq fs s a' out)"

lemma acted_nothing: "acted g rq fs s a (respond r a, fs)"
  by (simp add: acted_def respond_def)

lemma acted_write:
  assumes "verifySessionCSRF rq s" "d = ac_db a \<or> web_write g (ac_db a) d" "fields_ok fs \<Longrightarrow> fields_ok fs'"
  shows "acted g rq fs s a (changed url s action kind key d a, fs')"
  using assms unfolding acted_def by (intro disjI2) (auto simp: changed_def logged_def log_entry_def)

lemma acted_fields:
  assumes "verifySessionCSRF rq s" "fields_ok fs \<Longrightarrow> fields_ok fs'"
  shows "acted g rq fs s a (logged r [] (log_entry (Some (User_ID (Session_User s))) action kind key) a, fs')"
  using assms unfolding acted_def by (intro disjI2) (auto simp: logged_def log_entry_def intro!: exI [of _ "ac_db a"])

lemma saved_fields_ok: "fields_ok fs \<Longrightarrow> fields_ok (saveCustomFieldValues e pf kind key fs)"
  by (auto simp: saveCustomFieldValues_def split: sum.splits intro: SetCustomFieldValues_ok)

lemma sessionFields_handled:
  assumes "\<And>s a'. currentSession e rq a = (Some s, a') \<Longrightarrow> acted g rq fs s a' (h s a')"
  shows "handled g e rq a fs (sessionFields e rq h a fs)"
  using assms by (auto simp: handled_def sessionFields_def respond_def split: option.splits prod.splits)

lemma adminFields_handled:
  assumes "\<And>s a'. currentSession e rq a = (Some s, a') \<Longrightarrow> acted g rq fs s a' (h s a')"
  shows "handled g e rq a fs (adminFields e rq h a fs)"
  unfolding adminFields_def using assms by (intro sessionFields_handled) (simp add: acted_nothing)

lemma loadSubnetPage_handled:
  assumes "\<And>s x a'. currentSession e rq a = (Some s, a') \<Longrightarrow> GetSubnet (su_ID x) (ac_db a') = Inr x \<Longrightarrow> acted g rq fs s a' (h s x a')"
  shows "handled g e rq a fs (loadSubnetPage e rq h a fs)"
proof -
  have "GetSubnet (su_ID x) d = Inr x" if "GetSubnet (rq_id rq) d = Inr x" for x d using GetSubnet_row [OF that] that by metis
  then show ?thesis unfolding loadSubnetPage_def using assms by (intro sessionFields_handled) (auto simp: acted_nothing split: sum.split)
qed

lemma loadAddressPage_handled:
  assumes "\<And>s x sn a'. currentSession e rq a = (Some s, a') \<Longrightarrow> GetAddress (ip_ID x) (ac_db a') = Inr x \<Longrightarrow> acted g rq fs s a' (h s x sn a')"
  shows "handled g e rq a fs (loadAddressPage e rq h a fs)"
proof -
  have "ip_ID x = rq_id rq" if "GetAddress (rq_id rq) d = Inr x" for x d
    using that by (auto simp: GetAddress_def scanAddress_def split: option.splits dest: find_SomeD)
  then have "GetAddress (ip_ID x) d = Inr x" if "GetAddress (rq_id rq) d = Inr x" for x d using that by metis
  then show ?thesis unfolding loadAddressPage_def using assms by (intro sessionFields_handled) (auto simp: acted_nothing split: sum.split)
qed

lemma loadDevicePage_handled:
  assumes "\<And>s x a'. currentSession e rq a = (Some s, a') \<Longrightarrow> acted g rq fs s a' (h s x a')"
  shows "handled g e rq a fs (loadDevicePage e rq h a fs)"
  unfolding loadDevicePage_def using assms by (intro sessionFields_handled) (auto simp: acted_nothing split: sum.split)

lemma loadCustomFieldDef_handled:
  assumes "\<And>s x a'. currentSession e rq a = (Some s, a') \<Longrightarrow> acted g rq fs s a' (h s x a')"
  shows "handled g e rq a fs (loadCustomFieldDef e rq h a fs)"
  unfolding loadCustomFieldDef_def using assms by (intro adminFields_handled) (auto simp: acted_nothing split: sum.split)

section \<open>The writes of the forms\<close>

lemma ipv4_cidr_frame: "cidr_frame d d' \<Longrightarrow> ipv4_db d \<Longrightarrow> ipv4_db d'"
  by (fastforce simp: cidr_frame_def ipv4_db_def)

lemma web_writeI: "inventory_write g d d' \<Longrightarrow> cidr_frame d d' \<Longrightarrow> web_write g d d'"
  by (auto simp: web_write_def cidr_frame_def intro: ipv4_cidr_frame)

lemma subnet_input_canon: "subnetInputFromRequest w rq = Inr inp \<Longrightarrow> canon_cidr (si_CIDR inp)"
  by (auto simp: subnetInputFromRequest_def Let_def split: if_splits sum.splits dest: NormalizeCIDR_canon)

lemma GetSubnet_ok: "ipv4_db d \<Longrightarrow> r \<in> set (db_subnets d) \<Longrightarrow> sn_id r = key \<Longrightarrow> is_ok (GetSubnet key d)"
  using scanSubnet_ok by (auto simp: GetSubnet_def ipv4_db_def find_None_iff split: option.split dest!: find_SomeD)

text \<open>With canonical input the two operations on subnets either leave the database as it is or succeed: reading the
  row back never fails.\<close>

lemma CreateSubnet_web:
  assumes "pg_documented g" "ipv4_db d" "canon_cidr (si_CIDR inp)" "CreateSubnet g now tok inp d = (r, d')"
  shows "(\<exists>err. r = Inl err \<and> d' = d) \<or> (\<exists>sn. r = Inr sn \<and> web_write g d d')"
proof -
  have v4: "ipv4_db d'" using CreateSubnet_ipv4 [OF assms(1-3), of now tok] assms(4) by simp
  have "web_write g d d'" using inventory_write.CreateSubnet [OF assms(4)] subnet_side_frames(1) [OF assms(4)] v4 by (simp add: web_write_def)
  moreover have "is_ok r \<or> d' = d"
    using assms(4) GetSubnet_ok [OF v4]
    by (fastforce simp: CreateSubnet_def insert_subnet_def split: option.splits sum.splits if_splits)
  ultimately show ?thesis by (cases r) auto
qed

lemma UpdateSubnet_web:
  assumes "pg_documented g" "ipv4_db d" "canon_cidr (si_CIDR inp)" "UpdateSubnet g now key inp d = (r, d')"
    "GetSubnet key d = Inr x"
  shows "(\<exists>err. r = Inl err \<and> d' = d) \<or> (\<exists>sn. r = Inr sn \<and> web_write g d d')"
proof -
  have v4: "ipv4_db d'" using UpdateSubnet_ipv4 [OF assms(1-3), of now key] assms(4) by simp
  have "web_write g d d'" using inventory_write.UpdateSubnet [OF assms(4)] subnet_side_frames(2) [OF assms(4)] v4 by (simp add: web_write_def)
  moreover obtain q where q: "q \<in> set (db_subnets d)" "sn_id q = key" using assms(5) by (auto elim: GetSubnet_row)
  have "is_ok r \<or> d' = d"
  proof (rule disjCI)
    assume "d' \<noteq> d"
    with assms(4) q have "r = GetSubnet key d'" "map sn_id (db_subnets d') = map sn_id (db_subnets d)"
      by (auto simp: UpdateSubnet_def update_subnet_def affected_def filter_empty_conv map_update_rows_key split: option.splits if_splits)
    moreover from this(2) q obtain q' where "q' \<in> set (db_subnets d')" "sn_id q' = key" by (metis image_iff list.set_map)
    ultimately show "is_ok r" using GetSubnet_ok [OF v4] by simp
  qed
  ultimately show ?thesis by (cases r) auto
qed

lemma UpdateAddress_web:
  assumes "UpdateAddress g now key s inp d = (r, d')" "GetAddress key d = Inr x"
  shows "(\<exists>err. r = Inl err \<and> d' = d) \<or> (\<exists>y. r = Inr y \<and> web_write g d d')"
proof -
  have wrote: "web_write g d d'" by (rule web_writeI [OF inventory_write.UpdateAddress [OF assms(1)] address_cidr_frames(2) [OF assms(1)]])
  have "is_ok (GetAddress key (d\<lparr>db_addresses := update_rows (\<lambda>a. ad_id a = key) f (db_addresses d)\<rparr>))"
    if "\<And>a. ad_id (f a) = ad_id a \<and> ad_subnet_id (f a) = ad_subnet_id a" for f
  proof -
    have "find (\<lambda>a. ad_id a = key) (update_rows (\<lambda>a. ad_id a = key) f rows) = map_option f (find (\<lambda>a. ad_id a = key) rows)" for rows
      using that by (induction rows) (auto simp: update_rows_def)
    then show ?thesis using assms(2) that by (auto simp: GetAddress_def scanAddress_def split: option.splits)
  qed
  moreover have "\<exists>a\<in>set (db_addresses d). ad_id a = key" using assms(2) by (auto simp: GetAddress_def split: option.splits dest: find_SomeD)
  ultimately have "is_ok r \<or> d' = d" using assms(1)
    by (auto simp: UpdateAddress_def update_address_def affected_def filter_empty_conv split: sum.splits option.splits if_splits)
  then show ?thesis using wrote by (cases r) auto
qed

lemma CreateMACAddress_web:
  assumes "seeded d" "CreateMACAddress g now tok did v d = (r, d')"
  shows "(\<exists>err. r = Inl err \<and> d' = d) \<or> (\<exists>y. r = Inr y \<and> web_write g d d')"
proof -
  have "web_write g d d'" by (rule web_writeI [OF inventory_write.CreateMAC [OF assms(2)] CreateMACAddress_cidr_frame [OF assms(2)]])
  moreover have "is_ok r \<or> d' = d" using assms
    by (auto simp: CreateMACAddress_def TagDevice_def insert_mac_def seeded_def Let_def split: sum.splits option.splits if_splits)
  ultimately show ?thesis by (cases r) auto
qed

lemma web_writes:
  "DeleteSubnet key d = Inr d' \<Longrightarrow> web_write g d d'"
  "CreateAddress g now tok s ai d = Inr (x, d') \<Longrightarrow> web_write g d d'"
  "DeleteAddress key d = Inr d' \<Longrightarrow> web_write g d d'"
  "CreateDevice now tok di d = Inr (v, d') \<Longrightarrow> web_write g d d'"
  "UpdateDevice now key di d = Inr (v, d') \<Longrightarrow> web_write g d d'"
  "DeleteDevice key d = Inr d' \<Longrightarrow> web_write g d d'"
  "DeleteMACAddress key d = Inr d' \<Longrightarrow> web_write g d d'"
  "LinkDevices now tok ids d = Inr d' \<Longrightarrow> web_write g d d'"
  "UnlinkDevice now key d = Inr d' \<Longrightarrow> web_write g d d'"
  "DismissDeviceLinkSuggestion k l d = Inr d' \<Longrightarrow> web_write g d d'"
  by (rule web_writeI, erule inventory_write.intros, erule cidr_frames DeleteSubnet_cidr_frame)+

lemma bulk_web_writes:
  "BulkSetAddressState now ids state d = Inr (n, d') \<Longrightarrow> web_write g d d'"
  "BulkClearAddressDevice now ids d = (n, d') \<Longrightarrow> web_write g d d'"
  "BulkDeleteAddresses ids d = (n, d') \<Longrightarrow> web_write g d d'"
  "BulkSetSubnetVLAN now ids vlan d = Inr (n, d') \<Longrightarrow> web_write g d d'"
  "BulkDeleteSubnets ids d = (n, d') \<Longrightarrow> web_write g d d'"
  "BulkDeleteDevices ids d = (n, d') \<Longrightarrow> web_write g d d'"
  "BulkAddTag tok et ids tag d = Inr (n, d') \<Longrightarrow> web_write g d d'"
  "BulkRemoveTag et ids tag d = Inr (n, d') \<Longrightarrow> web_write g d d'"
  by (rule web_writeI, erule inventory_write.intros, erule cidr_frames)+

lemma bulk_switches:
  "bulk_subnets e req d = (x, Inr (n, d')) \<Longrightarrow> d' = d \<or> web_write g d d'"
  "bulk_addresses e req d = (x, Inr (n, d')) \<Longrightarrow> d' = d \<or> web_write g d d'"
  "bulk_devices e req d = (x, Inr (n, d')) \<Longrightarrow> d' = d \<or> web_write g d d'"
  by (auto simp: bulk_subnets_def bulk_addresses_def bulk_devices_def split: if_splits dest: bulk_web_writes)

section \<open>Every form\<close>

lemma session_site_ok: "currentSession e rq a = (s, a') \<Longrightarrow> site_ok a fs \<Longrightarrow> site_ok a' fs"
  using currentSession_db [of e rq a s a'] ok.currentSession [of a e rq s a'] by (simp add: site_ok_def)

lemma acted_failed: "d = ac_db a \<Longrightarrow> acted g rq fs s a (respond r (a\<lparr>ac_db := d\<rparr>), fs)"
  by (simp add: acted_def respond_def)

lemmas form_intros = acted_nothing acted_failed acted_write acted_fields saved_fields_ok
lemmas form_splits = sum.splits prod.splits if_splits

lemma subnets_handled:
  assumes "pg_documented (fe_pg w)" "site_ok a fs"
  shows "handled (fe_pg w) e rq a fs (subnetCreate w e rq a fs)" "handled (fe_pg w) e rq a fs (subnetUpdate w e rq a fs)"
    "handled (fe_pg w) e rq a fs (subnetDelete e rq a fs)" "handled (fe_pg w) e rq a fs (subnetsBulk w e rq a fs)"
proof -
  have v4: "ipv4_db (ac_db a')" if "currentSession e rq a = (s, a')" for s a'
    using session_site_ok [OF that assms(2)] by (simp add: site_ok_def)
  show "handled (fe_pg w) e rq a fs (subnetCreate w e rq a fs)"
    unfolding subnetCreate_def
    by (rule sessionFields_handled) (auto split: form_splits intro: form_intros dest!: CreateSubnet_web [OF assms(1) v4 subnet_input_canon])
  show "handled (fe_pg w) e rq a fs (subnetUpdate w e rq a fs)"
    unfolding subnetUpdate_def
    by (rule loadSubnetPage_handled) (auto split: form_splits intro: form_intros dest!: UpdateSubnet_web [OF assms(1) v4 subnet_input_canon])
  show "handled (fe_pg w) e rq a fs (subnetDelete e rq a fs)"
    unfolding subnetDelete_def by (rule loadSubnetPage_handled) (auto split: form_splits intro!: form_intros dest: web_writes)
  show "handled (fe_pg w) e rq a fs (subnetsBulk w e rq a fs)"
    unfolding subnetsBulk_def by (rule sessionFields_handled) (auto split: form_splits intro!: form_intros dest: bulk_switches)
qed

lemma addresses_handled:
  "handled (fe_pg w) e rq a fs (addressCreate w e rq a fs)" "handled (fe_pg w) e rq a fs (addressUpdate w e rq a fs)"
  "handled g e rq a fs (addressDelete e rq a fs)" "handled g e rq a fs (addressesBulk w e rq a fs)"
proof -
  show "handled (fe_pg w) e rq a fs (addressCreate w e rq a fs)"
    unfolding addressCreate_def by (rule loadSubnetPage_handled) (auto split: form_splits intro!: form_intros dest: web_writes)
  show "handled (fe_pg w) e rq a fs (addressUpdate w e rq a fs)"
    unfolding addressUpdate_def by (rule loadAddressPage_handled) (auto split: form_splits intro: form_intros dest!: UpdateAddress_web)
  show "handled g e rq a fs (addressDelete e rq a fs)"
    unfolding addressDelete_def by (rule sessionFields_handled) (auto simp: Let_def split: form_splits intro!: form_intros dest: web_writes)
  show "handled g e rq a fs (addressesBulk w e rq a fs)"
    unfolding addressesBulk_def by (rule sessionFields_handled) (auto split: form_splits intro!: form_intros dest: bulk_switches)
qed

lemma devices_handled:
  "handled g e rq a fs (deviceCreate w e rq a fs)" "handled g e rq a fs (deviceUpdate w e rq a fs)"
  "handled g e rq a fs (deviceDelete e rq a fs)" "handled g e rq a fs (devicesBulk w e rq a fs)"
  unfolding deviceCreate_def deviceUpdate_def deviceDelete_def devicesBulk_def
  by (rule sessionFields_handled loadDevicePage_handled, auto split: form_splits intro!: form_intros dest: web_writes bulk_switches)+

lemma links_handled:
  "handled g e rq a fs (deviceLink e rq a fs)" "handled g e rq a fs (deviceUnlink e rq a fs)"
  "handled g e rq a fs (deviceLinkDismiss e rq a fs)" "handled g e rq a fs (macDelete e rq a fs)"
  unfolding deviceLink_def deviceUnlink_def deviceLinkDismiss_def macDelete_def
  by (rule sessionFields_handled loadDevicePage_handled, auto simp: Let_def split: form_splits intro!: form_intros dest: web_writes)+

lemma macCreate_handled:
  assumes "site_ok a fs"
  shows "handled (fe_pg w) e rq a fs (macCreate w e rq a fs)"
proof -
  have "seeded (ac_db a')" if "currentSession e rq a = (s, a')" for s a'
    using session_site_ok [OF that assms] by (simp add: site_ok_def)
  note seed = CreateMACAddress_web [OF this]
  show ?thesis unfolding macCreate_def
    by (rule loadDevicePage_handled) (auto split: form_splits intro: form_intros dest!: seed)
qed

lemma fields_handled:
  "handled g e rq a fs (customFieldCreate e rq a fs)" "handled g e rq a fs (customFieldDelete e rq a fs)"
  unfolding customFieldCreate_def customFieldDelete_def
  by (rule adminFields_handled loadCustomFieldDef_handled,
      auto simp: Let_def split: form_splits intro!: form_intros intro: CreateCustomFieldDef_ok DeleteCustomFieldDef_ok)+

lemma submit_handled:
  assumes "pg_documented (fe_pg w)" "site_ok a fs"
  shows "handled (fe_pg w) e rq a fs (submit h w e rq a fs)"
  by (cases h) (simp_all add: subnets_handled [OF assms] addresses_handled devices_handled links_handled macCreate_handled [OF assms(2)] fields_handled)

lemma web_write_site_ok:
  assumes "pg_documented g" "web_write g (ac_db a) d" "site_ok a fs" "fields_ok fs'"
  shows "site_ok (a\<lparr>ac_db := d\<rparr>) fs'"
proof -
  have ok: "accounts_ok a" "inventory_ok (ac_db a)" using assms(3) by (simp_all add: site_ok_def accounts_ok_def store_ok_def)
  have w: "inventory_write g (ac_db a) d" "side_frame (ac_db a) d" "ipv4_db d" using assms(2,3) by (simp_all add: web_write_def site_ok_def)
  have "subnets_step (ac_db a) d"
    using inventory_write_frame [OF w(1)] inventory_write_inv [OF w(1) assms(1) ok(2)] w by (simp add: subnets_step_def side_frame_def)
  from subnets_step_accounts [OF this ok(1)] show ?thesis
    using w assms(3,4) by (auto simp: site_ok_def seeded_def side_frame_def)
qed

lemma handled_site_ok:
  assumes "pg_documented g" "handled g e rq a fs out" "site_ok a fs"
  shows "site_ok (oc_accounts (fst out)) (snd out)"
proof -
  obtain s a' where s: "currentSession e rq a = (s, a')" by (cases "currentSession e rq a")
  have ok: "site_ok a' fs" using session_site_ok [OF s assms(3)] .
  show ?thesis
  proof (cases s)
    case None
    with s assms(2) ok show ?thesis by (simp add: handled_def)
  next
    case (Some x)
    with s assms(2) have "acted g rq fs x a' out" by (simp add: handled_def)
    then consider "oc_accounts (fst out) = a'" "snd out = fs"
      | "fields_ok (snd out)" "oc_accounts (fst out) = a'"
      | d where "fields_ok (snd out)" "web_write g (ac_db a') d" "oc_accounts (fst out) = a'\<lparr>ac_db := d\<rparr>"
      using ok by (auto simp: acted_def site_ok_def)
    then show ?thesis
    proof cases
      case 3
      with web_write_site_ok [OF assms(1) 3(2) ok 3(1)] show ?thesis by simp
    qed (use ok in \<open>simp_all add: site_ok_def\<close>)
  qed
qed

text \<open>C3: A form of the inventory leaves the whole instance consistent, and it changes managed records or custom fields
  only for a request whose session is valid and whose token is that session's; then it leaves exactly one audit
  entry, in the name of the session's user.\<close>

theorem form_change_audited:
  fixes e :: env and rq :: request and h :: inventory_form
  assumes "pg_documented (fe_pg w)" "site_ok a fs"
  defines "out \<equiv> submit h w e rq a fs"
  shows "site_ok (oc_accounts (fst out)) (snd out) \<and>
    (ac_db (oc_accounts (fst out)) = ac_db a \<and> snd out = fs \<and> oc_audit (fst out) = [] \<or>
     (\<exists>s a' x. currentSession e rq a = (Some s, a') \<and> Session_CSRFToken s \<noteq> [] \<and> rq_form rq ''csrf_token'' = Session_CSRFToken s \<and>
       oc_audit (fst out) = [x] \<and> en_actor x = Some (User_ID (Session_User s))))"
proof
  have h: "handled (fe_pg w) e rq a fs out" unfolding out_def by (rule submit_handled [OF assms(1,2)])
  show "site_ok (oc_accounts (fst out)) (snd out)" by (rule handled_site_ok [OF assms(1) h assms(2)])
  obtain s a' where s: "currentSession e rq a = (s, a')" by (cases "currentSession e rq a")
  show "ac_db (oc_accounts (fst out)) = ac_db a \<and> snd out = fs \<and> oc_audit (fst out) = [] \<or>
     (\<exists>s a' x. currentSession e rq a = (Some s, a') \<and> Session_CSRFToken s \<noteq> [] \<and> rq_form rq ''csrf_token'' = Session_CSRFToken s \<and>
       oc_audit (fst out) = [x] \<and> en_actor x = Some (User_ID (Session_User s)))"
    using h s currentSession_db [OF s] by (cases s) (auto simp: handled_def acted_def verifySessionCSRF_def)
qed

end
