(* ===== verification/ScanForms.thy ===== *)
theory ScanForms
  imports Scheduler InventoryReach
begin

text \<open>
  The pages that run and schedule scans and manage agents (\<open>internal/app/scans.go\<close>, \<open>internal/scanner/endpoint.go\<close>): what
  the forms accept, how a schedule is shown in its form, and the handlers that write.  What they use from outside is
  the \<open>outside\<close> of the orchestrator, \<open>url.Parse\<close>, the values of \<open>window_day\<close> and the text of the error of \<open>ParseForm\<close>.
\<close>

section \<open>Options\<close>

definition scanTypeOptions :: "string list" where
  "scanTypeOptions = [''host_discovery'', ''service_detection'', ''os_probe'', ''combined'', ''arp_table'', ''snmp_inventory'',
     ''name_lookup'', ''dns_lookup'', ''dhcp_leases'', ''lldp_cdp'']"

definition scanModeOptions :: "string list" where
  "scanModeOptions = [''light_active'', ''standard_active'', ''deep_active'']"

definition agentStatusOptions :: "string list" where
  "agentStatusOptions = [''pending'', ''active'', ''disabled'', ''revoked'']"

definition defaultTimeoutForType :: "string \<Rightarrow> int" where
  "defaultTimeoutForType t =
    (if t = ''host_discovery'' then 120 else if t = ''service_detection'' then 600 else if t = ''os_probe'' then 900
     else if t = ''combined'' then 1200 else if t = ''arp_table'' then 180 else if t = ''snmp_inventory'' then 300
     else if t = ''name_lookup'' then 120 else if t = ''dns_lookup'' then 120 else if t = ''dhcp_leases'' then 120
     else if t = ''lldp_cdp'' then 300 else 300)"

definition modeForType :: "string \<Rightarrow> string \<Rightarrow> string option" where
  "modeForType t mode =
    (if t \<in> {''arp_table'', ''snmp_inventory'', ''name_lookup'', ''dns_lookup'', ''dhcp_leases'', ''lldp_cdp''} then Some ''standard_active''
     else if t = ''combined'' then Some ''deep_active''
     else if mode \<notin> set scanModeOptions then None else Some mode)"

section \<open>Lists and scopes\<close>

definition list_separator :: "char \<Rightarrow> bool" where
  "list_separator c \<longleftrightarrow> c \<in> {LF, CR, CHR '','', CHR '' '', CHR 0x09}"

text \<open>\<open>strings.FieldsFunc\<close>; \<open>cur\<close> is the field being read, backwards.\<close>

fun fields_func :: "(char \<Rightarrow> bool) \<Rightarrow> string \<Rightarrow> string \<Rightarrow> string list" where
  "fields_func sep cur [] = (if cur = [] then [] else [rev cur])"
| "fields_func sep cur (c # s) =
    (if sep c then (if cur = [] then fields_func sep [] s else rev cur # fields_func sep [] s) else fields_func sep (c # cur) s)"

definition parseList :: "string \<Rightarrow> string list" where
  "parseList value = filter (\<lambda>f. f \<noteq> []) (map TrimSpace (fields_func list_separator [] value))"

definition prefixWithinAny :: "netprefix \<Rightarrow> netprefix list \<Rightarrow> bool" where
  "prefixWithinAny target allowed = list_ex (\<lambda>a. Prefix_Contains a (Prefix_Addr target) \<and> Bits a \<le> Bits target) allowed"

definition validateScanTarget :: "string \<Rightarrow> netprefix list \<Rightarrow> string option" where
  "validateScanTarget target allowed =
    (case ParsePrefix target of
       Some p \<Rightarrow>
         if \<not> Is4 (Prefix_Addr p) then Some (''Target '' @ Quote target @ '' must be IPv4.'')
         else if \<not> prefixWithinAny (Masked p) allowed then Some (''Target '' @ Quote target @ '' is outside the allowed CIDRs.'')
         else None
     | None \<Rightarrow>
       (case ParseAddr target of
          None \<Rightarrow> Some (''Target '' @ Quote target @ '' is not a valid IPv4 address or CIDR '' @ em_dash @
            '' use something like 192.168.5.10 or 192.168.5.0/24.'')
        | Some a \<Rightarrow>
          if \<not> Is4 a then Some (''Target '' @ Quote target @ '' must be IPv4.'')
          else if list_ex (\<lambda>p. Prefix_Contains p a) allowed then None
          else Some (''Target '' @ Quote target @ '' is outside the allowed CIDRs.'')))"

definition allowed_prefix :: "string \<Rightarrow> string + netprefix" where
  "allowed_prefix c =
    (case ParsePrefix c of
       None \<Rightarrow> Inl (''Allowed CIDR '' @ Quote c @ '' is not valid '' @ em_dash @ '' use a network and prefix length like 192.168.5.0/24.'')
     | Some p \<Rightarrow> if \<not> Is4 (Prefix_Addr p) then Inl (''Allowed CIDR '' @ Quote c @ '' must be IPv4.'') else Inr (Masked p))"

definition validateScanScope :: "string list \<Rightarrow> string list \<Rightarrow> string option" where
  "validateScanScope allowed targets =
    (case map_res allowed_prefix allowed of Inl msg \<Rightarrow> Some msg
     | Inr ps \<Rightarrow> check_all (\<lambda>t. validateScanTarget t ps) targets)"

section \<open>The scan form\<close>

text \<open>The part the scan form and the schedule form share, up to the scope, and the timeout.\<close>

definition scan_columns :: "form \<Rightarrow> string + (string \<times> string list \<times> string list)" where
  "scan_columns f =
    (if f ''agent_id'' = [] then Inl ''Select an agent.''
     else if f ''scan_type'' \<notin> set scanTypeOptions then Inl ''Select a valid scan type.''
     else (case modeForType (f ''scan_type'') (f ''mode'') of None \<Rightarrow> Inl ''Select a valid scan mode.''
      | Some mode \<Rightarrow>
        let allowed = parseList (f ''allowed_cidrs''); targets = parseList (f ''targets'') in
        if allowed = [] then Inl ''Enter at least one allowed IPv4 CIDR.''
        else if targets = [] then Inl ''Enter at least one target.''
        else (case validateScanScope allowed targets of Some msg \<Rightarrow> Inl msg | None \<Rightarrow> Inr (mode, allowed, targets))))"

definition scan_timeout :: "form \<Rightarrow> string + int" where
  "scan_timeout f =
    (if f ''timeout'' = [] then Inr (defaultTimeoutForType (f ''scan_type''))
     else (case Atoi (f ''timeout'') of None \<Rightarrow> Inl ''Timeout must be a positive number of seconds.''
      | Some n \<Rightarrow> if n \<le> 0 then Inl ''Timeout must be a positive number of seconds.'' else Inr n))"

definition scanInputFromForm :: "form \<Rightarrow> string + ScanJobInput" where
  "scanInputFromForm f =
    bind_res (scan_columns f) (\<lambda>(mode, allowed, targets).
    bind_res (scan_timeout f) (\<lambda>timeout.
      Inr \<lparr>ji_AgentID = f ''agent_id'', ji_ScheduleID = None, ji_RequestedBy = None, ji_ScanType = f ''scan_type'', ji_Mode = mode,
        ji_AllowedCIDRs = allowed, ji_Targets = targets, ji_TimeoutSeconds = timeout\<rparr>))"

text \<open>The values the handlers read: trimmed, the two lists as they are.\<close>

definition trimmed_form :: "form \<Rightarrow> form" where
  "trimmed_form f k = (if k = ''allowed_cidrs'' \<or> k = ''targets'' then f k else TrimSpace (f k))"

section \<open>The schedule form\<close>

definition parseClockMinutes :: "string \<Rightarrow> int option" where
  "parseClockMinutes s =
    (case cut_first CHR '':'' s of None \<Rightarrow> None
     | Some (hh, mm) \<Rightarrow>
       (case Atoi (TrimSpace hh) of None \<Rightarrow> None
        | Some h \<Rightarrow>
          if h < 0 \<or> 23 < h then None
          else (case Atoi (TrimSpace mm) of None \<Rightarrow> None
           | Some m \<Rightarrow> if m < 0 \<or> 59 < m then None else Some (h * 60 + m))))"

definition window_times :: "form \<Rightarrow> string + (int option \<times> int option)" where
  "window_times f =
    (let startRaw = TrimSpace (f ''window_start''); endRaw = TrimSpace (f ''window_end'') in
     if startRaw = [] \<and> endRaw = [] then Inr (None, None)
     else if startRaw = [] \<or> endRaw = [] then Inl ''Set both a window start and end time, or leave both blank.''
     else (case parseClockMinutes startRaw of None \<Rightarrow> Inl ''Window start must be a time of day like 01:00.''
      | Some sm \<Rightarrow>
        (case parseClockMinutes endRaw of None \<Rightarrow> Inl ''Window end must be a time of day like 05:00.''
         | Some em \<Rightarrow> if sm = em then Inl ''Window start and end must be different times.'' else Inr (Some sm, Some em))))"

text \<open>The loop over the posted days; \<open>seen\<close> holds those accepted so far.\<close>

fun window_days :: "int list \<Rightarrow> string list \<Rightarrow> string + int list" where
  "window_days seen [] = Inr (sort seen)"
| "window_days seen (raw # raws) =
    (let r = TrimSpace raw in
     if r = [] then window_days seen raws
     else (case Atoi r of None \<Rightarrow> Inl ''Select valid window days.''
      | Some n \<Rightarrow>
        if n < 0 \<or> 6 < n then Inl ''Select valid window days.''
        else window_days (if n \<in> set seen then seen else seen @ [n]) raws))"

definition parseScheduleWindow :: "(string \<Rightarrow> zone option) \<Rightarrow> form \<Rightarrow> string list \<Rightarrow> string + (int option \<times> int option \<times> int list \<times> string)" where
  "parseScheduleWindow LoadLocation f posted =
    bind_res (window_times f) (\<lambda>(sm, em).
    bind_res (window_days [] posted) (\<lambda>ds.
      let tz0 = TrimSpace (f ''window_tz''); tz = (if tz0 = [] then ''UTC'' else tz0) in
      if tz \<noteq> ''UTC'' \<and> LoadLocation tz = None then Inl ''Unknown window timezone; use an IANA name like America/New_York.''
      else Inr (sm, em, ds, tz)))"

record scan_env =
  sf_out :: outside
  sf_url :: "string \<Rightarrow> (string \<times> string \<times> string) option"
  sf_days :: "string list"
  sf_parse_error :: string

definition scheduleInputFromRequest :: "scan_env \<Rightarrow> request \<Rightarrow> string + ScanScheduleInput" where
  "scheduleInputFromRequest w rq =
    (let f = trimmed_form (rq_form rq) in
     if \<not> rq_form_ok rq then Inl (sf_parse_error w)
     else if f ''name'' = [] then Inl ''Schedule name is required.''
     else
      bind_res (scan_columns f) (\<lambda>(mode, allowed, targets).
       case Atoi (f ''interval'') of None \<Rightarrow> Inl ''Interval must be at least 60 seconds.''
       | Some interval \<Rightarrow>
         if interval < 60 then Inl ''Interval must be at least 60 seconds.''
         else
          bind_res (scan_timeout f) (\<lambda>timeout.
          bind_res (parseScheduleWindow (out_zones (sf_out w)) (rq_form rq) (sf_days w)) (\<lambda>(sm, em, ds, tz).
            Inr \<lparr>ci_Name = f ''name'', ci_AgentID = f ''agent_id'', ci_ScanType = f ''scan_type'', ci_Mode = mode,
              ci_AllowedCIDRs = allowed, ci_Targets = targets, ci_TimeoutSeconds = timeout, ci_IntervalSeconds = interval,
              ci_Enabled = (f ''enabled'' = ''on'' \<or> f ''enabled'' = ''true''),
              ci_WindowStartMin = sm, ci_WindowEndMin = em, ci_WindowDays = ds, ci_WindowTZ = tz\<rparr>))))"

definition clockFromMinutes :: "int \<Rightarrow> string" where
  "clockFromMinutes m = pad2 (m sdiv 60) @ '':'' @ pad2 (m smod 60)"

fun join_lines :: "string list \<Rightarrow> string" where
  "join_lines [] = []"
| "join_lines [s] = s"
| "join_lines (s # t # ss) = s @ LF # join_lines (t # ss)"

definition scheduleFormFromSchedule :: "ScanSchedule \<Rightarrow> form" where
  "scheduleFormFromSchedule s =
    (\<lambda>k. if \<exists>n\<in>set (WindowDays s). 0 \<le> n \<and> n \<le> 6 \<and> k = ''window_day_'' @ itoa n then ''on'' else
      (((\<lambda>_. [])(
         ''name'' := Sched_Name s, ''agent_id'' := Sched_AgentID s, ''scan_type'' := Sched_ScanType s, ''mode'' := Sched_Mode s,
         ''allowed_cidrs'' := join_lines (Sched_AllowedCIDRs s), ''targets'' := join_lines (Sched_Targets s),
         ''timeout'' := itoa (Sched_TimeoutSeconds s), ''interval'' := itoa (Sched_IntervalSeconds s),
         ''enabled'' := (if Sched_Enabled s then ''on'' else []),
         ''window_tz'' := (if WindowTZ s = [] then ''UTC'' else WindowTZ s),
         ''window_start'' := (case WindowStartMin s of None \<Rightarrow> [] | Some m \<Rightarrow> clockFromMinutes m),
         ''window_end'' := (case WindowEndMin s of None \<Rightarrow> [] | Some m \<Rightarrow> clockFromMinutes m))) k))"

section \<open>Agents\<close>

text \<open>The predicates of \<open>net.IP\<close>, which read an IPv4-mapped address as IPv4.\<close>

fun To4 :: "addr \<Rightarrow> 32 word option" where
  "To4 (A4 w) = Some w"
| "To4 (A6 w z) = (if drop_bit 32 w = 0xFFFF then Some (ucast w) else None)"

definition forbidden_host :: "addr \<Rightarrow> bool" where
  "forbidden_host a =
    (case To4 a of
       Some v \<Rightarrow> drop_bit 24 v = 127 \<or> drop_bit 16 v = 0xA9FE \<or> drop_bit 8 v = 0xE00000 \<or> v = 0
     | None \<Rightarrow> (case a of A4 _ \<Rightarrow> False
        | A6 w _ \<Rightarrow> w = 1 \<or> drop_bit 118 w = 0x3FA \<or> drop_bit 120 w = 0xFF \<and> drop_bit 112 w AND 0xF = 2 \<or> w = 0))"

definition ValidateAgentEndpoint :: "(string \<Rightarrow> (string \<times> string \<times> string) option) \<Rightarrow> string \<Rightarrow> string + string" where
  "ValidateAgentEndpoint parse raw0 =
    (let raw = TrimSpace raw0 in
     if raw = [] then Inl ''Enter an https:// endpoint URL for the agent.''
     else (case parse raw of
        None \<Rightarrow> Inl (''Endpoint URL '' @ Quote raw @ '' is not valid '' @ em_dash @ '' use an https:// address like https://scanner-agent:8443.'')
      | Some (scheme, host, printed) \<Rightarrow>
        if scheme \<noteq> ''https'' then Inl ''Endpoint URL must use https://.''
        else if host = [] then Inl ''Endpoint URL must include a host.''
        else if (case ParseAddr host of None \<Rightarrow> False | Some a \<Rightarrow> Zone a = [] \<and> forbidden_host a)
        then Inl (''Endpoint URL '' @ Quote host @ '' points at a loopback or link-local address, which is not a valid agent location.'')
        else Inr printed))"

definition agentInputFromRequest :: "scan_env \<Rightarrow> request \<Rightarrow> string + ScanAgentInput" where
  "agentInputFromRequest w rq =
    (let f = trimmed_form (rq_form rq); auto = rq_form rq ''auto_import'' in
     if \<not> rq_form_ok rq then Inl (sf_parse_error w)
     else if f ''name'' = [] then Inl ''Agent name is required.''
     else
      bind_res (ValidateAgentEndpoint (sf_url w) (f ''endpoint_url'')) (\<lambda>endpoint.
       let status = (if f ''status'' = [] then ''pending'' else f ''status''); allowed = parseList (f ''allowed_cidrs'') in
       if status \<notin> set agentStatusOptions then Inl ''Select a valid status.''
       else if allowed = [] then Inl ''Enter at least one allowed IPv4 CIDR.''
       else Inr \<lparr>ai_Name = f ''name'', ai_SiteID = [], ai_EndpointURL = endpoint, ai_CertificateSubject = f ''certificate_subject'',
         ai_AllowedCIDRs = allowed, ai_Status = status, ai_AutoImport = (auto = ''on'' \<or> auto = ''true'')\<rparr>))"

definition agentFormFromAgent :: "ScanAgent \<Rightarrow> form" where
  "agentFormFromAgent agent =
    (\<lambda>_. [])(''name'' := Agent_Name agent, ''endpoint_url'' := Agent_EndpointURL agent,
      ''certificate_subject'' := Agent_CertificateSubject agent, ''allowed_cidrs'' := join_lines (Agent_AllowedCIDRs agent),
      ''status'' := Agent_Status agent, ''auto_import'' := (if Agent_AutoImport agent then ''on'' else []))"

text \<open>The errors of a result the scan page lists as failures, and those it lists as skipped.\<close>

definition partitionScanErrors :: "ScanError list \<Rightarrow> ScanError list \<times> ScanError list" where
  "partitionScanErrors errs = (filter (\<lambda>x. se_Code x \<noteq> CodeScanIgnored) errs, filter (\<lambda>x. se_Code x = CodeScanIgnored) errs)"

section \<open>Handlers\<close>

text \<open>A handler answers with its outcome and the runs it starts in the background.\<close>

definition entry_of :: "audit_entry \<Rightarrow> entry" where
  "entry_of x = log_entry (au_actor x) (au_action x) (au_subject_type x) (au_subject_id x)"

definition no_runs :: "outcome \<Rightarrow> outcome \<times> pending_run list" where "no_runs out = (out, [])"

definition sessionScans :: "env \<Rightarrow> request \<Rightarrow> (Session \<Rightarrow> accounts \<Rightarrow> outcome \<times> pending_run list) \<Rightarrow> accounts \<Rightarrow> outcome \<times> pending_run list" where
  "sessionScans e rq handler a =
    (case currentSession e rq a of (None, a') \<Rightarrow> no_runs (respond (Redirect ''/login'') a') | (Some s, a') \<Rightarrow> handler s a')"

definition loadAgentPage :: "env \<Rightarrow> request \<Rightarrow> (Session \<Rightarrow> ScanAgent \<Rightarrow> accounts \<Rightarrow> outcome \<times> pending_run list) \<Rightarrow> accounts \<Rightarrow> outcome \<times> pending_run list" where
  "loadAgentPage e rq handler a = sessionScans e rq (\<lambda>s a.
     case GetScanAgent (rq_id rq) (ac_db a) of Inl err \<Rightarrow> no_runs (respond (load_error err) a) | Inr agent \<Rightarrow> handler s agent a) a"

definition loadSchedulePage :: "env \<Rightarrow> request \<Rightarrow> (Session \<Rightarrow> ScanSchedule \<Rightarrow> accounts \<Rightarrow> outcome \<times> pending_run list) \<Rightarrow> accounts \<Rightarrow> outcome \<times> pending_run list" where
  "loadSchedulePage e rq handler a = sessionScans e rq (\<lambda>s a.
     case GetScanSchedule (rq_id rq) (ac_db a) of Inl err \<Rightarrow> no_runs (respond (load_error err) a) | Inr sched \<Rightarrow> handler s sched a) a"

definition triggered :: "env \<Rightarrow> ScanJobInput \<Rightarrow> (orch_error \<Rightarrow> reply) \<Rightarrow> accounts \<Rightarrow> outcome \<times> pending_run list" where
  "triggered e inp failed a =
    (case TriggerManual (ev_now e) (ev_dbnow e) (ev_id e) inp (ac_db a) of
       Inl err \<Rightarrow> no_runs (respond (failed err) a)
     | Inr (q, d) \<Rightarrow>
       (logged (Redirect (''/scans/'' @ Job_ID (enq_job q))) [] (entry_of (enq_audit q)) (a\<lparr>ac_db := d\<rparr>), [enq_run q]))"

definition scanCreate :: "scan_env \<Rightarrow> env \<Rightarrow> request \<Rightarrow> accounts \<Rightarrow> outcome \<times> pending_run list" where
  "scanCreate w e rq a = sessionScans e rq (\<lambda>s a.
     if \<not> verifySessionCSRF rq s then no_runs (respond (Status 403) a)
     else if \<not> rq_form_ok rq then no_runs (respond (Status 400) a)
     else (case scanInputFromForm (trimmed_form (rq_form rq)) of Inl msg \<Rightarrow> no_runs (respond (Page ''scan_new.html'' msg) a)
      | Inr inp \<Rightarrow>
        triggered e (inp\<lparr>ji_RequestedBy := Some (User_ID (Session_User s))\<rparr>)
          (\<lambda>err. Page ''scan_new.html'' (if err = StoreError ErrNotFound then ''Select a registered agent.'' else out_error (sf_out w) err)) a)) a"

text \<open>\<open>url.QueryEscape\<close>, and the redirect that carries a message.\<close>

definition query_hex :: "nat \<Rightarrow> char" where
  "query_hex n = ''0123456789ABCDEF'' ! n"

definition query_plain :: "char \<Rightarrow> bool" where
  "query_plain c \<longleftrightarrow> is_digit c \<or> (65 \<le> byte c \<and> byte c \<le> 90) \<or> (97 \<le> byte c \<and> byte c \<le> 122) \<or> c \<in> set ''-_.~''"

fun QueryEscape :: "string \<Rightarrow> string" where
  "QueryEscape [] = []"
| "QueryEscape (c # s) =
    (if query_plain c then [c] else if c = CHR '' '' then ''+''
     else [CHR ''%'', query_hex (byte c div 16), query_hex (byte c mod 16)]) @ QueryEscape s"

definition redirectAgents :: "string \<Rightarrow> reply" where
  "redirectAgents msg = Redirect (if msg = [] then ''/agents'' else ''/agents?error='' @ QueryEscape msg)"

definition agentDiscover :: "scan_env \<Rightarrow> env \<Rightarrow> request \<Rightarrow> accounts \<Rightarrow> outcome \<times> pending_run list" where
  "agentDiscover w e rq a = sessionScans e rq (\<lambda>s a.
     if \<not> verifySessionCSRF rq s then no_runs (respond (Status 403) a)
     else (case ValidateAgentEndpoint (sf_url w) (rq_form rq ''endpoint_url'') of
        Inl msg \<Rightarrow> no_runs (respond (redirectAgents msg) a)
      | Inr endpoint \<Rightarrow>
        (case DiscoverAgent (sf_out w) (ev_dbnow e) (ev_id e) endpoint (ac_db a) of
           Inl _ \<Rightarrow> no_runs (respond (redirectAgents ''Couldn't reach an agent at that address. Check the URL and that the agent is running.'') a)
         | Inr (agent, created, au, d) \<Rightarrow>
           no_runs \<lparr>oc_reply = Redirect ''/agents'', oc_cookies = [],
             oc_audit = map entry_of au @
               (if created then [log_entry (Some (User_ID (Session_User s))) ''scan.agent.discovered'' ''scan_agent'' (Agent_ID agent)] else []),
             oc_settings = None, oc_accounts = a\<lparr>ac_db := d\<rparr>\<rparr>))) a"

definition agentApprove :: "env \<Rightarrow> request \<Rightarrow> accounts \<Rightarrow> outcome \<times> pending_run list" where
  "agentApprove e rq a = loadAgentPage e rq (\<lambda>s agent a.
     if \<not> verifySessionCSRF rq s then no_runs (respond (Status 403) a)
     else (case SetScanAgentStatus (ev_dbnow e) (Agent_ID agent) ''active'' (ac_db a) of
        Inl _ \<Rightarrow> no_runs (respond (Status 500) a)
      | Inr d \<Rightarrow> no_runs (changed ''/agents'' s ''scan.agent.approved'' ''scan_agent'' (Agent_ID agent) d a))) a"

definition agentCreate :: "scan_env \<Rightarrow> env \<Rightarrow> request \<Rightarrow> accounts \<Rightarrow> outcome \<times> pending_run list" where
  "agentCreate w e rq a = sessionScans e rq (\<lambda>s a.
     if \<not> verifySessionCSRF rq s then no_runs (respond (Status 403) a)
     else (case agentInputFromRequest w rq of Inl msg \<Rightarrow> no_runs (respond (Page ''agent_form.html'' msg) a)
      | Inr inp \<Rightarrow>
        (case CreateScanAgent (ev_dbnow e) (ev_id e) inp (ac_db a) of
           Inl _ \<Rightarrow> no_runs (respond (Page ''agent_form.html'' ''Unable to register agent.'') a)
         | Inr (agent, d) \<Rightarrow> no_runs (changed ''/agents'' s ''scan.agent.created'' ''scan_agent'' (Agent_ID agent) d a)))) a"

definition agentUpdate :: "scan_env \<Rightarrow> env \<Rightarrow> request \<Rightarrow> accounts \<Rightarrow> outcome \<times> pending_run list" where
  "agentUpdate w e rq a = loadAgentPage e rq (\<lambda>s agent a.
     if \<not> verifySessionCSRF rq s then no_runs (respond (Status 403) a)
     else (case agentInputFromRequest w rq of Inl msg \<Rightarrow> no_runs (respond (Page ''agent_form.html'' msg) a)
      | Inr inp \<Rightarrow>
        (case UpdateScanAgent (ev_dbnow e) (Agent_ID agent) inp (ac_db a) of
           Inl _ \<Rightarrow> no_runs (respond (Page ''agent_form.html'' ''Unable to update agent.'') a)
         | Inr (updated, d) \<Rightarrow> no_runs (changed ''/agents'' s ''scan.agent.updated'' ''scan_agent'' (Agent_ID updated) d a)))) a"

definition agentDelete :: "env \<Rightarrow> request \<Rightarrow> accounts \<Rightarrow> outcome \<times> pending_run list" where
  "agentDelete e rq a = loadAgentPage e rq (\<lambda>s agent a.
     if \<not> verifySessionCSRF rq s then no_runs (respond (Status 403) a)
     else (case DeleteScanAgent (Agent_ID agent) (ac_db a) of
        Inl _ \<Rightarrow> no_runs (respond (Status 500) a)
      | Inr d \<Rightarrow> no_runs (changed ''/agents'' s ''scan.agent.deleted'' ''scan_agent'' (Agent_ID agent) d a))) a"

definition job_of_schedule_input :: "ScanScheduleInput \<Rightarrow> ScanJobInput" where
  "job_of_schedule_input inp =
    \<lparr>ji_AgentID = ci_AgentID inp, ji_ScheduleID = None, ji_RequestedBy = None, ji_ScanType = ci_ScanType inp, ji_Mode = ci_Mode inp,
     ji_AllowedCIDRs = ci_AllowedCIDRs inp, ji_Targets = ci_Targets inp, ji_TimeoutSeconds = ci_TimeoutSeconds inp\<rparr>"

definition validateScheduleAgentScope :: "scan_env \<Rightarrow> time \<Rightarrow> ScanScheduleInput \<Rightarrow> db \<Rightarrow> string option" where
  "validateScheduleAgentScope w clock inp d =
    map_option (\<lambda>err. if err = StoreError ErrNotFound then ''Select a registered agent.'' else out_error (sf_out w) err)
      (ValidateScope clock (job_of_schedule_input inp) d)"

definition scheduleCreate :: "scan_env \<Rightarrow> env \<Rightarrow> request \<Rightarrow> accounts \<Rightarrow> outcome \<times> pending_run list" where
  "scheduleCreate w e rq a = sessionScans e rq (\<lambda>s a.
     if \<not> verifySessionCSRF rq s then no_runs (respond (Status 403) a)
     else (case scheduleInputFromRequest w rq of Inl msg \<Rightarrow> no_runs (respond (Page ''schedule_form.html'' msg) a)
      | Inr inp \<Rightarrow>
        (case validateScheduleAgentScope w (ev_now e) inp (ac_db a) of
           Some msg \<Rightarrow> no_runs (respond (Page ''schedule_form.html'' msg) a)
         | None \<Rightarrow>
           (case CreateScanSchedule (ev_now e) (ev_dbnow e) (ev_id e) inp (ac_db a) of
              Inl _ \<Rightarrow> no_runs (respond (Page ''schedule_form.html'' ''Unable to create schedule.'') a)
            | Inr (sched, d) \<Rightarrow> no_runs (changed ''/schedules'' s ''scan.schedule.created'' ''scan_schedule'' (Sched_ID sched) d a))))) a"

definition scheduleUpdate :: "scan_env \<Rightarrow> env \<Rightarrow> request \<Rightarrow> accounts \<Rightarrow> outcome \<times> pending_run list" where
  "scheduleUpdate w e rq a = loadSchedulePage e rq (\<lambda>s sched a.
     if \<not> verifySessionCSRF rq s then no_runs (respond (Status 403) a)
     else (case scheduleInputFromRequest w rq of Inl msg \<Rightarrow> no_runs (respond (Page ''schedule_form.html'' msg) a)
      | Inr inp \<Rightarrow>
        (case validateScheduleAgentScope w (ev_now e) inp (ac_db a) of
           Some msg \<Rightarrow> no_runs (respond (Page ''schedule_form.html'' msg) a)
         | None \<Rightarrow>
           (case UpdateScanSchedule (ev_dbnow e) (Sched_ID sched) inp (ac_db a) of
              Inl _ \<Rightarrow> no_runs (respond (Page ''schedule_form.html'' ''Unable to update schedule.'') a)
            | Inr (updated, d) \<Rightarrow> no_runs (changed ''/schedules'' s ''scan.schedule.updated'' ''scan_schedule'' (Sched_ID updated) d a))))) a"

definition scheduleRunNow :: "scan_env \<Rightarrow> env \<Rightarrow> request \<Rightarrow> accounts \<Rightarrow> outcome \<times> pending_run list" where
  "scheduleRunNow w e rq a = loadSchedulePage e rq (\<lambda>s sched a.
     if \<not> verifySessionCSRF rq s then no_runs (respond (Status 403) a)
     else triggered e ((schedule_input sched)\<lparr>ji_RequestedBy := Some (User_ID (Session_User s))\<rparr>) (\<lambda>_. Redirect ''/schedules'') a) a"

definition scheduleDelete :: "env \<Rightarrow> request \<Rightarrow> accounts \<Rightarrow> outcome \<times> pending_run list" where
  "scheduleDelete e rq a = loadSchedulePage e rq (\<lambda>s sched a.
     if \<not> verifySessionCSRF rq s then no_runs (respond (Status 403) a)
     else (case DeleteScanSchedule (Sched_ID sched) (ac_db a) of
        Inl _ \<Rightarrow> no_runs (respond (Status 500) a)
      | Inr d \<Rightarrow> no_runs (changed ''/schedules'' s ''scan.schedule.deleted'' ''scan_schedule'' (Sched_ID sched) d a))) a"

end
