(* ===== verification/ReviewForms.thy ===== *)
theory ReviewForms
  imports ScanForms
begin

text \<open>
  The pages of the review queue (\<open>internal/app/discoveries.go\<close>): which subnet is proposed for a host that lies in no
  managed one, and the handlers that import and dismiss discoveries and create the proposed subnets.
\<close>

section \<open>Which subnet a host needs\<close>

text \<open>One round of the loop over the targets of the scan: a target that is a network around the host and more specific
  than the best so far replaces it.\<close>

definition better_target :: "addr \<Rightarrow> netprefix option \<Rightarrow> string \<Rightarrow> netprefix option" where
  "better_target a best t =
    (case ParsePrefix (TrimSpace t) of
       None \<Rightarrow> best
     | Some p \<Rightarrow>
       if \<not> Is4 (Prefix_Addr p) \<or> 32 \<le> Bits p then best
       else let q = Masked p in
         if \<not> Prefix_Contains q a then best
         else (case best of None \<Rightarrow> Some q | Some b \<Rightarrow> if Bits b < Bits q then Some q else best))"

definition containingTargetCIDR :: "addr \<Rightarrow> string list \<Rightarrow> string option" where
  "containingTargetCIDR a targets = map_option Prefix_String (foldl (better_target a) None targets)"

definition suggestSubnetCIDR :: "string \<Rightarrow> string list \<Rightarrow> string option" where
  "suggestSubnetCIDR ip scannedTargets =
    (case ParseAddr ip of
       None \<Rightarrow> None
     | Some a \<Rightarrow>
       if \<not> Is4 a then None
       else (case containingTargetCIDR a scannedTargets of
          Some cidr \<Rightarrow> Some cidr
        | None \<Rightarrow> Some (Prefix_String (Masked (PrefixFrom a 24)))))"

record missingSubnet =
  ms_CIDR :: string
  ms_RepIP :: string
  ms_VLAN :: int
  ms_Count :: nat

definition count_host :: "DiscoveryImportTarget \<Rightarrow> string \<Rightarrow> missingSubnet \<Rightarrow> missingSubnet" where
  "count_host t cidr g =
    (if ms_CIDR g \<noteq> cidr then g
     else g\<lparr>ms_VLAN := (if ms_VLAN g = 0 then it_VLAN t else ms_VLAN g), ms_Count := ms_Count g + 1\<rparr>)"

definition add_missing :: "missingSubnet list \<Rightarrow> DiscoveryImportTarget \<Rightarrow> missingSubnet list" where
  "add_missing groups t =
    (if it_HasSubnet t then groups
     else (case suggestSubnetCIDR (it_IP t) (it_ScannedTargets t) of
        None \<Rightarrow> groups
      | Some cidr \<Rightarrow>
        map (count_host t cidr)
          (if cidr \<in> set (map ms_CIDR groups) then groups
           else groups @ [\<lparr>ms_CIDR = cidr, ms_RepIP = it_IP t, ms_VLAN = it_VLAN t, ms_Count = 0\<rparr>])))"

text \<open>\<open>Addr.Less\<close> on the networks of the groups.\<close>

definition network_key :: "missingSubnet \<Rightarrow> nat" where
  "network_key g =
    (case ParsePrefix (ms_CIDR g) of
       None \<Rightarrow> 0
     | Some p \<Rightarrow> (case Prefix_Addr p of A4 w \<Rightarrow> unat w | A6 w _ \<Rightarrow> 2 ^ 32 + unat w))"

text \<open>The groups are the values of a Go map, enumerated in any order (\<open>order\<close>) and then sorted by network.\<close>

definition missingSubnetGroups :: "(missingSubnet list \<Rightarrow> missingSubnet list) \<Rightarrow> DiscoveryImportTarget list \<Rightarrow> missingSubnet list" where
  "missingSubnetGroups order targets = sort_key network_key (order (foldl add_missing [] targets))"

section \<open>The prompt for a missing subnet\<close>

definition subnetPromptForm :: "string \<Rightarrow> int \<Rightarrow> form" where
  "subnetPromptForm cidr vlan =
    (\<lambda>_. [])(''cidr'' := cidr, ''site_id'' := ''default'', ''vlan'' := (if 0 < vlan then itoa vlan else []))"

definition discoveryScanTargets :: "string \<Rightarrow> db \<Rightarrow> string list" where
  "discoveryScanTargets jobID d =
    (if jobID = [] then [] else (case GetScanJob jobID d of Inl _ \<Rightarrow> [] | Inr job \<Rightarrow> Job_Targets job))"

text \<open>The flow, the discovery, the host and the form the page opens with.\<close>

definition resolveOnePrompt :: "string \<Rightarrow> db \<Rightarrow> (string \<times> string \<times> string \<times> form) option" where
  "resolveOnePrompt key d =
    (case GetDiscovery key d of
       Inl _ \<Rightarrow> None
     | Inr x \<Rightarrow>
       map_option (\<lambda>cidr. (''import-one'', dy_ID x, dy_IP x, subnetPromptForm cidr (dy_VLAN x)))
         (suggestSubnetCIDR (dy_IP x) (discoveryScanTargets (dy_JobID x) d)))"

definition resolveAllPrompt :: "(missingSubnet list \<Rightarrow> missingSubnet list) \<Rightarrow> db \<Rightarrow> (string \<times> string \<times> string \<times> form) option" where
  "resolveAllPrompt order d =
    (case missingSubnetGroups order (ListPendingImportTargets d) of
       [] \<Rightarrow> None
     | g # _ \<Rightarrow> Some (''import-all'', [], ms_RepIP g, subnetPromptForm (ms_CIDR g) (ms_VLAN g)))"

section \<open>Handlers\<close>

text \<open>The random values and times the imports of one request draw, one after another, and the order of the map.\<close>

record review_env =
  rv_form :: form_env
  rv_draws :: "nat \<Rightarrow> draws"
  rv_order :: "missingSubnet list \<Rightarrow> missingSubnet list"

definition linkImported :: "draws \<Rightarrow> string \<Rightarrow> db \<Rightarrow> entry list \<times> db" where
  "linkImported dr deviceID d =
    (if deviceID = [] then ([], d)
     else (case AutoLinkDeviceBySerial (dr_now dr) (dr_link dr) deviceID d of
        Inl _ \<Rightarrow> ([], d)
      | Inr (others, d') \<Rightarrow> (if others \<noteq> [] then [log_entry None ''device.link.auto'' ''device'' deviceID] else [], d')))"

text \<open>An import with its audit entry and the automatic link that follows it.\<close>

definition import_one :: "pg \<Rightarrow> draws \<Rightarrow> Session \<Rightarrow> string \<Rightarrow> string \<Rightarrow> db \<Rightarrow> store_error + (entry list \<times> db)" where
  "import_one g dr s key name d =
    bind_res (ImportDiscovery g (dr_now dr) (dr_device dr) (dr_mac dr) (dr_address dr) key name d) (\<lambda>(x, d1).
      let (es, d2) = linkImported dr (dy_ImportedDeviceID x) d1 in
      Inr (log_entry (Some (User_ID (Session_User s))) ''scan.discovery.imported'' ''ip_address'' (dy_ImportedAddressID x) # es, d2))"

text \<open>The loop over the targets: the number of imports and the error that stopped it, the audit entries, the database.\<close>

fun importTargets :: "pg \<Rightarrow> Session \<Rightarrow> (DiscoveryImportTarget \<times> draws) list \<Rightarrow> nat \<Rightarrow> db \<Rightarrow> (nat \<times> store_error option) \<times> entry list \<times> db" where
  "importTargets g s [] count d = ((count, None), [], d)"
| "importTargets g s ((t, dr) # ts) count d =
    (if \<not> it_HasSubnet t then importTargets g s ts count d
     else (case import_one g dr s (it_ID t) [] d of
        Inl err \<Rightarrow> if err = ErrNoContainingSubnet then importTargets g s ts count d else ((count, Some err), [], d)
      | Inr (es, d1) \<Rightarrow> let (r, es', d2) = importTargets g s ts (count + 1) d1 in (r, es @ es', d2)))"

definition answered :: "reply \<Rightarrow> entry list \<Rightarrow> db \<Rightarrow> accounts \<Rightarrow> outcome" where
  "answered r es d a = \<lparr>oc_reply = r, oc_cookies = [], oc_audit = es, oc_settings = None, oc_accounts = a\<lparr>ac_db := d\<rparr>\<rparr>"

definition resolve_one :: "string \<Rightarrow> reply" where
  "resolve_one key = Redirect (''/discoveries?resolve_one='' @ QueryEscape key)"

definition discoveryImport :: "review_env \<Rightarrow> env \<Rightarrow> request \<Rightarrow> accounts \<Rightarrow> fields \<Rightarrow> outcome \<times> fields" where
  "discoveryImport w e rq a fs = sessionFields e rq (\<lambda>s a.
     if \<not> verifySessionCSRF rq s then (respond (Status 403) a, fs)
     else (case import_one (fe_pg (rv_form w)) (rv_draws w 0) s (rq_id rq) (TrimSpace (rq_form rq ''device_name'')) (ac_db a) of
        Inl err \<Rightarrow> (respond (if err = ErrNoContainingSubnet then resolve_one (rq_id rq) else load_error err) a, fs)
      | Inr (es, d) \<Rightarrow> (answered (Redirect ''/discoveries?imported=1'') es d a, fs))) a fs"

text \<open>What both ways to import everything do: ask for the next missing subnet, or import.\<close>

definition import_ready :: "review_env \<Rightarrow> Session \<Rightarrow> entry list \<Rightarrow> DiscoveryImportTarget list \<Rightarrow> db \<Rightarrow> accounts \<Rightarrow> outcome" where
  "import_ready w s es targets d a =
    (if missingSubnetGroups (rv_order w) targets \<noteq> [] then answered (Redirect ''/discoveries?resolve=1'') es d a
     else (case importTargets (fe_pg (rv_form w)) s (zip targets (map (rv_draws w) [0..<length targets])) 0 d of
        ((count, Some _), es', d') \<Rightarrow> answered (Status 500) (es @ es') d' a
      | ((count, None), es', d') \<Rightarrow> answered (Redirect (''/discoveries?imported='' @ itoa (int count))) (es @ es') d' a))"

definition discoveriesImportAll :: "review_env \<Rightarrow> env \<Rightarrow> request \<Rightarrow> accounts \<Rightarrow> fields \<Rightarrow> outcome \<times> fields" where
  "discoveriesImportAll w e rq a fs = sessionFields e rq (\<lambda>s a.
     if \<not> verifySessionCSRF rq s then (respond (Status 403) a, fs)
     else let targets = ListPendingImportTargets (ac_db a) in
       if targets = [] then (respond (Redirect (''/discoveries?error='' @
         QueryEscape ''There are no discoveries ready to import. Conflicts are reviewed one at a time.'')) a, fs)
       else (import_ready w s [] targets (ac_db a) a, fs)) a fs"

text \<open>The UTF-8 encoding of the right single quotation mark.\<close>

definition right_quote :: string where "right_quote = [CHR 0xE2, CHR 0x80, CHR 0x99]"

definition discoverySubnetCreate :: "review_env \<Rightarrow> env \<Rightarrow> request \<Rightarrow> accounts \<Rightarrow> fields \<Rightarrow> outcome \<times> fields" where
  "discoverySubnetCreate w e rq a fs = sessionFields e rq (\<lambda>s a.
     if \<not> verifySessionCSRF rq s then (respond (Status 403) a, fs)
     else
      let discoveryID = TrimSpace (rq_form rq ''discovery_id''); targetIP = TrimSpace (rq_form rq ''target_ip'') in
      (case subnetInputFromRequest (rv_form w) rq of
         Inl msg \<Rightarrow> (respond (Page ''discoveries.html'' msg) a, fs)
       | Inr inp \<Rightarrow>
         if targetIP \<noteq> [] \<and> Ipam.Contains (si_CIDR inp) targetIP = Inr False
         then (respond (Page ''discoveries.html'' (''That subnet doesn'' @ right_quote @ ''t contain '' @ targetIP @ '' '' @ em_dash @
           '' widen the range so it does.'')) a, fs)
         else (case CreateSubnet (fe_pg (rv_form w)) (ev_dbnow e) (ev_id e) inp (ac_db a) of
            (Inl err, d) \<Rightarrow> (respond (Page ''discoveries.html'' (subnetError err)) (a\<lparr>ac_db := d\<rparr>), fs)
          | (Inr subnet, d) \<Rightarrow>
            let es = [log_entry (Some (User_ID (Session_User s))) ''subnet.created'' ''subnet'' (su_ID subnet)] in
            (if rq_form rq ''flow'' \<noteq> ''import-one'' then import_ready w s es (ListPendingImportTargets d) d a
             else if discoveryID = [] then answered (Redirect ''/discoveries?imported=1'') es d a
             else (case import_one (fe_pg (rv_form w)) (rv_draws w 0) s discoveryID [] d of
                Inl err \<Rightarrow> answered (if err = ErrNoContainingSubnet then resolve_one discoveryID else Status 500) es d a
              | Inr (es', d') \<Rightarrow> answered (Redirect ''/discoveries?imported=1'') (es @ es') d' a),
             saveCustomFieldValues e (fe_post (rv_form w)) CustomFieldSubnet (su_ID subnet) fs)))) a fs"

definition discoveryDismiss :: "review_env \<Rightarrow> env \<Rightarrow> request \<Rightarrow> accounts \<Rightarrow> fields \<Rightarrow> outcome \<times> fields" where
  "discoveryDismiss w e rq a fs = sessionFields e rq (\<lambda>s a.
     if \<not> verifySessionCSRF rq s then (respond (Status 403) a, fs)
     else (case DismissDiscovery (ev_dbnow e) (rq_id rq) (ac_db a) of
        Inl err \<Rightarrow> (respond (load_error err) a, fs)
      | Inr d \<Rightarrow> (changed ''/discoveries'' s ''scan.discovery.dismissed'' ''scan_discovery'' (rq_id rq) d a, fs))) a fs"

end
