(* ===== verification/ReviewLaws.thy ===== *)
theory ReviewLaws
  imports ReviewForms "HOL-Library.Multiset"
begin

text \<open>
  What the proposals of the review queue are worth: the proposed subnet is the most specific network that was scanned
  around the host, the hosts without a subnet are grouped exactly by their proposal, and once the proposed subnet exists
  the import can no longer fail for want of one.
\<close>

section \<open>The proposal for one host\<close>

text \<open>The networks among the targets of a scan that contain the host.\<close>

definition net_of :: "addr \<Rightarrow> string \<Rightarrow> netprefix list" where
  "net_of a t = (case ParsePrefix (TrimSpace t) of None \<Rightarrow> []
     | Some p \<Rightarrow> if Is4 (Prefix_Addr p) \<and> Bits p < 32 \<and> Prefix_Contains p a then [p] else [])"

definition scanned_nets :: "addr \<Rightarrow> string list \<Rightarrow> netprefix list" where
  "scanned_nets a targets = concat (map (net_of a) targets)"

definition best_net :: "netprefix option \<Rightarrow> netprefix list \<Rightarrow> bool" where
  "best_net best ps \<longleftrightarrow>
    (case best of None \<Rightarrow> ps = [] | Some b \<Rightarrow> (\<exists>p\<in>set ps. b = Masked p) \<and> (\<forall>p\<in>set ps. Bits p \<le> Bits b))"

lemma better_target_step: "best_net best ps \<Longrightarrow> best_net (better_target a best t) (ps @ net_of a t)"
  by (cases best; cases "ParsePrefix (TrimSpace t)") (fastforce simp: better_target_def net_of_def best_net_def Let_def)+

lemma better_target_fold: "best_net best ps \<Longrightarrow> best_net (foldl (better_target a) best ts) (ps @ scanned_nets a ts)"
proof (induction ts arbitrary: best ps)
  case (Cons t ts)
  show ?case using Cons.IH [OF better_target_step [OF Cons.prems, of a t]] by (simp add: scanned_nets_def)
qed (simp add: scanned_nets_def)

lemma containing_best: "best_net (foldl (better_target a) None ts) (scanned_nets a ts)"
  using better_target_fold [where best = None and ps = "[]" and a = a and ts = ts] by (simp add: best_net_def)

lemma suggestSubnetCIDR_host: "suggestSubnetCIDR ip ts = Some c \<Longrightarrow> \<exists>w. ParseAddr ip = Some (A4 w) \<and> ip = v4_string w"
  using ParseAddr_A4_canon by (auto simp: suggestSubnetCIDR_def Is4_iff split: option.splits if_splits)

lemma suggestSubnetCIDR_cases:
  assumes "suggestSubnetCIDR ip ts = Some c"
  obtains w p where "ParseAddr ip = Some (A4 w)" "c = Prefix_String (Masked p)" "Is4 (Prefix_Addr p)" "wf_prefix p"
    "Prefix_Contains p (A4 w)"
    "p \<in> set (scanned_nets (A4 w) ts) \<and> (\<forall>q\<in>set (scanned_nets (A4 w) ts). Bits q \<le> Bits p) \<or>
     scanned_nets (A4 w) ts = [] \<and> p = PrefixFrom (A4 w) 24"
proof -
  obtain w where w: "ParseAddr ip = Some (A4 w)" using suggestSubnetCIDR_host [OF assms] by blast
  note best = containing_best [of "A4 w" ts]
  show thesis
  proof (cases "foldl (better_target (A4 w)) None ts")
    case None
    then have "scanned_nets (A4 w) ts = []" "c = Prefix_String (Masked (PrefixFrom (A4 w) 24))"
      using assms best w by (simp_all add: suggestSubnetCIDR_def containingTargetCIDR_def best_net_def)
    then show thesis by (intro that [of w "PrefixFrom (A4 w) 24", OF w]) (simp_all add: wf_prefix_def)
  next
    case (Some x)
    then obtain p where p: "c = Prefix_String (Masked p)" "p \<in> set (scanned_nets (A4 w) ts)"
      "\<forall>q\<in>set (scanned_nets (A4 w) ts). Bits q \<le> Bits p"
      using assms best w by (auto simp: suggestSubnetCIDR_def containingTargetCIDR_def best_net_def)
    then have "Is4 (Prefix_Addr p)" "Prefix_Contains p (A4 w)" "wf_prefix p"
      using ParsePrefix_wf by (auto simp: scanned_nets_def net_of_def split: option.splits if_splits)
    then show thesis using that [OF w p(1)] p by blast
  qed
qed

text \<open>C17: the subnet proposed for a host is a canonical IPv4 network that contains the host.  When networks around the host
  were scanned it is one of them, and none of them is more specific; otherwise it is the host's /24.\<close>

theorem suggestSubnetCIDR_best:
  assumes "suggestSubnetCIDR ip targets = Some c"
  shows "NormalizeCIDR c = Inr c \<and> Ipam.Contains c ip = Inr True \<and>
    (\<exists>w p. ip = v4_string w \<and> c = Prefix_String (Masked p) \<and>
      (p \<in> set (scanned_nets (A4 w) targets) \<and> (\<forall>q\<in>set (scanned_nets (A4 w) targets). Bits q \<le> Bits p) \<or>
       scanned_nets (A4 w) targets = [] \<and> p = PrefixFrom (A4 w) 24))"
  using assms
proof (cases rule: suggestSubnetCIDR_cases)
  case (1 w p)
  obtain v b where p: "p = PrefixFrom (A4 v) b" "b \<le> 32" using valid4_iff [of p] 1(3,4) by (auto simp: valid4_def)
  then have "ParsePrefix c = Some (Masked p)" using 1(2) by (simp add: ParsePrefix_A4_iff Prefix_String_A4)
  then have "NormalizeCIDR c = Inr c" "Ipam.Contains c ip = Inr True"
    using 1 by (simp_all add: NormalizeCIDR_def Contains_def)
  moreover have "ip = v4_string w" using suggestSubnetCIDR_host [OF assms] 1(1) by auto
  ultimately show ?thesis using 1(2,6) by blast
qed

theorem suggestSubnetCIDR_best_witness:
  "suggestSubnetCIDR ''192.168.0.9'' [''192.168.0.0/16'', '' 192.168.0.0/28'', ''192.168.0.9'', ''192.168.0.9/32'', ''10.0.0.0/8''] =
     Some ''192.168.0.0/28'' \<and> Ipam.Contains ''192.168.0.0/28'' ''192.168.0.9'' = Inr True"
proof -
  have s: "suggestSubnetCIDR ''192.168.0.9'' [''192.168.0.0/16'', '' 192.168.0.0/28'', ''192.168.0.9'', ''192.168.0.9/32'', ''10.0.0.0/8''] =
     Some ''192.168.0.0/28''" by code_simp
  from suggestSubnetCIDR_best [OF s] s show ?thesis by blast
qed

section \<open>The proposals for all hosts\<close>

definition wanted :: "DiscoveryImportTarget \<Rightarrow> string \<Rightarrow> bool" where
  "wanted t c \<longleftrightarrow> \<not> it_HasSubnet t \<and> suggestSubnetCIDR (it_IP t) (it_ScannedTargets t) = Some c"

definition group_of :: "DiscoveryImportTarget list \<Rightarrow> missingSubnet \<Rightarrow> bool" where
  "group_of ts g \<longleftrightarrow> ms_Count g = length (filter (\<lambda>t. wanted t (ms_CIDR g)) ts) \<and> (\<exists>t\<in>set ts. wanted t (ms_CIDR g) \<and> ms_RepIP g = it_IP t)"

definition grouped :: "DiscoveryImportTarget list \<Rightarrow> missingSubnet list \<Rightarrow> bool" where
  "grouped ts gs \<longleftrightarrow> distinct (map ms_CIDR gs) \<and> set (map ms_CIDR gs) = {c. \<exists>t\<in>set ts. wanted t c} \<and> (\<forall>g\<in>set gs. group_of ts g)"

lemma count_host_CIDR [simp]: "ms_CIDR (count_host t c g) = ms_CIDR g" "ms_RepIP (count_host t c g) = ms_RepIP g"
  by (simp_all add: count_host_def)

lemma add_missing_other: "\<forall>c. \<not> wanted t c \<Longrightarrow> add_missing gs t = gs"
  by (auto simp: add_missing_def wanted_def split: option.split)

lemma add_missing_wanted:
  "wanted t c \<Longrightarrow> add_missing gs t = map (count_host t c)
     (if c \<in> set (map ms_CIDR gs) then gs else gs @ [\<lparr>ms_CIDR = c, ms_RepIP = it_IP t, ms_VLAN = it_VLAN t, ms_Count = 0\<rparr>])"
  by (simp add: add_missing_def wanted_def)

lemma group_of_more:
  assumes "group_of ts g" "wanted t c"
  shows "group_of (ts @ [t]) (count_host t c g)"
proof -
  have "wanted t (ms_CIDR g) \<longleftrightarrow> ms_CIDR g = c" using assms(2) by (auto simp: wanted_def)
  then show ?thesis using assms(1) by (auto simp: group_of_def count_host_def)
qed

lemma add_missing_grouped:
  assumes "grouped ts gs"
  shows "grouped (ts @ [t]) (add_missing gs t)"
proof (cases "\<exists>c. wanted t c")
  case False
  then have "grouped (ts @ [t]) gs" using assms by (auto simp: grouped_def group_of_def)
  then show ?thesis using False by (simp add: add_missing_other)
next
  case True
  then obtain c where c: "wanted t c" by blast
  have only: "wanted t c' \<longleftrightarrow> c' = c" for c' using c by (auto simp: wanted_def)
  let ?new = "\<lparr>ms_CIDR = c, ms_RepIP = it_IP t, ms_VLAN = it_VLAN t, ms_Count = 0\<rparr>"
  have g: "distinct (map ms_CIDR gs)" "set (map ms_CIDR gs) = {c. \<exists>t\<in>set ts. wanted t c}" "\<forall>g\<in>set gs. group_of ts g"
    using assms by (simp_all add: grouped_def)
  have old: "\<forall>g\<in>set gs. group_of (ts @ [t]) (count_host t c g)" using g(3) group_of_more c by blast
  have names: "map ms_CIDR (map (count_host t c) hs) = map ms_CIDR hs" for hs by simp
  show ?thesis
  proof (cases "c \<in> set (map ms_CIDR gs)")
    case True
    then have a: "add_missing gs t = map (count_host t c) gs" using add_missing_wanted [OF c, of gs] by simp
    moreover have "{c'. \<exists>t'\<in>set (ts @ [t]). wanted t' c'} = set (map ms_CIDR gs)" using True g(2) by (auto simp: only)
    ultimately show ?thesis using g(1) old unfolding grouped_def a names by auto
  next
    case False
    then have a: "add_missing gs t = map (count_host t c) (gs @ [?new])" using add_missing_wanted [OF c, of gs] by simp
    have "\<forall>t'\<in>set ts. \<not> wanted t' c" using False g(2) by auto
    then have "filter (\<lambda>t'. wanted t' c) ts = []" by (simp add: filter_empty_conv)
    then have new: "group_of (ts @ [t]) (count_host t c ?new)" using c by (simp add: group_of_def count_host_def)
    have "{c'. \<exists>t'\<in>set (ts @ [t]). wanted t' c'} = insert c (set (map ms_CIDR gs))" using g(2) by (auto simp: only)
    then show ?thesis using g(1) old new False unfolding grouped_def a names by auto
  qed
qed

lemma all_grouped: "grouped ts (foldl add_missing [] ts)"
proof (induction ts rule: rev_induct)
  case (snoc t ts)
  then show ?case using add_missing_grouped by simp
qed (simp add: grouped_def)

text \<open>C16: Importing everything asks for exactly the subnets that are missing: whatever the order in which the map is walked,
  each proposal of a host without a subnet appears once, in the order of the networks, with the number of hosts that need
  it and one of them as its example.  (Hypothesis: \<open>order\<close> enumerates the values of the map.)\<close>

theorem missingSubnetGroups_exact:
  assumes "\<forall>gs. mset (order gs) = mset gs"
  shows "grouped ts (missingSubnetGroups order ts) \<and> sorted (map network_key (missingSubnetGroups order ts))"
proof -
  let ?gs = "foldl add_missing [] ts" and ?G = "missingSubnetGroups order ts"
  have m: "mset ?G = mset ?gs" using assms unfolding missingSubnetGroups_def mset_sort by blast
  then have "mset (map ms_CIDR ?G) = mset (map ms_CIDR ?gs)" by simp
  then have "distinct (map ms_CIDR ?G) = distinct (map ms_CIDR ?gs)" by (rule mset_eq_imp_distinct_iff)
  moreover have "set ?G = set ?gs" using m by (rule mset_eq_setD)
  ultimately have "grouped ts ?G" using all_grouped [of ts] by (simp add: grouped_def)
  then show ?thesis by (simp add: missingSubnetGroups_def)
qed

definition demo_targets :: "DiscoveryImportTarget list" where
  "demo_targets =
    [\<lparr>it_ID = ''x1'', it_IP = ''10.0.0.1'', it_VLAN = 0, it_HasSubnet = True, it_ScannedTargets = []\<rparr>,
     \<lparr>it_ID = ''x2'', it_IP = ''192.168.0.9'', it_VLAN = 0, it_HasSubnet = False, it_ScannedTargets = [''192.168.0.0/28'']\<rparr>,
     \<lparr>it_ID = ''x3'', it_IP = ''172.16.0.5'', it_VLAN = 0, it_HasSubnet = False, it_ScannedTargets = []\<rparr>,
     \<lparr>it_ID = ''x4'', it_IP = ''192.168.0.10'', it_VLAN = 7, it_HasSubnet = False, it_ScannedTargets = [''192.168.0.0/28'']\<rparr>]"

theorem missingSubnetGroups_exact_witness:
  "map (\<lambda>g. (ms_CIDR g, ms_VLAN g, ms_Count g)) (missingSubnetGroups rev demo_targets) = [(''172.16.0.0/24'', 0, 1), (''192.168.0.0/28'', 7, 2)] \<and>
   grouped demo_targets (missingSubnetGroups rev demo_targets)"
proof -
  have "map (\<lambda>g. (ms_CIDR g, ms_VLAN g, ms_Count g)) (missingSubnetGroups rev demo_targets) = [(''172.16.0.0/24'', 0, 1), (''192.168.0.0/28'', 7, 2)]"
    by code_simp
  with missingSubnetGroups_exact [where order = rev and ts = demo_targets] show ?thesis by simp
qed

text \<open>Two hosts of one network, one scanned in a /28 and one by its address alone, lead to proposals that overlap: once the
  first subnet exists, the second proposal is refused as it stands.\<close>

lemma proposals_may_overlap:
  "\<exists>ts. map ms_CIDR (missingSubnetGroups id ts) = [''192.168.0.0/28'', ''192.168.0.0/24'']"
  by (rule exI [of _ "[\<lparr>it_ID = ''x1'', it_IP = ''192.168.0.9'', it_VLAN = 0, it_HasSubnet = False, it_ScannedTargets = [''192.168.0.0/28'']\<rparr>,
     \<lparr>it_ID = ''x2'', it_IP = ''192.168.0.77'', it_VLAN = 0, it_HasSubnet = False, it_ScannedTargets = [''192.168.0.77'']\<rparr>]"]) code_simp

section \<open>The proposal lets the host in\<close>

lemma bind_res_Inl: "bind_res x f = Inl err \<longleftrightarrow> x = Inl err \<or> (\<exists>y. x = Inr y \<and> f y = Inl err)"
  by (cases x) simp_all

lemma import_parts_errors:
  "cast_inet g s \<noteq> Inl ErrNoContainingSubnet" "backfillSubnetVLAN g now ip vlan d \<noteq> Inl ErrNoContainingSubnet"
  "upsert_address row f d \<noteq> Inl ErrNoContainingSubnet" "GetDiscovery key d \<noteq> Inl ErrNoContainingSubnet"
  "resolveImportDevice g x d \<noteq> Inl ErrNoContainingSubnet" "write_device now tok x name found d \<noteq> Inl ErrNoContainingSubnet"
  "attachDiscoveryMAC g now tok dev mac vendor d \<noteq> Inl ErrNoContainingSubnet"
  by (auto simp: cast_inet_def cast_mac_def backfillSubnetVLAN_def upsert_address_def insert_address_def update_address_def GetDiscovery_def
      resolveImportDevice_def write_device_def insert_device_def attachDiscoveryMAC_def insert_mac_def bind_res_Inl Let_def
      split: option.splits if_splits sum.splits)

lemma ImportDiscovery_no_subnet:
  assumes "ImportDiscovery g now td tm ta key name d = Inl ErrNoContainingSubnet" "GetDiscovery key d = Inr x"
    "pg_inet g (dy_IP x) = Some i" "r \<in> set (db_subnets d)"
  shows "\<not> pg_contains_eq (sn_cidr r) i"
proof -
  have "importDiscoveryDevice g now td tm x name d1 \<noteq> Inl ErrNoContainingSubnet" for d1
    using import_parts_errors by (simp add: importDiscoveryDevice_def bind_res_Inl split: if_splits)
  then have "containing_subnet i d = None"
    using assms(1-3) import_parts_errors
    by (auto simp: ImportDiscovery_def cast_inet_def bind_res_Inl Let_def split: option.splits)
  then have "sort_key (\<lambda>r. 128 - Bits (sn_cidr r)) (filter (\<lambda>r. pg_contains_eq (sn_cidr r) i) (db_subnets d)) = []"
    by (simp add: containing_subnet_def split: list.splits)
  then have "filter (\<lambda>r. pg_contains_eq (sn_cidr r) i) (db_subnets d) = []" by (metis set_empty set_sort)
  then show ?thesis using assms(4) by (simp add: filter_empty_conv)
qed

text \<open>C15: the proposal works: after a subnet with the proposed network was created for a discovered host, importing that host
  does not fail for want of a containing subnet, whatever was scanned.  (Hypothesis: the documented casts of PostgreSQL.)\<close>

theorem proposal_lets_import:
  assumes "pg_documented g" "GetDiscovery key d = Inr x" "suggestSubnetCIDR (dy_IP x) scanned = Some c" "si_CIDR inp = c"
    and "CreateSubnet g now tok inp d = (Inr s, d')"
  shows "ImportDiscovery g now' td tm ta key name d' \<noteq> Inl ErrNoContainingSubnet"
  using assms(3)
proof (cases rule: suggestSubnetCIDR_cases)
  case (1 w p)
  obtain v b where p: "p = PrefixFrom (A4 v) b" "b \<le> 32" using valid4_iff [of p] 1(3,4) by (auto simp: valid4_def)
  then have c: "ParsePrefix c = Some (Masked p)" using 1(2) by (simp add: ParsePrefix_A4_iff Prefix_String_A4)
  then have "canon_cidr c" using p by (auto simp: canon_cidr_iff drop_push_drop)
  then have cast: "pg_cidr g c = Some (Masked p)" using assms(1) c by (simp add: pg_documented_def)
  have ip: "pg_inet g (dy_IP x) = Some (PrefixFrom (A4 w) 32)"
    using suggestSubnetCIDR_host [OF assms(3)] 1(1) assms(1) by (auto simp: pg_documented_def)
  have "(\<exists>row\<in>set (db_subnets d'). sn_cidr row = Masked p) \<and> db_discoveries d' = db_discoveries d"
    using assms(4,5) cast by (auto simp: CreateSubnet_def insert_subnet_def split: option.splits sum.splits if_splits)
  then obtain row where row: "row \<in> set (db_subnets d')" "sn_cidr row = Masked p" "db_discoveries d' = db_discoveries d" by blast
  obtain x' where x': "GetDiscovery key d' = Inr x'" "dy_IP x' = dy_IP x"
    using assms(2) row(3) by (auto simp: GetDiscovery_def scanDiscovery_def split: option.splits)
  have "pg_contains_eq (Masked p) (PrefixFrom (A4 w) 32)"
    using 1(5) p(2) by (simp add: pg_contains_eq_def del: Masked.simps) (simp add: p(1))
  then show ?thesis using ImportDiscovery_no_subnet [OF _ x'(1) _ row(1)] ip x'(2) row(2) by auto
qed

definition demo_homeless :: db where
  "demo_homeless = demo_queue\<lparr>db_subnets := [], db_addresses := []\<rparr>"

definition demo_proposal :: SubnetInput where
  "demo_proposal = \<lparr>si_SiteID = [], si_CIDR = ''10.0.0.0/24'', si_Name = ''lan'', si_VLAN = None, si_Description = []\<rparr>"

theorem proposal_lets_import_witness:
  "\<exists>x s d'. GetDiscovery ''x1'' demo_homeless = Inr x \<and> suggestSubnetCIDR (dy_IP x) [] = Some ''10.0.0.0/24'' \<and>
     CreateSubnet pg_netip 5 (Some ''n1'') demo_proposal demo_homeless = (Inr s, d') \<and>
     ImportDiscovery pg_netip 6 None None None ''x1'' [] d' \<noteq> Inl ErrNoContainingSubnet"
proof -
  have "is_ok (GetDiscovery ''x1'' demo_homeless)" by code_simp
  then obtain x where x: "GetDiscovery ''x1'' demo_homeless = Inr x" by (auto simp: is_ok_iff)
  have "suggestSubnetCIDR (dy_IP (projr (GetDiscovery ''x1'' demo_homeless))) [] = Some ''10.0.0.0/24''" by code_simp
  then have c: "suggestSubnetCIDR (dy_IP x) [] = Some ''10.0.0.0/24''" by (simp add: x)
  have "is_ok (fst (CreateSubnet pg_netip 5 (Some ''n1'') demo_proposal demo_homeless))" by code_simp
  then obtain s d' where s: "CreateSubnet pg_netip 5 (Some ''n1'') demo_proposal demo_homeless = (Inr s, d')"
    by (cases "CreateSubnet pg_netip 5 (Some ''n1'') demo_proposal demo_homeless") (auto simp: is_ok_iff)
  have "si_CIDR demo_proposal = ''10.0.0.0/24''" by (simp add: demo_proposal_def)
  from proposal_lets_import [OF pg_netip_documented x c this s] x c s show ?thesis by blast
qed

end
