(* ===== verification/ScanFormLaws.thy ===== *)
theory ScanFormLaws
  imports ScanForms
begin

text \<open>
  What the forms of scans and schedules guarantee: the check at save time accepts exactly the scopes the agent accepts,
  a stored schedule opened in its form and saved unchanged keeps its columns, and a schedule that was saved is never
  rejected for its scope when it comes due.
\<close>

section \<open>The scope check and the agent's\<close>

lemma map_res_same_Inr:
  assumes "\<And>x y. f x = Inr y \<longleftrightarrow> g x = Inr y"
  shows "map_res f xs = Inr ys \<longleftrightarrow> map_res g xs = Inr ys"
  by (simp add: map_res_Inr_iff assms)

lemma allowed_prefix_Inr: "allowed_prefix c = Inr p \<longleftrightarrow> parseAllowedPrefix c = Inr p"
  by (simp add: allowed_prefix_def parseAllowedPrefix_def split: option.split)

lemma validateScanTarget_None: "validateScanTarget t ps = None \<longleftrightarrow> validateTarget ps t = None"
  by (simp add: validateScanTarget_def validateTarget_def prefixWithinAny_def prefixWithin_def split: option.split)

lemma validateScanScope_None:
  "validateScanScope allowed targets = None \<longleftrightarrow>
   (\<exists>ps. parseAllowedPrefixes allowed = Inr ps \<and> check_all (validateTarget ps) targets = None)"
proof (cases "map_res allowed_prefix allowed")
  case (Inr ps)
  then have "parseAllowedPrefixes allowed = Inr ps"
    using map_res_same_Inr [where f = allowed_prefix and g = parseAllowedPrefix and xs = allowed and ys = ps, OF allowed_prefix_Inr] by (simp add: parseAllowedPrefixes_def)
  then show ?thesis by (simp add: validateScanScope_def Inr check_all_None_iff validateScanTarget_None)
next
  case (Inl e)
  then have "parseAllowedPrefixes allowed \<noteq> Inr ps" for ps
    using map_res_same_Inr [where f = allowed_prefix and g = parseAllowedPrefix and xs = allowed and ys = ps, OF allowed_prefix_Inr] by (simp add: parseAllowedPrefixes_def)
  then show ?thesis by (simp add: validateScanScope_def Inl)
qed

text \<open>C10: the scope check of the forms and the check the agent makes before it scans accept the same scopes: a job's targets
  pass the agent's validation exactly when both lists are nonempty and the form would have accepted them.\<close>

theorem validateScanScope_agrees:
  "ValidateJobTargets job = None \<longleftrightarrow>
   job_AllowedCIDRs job \<noteq> [] \<and> job_Targets job \<noteq> [] \<and> validateScanScope (job_AllowedCIDRs job) (job_Targets job) = None"
  by (auto simp: ValidateJobTargets_def validateScanScope_None split: sum.splits)

section \<open>Lists in the form\<close>

lemma set_TrimSpace: "set (TrimSpace s) \<subseteq> set s"
proof -
  let ?t = "trim_left_seqs space_seqs s"
  have "set ?t \<subseteq> set s" by (rule set_mono_suffix [OF trim_left_seqs_suffix])
  moreover have "set (trim_left_seqs (map rev space_seqs) (rev ?t)) \<subseteq> set (rev ?t)" by (rule set_mono_suffix [OF trim_left_seqs_suffix])
  ultimately show ?thesis by (auto simp: TrimSpace_def)
qed

definition list_item :: "string \<Rightarrow> bool" where
  "list_item x \<longleftrightarrow> x \<noteq> [] \<and> TrimSpace x = x \<and> (\<forall>c\<in>set x. \<not> list_separator c)"

lemma fields_func_clean:
  assumes "\<forall>c\<in>set cur. \<not> sep c" "x \<in> set (fields_func sep cur s)"
  shows "\<forall>c\<in>set x. \<not> sep c"
  using assms
proof (induction s arbitrary: cur)
  case Nil
  then show ?case by (simp split: if_splits)
next
  case (Cons c s)
  show ?case
  proof (cases "sep c")
    case True
    then have "x = rev cur \<or> x \<in> set (fields_func sep [] s)" using Cons.prems(2) by (cases "cur = []") auto
    moreover have "x \<in> set (fields_func sep [] s) \<Longrightarrow> \<forall>c\<in>set x. \<not> sep c" by (rule Cons.IH [of "[]"]) simp_all
    ultimately show ?thesis using Cons.prems(1) by (metis set_rev)
  next
    case False
    then have "x \<in> set (fields_func sep (c # cur) s)" using Cons.prems(2) by (simp only: fields_func.simps if_False)
    then show ?thesis using Cons.prems(1) False by (intro Cons.IH [of "c # cur"]) simp_all
  qed
qed

lemma parseList_items: "\<forall>x\<in>set (parseList v). list_item x"
proof
  fix x assume "x \<in> set (parseList v)"
  then obtain y where y: "y \<in> set (fields_func list_separator [] v)" "x = TrimSpace y" "x \<noteq> []"
    by (auto simp: parseList_def)
  with fields_func_clean [OF _ y(1)] set_TrimSpace [of y] show "list_item x" by (auto simp: list_item_def)
qed

lemma fields_func_item: "\<forall>c\<in>set x. \<not> sep c \<Longrightarrow> fields_func sep cur (x @ s) = fields_func sep (rev x @ cur) s"
  by (induction x arbitrary: cur) auto

lemma parseList_join_lines:
  assumes "\<forall>x\<in>set xs. list_item x"
  shows "parseList (join_lines xs) = xs"
proof -
  have "fields_func list_separator [] (join_lines xs) = xs"
    using assms
  proof (induction xs rule: join_lines.induct)
    case (2 x)
    then show ?case using fields_func_item [of x list_separator "[]" "[]"] by (simp add: list_item_def)
  next
    case (3 x y xs)
    have "list_separator LF" by (simp add: list_separator_def)
    with 3 show ?case by (simp add: list_item_def fields_func_item)
  qed simp
  then show ?thesis using assms by (simp add: parseList_def list_item_def map_idI)
qed

section \<open>Numbers and times in the form\<close>

lemma Atoi_range: "Atoi s = Some n \<Longrightarrow> n < 2 ^ 63"
  by (auto simp: Atoi_def Let_def split: if_splits)

lemma Atoi_itoa: "0 \<le> n \<Longrightarrow> n < 2 ^ 63 \<Longrightarrow> Atoi (itoa n) = Some n"
  using Atoi_itoa_nat [of "nat n"] by (simp add: itoa_def)

lemma itoa_trimmed: "0 \<le> n \<Longrightarrow> TrimSpace (itoa n) = itoa n" "0 \<le> n \<Longrightarrow> itoa n \<noteq> []"
  by (simp_all add: itoa_def TrimSpace_visible itoa_nat_visible)

lemma itoa_inj: "0 \<le> m \<Longrightarrow> m < 2 ^ 63 \<Longrightarrow> 0 \<le> n \<Longrightarrow> n < 2 ^ 63 \<Longrightarrow> itoa m = itoa n \<Longrightarrow> m = n"
  using Atoi_itoa by (metis option.inject)

lemma pad2_readable:
  "list_all (\<lambda>n. Atoi (pad2 n) = Some n \<and> CHR '':'' \<notin> set (pad2 n) \<and> visible (hd (pad2 n)) \<and> visible (last (pad2 n)) \<and> pad2 n \<noteq> [])
     [0..59]"
  by code_simp

lemma pad2_facts:
  assumes "0 \<le> n" "n \<le> 59"
  shows "Atoi (pad2 n) = Some n" "CHR '':'' \<notin> set (pad2 n)" "visible (hd (pad2 n))" "visible (last (pad2 n))" "pad2 n \<noteq> []"
    "TrimSpace (pad2 n) = pad2 n"
proof -
  have "n \<in> set [0..59]" using assms by simp
  then show "Atoi (pad2 n) = Some n" "CHR '':'' \<notin> set (pad2 n)" "visible (hd (pad2 n))" "visible (last (pad2 n))" "pad2 n \<noteq> []"
    using pad2_readable unfolding list_all_iff by blast+
  then show "TrimSpace (pad2 n) = pad2 n" by (simp add: TrimSpace_visible)
qed

lemma clock_parts:
  assumes "0 \<le> m" "m \<le> (1439 :: int)"
  shows "m sdiv 60 = m div 60" "m smod 60 = m mod 60" "0 \<le> m div 60" "m div 60 \<le> 23" "0 \<le> m mod 60" "m mod 60 \<le> 59"
  using assms by (simp_all add: signed_divide_int_def signed_modulo_int_def sgn_if)

lemma clock_trimmed:
  assumes "0 \<le> m" "m \<le> 1439"
  shows "TrimSpace (clockFromMinutes m) = clockFromMinutes m" "clockFromMinutes m \<noteq> []"
  using pad2_facts [of "m div 60"] pad2_facts [of "m mod 60"] clock_parts [OF assms]
  by (simp_all add: clockFromMinutes_def TrimSpace_visible)

lemma parseClockMinutes_clock:
  assumes "0 \<le> m" "m \<le> 1439"
  shows "parseClockMinutes (clockFromMinutes m) = Some m"
proof -
  note p = clock_parts [OF assms]
  have "cut_first CHR '':'' (clockFromMinutes m) = Some (pad2 (m div 60), pad2 (m mod 60))"
    using pad2_facts(2) [of "m div 60"] p by (simp add: clockFromMinutes_def cut_first_Some)
  then show ?thesis
    using pad2_facts(1) [of "m div 60"] pad2_facts(1) [of "m mod 60"] pad2_facts(6) [of "m div 60"] pad2_facts(6) [of "m mod 60"] p by (simp add: parseClockMinutes_def)
qed

lemma parseClockMinutes_range: "parseClockMinutes s = Some m \<Longrightarrow> 0 \<le> m \<and> m \<le> 1439"
  by (auto simp: parseClockMinutes_def split: option.splits prod.splits if_splits)

section \<open>The schedule form\<close>

lemma scheduleForm_fields [simp]:
  "scheduleFormFromSchedule s ''name'' = Sched_Name s" "scheduleFormFromSchedule s ''agent_id'' = Sched_AgentID s"
  "scheduleFormFromSchedule s ''scan_type'' = Sched_ScanType s" "scheduleFormFromSchedule s ''mode'' = Sched_Mode s"
  "scheduleFormFromSchedule s ''allowed_cidrs'' = join_lines (Sched_AllowedCIDRs s)"
  "scheduleFormFromSchedule s ''targets'' = join_lines (Sched_Targets s)"
  "scheduleFormFromSchedule s ''timeout'' = itoa (Sched_TimeoutSeconds s)"
  "scheduleFormFromSchedule s ''interval'' = itoa (Sched_IntervalSeconds s)"
  "scheduleFormFromSchedule s ''enabled'' = (if Sched_Enabled s then ''on'' else [])"
  "scheduleFormFromSchedule s ''window_tz'' = (if WindowTZ s = [] then ''UTC'' else WindowTZ s)"
  "scheduleFormFromSchedule s ''window_start'' = (case WindowStartMin s of None \<Rightarrow> [] | Some m \<Rightarrow> clockFromMinutes m)"
  "scheduleFormFromSchedule s ''window_end'' = (case WindowEndMin s of None \<Rightarrow> [] | Some m \<Rightarrow> clockFromMinutes m)"
  by (simp_all add: scheduleFormFromSchedule_def)

text \<open>The template shows one box per day, Monday first, and a browser posts the days of the checked ones.\<close>

definition day_boxes :: "int list" where "day_boxes = [1, 2, 3, 4, 5, 6, 0]"

lemma day_boxes_set: "set day_boxes = {0..6}"
  unfolding day_boxes_def by auto

definition checked_days :: "form \<Rightarrow> string list" where
  "checked_days f = map itoa (filter (\<lambda>n. f (''window_day_'' @ itoa n) = ''on'') day_boxes)"

lemma checked_days_schedule: "checked_days (scheduleFormFromSchedule s) = map itoa (filter (\<lambda>n. n \<in> set (WindowDays s)) day_boxes)"
proof -
  have on: "scheduleFormFromSchedule s (''window_day_'' @ itoa n) = ''on'' \<longleftrightarrow> n \<in> set (WindowDays s)" if "n \<in> set day_boxes" for n
  proof -
    have n: "0 \<le> n" "n \<le> 6" using that by (simp_all add: day_boxes_set)
    have "m = n" if "0 \<le> m" "m \<le> 6" "itoa n = itoa m" for m by (rule itoa_inj) (use n that in simp_all)
    with n have "(\<exists>m\<in>set (WindowDays s). 0 \<le> m \<and> m \<le> 6 \<and> itoa n = itoa m) \<longleftrightarrow> n \<in> set (WindowDays s)" by blast
    then show ?thesis by (simp add: scheduleFormFromSchedule_def)
  qed
  have "filter (\<lambda>n. scheduleFormFromSchedule s (''window_day_'' @ itoa n) = ''on'') day_boxes = filter (\<lambda>n. n \<in> set (WindowDays s)) day_boxes"
    by (rule filter_cong [OF refl on])
  then show ?thesis by (simp only: checked_days_def)
qed

lemma window_days_itoa:
  assumes "set ns \<subseteq> {0..6}" "distinct ns" "set seen \<inter> set ns = {}"
  shows "window_days seen (map itoa ns) = Inr (sort (seen @ ns))"
  using assms by (induction ns arbitrary: seen) (simp_all add: itoa_trimmed Atoi_itoa Let_def)

lemma window_days_result:
  assumes "window_days seen raws = Inr ds" "distinct seen" "set seen \<subseteq> {0..6}"
  shows "sorted ds \<and> distinct ds \<and> set ds \<subseteq> {0..6}"
  using assms
proof (induction raws arbitrary: seen)
  case (Cons raw raws)
  let ?r = "TrimSpace raw"
  show ?case
  proof (cases "?r = []")
    case False
    then obtain n where n: "Atoi ?r = Some n" "0 \<le> n" "n \<le> 6"
      and r: "window_days (if n \<in> set seen then seen else seen @ [n]) raws = Inr ds"
      using Cons.prems(1) by (auto simp: Let_def split: option.splits if_splits)
    show ?thesis using Cons.prems(2,3) n by (intro Cons.IH [OF r]) auto
  qed (use Cons in simp)
qed auto

lemma window_days_checked:
  assumes "window_days [] raws = Inr ds" "WindowDays s = ds"
  shows "window_days [] (checked_days (scheduleFormFromSchedule s)) = Inr ds"
proof -
  have ds: "sorted ds" "distinct ds" "set ds \<subseteq> {0..6}" using window_days_result [OF assms(1)] by simp_all
  let ?ns = "filter (\<lambda>n. n \<in> set ds) day_boxes"
  have ns: "set ?ns = set ds" using ds(3) by (auto simp: day_boxes_set)
  moreover have "distinct ?ns" by (simp add: day_boxes_def)
  ultimately have "sort ?ns = ds" using ds by (intro sorted_distinct_set_unique) simp_all
  then show ?thesis
    using window_days_itoa [of ?ns "[]"] ds(3) ns \<open>distinct ?ns\<close> by (simp add: checked_days_schedule assms(2))
qed

lemma window_times_clock:
  assumes "window_times f = Inr (sm, em)"
    and "f' ''window_start'' = (case sm of None \<Rightarrow> [] | Some m \<Rightarrow> clockFromMinutes m)"
    and "f' ''window_end'' = (case em of None \<Rightarrow> [] | Some m \<Rightarrow> clockFromMinutes m)"
  shows "window_times f' = Inr (sm, em)"
proof -
  let ?s = "parseClockMinutes (TrimSpace (f ''window_start''))" and ?e = "parseClockMinutes (TrimSpace (f ''window_end''))"
  have "sm = None \<and> em = None \<or> (\<exists>a b. ?s = Some a \<and> ?e = Some b \<and> sm = Some a \<and> em = Some b \<and> a \<noteq> b)"
    by (cases ?s; cases ?e) (use assms(1) in \<open>simp_all add: window_times_def Let_def split: if_splits\<close>)
  then consider "sm = None" "em = None" | a b where "sm = Some a" "em = Some b" "a \<noteq> b" "0 \<le> a" "a \<le> 1439" "0 \<le> b" "b \<le> 1439"
    using parseClockMinutes_range by blast
  then show ?thesis
    by cases (simp_all add: window_times_def assms(2,3) Let_def clock_trimmed parseClockMinutes_clock)
qed

lemma modeForType_idem: "modeForType t m = Some m' \<Longrightarrow> modeForType t m' = Some m'"
  by (auto simp: modeForType_def split: if_splits)

lemma scan_columns_again:
  assumes "scan_columns f = Inr (mode, allowed, targets)"
    and "f' ''agent_id'' = f ''agent_id''" "f' ''scan_type'' = f ''scan_type''" "f' ''mode'' = mode"
    and "f' ''allowed_cidrs'' = join_lines allowed" "f' ''targets'' = join_lines targets"
  shows "scan_columns f' = Inr (mode, allowed, targets)"
proof -
  have "f ''agent_id'' \<noteq> []" "f ''scan_type'' \<in> set scanTypeOptions" "modeForType (f ''scan_type'') (f ''mode'') = Some mode"
    "allowed = parseList (f ''allowed_cidrs'')" "targets = parseList (f ''targets'')" "allowed \<noteq> []" "targets \<noteq> []"
    "validateScanScope allowed targets = None"
    using assms(1) by (auto simp: scan_columns_def Let_def split: if_splits option.splits)
  then show ?thesis
    using parseList_items parseList_join_lines modeForType_idem by (simp add: scan_columns_def assms(2-) Let_def)
qed

lemma scan_timeout_range: "scan_timeout f = Inr n \<Longrightarrow> 0 < n \<and> n < 2 ^ 63"
  by (auto simp: scan_timeout_def defaultTimeoutForType_def split: if_splits option.splits dest: Atoi_range)

lemma scan_timeout_again: "scan_timeout f = Inr n \<Longrightarrow> f' ''timeout'' = itoa n \<Longrightarrow> scan_timeout f' = Inr n"
  using scan_timeout_range [of f n] by (simp add: scan_timeout_def [of f'] itoa_trimmed Atoi_itoa)

text \<open>A schedule carries the columns a form was read into.\<close>

definition saved_as :: "ScanScheduleInput \<Rightarrow> ScanSchedule \<Rightarrow> bool" where
  "saved_as inp s \<longleftrightarrow> Sched_Name s = ci_Name inp \<and> Sched_AgentID s = ci_AgentID inp \<and> Sched_ScanType s = ci_ScanType inp \<and>
    Sched_Mode s = ci_Mode inp \<and> Sched_AllowedCIDRs s = ci_AllowedCIDRs inp \<and> Sched_Targets s = ci_Targets inp \<and>
    Sched_TimeoutSeconds s = ci_TimeoutSeconds inp \<and> Sched_IntervalSeconds s = ci_IntervalSeconds inp \<and>
    Sched_Enabled s = ci_Enabled inp \<and> WindowStartMin s = ci_WindowStartMin inp \<and> WindowEndMin s = ci_WindowEndMin inp \<and>
    WindowDays s = ci_WindowDays inp \<and> WindowTZ s = (if ci_WindowTZ inp = [] then ''UTC'' else ci_WindowTZ inp)"

lemma schedule_of_edited: "saved_as inp (schedule_of_row d (edit_schedule inp r))"
  "saved_as inp (schedule_of_row d ((edit_schedule inp r)\<lparr>sc_updated_at := now\<rparr>))"
  by (simp_all add: saved_as_def schedule_of_row_def edit_schedule_def)

lemma CreateScanSchedule_saved: "CreateScanSchedule clock now tok inp d = Inr (s, d') \<Longrightarrow> saved_as inp s \<and> GetScanSchedule (Sched_ID s) d' = Inr s"
proof -
  assume create: "CreateScanSchedule clock now tok inp d = Inr (s, d')"
  then obtain key where tok: "tok = Some key" by (cases tok) (simp_all add: CreateScanSchedule_def)
  let ?r = "edit_schedule inp (blank_schedule now key (clock + ci_IntervalSeconds inp * second_ns))"
  have id: "sc_id ?r = key" by (simp add: blank_schedule_def)
  have "key \<notin> set (map sc_id (db_schedules d))" and d': "d' = d\<lparr>db_schedules := db_schedules d @ [?r]\<rparr>"
    and get: "GetScanSchedule key d' = Inr s"
    using create by (auto simp: CreateScanSchedule_def tok Let_def bind_res_eq_Inr split: if_splits)
  then have "find (\<lambda>s. sc_id s = key) (db_schedules d') = Some ?r" using find_fresh_key [where key = sc_id, OF id] by simp
  with get have "s = schedule_of_row d' ?r" by (simp add: GetScanSchedule_def)
  moreover from this have "Sched_ID s = key" by (simp add: schedule_of_row_def blank_schedule_def)
  ultimately show ?thesis using get by (simp add: schedule_of_edited)
qed

lemma UpdateScanSchedule_saved: "UpdateScanSchedule now key inp d = Inr (s, d') \<Longrightarrow> saved_as inp s \<and> GetScanSchedule (Sched_ID s) d' = Inr s"
proof -
  assume upd: "UpdateScanSchedule now key inp d = Inr (s, d')"
  let ?f = "\<lambda>s. (edit_schedule inp s)\<lparr>sc_updated_at := now\<rparr>"
  have d': "d' = d\<lparr>db_schedules := update_rows (\<lambda>s. sc_id s = key) ?f (db_schedules d)\<rparr>" and get: "GetScanSchedule key d' = Inr s"
    using upd by (auto simp: UpdateScanSchedule_def Let_def bind_res_eq_Inr split: if_splits)
  obtain r where r: "find (\<lambda>s. sc_id s = key) (db_schedules d') = Some r" "s = schedule_of_row d' r"
    using get by (auto simp: GetScanSchedule_def split: option.splits)
  then have "r \<in> set (db_schedules d')" "sc_id r = key" by (auto simp: find_Some_iff)
  then obtain q where "r = ?f q" by (auto simp: d' set_update_rows split: if_splits)
  with r get \<open>sc_id r = key\<close> show ?thesis by (simp add: schedule_of_edited) (simp add: schedule_of_row_def)
qed

lemma parseScheduleWindow_again:
  assumes "parseScheduleWindow L f posted = Inr (sm, em, ds, tz)"
    and "WindowStartMin s = sm" "WindowEndMin s = em" "WindowDays s = ds" "WindowTZ s = tz"
  shows "parseScheduleWindow L (scheduleFormFromSchedule s) (checked_days (scheduleFormFromSchedule s)) = Inr (sm, em, ds, tz)"
proof -
  let ?t = "TrimSpace (f ''window_tz'')"
  have w: "window_times f = Inr (sm, em)" "window_days [] posted = Inr ds" "tz = (if ?t = [] then ''UTC'' else ?t)"
    "tz = ''UTC'' \<or> L tz \<noteq> None"
    using assms(1) by (auto simp: parseScheduleWindow_def Let_def bind_res_eq_Inr split: if_splits)
  have "TrimSpace ''UTC'' = ''UTC''" by (simp add: TrimSpace_visible visible_def)
  then have "TrimSpace tz = tz" "tz \<noteq> []" using w(3) by (simp_all split: if_splits)
  moreover have "window_times (scheduleFormFromSchedule s) = Inr (sm, em)" using window_times_clock [OF w(1)] assms(2,3) by simp
  moreover have "window_days [] (checked_days (scheduleFormFromSchedule s)) = Inr ds" using window_days_checked [OF w(2) assms(4)] .
  ultimately show ?thesis using w(4) by (auto simp: parseScheduleWindow_def assms(5) Let_def)
qed

lemma scheduleInput_parts:
  assumes "scheduleInputFromRequest w rq = Inr inp"
  shows "rq_form_ok rq" "TrimSpace (ci_Name inp) = ci_Name inp" "ci_Name inp \<noteq> []" "TrimSpace (ci_AgentID inp) = ci_AgentID inp"
    "60 \<le> ci_IntervalSeconds inp" "ci_IntervalSeconds inp < 2 ^ 63"
    "\<exists>f. scan_columns f = Inr (ci_Mode inp, ci_AllowedCIDRs inp, ci_Targets inp) \<and> scan_timeout f = Inr (ci_TimeoutSeconds inp) \<and>
       f ''agent_id'' = ci_AgentID inp \<and> f ''scan_type'' = ci_ScanType inp \<and> TrimSpace (ci_ScanType inp) = ci_ScanType inp"
    "parseScheduleWindow (out_zones (sf_out w)) (rq_form rq) (sf_days w) =
       Inr (ci_WindowStartMin inp, ci_WindowEndMin inp, ci_WindowDays inp, ci_WindowTZ inp)"
proof -
  let ?f = "trimmed_form (rq_form rq)"
  have trim: "TrimSpace (?f k) = ?f k" if "k \<noteq> ''allowed_cidrs''" "k \<noteq> ''targets''" for k using that by (simp add: trimmed_form_def)
  show "rq_form_ok rq" using assms by (simp add: scheduleInputFromRequest_def Let_def split: if_splits)
  obtain mode allowed targets interval timeout sm em ds tz where
    c: "?f ''name'' \<noteq> []" "scan_columns ?f = Inr (mode, allowed, targets)" "Atoi (?f ''interval'') = Some interval" "60 \<le> interval"
      "scan_timeout ?f = Inr timeout" "parseScheduleWindow (out_zones (sf_out w)) (rq_form rq) (sf_days w) = Inr (sm, em, ds, tz)"
    and inp: "inp = \<lparr>ci_Name = ?f ''name'', ci_AgentID = ?f ''agent_id'', ci_ScanType = ?f ''scan_type'', ci_Mode = mode,
              ci_AllowedCIDRs = allowed, ci_Targets = targets, ci_TimeoutSeconds = timeout, ci_IntervalSeconds = interval,
              ci_Enabled = (?f ''enabled'' = ''on'' \<or> ?f ''enabled'' = ''true''),
              ci_WindowStartMin = sm, ci_WindowEndMin = em, ci_WindowDays = ds, ci_WindowTZ = tz\<rparr>"
    using assms by (auto simp: scheduleInputFromRequest_def Let_def bind_res_eq_Inr split: if_splits option.splits)
  then show "TrimSpace (ci_Name inp) = ci_Name inp" "ci_Name inp \<noteq> []" "TrimSpace (ci_AgentID inp) = ci_AgentID inp"
    "60 \<le> ci_IntervalSeconds inp" "ci_IntervalSeconds inp < 2 ^ 63"
    "\<exists>f. scan_columns f = Inr (ci_Mode inp, ci_AllowedCIDRs inp, ci_Targets inp) \<and> scan_timeout f = Inr (ci_TimeoutSeconds inp) \<and>
       f ''agent_id'' = ci_AgentID inp \<and> f ''scan_type'' = ci_ScanType inp \<and> TrimSpace (ci_ScanType inp) = ci_ScanType inp"
    "parseScheduleWindow (out_zones (sf_out w)) (rq_form rq) (sf_days w) =
       Inr (ci_WindowStartMin inp, ci_WindowEndMin inp, ci_WindowDays inp, ci_WindowTZ inp)"
    using trim Atoi_range [OF c(3)] by (auto intro!: exI [of _ ?f])
qed

lemma modeForType_trimmed: "modeForType t m = Some m' \<Longrightarrow> TrimSpace m' = m'"
  by (auto simp: modeForType_def scanModeOptions_def TrimSpace_visible visible_def split: if_splits)

lemma scan_columns_mode: "scan_columns f = Inr (mode, allowed, targets) \<Longrightarrow> \<exists>m. modeForType (f ''scan_type'') m = Some mode"
  by (auto simp: scan_columns_def Let_def split: if_splits option.splits)

text \<open>C19: opening a schedule in its form and saving it unchanged changes nothing: whatever was read from a request and
  stored, by creating a schedule or by editing one, is what the server reads again when the form it shows for the stored
  schedule is posted back.\<close>

theorem schedule_form_roundtrip:
  assumes "scheduleInputFromRequest w rq = Inr inp"
    and "CreateScanSchedule clock now tok inp d = Inr (s, d') \<or> UpdateScanSchedule now key inp d = Inr (s, d')"
  shows "scheduleInputFromRequest (w\<lparr>sf_days := checked_days (scheduleFormFromSchedule s)\<rparr>)
    (rq\<lparr>rq_form := scheduleFormFromSchedule s\<rparr>) = Inr inp"
proof -
  let ?g = "trimmed_form (scheduleFormFromSchedule s)"
  have s: "saved_as inp s" using assms(2) CreateScanSchedule_saved UpdateScanSchedule_saved by blast
  note p = scheduleInput_parts [OF assms(1)]
  obtain f where f: "scan_columns f = Inr (ci_Mode inp, ci_AllowedCIDRs inp, ci_Targets inp)" "scan_timeout f = Inr (ci_TimeoutSeconds inp)"
    "f ''agent_id'' = ci_AgentID inp" "f ''scan_type'' = ci_ScanType inp" "TrimSpace (ci_ScanType inp) = ci_ScanType inp" using p(7) by blast
  have mode: "TrimSpace (ci_Mode inp) = ci_Mode inp" using scan_columns_mode [OF f(1)] modeForType_trimmed by blast
  have tz: "ci_WindowTZ inp \<noteq> []" using p(8) by (auto simp: parseScheduleWindow_def Let_def bind_res_eq_Inr split: if_splits)
  have "scan_columns ?g = Inr (ci_Mode inp, ci_AllowedCIDRs inp, ci_Targets inp)"
    by (rule scan_columns_again [OF f(1)]) (use s p(4) f mode in \<open>simp_all add: trimmed_form_def saved_as_def\<close>)
  moreover have "scan_timeout ?g = Inr (ci_TimeoutSeconds inp)"
    by (rule scan_timeout_again [OF f(2)]) (use s scan_timeout_range [OF f(2)] in \<open>simp add: trimmed_form_def saved_as_def itoa_trimmed\<close>)
  moreover have "Atoi (?g ''interval'') = Some (ci_IntervalSeconds inp)"
    using s p(5,6) by (simp add: trimmed_form_def saved_as_def itoa_trimmed Atoi_itoa)
  moreover have "?g ''name'' = ci_Name inp" "?g ''agent_id'' = ci_AgentID inp" "?g ''scan_type'' = ci_ScanType inp"
    "?g ''enabled'' = (if ci_Enabled inp then ''on'' else [])"
    using s p(2,4) f(5) by (simp_all add: trimmed_form_def saved_as_def TrimSpace_visible visible_def)
  moreover have "parseScheduleWindow (out_zones (sf_out w)) (scheduleFormFromSchedule s) (checked_days (scheduleFormFromSchedule s)) =
       Inr (ci_WindowStartMin inp, ci_WindowEndMin inp, ci_WindowDays inp, ci_WindowTZ inp)"
    by (rule parseScheduleWindow_again [OF p(8)]) (use s tz in \<open>simp_all add: saved_as_def\<close>)
  ultimately show ?thesis using p(1,3,5) by (simp add: scheduleInputFromRequest_def Let_def)
qed

text \<open>The same for the form of an agent, where \<open>url.Parse\<close> reads back the address it printed.\<close>

lemma agent_status_trimmed: "x \<in> set agentStatusOptions \<Longrightarrow> TrimSpace x = x \<and> x \<noteq> []"
  by (auto simp: agentStatusOptions_def TrimSpace_visible visible_def)

lemma ValidateAgentEndpoint_printed:
  "ValidateAgentEndpoint parse raw = Inr u \<Longrightarrow> \<exists>scheme host. parse (TrimSpace raw) = Some (scheme, host, u)"
  by (auto simp: ValidateAgentEndpoint_def Let_def split: if_splits option.splits)

lemma agent_form_roundtrip:
  assumes "agentInputFromRequest w rq = Inr inp"
    and "ValidateAgentEndpoint (sf_url w) (TrimSpace (ai_EndpointURL inp)) = Inr (ai_EndpointURL inp)"
  shows "agentInputFromRequest w (rq\<lparr>rq_form := agentFormFromAgent (agent_of_row (edit_agent now inp r))\<rparr>) = Inr inp"
proof -
  let ?f = "trimmed_form (rq_form rq)"
  have ok: "rq_form_ok rq" "ai_Name inp = ?f ''name''" "ai_Name inp \<noteq> []" "ai_CertificateSubject inp = ?f ''certificate_subject''"
    "ai_Status inp \<in> set agentStatusOptions" "ai_AllowedCIDRs inp = parseList (?f ''allowed_cidrs'')" "ai_AllowedCIDRs inp \<noteq> []" "ai_SiteID inp = []"
    using assms(1) by (auto simp: agentInputFromRequest_def Let_def bind_res_eq_Inr split: if_splits)
  have "TrimSpace (ai_Name inp) = ai_Name inp" "TrimSpace (ai_CertificateSubject inp) = ai_CertificateSubject inp"
    by (simp_all add: ok(2,4) trimmed_form_def)
  moreover have "parseList (join_lines (ai_AllowedCIDRs inp)) = ai_AllowedCIDRs inp"
    using ok(6) parseList_items parseList_join_lines by metis
  ultimately show ?thesis
    using ok(1,3,5,7,8) agent_status_trimmed [OF ok(5)] assms(2)
    by (simp add: agentInputFromRequest_def agentFormFromAgent_def trimmed_form_def agent_of_row_def edit_agent_def Let_def)
qed

section \<open>Schedules that were saved\<close>

lemma GetScanAgent_ID: "GetScanAgent key d = Inr agent \<Longrightarrow> Agent_ID agent = key"
  by (auto simp: GetScanAgent_def agent_of_row_def find_Some_iff split: option.splits)

lemma GetScanAgent_status: "GetScanAgent key d = Inr agent \<Longrightarrow> \<exists>r\<in>set (db_agents d). Agent_Status agent = sa_status r"
  by (auto simp: GetScanAgent_def agent_of_row_def find_Some_iff split: option.splits)

lemma schedule_write_agents:
  "CreateScanSchedule clock now tok inp d = Inr (s, d') \<Longrightarrow> db_agents d' = db_agents d"
  "UpdateScanSchedule now key inp d = Inr (s, d') \<Longrightarrow> db_agents d' = db_agents d"
  by (auto simp: CreateScanSchedule_def UpdateScanSchedule_def Let_def bind_res_eq_Inr split: option.splits if_splits)

definition always_admitted :: "ScanSchedule \<Rightarrow> ScanAgent \<Rightarrow> bool" where
  "always_admitted s agent \<longleftrightarrow> (Agent_Status agent = AgentActive \<longrightarrow>
     (\<forall>clock. ValidateJobForAgent (scannerJob clock ''preview'' (schedule_input s)) (registrationFromAgent agent) = None))"

lemma scope_stays_valid:
  assumes "validateScheduleAgentScope w clock inp d = None" "saved_as inp s" "db_agents d' = db_agents d"
  shows "\<exists>agent. GetScanAgent (Sched_AgentID s) d' = Inr agent \<and> always_admitted s agent"
proof -
  obtain agent where get: "GetScanAgent (ci_AgentID inp) d = Inr agent"
    and scope: "ValidateAgentScope (scannerJob clock ''preview'' (job_of_schedule_input inp)) (Agent_AllowedCIDRs agent) = None"
    using assms(1) by (auto simp: validateScheduleAgentScope_def ValidateScope_def job_of_schedule_input_def split: sum.splits)
  have "ValidateAgentScope (scannerJob c ''preview'' (schedule_input s)) cs =
     ValidateAgentScope (scannerJob clock ''preview'' (job_of_schedule_input inp)) cs" for c cs
    using assms(2) by (simp add: ValidateAgentScope_def ValidateJob_def ValidateJobTargets_def scannerJob_def schedule_input_def
      job_of_schedule_input_def saved_as_def cong: sum.case_cong option.case_cong)
  moreover have "job_AgentID (scannerJob c ''preview'' (schedule_input s)) = Agent_ID agent" for c
    using assms(2) GetScanAgent_ID [OF get] by (simp add: scannerJob_def schedule_input_def saved_as_def)
  ultimately have "always_admitted s agent"
    using scope by (simp add: always_admitted_def ValidateJobForAgent_def registrationFromAgent_def)
  moreover have "GetScanAgent (Sched_AgentID s) d' = Inr agent" using get assms(2,3) by (simp add: GetScanAgent_def saved_as_def)
  ultimately show ?thesis by blast
qed

lemma scheduleCreate_cases:
  obtains (nothing) a' r where "scheduleCreate w e rq a = (respond r a', [])" "snd (currentSession e rq a) = a'"
    | (saved) s a' inp sched d where "currentSession e rq a = (Some s, a')" "verifySessionCSRF rq s"
      "scheduleInputFromRequest w rq = Inr inp" "validateScheduleAgentScope w (ev_now e) inp (ac_db a') = None"
      "CreateScanSchedule (ev_now e) (ev_dbnow e) (ev_id e) inp (ac_db a') = Inr (sched, d)"
      "scheduleCreate w e rq a = (changed ''/schedules'' s ''scan.schedule.created'' ''scan_schedule'' (Sched_ID sched) d a', [])"
proof (cases "fst (currentSession e rq a)")
  case None
  then show thesis using that(1) by (cases "currentSession e rq a") (simp add: scheduleCreate_def sessionScans_def no_runs_def)
next
  case (Some s)
  then obtain a' where a': "currentSession e rq a = (Some s, a')" by (cases "currentSession e rq a") simp
  note eval = scheduleCreate_def sessionScans_def no_runs_def a'
  show thesis
  proof (cases "\<exists>inp sched d. verifySessionCSRF rq s \<and> scheduleInputFromRequest w rq = Inr inp \<and>
      validateScheduleAgentScope w (ev_now e) inp (ac_db a') = None \<and> CreateScanSchedule (ev_now e) (ev_dbnow e) (ev_id e) inp (ac_db a') = Inr (sched, d)")
    case True
    then show thesis by (elim exE conjE) (rule that(2) [OF a'], assumption+, simp add: eval)
  next
    case False
    then have "\<exists>r. scheduleCreate w e rq a = (respond r a', [])" by (auto simp: eval split: sum.split option.split)
    then show thesis using that(1) a' by auto
  qed
qed

lemma scheduleUpdate_cases:
  obtains (nothing) a' r where "scheduleUpdate w e rq a = (respond r a', [])" "snd (currentSession e rq a) = a'"
    | (saved) s a' inp old sched d where "currentSession e rq a = (Some s, a')" "verifySessionCSRF rq s"
      "scheduleInputFromRequest w rq = Inr inp" "validateScheduleAgentScope w (ev_now e) inp (ac_db a') = None"
      "GetScanSchedule (rq_id rq) (ac_db a') = Inr old \<and> UpdateScanSchedule (ev_dbnow e) (Sched_ID old) inp (ac_db a') = Inr (sched, d)"
      "scheduleUpdate w e rq a = (changed ''/schedules'' s ''scan.schedule.updated'' ''scan_schedule'' (Sched_ID sched) d a', [])"
proof (cases "fst (currentSession e rq a)")
  case None
  then show thesis using that(1) by (cases "currentSession e rq a") (simp add: scheduleUpdate_def loadSchedulePage_def sessionScans_def no_runs_def)
next
  case (Some s)
  then obtain a' where a': "currentSession e rq a = (Some s, a')" by (cases "currentSession e rq a") simp
  note eval = scheduleUpdate_def loadSchedulePage_def sessionScans_def no_runs_def a'
  show thesis
  proof (cases "\<exists>old inp sched d. verifySessionCSRF rq s \<and> scheduleInputFromRequest w rq = Inr inp \<and>
      validateScheduleAgentScope w (ev_now e) inp (ac_db a') = None \<and> (GetScanSchedule (rq_id rq) (ac_db a') = Inr old \<and> UpdateScanSchedule (ev_dbnow e) (Sched_ID old) inp (ac_db a') = Inr (sched, d))")
    case True
    then show thesis by (elim exE conjE) (rule that(2) [OF a'], assumption, assumption, assumption, blast, simp add: eval)
  next
    case False
    then have "\<exists>r. scheduleUpdate w e rq a = (respond r a', [])" by (auto simp: eval split: sum.split option.split)
    then show thesis using that(1) a' by auto
  qed
qed

text \<open>C6: a schedule a form saved is never turned away for its scope when it comes due: after either form stored it, the
  schedule is in the database under the key that was audited, its agent is registered, and as long as that agent is active
  and its allowlist is unchanged, the check a run of the schedule has to pass succeeds, whatever the time.\<close>

theorem saved_schedule_admitted:
  assumes "(out, started) \<in> {scheduleCreate w e rq a, scheduleUpdate w e rq a}" "oc_audit out \<noteq> []"
  shows "\<exists>s agent. GetScanSchedule (Sched_ID s) (ac_db (oc_accounts out)) = Inr s \<and> map en_subject_id (oc_audit out) = [Sched_ID s] \<and>
    GetScanAgent (Sched_AgentID s) (ac_db (oc_accounts out)) = Inr agent \<and> always_admitted s agent"
proof -
  have stays: "\<exists>s agent. GetScanSchedule (Sched_ID s) d = Inr s \<and> Sched_ID s = Sched_ID sched \<and>
      GetScanAgent (Sched_AgentID s) d = Inr agent \<and> always_admitted s agent"
    if "validateScheduleAgentScope w c inp d0 = None" "saved_as inp sched \<and> GetScanSchedule (Sched_ID sched) d = Inr sched"
      "db_agents d = db_agents d0" for c inp d0 sched d
    using scope_stays_valid [OF that(1) _ that(3)] that(2) by blast
  from assms(1) consider "(out, started) = scheduleCreate w e rq a" | "(out, started) = scheduleUpdate w e rq a" by blast
  then show ?thesis
  proof cases
    case 1
    then show ?thesis
    proof (cases rule: scheduleCreate_cases [of w e rq a])
      case (saved s a' inp sched d)
      with stays [OF saved(4) CreateScanSchedule_saved [OF saved(5)] schedule_write_agents(1) [OF saved(5)]] 1
      show ?thesis by (auto simp: changed_def logged_def log_entry_def)
    qed (use assms(2) in \<open>simp add: respond_def\<close>)
  next
    case 2
    then show ?thesis
    proof (cases rule: scheduleUpdate_cases [of w e rq a])
      case (saved s a' inp old sched d)
      with stays [OF saved(4) UpdateScanSchedule_saved [OF conjunct2 [OF saved(5)]] schedule_write_agents(2) [OF conjunct2 [OF saved(5)]]] 2
      show ?thesis by (auto simp: changed_def logged_def log_entry_def)
    qed (use assms(2) in \<open>simp add: respond_def\<close>)
  qed
qed

section \<open>Examples\<close>

definition demo_scan_env :: scan_env where
  "demo_scan_env = \<lparr>sf_out = demo_outside, sf_url = (\<lambda>u. Some (''https'', ''agent'', u)), sf_days = ['' 5'', ''1'', ''5''], sf_parse_error = []\<rparr>"

definition demo_schedule_form :: request where
  "demo_schedule_form = demo_request\<lparr>rq_path := ''/schedules'', rq_form := (\<lambda>_. [])(''csrf_token'' := ''c1'', ''name'' := '' nightly'',
     ''agent_id'' := ''a1'', ''scan_type'' := ''combined'', ''mode'' := ''x'', ''allowed_cidrs'' := ''10.0.0.0/24 ,'',
     ''targets'' := ''10.0.0.0/30, 10.0.0.77'', ''interval'' := ''3600'', ''enabled'' := ''true'', ''window_start'' := ''22:5'',
     ''window_end'' := ''06:00'')\<rparr>"

definition demo_scan_accounts :: accounts where
  "demo_scan_accounts = demo_accounts\<lparr>ac_db := (ac_db demo_accounts)\<lparr>db_agents := db_agents demo_active\<rparr>\<rparr>"

definition demo_schedule_read :: ScanScheduleInput where
  "demo_schedule_read = \<lparr>ci_Name = ''nightly'', ci_AgentID = ''a1'', ci_ScanType = ''combined'', ci_Mode = ''deep_active'',
     ci_AllowedCIDRs = [''10.0.0.0/24''], ci_Targets = [''10.0.0.0/30'', ''10.0.0.77''], ci_TimeoutSeconds = 1200, ci_IntervalSeconds = 3600,
     ci_Enabled = True, ci_WindowStartMin = Some 1325, ci_WindowEndMin = Some 360, ci_WindowDays = [1, 5], ci_WindowTZ = ''UTC''\<rparr>"

lemma demo_schedule_reads: "scheduleInputFromRequest demo_scan_env demo_schedule_form = Inr demo_schedule_read"
  by code_simp

theorem schedule_form_roundtrip_witness:
  "\<exists>s d'. CreateScanSchedule 0 0 (Some ''sc1'') demo_schedule_read (ac_db demo_scan_accounts) = Inr (s, d') \<and>
     scheduleInputFromRequest (demo_scan_env\<lparr>sf_days := checked_days (scheduleFormFromSchedule s)\<rparr>)
       (demo_schedule_form\<lparr>rq_form := scheduleFormFromSchedule s\<rparr>) = Inr demo_schedule_read"
proof -
  have "is_ok (CreateScanSchedule 0 0 (Some ''sc1'') demo_schedule_read (ac_db demo_scan_accounts))" by code_simp
  then obtain s d' where "CreateScanSchedule 0 0 (Some ''sc1'') demo_schedule_read (ac_db demo_scan_accounts) = Inr (s, d')"
    by (auto simp: is_ok_iff)
  with schedule_form_roundtrip [OF demo_schedule_reads disjI1] show ?thesis by blast
qed

theorem saved_schedule_admitted_witness:
  "\<exists>s agent. GetScanSchedule (Sched_ID s) (ac_db (oc_accounts (fst (scheduleCreate demo_scan_env demo_account_env demo_schedule_form demo_scan_accounts)))) = Inr s \<and>
     Agent_Status agent = AgentActive \<and> always_admitted s agent"
proof -
  let ?r = "scheduleCreate demo_scan_env demo_account_env demo_schedule_form demo_scan_accounts"
  have "oc_audit (fst ?r) \<noteq> []" by code_simp
  moreover have "\<forall>r\<in>set (db_agents (ac_db (oc_accounts (fst ?r)))). sa_status r = AgentActive" by code_simp
  moreover have "(fst ?r, snd ?r) \<in> {?r, x}" for x by simp
  ultimately show ?thesis using saved_schedule_admitted GetScanAgent_status by metis
qed

end
