(* ===== verification/ScanPages.thy ===== *)
theory ScanPages
  imports ScanFormLaws
begin

text \<open>
  The forms that run scans, register agents and keep schedules, taken together: a form does something only for a session
  with the right token, what it does is a write of the scan store that is audited, and the runs it starts stay inside the
  allowlist stored for their agent.
\<close>

section \<open>The forms\<close>

datatype scan_form = Scan_create | Agent_discover | Agent_approve | Agent_create | Agent_update | Agent_delete
  | Schedule_create | Schedule_update | Schedule_run_now | Schedule_delete

fun submit_scan :: "scan_form \<Rightarrow> scan_env \<Rightarrow> env \<Rightarrow> request \<Rightarrow> accounts \<Rightarrow> outcome \<times> pending_run list" where
  "submit_scan Scan_create w e rq a = scanCreate w e rq a"
| "submit_scan Agent_discover w e rq a = agentDiscover w e rq a"
| "submit_scan Agent_approve w e rq a = agentApprove e rq a"
| "submit_scan Agent_create w e rq a = agentCreate w e rq a"
| "submit_scan Agent_update w e rq a = agentUpdate w e rq a"
| "submit_scan Agent_delete w e rq a = agentDelete e rq a"
| "submit_scan Schedule_create w e rq a = scheduleCreate w e rq a"
| "submit_scan Schedule_update w e rq a = scheduleUpdate w e rq a"
| "submit_scan Schedule_run_now w e rq a = scheduleRunNow w e rq a"
| "submit_scan Schedule_delete w e rq a = scheduleDelete e rq a"

text \<open>A run a user started: for an agent of the store, with targets inside the allowlist stored for it.\<close>

definition started_for :: "Session \<Rightarrow> db \<Rightarrow> pending_run \<Rightarrow> bool" where
  "started_for s d p \<longleftrightarrow> run_actor p = Some (User_ID (Session_User s)) \<and>
    GetScanAgent (Agent_ID (run_agent p)) d = Inr (run_agent p) \<and> confined (run_agent p) (run_job p)"

definition scan_acted :: "(string \<Rightarrow> string option) \<Rightarrow> pg \<Rightarrow> request \<Rightarrow> Session \<Rightarrow> accounts \<Rightarrow> outcome \<times> pending_run list \<Rightarrow> bool" where
  "scan_acted jsonb g rq s a out \<longleftrightarrow> (oc_accounts (fst out) = a \<and> oc_audit (fst out) = [] \<and> snd out = []) \<or>
    (verifySessionCSRF rq s \<and> (\<exists>d. scan_write jsonb g (ac_db a) d \<and> oc_accounts (fst out) = a\<lparr>ac_db := d\<rparr>) \<and>
     (\<exists>x\<in>set (oc_audit (fst out)). en_actor x = Some (User_ID (Session_User s))) \<and>
     (\<forall>p\<in>set (snd out). started_for s (ac_db a) p))"

definition scan_handled :: "(string \<Rightarrow> string option) \<Rightarrow> pg \<Rightarrow> env \<Rightarrow> request \<Rightarrow> accounts \<Rightarrow> outcome \<times> pending_run list \<Rightarrow> bool" where
  "scan_handled jsonb g e rq a out \<longleftrightarrow>
    (case currentSession e rq a of
       (None, a') \<Rightarrow> oc_accounts (fst out) = a' \<and> oc_audit (fst out) = [] \<and> snd out = []
     | (Some s, a') \<Rightarrow> scan_acted jsonb g rq s a' out)"

lemma scan_acted_nothing [simp]: "scan_acted jsonb g rq s a (no_runs (respond r a))"
  by (simp add: scan_acted_def respond_def no_runs_def)

lemma scan_acted_changed:
  "verifySessionCSRF rq s \<Longrightarrow> scan_write jsonb g (ac_db a) d \<Longrightarrow> scan_acted jsonb g rq s a (no_runs (changed url s action kind key d a))"
  by (auto simp: scan_acted_def changed_def logged_def log_entry_def no_runs_def)

lemma triggered_acted:
  assumes "verifySessionCSRF rq s" "ji_RequestedBy inp = Some (User_ID (Session_User s))"
  shows "scan_acted jsonb g rq s a (triggered e inp failed a)"
proof (cases "TriggerManual (ev_now e) (ev_dbnow e) (ev_id e) inp (ac_db a)")
  case (Inr x)
  obtain q d where x: "x = (q, d)" by (cases x)
  then obtain agent where enq: "enqueue (ev_now e) (ev_dbnow e) (ev_id e) agent inp (ji_RequestedBy inp) (ac_db a) = Inr (q, d)"
    and agent: "GetScanAgent (ji_AgentID inp) (ac_db a) = Inr agent" using Inr by (auto simp: TriggerManual_def split: sum.splits)
  have "\<exists>job. CreateScanJob (ev_dbnow e) (ev_id e) inp (ac_db a) = Inr (job, d)"
    using enq by (auto simp: enqueue_def split: option.splits sum.splits)
  then have "scan_write jsonb g (ac_db a) d" by (blast intro: scan_write.CreateJob)
  moreover have "run_agent (enq_run q) = agent" "run_job (enq_run q) = enq_job q" "run_actor (enq_run q) = ji_RequestedBy inp"
    "au_actor (enq_audit q) = ji_RequestedBy inp"
    using enq by (auto simp: enqueue_def audit_def split: option.splits sum.splits)
  ultimately show ?thesis
    using enqueue_confined [OF enq] assms agent GetScanAgent_ID [OF agent]
    by (auto simp: scan_acted_def started_for_def triggered_def Inr x logged_def entry_of_def log_entry_def)
qed (simp add: triggered_def)

lemma sessionScans_handled:
  assumes "\<And>s a'. currentSession e rq a = (Some s, a') \<Longrightarrow> scan_acted jsonb g rq s a' (h s a')"
  shows "scan_handled jsonb g e rq a (sessionScans e rq h a)"
  using assms by (auto simp: scan_handled_def sessionScans_def respond_def no_runs_def split: option.splits prod.splits)

lemma loadAgentPage_scan_handled:
  assumes "\<And>s x a'. scan_acted jsonb g rq s a' (h s x a')"
  shows "scan_handled jsonb g e rq a (loadAgentPage e rq h a)"
  unfolding loadAgentPage_def by (rule sessionScans_handled) (simp add: assms split: sum.split)

lemma loadSchedulePage_handled:
  assumes "\<And>s x a'. scan_acted jsonb g rq s a' (h s x a')"
  shows "scan_handled jsonb g e rq a (loadSchedulePage e rq h a)"
  unfolding loadSchedulePage_def by (rule sessionScans_handled) (simp add: assms split: sum.split)

section \<open>Every form\<close>

lemma scanCreate_handled: "scan_handled jsonb g e rq a (scanCreate w e rq a)"
  unfolding scanCreate_def by (rule sessionScans_handled) (auto intro!: triggered_acted split: sum.split)

lemma agentDiscover_handled: "scan_handled jsonb g e rq a (agentDiscover w e rq a)"
  unfolding agentDiscover_def
proof (rule sessionScans_handled)
  fix s and a' :: accounts
  have new: "scan_write jsonb g (ac_db a') d \<and> (\<not> created \<longrightarrow> au = [] \<and> d = ac_db a')"
    if "DiscoverAgent (sf_out w) (ev_dbnow e) (ev_id e) url (ac_db a') = Inr (agent, created, au, d)" for url agent created au d
  proof -
    note found = that
    obtain inp where enrol: "EnrollDiscoveredAgent (ev_dbnow e) (ev_id e) url inp (ac_db a') = Inr (agent, created, d)" and "\<not> created \<Longrightarrow> au = []"
      using found by (auto simp: DiscoverAgent_def Let_def split: if_splits sum.splits)
    then show ?thesis using scan_write.EnrollAgent [OF enrol] by (auto elim: EnrollDiscoveredAgent_cases)
  qed
  show "scan_acted jsonb g rq s a' (if \<not> verifySessionCSRF rq s then no_runs (respond (Status 403) a')
     else (case ValidateAgentEndpoint (sf_url w) (rq_form rq ''endpoint_url'') of
        Inl msg \<Rightarrow> no_runs (respond (redirectAgents msg) a')
      | Inr endpoint \<Rightarrow>
        (case DiscoverAgent (sf_out w) (ev_dbnow e) (ev_id e) endpoint (ac_db a') of
           Inl _ \<Rightarrow> no_runs (respond (redirectAgents ''Couldn't reach an agent at that address. Check the URL and that the agent is running.'') a')
         | Inr (agent, created, au, d) \<Rightarrow>
           no_runs \<lparr>oc_reply = Redirect ''/agents'', oc_cookies = [],
             oc_audit = map entry_of au @
               (if created then [log_entry (Some (User_ID (Session_User s))) ''scan.agent.discovered'' ''scan_agent'' (Agent_ID agent)] else []),
             oc_settings = None, oc_accounts = a'\<lparr>ac_db := d\<rparr>\<rparr>)))"
    by (auto split: sum.split dest!: new) (auto simp: scan_acted_def no_runs_def log_entry_def)
qed

lemma agent_pages_handled:
  "scan_handled jsonb g e rq a (agentApprove e rq a)" "scan_handled jsonb g e rq a (agentCreate w e rq a)"
  "scan_handled jsonb g e rq a (agentUpdate w e rq a)" "scan_handled jsonb g e rq a (agentDelete e rq a)"
  unfolding agentApprove_def agentCreate_def agentUpdate_def agentDelete_def
  by (intro loadAgentPage_scan_handled sessionScans_handled,
      auto split: sum.split intro!: scan_acted_changed intro: scan_write.intros)+

lemma schedule_pages_handled:
  "scan_handled jsonb g e rq a (scheduleCreate w e rq a)" "scan_handled jsonb g e rq a (scheduleUpdate w e rq a)"
  "scan_handled jsonb g e rq a (scheduleDelete e rq a)"
  unfolding scheduleCreate_def scheduleUpdate_def scheduleDelete_def
  by (intro loadSchedulePage_handled sessionScans_handled,
      auto split: sum.split option.split intro!: scan_acted_changed intro: scan_write.intros)+

lemma scheduleRunNow_handled: "scan_handled jsonb g e rq a (scheduleRunNow w e rq a)"
  unfolding scheduleRunNow_def by (intro loadSchedulePage_handled) (auto intro!: triggered_acted)

lemma submit_scan_handled: "scan_handled jsonb g e rq a (submit_scan f w e rq a)"
  by (cases f) (simp_all add: scanCreate_handled agentDiscover_handled agent_pages_handled schedule_pages_handled scheduleRunNow_handled)

text \<open>C4: a page of the scan subsystem starts a scan, or leaves an audit entry, only for a request with a live session whose
  form carries that session's token; then the user of the session is named in the audit log and in every run that is
  started, and every target of a started run denotes only addresses of the allowlist of its agent, which is active.\<close>

theorem scan_forms_guarded:
  assumes "submit_scan f w e rq a = (out, started)" "oc_audit out \<noteq> [] \<or> started \<noteq> []"
  shows "\<exists>s a'. currentSession e rq a = (Some s, a') \<and> rq_form rq ''csrf_token'' = Session_CSRFToken s \<and>
    (\<exists>x\<in>set (oc_audit out). en_actor x = Some (User_ID (Session_User s))) \<and>
    (\<forall>p\<in>set started. started_for s (ac_db a') p)"
  using submit_scan_handled [of "\<lambda>_. None" undefined e rq a f w] assms
  by (auto simp: scan_handled_def scan_acted_def verifySessionCSRF_def split: option.splits prod.splits)

definition demo_scan_form :: request where
  "demo_scan_form = demo_request\<lparr>rq_path := ''/scans'', rq_form := (rq_form demo_schedule_form)(''timeout'' := ''5'')\<rparr>"

theorem scan_forms_guarded_witness:
  "\<exists>p. snd (submit_scan Scan_create demo_scan_env demo_account_env demo_scan_form demo_scan_accounts) = [p] \<and> confined (run_agent p) (run_job p)"
proof -
  let ?r = "submit_scan Scan_create demo_scan_env demo_account_env demo_scan_form demo_scan_accounts"
  have "length (snd ?r) = 1" by code_simp
  then obtain p where p: "snd ?r = [p]" by (auto simp: length_Suc_conv)
  then have "snd ?r \<noteq> []" by simp
  with scan_forms_guarded [of Scan_create demo_scan_env demo_account_env demo_scan_form demo_scan_accounts "fst ?r" "snd ?r"] p
  show ?thesis by (auto simp: started_for_def)
qed

end
