(* ===== verification/ReviewReach.thy ===== *)
theory ReviewReach
  imports ReviewForms ScanPages
begin

text \<open>
  The handlers of the review queue change something only for a session with the right token, audit it, and what they do is
  a sequence of writes of the stores.
\<close>

section \<open>Sequences of writes\<close>

definition review_write :: "pg \<Rightarrow> db \<Rightarrow> db \<Rightarrow> bool" where
  "review_write g = (\<lambda>d d'. scan_write (\<lambda>_. None) g d d' \<or> web_write g d d')\<^sup>*\<^sup>*"

lemma review_write_refl [simp]: "review_write g d d"
  by (simp add: review_write_def)

lemma review_write_trans: "review_write g d d1 \<Longrightarrow> review_write g d1 d2 \<Longrightarrow> review_write g d d2"
  unfolding review_write_def by (rule rtranclp_trans)

lemma review_write_scan: "scan_write (\<lambda>_. None) g d d' \<Longrightarrow> review_write g d d'"
  and review_write_web: "web_write g d d' \<Longrightarrow> review_write g d d'"
  by (simp_all add: review_write_def r_into_rtranclp)

lemma AutoLink_web_write:
  assumes "AutoLinkDeviceBySerial now tok did d = Inr (ms, d')"
  shows "web_write g d d'"
proof (rule web_writeI [OF inventory_write.AutoLink [OF assms]])
  show "cidr_frame d d'" using AutoLinkDeviceBySerial_frame [OF assms] by auto
qed

lemma linkImported_write: "linkImported dr did d = (es, d') \<Longrightarrow> review_write g d d'"
  by (auto simp: linkImported_def split: if_splits sum.splits intro: review_write_web AutoLink_web_write)

definition by_user :: "Session \<Rightarrow> entry list \<Rightarrow> bool" where
  "by_user s es \<longleftrightarrow> (\<exists>x\<in>set es. en_actor x = Some (User_ID (Session_User s)))"

lemma import_one_write:
  assumes "import_one g dr s key name d = Inr (es, d')"
  shows "review_write g d d' \<and> by_user s es"
proof -
  obtain x d1 where x: "ImportDiscovery g (dr_now dr) (dr_device dr) (dr_mac dr) (dr_address dr) key name d = Inr (x, d1)"
    using assms by (auto simp: import_one_def bind_res_eq_Inr)
  obtain es' d2 where l: "linkImported dr (dy_ImportedDeviceID x) d1 = (es', d2)" by (cases "linkImported dr (dy_ImportedDeviceID x) d1")
  have es: "es = log_entry (Some (User_ID (Session_User s))) ''scan.discovery.imported'' ''ip_address'' (dy_ImportedAddressID x) # es'" "d' = d2"
    using assms by (simp_all add: import_one_def x l)
  from review_write_trans [OF review_write_scan [OF scan_write.Import [OF x]] linkImported_write [OF l]]
  show ?thesis by (simp add: es by_user_def log_entry_def)
qed

lemma importTargets_write:
  "importTargets g s ts n d = (r, es, d') \<Longrightarrow> review_write g d d' \<and> (es = [] \<and> d' = d \<or> by_user s es)"
proof (induction ts arbitrary: n d r es)
  case (Cons t ts)
  obtain tg dr where t: "t = (tg, dr)" by (cases t)
  show ?case
  proof (cases "import_one g dr s (it_ID tg) [] d")
    case (Inl err)
    then show ?thesis using Cons by (auto simp: t split: if_splits)
  next
    case (Inr x)
    obtain es1 d1 where x: "x = (es1, d1)" by (cases x)
    note one = import_one_write [OF Inr [unfolded x]]
    show ?thesis
    proof (cases "it_HasSubnet tg")
      case True
      obtain r2 es2 d2 where rest: "importTargets g s ts (Suc n) d1 = (r2, es2, d2)" by (metis prod_cases3)
      have "es = es1 @ es2" "d' = d2" using Cons.prems True by (simp_all add: t Inr x rest)
      then show ?thesis using Cons.IH [OF rest [unfolded \<open>d' = d2\<close> [symmetric]]] one by (auto simp: by_user_def intro: review_write_trans)
    next
      case False
      then show ?thesis using Cons by (simp add: t)
    qed
  qed
qed simp

section \<open>The handlers\<close>

definition review_acted :: "pg \<Rightarrow> request \<Rightarrow> fields \<Rightarrow> Session \<Rightarrow> accounts \<Rightarrow> outcome \<times> fields \<Rightarrow> bool" where
  "review_acted g rq fs s a out \<longleftrightarrow> (oc_accounts (fst out) = a \<and> snd out = fs \<and> oc_audit (fst out) = []) \<or>
    (verifySessionCSRF rq s \<and> (fields_ok fs \<longrightarrow> fields_ok (snd out)) \<and> by_user s (oc_audit (fst out)) \<and>
     (\<exists>d. review_write g (ac_db a) d \<and> oc_accounts (fst out) = a\<lparr>ac_db := d\<rparr>))"

definition review_handled :: "pg \<Rightarrow> env \<Rightarrow> request \<Rightarrow> accounts \<Rightarrow> fields \<Rightarrow> outcome \<times> fields \<Rightarrow> bool" where
  "review_handled g e rq a fs out \<longleftrightarrow>
    (case currentSession e rq a of
       (None, a') \<Rightarrow> oc_accounts (fst out) = a' \<and> snd out = fs \<and> oc_audit (fst out) = []
     | (Some s, a') \<Rightarrow> review_acted g rq fs s a' out)"

lemma sessionFields_review:
  assumes "\<And>s a'. currentSession e rq a = (Some s, a') \<Longrightarrow> review_acted g rq fs s a' (h s a')"
  shows "review_handled g e rq a fs (sessionFields e rq h a fs)"
  using assms by (auto simp: review_handled_def sessionFields_def respond_def split: option.splits prod.splits)

lemma review_nothing [simp]: "review_acted g rq fs s a (respond r a, fs)"
  by (simp add: review_acted_def respond_def)

lemma review_failed: "d = ac_db a \<Longrightarrow> review_acted g rq fs s a (respond r (a\<lparr>ac_db := d\<rparr>), fs)"
  by (simp add: review_acted_def respond_def)

lemma review_answered:
  "verifySessionCSRF rq s \<Longrightarrow> review_write g (ac_db a) d \<Longrightarrow> by_user s es \<Longrightarrow> (fields_ok fs \<Longrightarrow> fields_ok fs') \<Longrightarrow>
   review_acted g rq fs s a (answered r es d a, fs')"
  by (auto simp: review_acted_def answered_def)

lemma import_ready_cases:
  obtains r es' d' where "import_ready w s es targets d a = answered r (es @ es') d' a"
    "review_write (fe_pg (rv_form w)) d d'" "es' = [] \<and> d' = d \<or> by_user s es'"
proof (cases "missingSubnetGroups (rv_order w) targets \<noteq> []")
  case True
  then have "import_ready w s es targets d a = answered (Redirect ''/discoveries?resolve=1'') (es @ []) d a" by (simp add: import_ready_def)
  then show thesis using that review_write_refl by blast
next
  case False
  obtain n err es' d' where i: "importTargets (fe_pg (rv_form w)) s (zip targets (map (rv_draws w) [0..<length targets])) 0 d = ((n, err), es', d')"
    by (metis prod_cases3 surj_pair)
  note wr = importTargets_write [OF i]
  have "\<exists>r. import_ready w s es targets d a = answered r (es @ es') d' a"
    by (cases err) (use i False in \<open>simp_all add: import_ready_def, blast+\<close>)
  then show thesis using that wr by blast
qed

lemma import_ready_first:
  assumes "verifySessionCSRF rq s"
  shows "review_acted (fe_pg (rv_form w)) rq fs s a (import_ready w s [] targets (ac_db a) a, fs)"
proof (rule import_ready_cases [of w s "[]" targets "ac_db a" a])
  fix r es' d'
  assume i: "import_ready w s [] targets (ac_db a) a = answered r ([] @ es') d' a" "review_write (fe_pg (rv_form w)) (ac_db a) d'"
    "es' = [] \<and> d' = ac_db a \<or> by_user s es'"
  from i(3) show ?thesis
  proof
    assume "es' = [] \<and> d' = ac_db a"
    then show ?thesis by (simp add: i(1) review_acted_def answered_def)
  qed (use i assms in \<open>simp add: review_answered\<close>)
qed

lemma import_ready_after:
  assumes "verifySessionCSRF rq s" "by_user s es" "review_write (fe_pg (rv_form w)) (ac_db a) d" "fields_ok fs \<Longrightarrow> fields_ok fs'"
  shows "review_acted (fe_pg (rv_form w)) rq fs s a (import_ready w s es targets d a, fs')"
proof (rule import_ready_cases [of w s es targets d a])
  fix r es' d'
  assume i: "import_ready w s es targets d a = answered r (es @ es') d' a" "review_write (fe_pg (rv_form w)) d d'"
  have "review_write (fe_pg (rv_form w)) (ac_db a) d'" by (rule review_write_trans [OF assms(3) i(2)])
  moreover have "by_user s (es @ es')" using assms(2) by (auto simp: by_user_def)
  ultimately show ?thesis using assms(1,4) by (simp add: i(1) review_answered)
qed

lemma discoveryImport_handled: "review_handled (fe_pg (rv_form w)) e rq a fs (discoveryImport w e rq a fs)"
  unfolding discoveryImport_def
  by (rule sessionFields_review) (auto split: sum.split prod.split intro: review_answered dest: import_one_write)

lemma discoveriesImportAll_handled: "review_handled (fe_pg (rv_form w)) e rq a fs (discoveriesImportAll w e rq a fs)"
  unfolding discoveriesImportAll_def
  by (rule sessionFields_review) (simp add: Let_def import_ready_first)

lemma review_changed:
  "verifySessionCSRF rq s \<Longrightarrow> review_write g (ac_db a) d \<Longrightarrow> review_acted g rq fs s a (changed url s action kind key d a, fs)"
  by (auto simp: review_acted_def changed_def logged_def log_entry_def by_user_def)

lemma discoveryDismiss_handled: "review_handled (fe_pg (rv_form w)) e rq a fs (discoveryDismiss w e rq a fs)"
  unfolding discoveryDismiss_def
  by (rule sessionFields_review) (auto split: sum.split intro: review_changed review_write_scan scan_write.Dismiss)

lemma after_create:
  assumes "verifySessionCSRF rq s" "web_write g (ac_db a) d" "g = fe_pg (rv_form w)"
    and "es = [log_entry (Some (User_ID (Session_User s))) ''subnet.created'' ''subnet'' key]" "fields_ok fs \<Longrightarrow> fields_ok fs'"
  shows "review_acted g rq fs s a (if all then import_ready w s es targets d a
     else if discoveryID = [] then answered (Redirect url) es d a
     else (case import_one g dr s discoveryID [] d of
        Inl err \<Rightarrow> answered (if err = ErrNoContainingSubnet then resolve_one discoveryID else Status 500) es d a
      | Inr (es', d') \<Rightarrow> answered (Redirect url) (es @ es') d' a), fs')"
proof -
  have u: "by_user s es" "by_user s (es @ es')" for es' by (simp_all add: assms(4) by_user_def log_entry_def)
  have wr: "review_write g (ac_db a) d" using assms(2) by (rule review_write_web)
  have imported: "review_write g (ac_db a) d'" if "import_one g dr s discoveryID [] d = Inr (es', d')" for es' d'
    using review_write_trans [OF wr] import_one_write [OF that] by blast
  show ?thesis
    using import_ready_after [OF assms(1) u(1), of w a d fs fs'] wr u imported assms(1,3,5)
    by (auto split: sum.split intro!: review_answered)
qed

lemma discoverySubnetCreate_handled:
  assumes "pg_documented (fe_pg (rv_form w))" "site_ok a fs"
  shows "review_handled (fe_pg (rv_form w)) e rq a fs (discoverySubnetCreate w e rq a fs)"
  unfolding discoverySubnetCreate_def Let_def
proof (rule sessionFields_review, goal_cases)
  case (1 s a')
  have v4: "ipv4_db (ac_db a')" using session_site_ok [OF 1 assms(2)] by (simp add: site_ok_def)
  show ?case
  proof (cases "verifySessionCSRF rq s")
    case True
    show ?thesis
    proof (cases "subnetInputFromRequest (rv_form w) rq")
      case (Inr inp)
      obtain r d where c: "CreateSubnet (fe_pg (rv_form w)) (ev_dbnow e) (ev_id e) inp (ac_db a') = (r, d)"
        by (cases "CreateSubnet (fe_pg (rv_form w)) (ev_dbnow e) (ev_id e) inp (ac_db a')")
      note web = CreateSubnet_web [OF assms(1) v4 subnet_input_canon [OF Inr] c]
      show ?thesis
        using web after_create [OF True _ refl refl saved_fields_ok] True
        by (cases r) (auto simp: Inr c review_failed)
    qed (simp add: True)
  qed simp
qed

section \<open>Every form of the queue\<close>

datatype review_form = Discovery_import | Discoveries_import_all | Discovery_subnet_create | Discovery_dismiss

fun submit_review :: "review_form \<Rightarrow> review_env \<Rightarrow> env \<Rightarrow> request \<Rightarrow> accounts \<Rightarrow> fields \<Rightarrow> outcome \<times> fields" where
  "submit_review Discovery_import w e rq a fs = discoveryImport w e rq a fs"
| "submit_review Discoveries_import_all w e rq a fs = discoveriesImportAll w e rq a fs"
| "submit_review Discovery_subnet_create w e rq a fs = discoverySubnetCreate w e rq a fs"
| "submit_review Discovery_dismiss w e rq a fs = discoveryDismiss w e rq a fs"

lemma submit_review_handled:
  "pg_documented (fe_pg (rv_form w)) \<Longrightarrow> site_ok a fs \<Longrightarrow> review_handled (fe_pg (rv_form w)) e rq a fs (submit_review f w e rq a fs)"
  by (cases f) (simp_all add: discoveryImport_handled discoveriesImportAll_handled discoverySubnetCreate_handled discoveryDismiss_handled)

end
