(* ===== verification/SiteReach.thy ===== *)
theory SiteReach
  imports ReviewReach
begin

text \<open>
  A whole instance: account pages, inventory forms, CSV imports and the writes of the scan subsystem, in any order.
  Every state reached from the freshly migrated database satisfies all invariants of the development at once.
\<close>

section \<open>What the other writers leave alone\<close>

text \<open>Requests to the account pages change neither subnets nor tags.\<close>

interpretation net: account_contract "\<lambda>a. db_subnets (ac_db a) = sns \<and> db_tags (ac_db a) = tgs" for sns tgs
  by unfold_locales
    (auto simp: GetSession_def DeleteSession_def DeleteUserSessions_def DeleteOtherUserSessions_def RecordLoginFailure_def
      ClearLoginFailures_def SetAppSettings_def CreateAPIToken_def DeleteAPIToken_def StartTOTPEnrollment_def EnableTOTP_def
      DisableTOTP_def ConsumeRecoveryCode_def CreateSession_def CreateUser_def CreateAdmin_def insert_user_def set_users_def
      SetUserRole_def SetUserPassword_def DeleteUser_def bind_res_eq_Inr Let_def split: option.splits if_splits)

lemma cidr_frame_left [simp]:
  "cidr_frame (d\<lparr>db_addresses := x1\<rparr>) d' = cidr_frame d d'" "cidr_frame (d\<lparr>db_devices := x2\<rparr>) d' = cidr_frame d d'"
  "cidr_frame (d\<lparr>db_discoveries := x3\<rparr>) d' = cidr_frame d d'"
  by (simp_all add: cidr_frame_def side_frame_def)

lemma scan_updates_cidr_frame [simp]:
  "cidr_frame d (d1\<lparr>db_agents := x1\<rparr>) = cidr_frame d d1" "cidr_frame d (d1\<lparr>db_jobs := x2\<rparr>) = cidr_frame d d1"
  "cidr_frame d (d1\<lparr>db_schedules := x3\<rparr>) = cidr_frame d d1"
  by (simp_all add: cidr_frame_def side_frame_def)

lemma vlan_cidr_frame [simp]:
  "cidr_frame d (d\<lparr>db_subnets := update_rows hit (\<lambda>r. r\<lparr>sn_vlan := v, sn_updated_at := now\<rparr>) (db_subnets d)\<rparr>)"
  by (auto simp: cidr_frame_def set_update_rows)

lemma discovery_part_frames:
  "backfillSubnetVLAN g now ip vlan d = Inr d' \<Longrightarrow> cidr_frame d d'"
  "attachDiscoveryMAC g now tok dev mac vendor d = Inr d' \<Longrightarrow> cidr_frame d d'"
  "write_device now tok x name found d = Inr (dev, d') \<Longrightarrow> cidr_frame d d'"
  "upsert_address row f d = Inr (aid, d') \<Longrightarrow> cidr_frame d d'"
  by (auto simp: backfillSubnetVLAN_def attachDiscoveryMAC_def write_device_def upsert_address_def Let_def bind_res_eq_Inr
      split: if_splits option.splits sum.splits prod.splits dest: insert_cidr_frames)

lemma importDiscoveryDevice_cidr_frame: "importDiscoveryDevice g now td tm x name d = Inr (dev, d') \<Longrightarrow> cidr_frame d d'"
  by (auto simp: importDiscoveryDevice_def bind_res_eq_Inr split: if_splits dest!: discovery_part_frames intro: cidr_frame_trans)

lemma discovery_frames:
  "ImportDiscovery g now td tm ta key name d = Inr (out, d') \<Longrightarrow> cidr_frame d d'"
  "SyncImportedDiscovery g now tm key d = Inr (did, d') \<Longrightarrow> cidr_frame d d'"
  "UpsertDiscovery g now tok inp d = Inr (u, d') \<Longrightarrow> cidr_frame d d'"
proof -
  show "ImportDiscovery g now td tm ta key name d = Inr (out, d') \<Longrightarrow> cidr_frame d d'"
    by (auto simp: ImportDiscovery_def bind_res_eq_Inr Let_def split: option.splits
      dest!: discovery_part_frames importDiscoveryDevice_cidr_frame) (meson cidr_frame_trans)
  show "SyncImportedDiscovery g now tm key d = Inr (did, d') \<Longrightarrow> cidr_frame d d'"
    by (auto simp: SyncImportedDiscovery_def bind_res_eq_Inr Let_def split: if_splits
      dest!: discovery_part_frames) (meson cidr_frame_trans)+
  show "UpsertDiscovery g now tok inp d = Inr (u, d') \<Longrightarrow> cidr_frame d d'"
    by (auto simp: UpsertDiscovery_def refresh_last_seen_def bind_res_eq_Inr Let_def split: if_splits option.splits)
qed

lemma agent_frames:
  "CreateScanAgent now tok ai d = Inr (a, d') \<Longrightarrow> cidr_frame d d'"
  "UpdateScanAgent now key ai d = Inr (a, d') \<Longrightarrow> cidr_frame d d'"
  "DeleteScanAgent key d = Inr d' \<Longrightarrow> cidr_frame d d'"
  "SetScanAgentStatus now key status d = Inr d' \<Longrightarrow> cidr_frame d d'"
  "TouchScanAgent now key version d = d' \<Longrightarrow> cidr_frame d d'"
  by (auto simp: CreateScanAgent_def UpdateScanAgent_def DeleteScanAgent_def delete_agents_def SetScanAgentStatus_def TouchScanAgent_def
      Let_def bind_res_eq_Inr split: option.splits if_splits)

lemma EnrollDiscoveredAgent_cidr_frame: "EnrollDiscoveredAgent now tok url ai d = Inr (a, b, d') \<Longrightarrow> cidr_frame d d'"
  by (erule EnrollDiscoveredAgent_cases) (auto dest: agent_frames)

lemma job_frames:
  "CreateScanJob now tok ji d = Inr (j, d') \<Longrightarrow> cidr_frame d d'"
  "UpdateScanJobResult jsonb now key jr d = Inr d' \<Longrightarrow> cidr_frame d d'"
  "CreateScanSchedule clock now tok ci d = Inr (s, d') \<Longrightarrow> cidr_frame d d'"
  "UpdateScanSchedule now key ci d = Inr (s, d') \<Longrightarrow> cidr_frame d d'"
  "DeleteScanSchedule key d = Inr d' \<Longrightarrow> cidr_frame d d'"
  "MarkScanScheduleRan now key d = d' \<Longrightarrow> cidr_frame d d'"
  "SetScanScheduleLastRun now key status err job d = d' \<Longrightarrow> cidr_frame d d'"
  "DismissDiscovery now key d = Inr d' \<Longrightarrow> cidr_frame d d'"
  by (auto simp: CreateScanJob_def UpdateScanJobResult_def CreateScanSchedule_def UpdateScanSchedule_def DeleteScanSchedule_def
      delete_schedules_def MarkScanScheduleRan_def SetScanScheduleLastRun_def DismissDiscovery_def Let_def bind_res_eq_Inr
      split: option.splits if_splits sum.splits)

lemma scan_write_cidr_frame: "scan_write jsonb g d d' \<Longrightarrow> cidr_frame d d'"
  by (induction rule: scan_write.induct) (erule agent_frames EnrollDiscoveredAgent_cidr_frame job_frames discovery_frames)+

lemma apply_import_side_frame: "apply_import g now toks pl d = Inr d' \<Longrightarrow> side_frame d d'"
proof -
  have tr: "side_frame d d'" if "transact f rows d = Inr d'" "\<And>r d d'. f r d = Inr d' \<Longrightarrow> side_frame d d'" for f rows d d'
    using that
  proof (induction rows arbitrary: d)
    case (Cons r rows)
    then obtain d1 where "f r d = Inr d1" "transact f rows d1 = Inr d'" by (auto simp: bind_res_eq_Inr)
    with Cons show ?case by (blast intro: side_frame_trans)
  qed simp
  have "import_subnet g now r d = Inr d' \<Longrightarrow> side_frame d d'" for r d d'
    by (cases r) (auto simp: import_subnet_def insert_subnet_def update_subnet_def split: option.splits if_splits)
  moreover have "import_address g now r d = Inr d' \<Longrightarrow> side_frame d d'" for r d d'
    by (cases r) (auto simp: import_address_def bind_res_eq_Inr cidr_frame_def split: option.splits dest!: discovery_part_frames)
  moreover have "import_device now r d = Inr d' \<Longrightarrow> side_frame d d'" for r d d'
    by (cases r) (auto simp: import_device_def insert_device_def split: option.splits if_splits list.splits)
  moreover assume "apply_import g now toks pl d = Inr d'"
  ultimately show ?thesis
    by (cases pl) (auto simp: apply_import_def ImportSubnets_def ImportAddresses_def ImportDevices_def dest: tr)
qed

section \<open>The whole instance\<close>

text \<open>One step of an instance: a request to an account page, a form of the inventory, a CSV import, a form of scans, agents or
  schedules, a form of the review queue, or a write of the scan store (by the orchestrator).\<close>

inductive site_step :: "(string \<Rightarrow> string option) \<Rightarrow> pg \<Rightarrow> accounts \<times> fields \<Rightarrow> accounts \<times> fields \<Rightarrow> bool" for jsonb g where
  account: "h \<in> set account_handlers \<Longrightarrow> site_step jsonb g (a, fs) (oc_accounts (serve h e rq a), fs)"
| inventory: "fe_pg w = g \<Longrightarrow> submit f w e rq a fs = (out, fs') \<Longrightarrow> site_step jsonb g (a, fs) (oc_accounts out, fs')"
| csv: "site_step jsonb g (a, fs) (oc_accounts (importApply g toks e rq a), fs)"
| scan_page: "submit_scan f w e rq a = (out, started) \<Longrightarrow> site_step jsonb g (a, fs) (oc_accounts out, fs)"
| review: "fe_pg (rv_form v) = g \<Longrightarrow> submit_review k v e rq a fs = (out, fs') \<Longrightarrow> site_step jsonb g (a, fs) (oc_accounts out, fs')"
| scanning: "scan_write jsonb g (ac_db a) d \<Longrightarrow> site_step jsonb g (a, fs) (a\<lparr>ac_db := d\<rparr>, fs)"

inductive site_reachable :: "(string \<Rightarrow> string option) \<Rightarrow> pg \<Rightarrow> accounts \<times> fields \<Rightarrow> bool" for jsonb g where
  migrated: "site_reachable jsonb g (empty_accounts, no_fields)"
| step: "site_reachable jsonb g x \<Longrightarrow> site_step jsonb g x y \<Longrightarrow> site_reachable jsonb g y"

lemma scan_write_site_ok:
  assumes "scan_write jsonb g (ac_db a) d" "site_ok a fs"
  shows "site_ok (a\<lparr>ac_db := d\<rparr>) fs"
proof -
  note frame = scan_write_cidr_frame [OF assms(1)]
  have "store_ok d" using scan_write_store_ok [OF assms(1)] assms(2) by (simp add: site_ok_def accounts_ok_def)
  then show ?thesis
    using frame ipv4_cidr_frame [OF frame] assms(2) by (auto simp: site_ok_def accounts_ok_def seeded_def cidr_frame_def side_frame_def)
qed

lemma submit_scan_site_ok:
  assumes "submit_scan f w e rq a = (out, started)" "site_ok a fs"
  shows "site_ok (oc_accounts out) fs"
proof (cases "currentSession e rq a")
  case (Pair so a')
  note ok = session_site_ok [OF Pair assms(2)]
  have "scan_handled (\<lambda>_. None) undefined e rq a (out, started)"
    using submit_scan_handled [of "\<lambda>_. None" undefined e rq a f w] assms(1) by simp
  then consider "oc_accounts out = a'" | d where "scan_write (\<lambda>_. None) undefined (ac_db a') d" "oc_accounts out = a'\<lparr>ac_db := d\<rparr>"
    by (auto simp: scan_handled_def scan_acted_def Pair split: option.splits)
  then show ?thesis using ok scan_write_site_ok by cases simp_all
qed

lemma review_write_site_ok:
  assumes "review_write g (ac_db a) d" "pg_documented g" "site_ok a fs"
  shows "site_ok (a\<lparr>ac_db := d\<rparr>) fs"
  using assms(1) unfolding review_write_def
proof (induction rule: rtranclp_induct)
  case base
  then show ?case using assms(3) by simp
next
  case (step d1 d2)
  let ?b = "a\<lparr>ac_db := d1\<rparr>"
  from step.hyps(2) show ?case
  proof
    assume "scan_write (\<lambda>_. None) g d1 d2"
    then show ?thesis using scan_write_site_ok [OF _ step.IH, of "\<lambda>_. None" g d2] by simp
  next
    assume "web_write g d1 d2"
    moreover have "fields_ok fs" using assms(3) by (simp add: site_ok_def)
    ultimately show ?thesis using web_write_site_ok [OF assms(2) _ step.IH, of d2 fs] by simp
  qed
qed

lemma submit_review_site_ok:
  assumes "submit_review k v e rq a fs = (out, fs')" "pg_documented (fe_pg (rv_form v))" "site_ok a fs"
  shows "site_ok (oc_accounts out) fs'"
proof (cases "currentSession e rq a")
  case (Pair so a')
  note ok = session_site_ok [OF Pair assms(3)]
  have "review_handled (fe_pg (rv_form v)) e rq a fs (out, fs')"
    using submit_review_handled [OF assms(2,3), of e rq k] assms(1) by simp
  then consider "oc_accounts out = a'" "fs' = fs"
    | d where "review_write (fe_pg (rv_form v)) (ac_db a') d" "oc_accounts out = a'\<lparr>ac_db := d\<rparr>" "fields_ok fs \<longrightarrow> fields_ok fs'"
    by (auto simp: review_handled_def review_acted_def Pair split: option.splits)
  then show ?thesis
  proof cases
    case 2
    then have "site_ok (oc_accounts out) fs" using review_write_site_ok [OF _ assms(2) ok] by simp
    then show ?thesis using 2(3) by (simp add: site_ok_def)
  qed (use ok in simp)
qed

lemma importApply_site_ok:
  assumes "pg_documented g" "site_ok a fs"
  shows "site_ok (oc_accounts (importApply g toks e rq a)) fs"
proof -
  let ?b = "oc_accounts (importApply g toks e rq a)"
  have ok: "accounts_ok a" "ipv4_db (ac_db a)" "seeded (ac_db a)" "fields_ok fs" using assms(2) by (simp_all add: site_ok_def)
  show ?thesis
  proof (cases rule: importApply_cases [of e rq a g toks])
    case (unchanged a' s)
    then show ?thesis using session_site_ok [OF unchanged(1) assms(2)] by simp
  next
    case (applied a' s result pl d)
    note ok' = session_site_ok [OF applied(1) assms(2)]
    have "subnets_step (ac_db a') d"
      using apply_import_step [OF assms(1) _ _ applied(2,5)] ok' by (simp add: site_ok_def accounts_ok_def store_ok_def)
    with subnets_step_accounts [OF this] ok' apply_import_side_frame [OF applied(5)] show ?thesis
      by (auto simp: applied(6) site_ok_def subnets_step_def seeded_def side_frame_def)
  qed
qed

lemma site_step_ok:
  assumes "site_step jsonb g x y" "pg_documented g" "site_ok (fst x) (snd x)"
  shows "site_ok (fst y) (snd y)"
  using assms
proof (induction rule: site_step.induct)
  case (account h a fs e rq)
  then have "accounts_ok a" "ipv4_db (ac_db a)" "seeded (ac_db a)" "fields_ok fs" by (simp_all add: site_ok_def)
  then show ?case
    using ok.serve [OF account(1), of a e rq] net.serve [where sns = "db_subnets (ac_db a)" and tgs = "db_tags (ac_db a)" and a = a and e = e and rq = rq, OF account(1)]
    by (simp add: site_ok_def ipv4_db_def seeded_def)
next
  case (inventory w f e rq a fs out fs')
  then show ?case using handled_site_ok [of g e rq a fs "(out, fs')"] submit_handled [of w a fs e rq f] by simp
next
  case (csv a fs toks e rq)
  then show ?case using importApply_site_ok by simp
next
  case (scan_page f w e rq a out started fs)
  then show ?case using submit_scan_site_ok by simp
next
  case (review v k e rq a fs out fs')
  then show ?case using submit_review_site_ok by simp
next
  case (scanning a d fs)
  then show ?case using scan_write_site_ok by simp
qed

text \<open>C2: In every state an instance can reach from the freshly migrated database, by requests to its pages, CSV imports
  and scan activity in any order, all invariants hold together: disjoint IPv4 subnets, unique keys, intact references
  and columns in range in the inventory, the review queue and the scan tables; unique accounts with consistent roles,
  sessions, tokens and recovery codes that belong to existing accounts; custom fields with unique names and values of
  existing fields.\<close>

theorem reachable_site_ok:
  assumes "site_reachable jsonb g (a, fs)" "pg_documented g"
  shows "store_ok (ac_db a) \<and> accounts_ok a \<and> ipv4_db (ac_db a) \<and> fields_ok fs"
proof -
  have "site_ok (fst x) (snd x)" if "site_reachable jsonb g x" for x
    using that
  proof induction
    case migrated
    have "ac_db empty_accounts = empty_db" by (simp add: empty_accounts_def)
    then show ?case using empty_accounts_ok by (simp add: site_ok_def ipv4_db_def seeded_def) (simp add: empty_db_def)
  next
    case (step x y)
    then show ?case using site_step_ok assms(2) by blast
  qed
  from this [OF assms(1)] show ?thesis by (simp add: site_ok_def accounts_ok_def)
qed

section \<open>Examples\<close>

definition demo_form_env :: form_env where
  "demo_form_env = \<lparr>fe_pg = pg_netip, fe_post = Map.empty, fe_ids = [], fe_parse_error = []\<rparr>"

definition demo_subnet_form :: request where
  "demo_subnet_form = demo_request\<lparr>rq_path := ''/subnets'', rq_form := (\<lambda>_. [])(''csrf_token'' := ''c1'', ''name'' := ''lan'', ''cidr'' := ''10.0.0.7/24'')\<rparr>"

theorem form_change_audited_witness:
  "oc_audit (fst (submit Subnet_create demo_form_env demo_account_env demo_subnet_form demo_accounts no_fields)) \<noteq> [] \<and>
   (\<exists>s a'. currentSession demo_account_env demo_subnet_form demo_accounts = (Some s, a') \<and> rq_form demo_subnet_form ''csrf_token'' = Session_CSRFToken s)"
proof -
  have "ac_db demo_accounts = empty_db\<lparr>db_users := db_users (ac_db demo_accounts)\<rparr>" by (simp add: demo_accounts_def)
  then have "ipv4_db (ac_db demo_accounts)" "seeded (ac_db demo_accounts)" by (simp_all add: ipv4_db_def seeded_def empty_db_def demo_accounts_def)
  then have ok: "site_ok demo_accounts no_fields" using demo_accounts_ok by (simp add: site_ok_def)
  have pg: "pg_documented (fe_pg demo_form_env)" using pg_netip_documented by (simp add: demo_form_env_def)
  have "oc_audit (fst (submit Subnet_create demo_form_env demo_account_env demo_subnet_form demo_accounts no_fields)) \<noteq> []" by code_simp
  then show ?thesis
    using form_change_audited [OF pg ok, of Subnet_create demo_account_env demo_subnet_form] by metis
qed

text \<open>The first administrator signs up and creates a subnet.\<close>

definition demo_boot :: accounts where
  "demo_boot = oc_accounts (serve bootstrapSubmit demo_account_env (demo_request\<lparr>rq_path := ''/bootstrap''\<rparr>) empty_accounts)"

definition demo_site :: "outcome \<times> fields" where
  "demo_site = submit Subnet_create demo_form_env demo_account_env
     (demo_subnet_form\<lparr>rq_session_cookie := Some ''fresh'', rq_form := (rq_form demo_subnet_form)(''csrf_token'' := ''c9'')\<rparr>) demo_boot no_fields"

theorem reachable_site_ok_witness:
  "accounts_ok (oc_accounts (fst demo_site)) \<and> fields_ok (snd demo_site) \<and>
   map (\<lambda>r. (sn_name r, Prefix_String (sn_cidr r))) (db_subnets (ac_db (oc_accounts (fst demo_site)))) = [(''lan'', ''10.0.0.0/24'')]"
proof -
  have eq: "submit Subnet_create demo_form_env demo_account_env
     (demo_subnet_form\<lparr>rq_session_cookie := Some ''fresh'', rq_form := (rq_form demo_subnet_form)(''csrf_token'' := ''c9'')\<rparr>) demo_boot no_fields =
     (fst demo_site, snd demo_site)" unfolding demo_site_def by (rule prod.collapse [symmetric])
  have "site_reachable Some pg_netip (demo_boot, no_fields)"
    unfolding demo_boot_def
    by (rule site_reachable.step [OF site_reachable.migrated site_step.account]) (simp add: account_handlers_def)
  then have "site_reachable Some pg_netip (oc_accounts (fst demo_site), snd demo_site)"
    by (rule site_reachable.step)
      (rule site_step.inventory [of demo_form_env _ Subnet_create demo_account_env, OF _ eq],
       simp add: demo_form_env_def)
  moreover have "map (\<lambda>r. (sn_name r, Prefix_String (sn_cidr r))) (db_subnets (ac_db (oc_accounts (fst demo_site)))) = [(''lan'', ''10.0.0.0/24'')]"
    by code_simp
  ultimately show ?thesis using reachable_site_ok [OF _ pg_netip_documented] by blast
qed

end
