(* ===== verification/Spec2Isabelle.thy ===== *)
theory Spec2Isabelle
  imports Scheduler RoundTrip Policy ReviewLaws SiteReach
begin

text \<open>
  LightIPAM: an IP address manager with distributed network scanning, written in Go (\<open>src/cmd\<close>, \<open>src/internal\<close>).  This
  directory models its core and proves what makes it correct.

  \<^bold>\<open>The program.\<close>  A web server keeps an inventory (subnets, addresses, devices, hardware addresses, tags) in PostgreSQL.
  Scan agents run \<open>nmap\<close> and other tools in remote networks; the server sends them jobs over HTTPS, each confined to
  the networks an administrator allowed, and queues what they observe for review.  A reviewed (or, for a trusted agent, an
  automatically accepted) observation becomes an address and a device of the inventory.  Schedules start jobs inside
  maintenance windows.  People log in with a password and perhaps a second factor; viewers read, administrators write.

  \<^bold>\<open>Layers and theories.\<close>  Each theory opens with a note on its files.
  \<^item> Shared: \<open>Prelude\<close> (generic lemmas, results as sums), \<open>GoStrings\<close> (\<open>strings\<close>, \<open>strconv\<close>, \<open>fmt\<close> on byte strings),
    \<open>Netip\<close> (\<open>net/netip\<close> and \<open>net\<close>: addresses as words of 32 and 128 bits, prefixes, parsing and printing).
  \<^item> Arithmetic: \<open>Ipam\<close> (\<open>internal/ipam\<close>), \<open>MacAddr\<close> (\<open>internal/macaddr\<close>), \<open>Csv\<close> (\<open>encoding/csv\<close> as the program uses it).
  \<^item> Scan protocol: \<open>Protocol\<close> (\<open>internal/scanner/protocol.go\<close>, \<open>budget.go\<close>: jobs, observations, the validation both
    sides run, and the time budget in 64-bit arithmetic with its division panic as a value).
  \<^item> Store: \<open>Db\<close> (the tables of \<open>internal/db/migrations.go\<close> as lists of rows in one record \<open>db\<close>, with keys, checks and
    foreign-key actions), then one theory per file of \<open>internal/store\<close>: \<open>StoreIpam\<close> (\<open>ipam.go\<close>, \<open>bulk.go\<close>), \<open>StoreDevices\<close>
    (\<open>devices.go\<close>, \<open>device_links.go\<close>), \<open>StoreDiscoveries\<close>, \<open>StoreScans\<close>, \<open>StoreAuth\<close> (\<open>store.go\<close>, \<open>login_attempts.go\<close>,
    \<open>api_tokens.go\<close>, \<open>totp.go\<close>, \<open>settings.go\<close>, \<open>oidc.go\<close>), \<open>CustomFields\<close> (with \<open>internal/app/custom_fields.go\<close>).
    \<open>StoreReach\<close> collects all writes in one step relation.
  \<^item> Orchestration: \<open>Windows\<close> (\<open>windows.go\<close>), \<open>Orchestrator\<close> and \<open>Scheduler\<close> (\<open>orchestrator.go\<close>: enqueueing, running,
    recording, automatic import and linking, scheduler ticks, enrolment).
  \<^item> Agent: \<open>AgentScan\<close> (\<open>agent.go\<close>, \<open>router.go\<close>, \<open>combined.go\<close>), \<open>NmapScan\<close> (\<open>nmap.go\<close>).
  \<^item> Accounts: \<open>Credentials\<close> (\<open>internal/auth\<close>, \<open>internal/secret\<close>), \<open>Access\<close> (requests, sessions, throttling, roles: \<open>app.go\<close>,
    \<open>lockout.go\<close>, \<open>authz.go\<close>, \<open>settings.go\<close>, \<open>api.go\<close>), \<open>Accounts\<close> (\<open>users.go\<close>, \<open>account.go\<close>, \<open>account_tokens.go\<close>, \<open>mfa.go\<close>,
    login, bootstrap), \<open>AccountReach\<close> (what holds of every request), \<open>Settings\<close> (loading saved settings, \<open>time.ParseDuration\<close>).
  \<^item> Inventory pages: \<open>InventoryWeb\<close> (\<open>app.go\<close>, \<open>bulk.go\<close>), \<open>InventoryReach\<close>, \<open>Portability\<close> and \<open>RoundTrip\<close> (\<open>portability.go\<close> of
    both packages, \<open>netbox.go\<close>), \<open>Policy\<close> (\<open>policy.go\<close> of both packages).
  \<^item> Scan pages: \<open>ScanForms\<close> (\<open>scans.go\<close>, \<open>internal/scanner/endpoint.go\<close>), \<open>ScanFormLaws\<close> (scope check, forms of stored
    schedules), \<open>ScanPages\<close> (what holds of every scan page).
  \<^item> Review pages: \<open>ReviewForms\<close> (\<open>discoveries.go\<close>), \<open>ReviewLaws\<close> (the proposals of missing subnets), \<open>ReviewReach\<close> (what holds of
    every page of the queue).
  \<^item> \<open>SiteReach\<close> composes the pages of accounts, inventory, scans and review, imports and scan writes into one step relation
    of an instance.

  \<^bold>\<open>How code becomes definitions.\<close>  A struct is a record, a Go \<open>string\<close> a list of bytes, \<open>int\<close> an \<open>int\<close> (wrapped to 64 bits where
  the code can overflow), a returned error the left of a sum, a panic a value of its own (\<open>Aborted\<close>, \<open>Panic\<close>).  A store
  operation is a function from the database to a result and a database.  One that is not a transaction returns the
  database it leaves beside an error; one that is a transaction leaves it unchanged.  A query sorts and filters the rows as its
  \<open>ORDER BY\<close> and \<open>WHERE\<close> say.  A handler maps a request and the state to the reply, the cookies, the audit entries
  and the new state.  Loops are structural recursion; where they are not (parsing
  loops of \<open>GoStrings\<close>, \<open>Netip\<close>, \<open>Csv\<close> and \<open>Settings\<close>) they have a termination proof, so no definition needs fuel.

  \<^bold>\<open>Parameters.\<close>  What is not under \<open>src/\<close> is an argument: the casts of PostgreSQL from text (record \<open>pg\<close>, with what is
  documented of them as \<open>pg_documented\<close>, instantiated by \<open>pg_netip\<close> in the witnesses) and to \<open>jsonb\<close>; argon2, SHA-256,
  HMAC and AES-GCM; time zones; random tokens and clocks; the run of \<open>nmap\<close> and the other scanners; the network call of the
  dispatcher; the order in which concurrent backends finish and a Go map is walked; \<open>url.Parse\<close>; \<open>Time.Format\<close>; and the floating-point product
  of \<open>time.ParseDuration\<close> for values with a fraction.

  \<^bold>\<open>Interfaces.\<close>  Locales state what one part relies on and are interpreted on the model's definitions where the provider
  is: \<open>range_table\<close> (a table whose keys are disjoint ranges; for the overlap tests of the store, of the import and of the policy
  check), \<open>account_frame\<close> and \<open>account_contract\<close> (a condition that the store's account operations keep is kept by every request; for the
  accounts invariant, for the existence of an administrator, and for tables the account pages do not touch), and those of
  the scan subsystem and the agent in their theories.

  \<^bold>\<open>What is proved.\<close>
  \<^item> Confinement: what a job scans lies in the allowlists of the job and of the agent, at enqueueing, at the trigger, in scheduled runs
    and inside the agent, also for its passes over hosts it discovered; the scope check equals its set-level specification.
  \<^item> Integrity: every sequence of store writes, and every sequence of requests, imports and scans of a whole instance, keeps
    disjoint subnets, keys, references and column ranges, the account invariants and those of custom fields.
  \<^item> Review: observations never change a decision or a managed record beyond its last-seen time; only a trusted agent's
    are imported automatically; imports and synchronisation fill in and place what the review asked for; the proposed
    subnets are the most specific ones that were scanned, exactly those that are missing, and creating one lets its hosts in.
  \<^item> Scheduling: a tick fires exactly the due schedules in their window; runs record their outcome and do not panic; windows
    are cyclic intervals and open again within a week; a schedule its form saved is admitted whenever it is due, and its form
    reads back what was stored.
  \<^item> Agent: merging refines a per-field specification and does not depend on the order of backends; the source-pinning plan partitions the targets.
  \<^item> Accounts: an administrator remains; sessions open only after authentication; viewers cannot write; throttling is exact;
    a password change ends other sessions; password hashes and settings survive storage; settings are in range.
  \<^item> Inventory: forms change records only for a valid session with its token and leave one audit entry; imports are all or
    nothing; export followed by import changes nothing; the policy checks report exactly what they should; custom fields read back.
  \<^item> Errors found on the way are theorems where they concern modelled code (a rejected result leaves its job running; a login
    whose second-factor lookup fails is let in).

  \<^bold>\<open>Bounds.\<close>  Address arithmetic is on words of 32 and 128 bits.  The scan budget is exact for per-host timeouts up to the bound its
  theorem states.  Times are nanoseconds since 1970 without bound.  Case folding is exact on ASCII.  The order of text
  columns is by bytes.

  \<^bold>\<open>Not modelled\<close>, and why: the dispatcher's HTTP and mutual TLS, certificates and their reload (\<open>crypto/x509\<close>, files); the SNMP,
  neighbour, name, DNS and DHCP scanners and the parsing of \<open>nmap\<close> output (sockets, packet formats, XML); deliveries of webhooks;
  the OIDC protocol (a third-party library); backups (\<open>pg_dump\<close>); configuration and the commands (environment, flags, sockets);
  rendering of pages, lists and confirmations, and the read-only JSON API (glue over modelled operations); text
  that PostgreSQL refuses as such (NUL bytes, invalid UTF-8), except in \<open>jsonb\<close>; concurrent transactions: operations are
  interleaved whole.
\<close>

end
